(* ===== verification/Go_Base.thy ===== *)
theory Go_Base
  imports Complex_Main "HOL-Library.Code_Target_Nat" "HOL-Library.Char_ord" "HOL-Library.List_Lexorder" "HOL-Library.Sublist"
begin

text \<open>
  The prelude of the development: the part of the Go language and of its standard library that the
  modelled files of \<^verbatim>\<open>src/backend/internal\<close> use.  A Go \<^verbatim>\<open>string\<close> is a byte sequence and is
  modelled as an Isabelle \<open>string\<close>, one \<open>char\<close> per byte, so UTF-8 text keeps its byte length.
  The functions below follow package \<^verbatim>\<open>strings\<close> (\<open>TrimSpace\<close>, \<open>Fields\<close>, \<open>Split\<close>,
  \<open>TrimPrefix\<close>, \<open>ReplaceAll\<close>, \<open>ToLower\<close>, \<open>Join\<close>), package \<^verbatim>\<open>strconv\<close> (\<open>Atoi\<close>,
  \<open>ParseUint\<close>, \<open>Itoa\<close>) and \<^verbatim>\<open>sort.Strings\<close>, which is \<open>sort\<close> at the byte-wise order of
  \<^verbatim>\<open>List_Lexorder\<close>.  The datatype \<open>goval\<close> is \<^verbatim>\<open>interface{}\<close> with the dynamic types the
  sources switch on; a Go map is an association list read with \<open>map_of\<close>, whose order
  stands for the order in which the runtime iterates.
\<close>

named_theorems go_string \<open>computation rules and basic facts of the Go string functions\<close>
named_theorems go_result \<open>case analysis of error results\<close>

section \<open>Errors as values\<close>

text \<open>A Go pair \<^verbatim>\<open>(value, err)\<close>: \<open>Inl\<close> is a non-nil error, \<open>Inr\<close> the value with a nil error.\<close>

definition res_bind :: "'e + 'a \<Rightarrow> ('a \<Rightarrow> 'e + 'b) \<Rightarrow> 'e + 'b" where
  "res_bind r f = (case r of Inl e \<Rightarrow> Inl e | Inr a \<Rightarrow> f a)"

lemma res_bind_simps [simp]: "res_bind (Inl e) f = Inl e" "res_bind (Inr a) f = f a"
  by (simp_all add: res_bind_def)

lemma res_bind_Inr [go_result]: "res_bind r f = Inr b \<longleftrightarrow> (\<exists>a. r = Inr a \<and> f a = Inr b)"
  by (cases r) simp_all

lemma res_bind_Inl [go_result]:
  "res_bind r f = Inl e \<longleftrightarrow> r = Inl e \<or> (\<exists>a. r = Inr a \<and> f a = Inl e)"
  by (cases r) auto

text \<open>A loop that applies a fallible step to a slice and stops at the first error.\<close>

fun res_fold :: "('s \<Rightarrow> 'a \<Rightarrow> 'e + 's) \<Rightarrow> 's \<Rightarrow> 'a list \<Rightarrow> 'e + 's" where
  "res_fold f s [] = Inr s"
| "res_fold f s (x # xs) = res_bind (f s x) (\<lambda>s'. res_fold f s' xs)"

lemma res_fold_invariant:
  assumes "res_fold f s xs = Inr t" and "P s"
    and "\<And>s x s'. x \<in> set xs \<Longrightarrow> P s \<Longrightarrow> f s x = Inr s' \<Longrightarrow> P s'"
  shows "P t"
  using assms
proof (induction xs arbitrary: s)
  case Nil
  then show ?case by simp
next
  case (Cons x xs)
  then obtain s' where "f s x = Inr s'" and "res_fold f s' xs = Inr t"
    by (auto simp: go_result)
  with Cons show ?case by (metis list.set_intros)
qed

section \<open>Dynamic values\<close>

datatype goval =
    VNil
  | VBool bool
  | VInt int
  | VFloat rat
  | VStr string
  | VStrList "string list"
  | VList "goval list"
  | VMap "(string \<times> goval) list"
  | VMapList "(string \<times> goval) list list"
  | VStrMap "(string \<times> string) list"
  | VStrMapList "(string \<times> string) list list"

type_synonym gomap = "(string \<times> goval) list"

text \<open>Reading a missing key of a Go map gives the zero value, \<^verbatim>\<open>nil\<close> for an interface.\<close>

definition map_get :: "gomap \<Rightarrow> string \<Rightarrow> goval" where
  "map_get m k = (case map_of m k of None \<Rightarrow> VNil | Some v \<Rightarrow> v)"

text \<open>\<^verbatim>\<open>s, _ := v.(string)\<close>: the empty string when the dynamic type is not a string.\<close>

fun as_string :: "goval \<Rightarrow> string" where
  "as_string (VStr s) = s"
| "as_string _ = []"

text \<open>\<^verbatim>\<open>m, ok := v.(map[string]interface{})\<close> and \<^verbatim>\<open>xs, ok := v.([]interface{})\<close>.\<close>

fun as_map :: "goval \<Rightarrow> gomap option" where
  "as_map (VMap m) = Some m"
| "as_map _ = None"

fun as_list :: "goval \<Rightarrow> goval list option" where
  "as_list (VList xs) = Some xs"
| "as_list _ = None"

lemma as_map_Some: "as_map v = Some m \<longleftrightarrow> v = VMap m"
  by (cases v) auto

lemma as_list_Some: "as_list v = Some xs \<longleftrightarrow> v = VList xs"
  by (cases v) auto

text \<open>\<^verbatim>\<open>m[k] = v\<close> and \<^verbatim>\<open>delete(m, k)\<close>.\<close>

fun map_put :: "'k \<Rightarrow> 'v \<Rightarrow> ('k \<times> 'v) list \<Rightarrow> ('k \<times> 'v) list" where
  "map_put k v [] = [(k, v)]"
| "map_put k v ((k', v') # m) = (if k = k' then (k, v) # m else (k', v') # map_put k v m)"

definition map_del :: "'k \<Rightarrow> ('k \<times> 'v) list \<Rightarrow> ('k \<times> 'v) list" where
  "map_del k m = filter (\<lambda>p. fst p \<noteq> k) m"

definition has_key :: "('k \<times> 'v) list \<Rightarrow> 'k \<Rightarrow> bool" where
  "has_key m k \<longleftrightarrow> map_of m k \<noteq> None"

lemma map_of_map_put [simp]: "map_of (map_put k v m) = (map_of m)(k \<mapsto> v)"
  by (induction m) auto

lemma map_of_map_del [simp]: "map_of (map_del k m) = (map_of m)(k := None)"
  by (induction m) (auto simp: map_del_def)

lemma map_get_put [simp]: "map_get (map_put k v m) k' = (if k' = k then v else map_get m k')"
  by (simp add: map_get_def)

lemma map_get_del [simp]: "map_get (map_del k m) k' = (if k' = k then VNil else map_get m k')"
  by (simp add: map_get_def)

lemma map_of_keyed: "map_of (map (\<lambda>k. (k, f k)) ks) k = (if k \<in> set ks then Some (f k) else None)"
  by (induction ks) auto

lemma has_key_iff: "has_key m k \<longleftrightarrow> k \<in> fst ` set m"
  by (metis domIff dom_map_of_conv_image_fst has_key_def)

lemma map_put_fresh: "\<not> has_key m k \<Longrightarrow> map_put k v m = m @ [(k, v)]"
  by (induction m) (auto simp: has_key_def split: if_splits)

lemma fst_map_put: "fst ` set (map_put k v m) = insert k (fst ` set m)"
  by (metis dom_fun_upd dom_map_of_conv_image_fst map_of_map_put option.distinct(1))

lemma distinct_map_put: "distinct (map fst m) \<Longrightarrow> distinct (map fst (map_put k v m))"
  by (induction m) (auto simp: fst_map_put)

lemma map_put_same: "map_of m k = Some v \<Longrightarrow> map_put k v m = m"
  by (induction m) (auto split: if_splits)

lemma map_get_Some: "map_get m k = v \<Longrightarrow> v \<noteq> VNil \<Longrightarrow> map_of m k = Some v"
  by (simp add: map_get_def split: option.splits)

lemma map_del_absent: "\<not> has_key m k \<Longrightarrow> map_del k m = m"
  by (auto simp: has_key_iff map_del_def filter_id_conv)

lemma has_key_put [simp]: "has_key (map_put k v m) k' \<longleftrightarrow> k' = k \<or> has_key m k'"
  by (simp add: has_key_def)

lemma has_key_del [simp]: "has_key (map_del k m) k' \<longleftrightarrow> k' \<noteq> k \<and> has_key m k'"
  by (simp add: has_key_def)

lemma has_key_get: "map_get m k \<noteq> VNil \<Longrightarrow> has_key m k"
  by (auto simp: map_get_def has_key_def split: option.splits)

section \<open>White space, \<open>TrimSpace\<close> and \<open>Fields\<close>\<close>

text \<open>
  The UTF-8 encodings of the runes for which \<^verbatim>\<open>unicode.IsSpace\<close> holds: the ASCII blanks, U+0085,
  U+00A0, U+1680, U+2000 to U+200A, U+2028, U+2029, U+202F, U+205F and U+3000.  Their first bytes
  are never UTF-8 continuation bytes, so looking for them byte by byte agrees with decoding
  runes, on malformed input too.
\<close>

definition space_encodings :: "string list" where
  "space_encodings =
     [[CHR 0x20], [CHR 0x09], [CHR 0x0A], [CHR 0x0B], [CHR 0x0C], [CHR 0x0D],
      [CHR 0xC2, CHR 0x85], [CHR 0xC2, CHR 0xA0], [CHR 0xE1, CHR 0x9A, CHR 0x80],
      [CHR 0xE2, CHR 0x80, CHR 0x80], [CHR 0xE2, CHR 0x80, CHR 0x81], [CHR 0xE2, CHR 0x80, CHR 0x82],
      [CHR 0xE2, CHR 0x80, CHR 0x83], [CHR 0xE2, CHR 0x80, CHR 0x84], [CHR 0xE2, CHR 0x80, CHR 0x85],
      [CHR 0xE2, CHR 0x80, CHR 0x86], [CHR 0xE2, CHR 0x80, CHR 0x87], [CHR 0xE2, CHR 0x80, CHR 0x88],
      [CHR 0xE2, CHR 0x80, CHR 0x89], [CHR 0xE2, CHR 0x80, CHR 0x8A], [CHR 0xE2, CHR 0x80, CHR 0xA8],
      [CHR 0xE2, CHR 0x80, CHR 0xA9], [CHR 0xE2, CHR 0x80, CHR 0xAF], [CHR 0xE2, CHR 0x81, CHR 0x9F],
      [CHR 0xE3, CHR 0x80, CHR 0x80]]"

text \<open>The length of the first of the encodings \<open>es\<close> that starts \<open>s\<close>, 0 when none does.\<close>

fun lead_len :: "string list \<Rightarrow> string \<Rightarrow> nat" where
  "lead_len [] s = 0"
| "lead_len (e # es) s = (if prefix e s \<and> e \<noteq> [] then length e else lead_len es s)"

lemma lead_len_le: "lead_len es s \<le> length s"
  by (induction es) (auto simp: prefix_length_le)

function strip_front :: "string list \<Rightarrow> string \<Rightarrow> string" where
  "strip_front es s =
     (let k = lead_len es s in if k = 0 then s else strip_front es (drop k s))"
  by pat_completeness auto
termination
proof (relation "measure (\<lambda>(es, s). length s)", goal_cases)
  case 1
  show ?case by simp
next
  case (2 es s k)
  with lead_len_le [of es s] show ?case by auto
qed

declare strip_front.simps [simp del]

definition TrimSpace :: "string \<Rightarrow> string" where
  "TrimSpace s =
     rev (strip_front (map rev space_encodings) (rev (strip_front space_encodings s)))"

lemma strip_front_done: "lead_len es (strip_front es s) = 0"
proof (induction es s rule: strip_front.induct)
  case (1 es s)
  then show ?case by (subst strip_front.simps) (auto simp: Let_def)
qed

lemma strip_front_id: "lead_len es s = 0 \<Longrightarrow> strip_front es s = s"
  by (subst strip_front.simps) simp

lemma strip_front_suffix: "suffix (strip_front es s) s"
proof (induction es s rule: strip_front.induct)
  case (1 es s)
  show ?case
  proof (cases "lead_len es s = 0")
    case True
    then show ?thesis by (simp add: strip_front_id)
  next
    case False
    with 1 have "suffix (strip_front es (drop (lead_len es s) s)) (drop (lead_len es s) s)"
      by simp
    then have "suffix (strip_front es (drop (lead_len es s) s)) s"
      using suffix_drop suffix_order.trans by blast
    with False show ?thesis by (subst strip_front.simps) simp
  qed
qed

lemma lead_len_prefix: "prefix t s \<Longrightarrow> lead_len es s = 0 \<Longrightarrow> lead_len es t = 0"
  by (induction es) (auto split: if_splits intro: prefix_order.trans)

text \<open>Trimming twice is trimming once: the middle part keeps no blank at either end.\<close>

lemma TrimSpace_idem [simp]: "TrimSpace (TrimSpace s) = TrimSpace s"
proof -
  define a where "a = strip_front space_encodings s"
  define b where "b = strip_front (map rev space_encodings) (rev a)"
  have "prefix (rev b) a"
    using strip_front_suffix [of "map rev space_encodings" "rev a"]
    by (simp add: b_def suffix_to_prefix)
  then have "lead_len space_encodings (rev b) = 0"
    by (rule lead_len_prefix) (simp add: a_def strip_front_done)
  moreover have "lead_len (map rev space_encodings) b = 0"
    by (simp add: b_def strip_front_done)
  ultimately show ?thesis
    by (simp add: TrimSpace_def a_def [symmetric] b_def [symmetric] strip_front_id)
qed

text \<open>\<^verbatim>\<open>strings.Fields\<close>: \<open>cur\<close> holds the current field in reverse.\<close>

function fields_from :: "string \<Rightarrow> string \<Rightarrow> string list" where
  "fields_from cur [] = (if cur = [] then [] else [rev cur])"
| "fields_from cur (c # s) =
     (let k = lead_len space_encodings (c # s) in
      if k = 0 then fields_from (c # cur) s
      else (if cur = [] then [] else [rev cur]) @ fields_from [] (drop k (c # s)))"
  by pat_completeness auto
termination
proof (relation "measure (\<lambda>(cur, s). length s)", goal_cases)
  case 1
  show ?case by simp
next
  case (2 cur c s k)
  then show ?case by simp
next
  case (3 cur c s k)
  then show ?case by (cases k) auto
qed

definition Fields :: "string \<Rightarrow> string list" where
  "Fields s = fields_from [] s"

lemma Fields_nonempty: "f \<in> set (Fields s) \<Longrightarrow> f \<noteq> []"
proof -
  have "f \<in> set (fields_from cur s) \<Longrightarrow> f \<noteq> []" for cur
    by (induction cur s rule: fields_from.induct) (auto simp: Let_def split: if_splits)
  then show "f \<in> set (Fields s) \<Longrightarrow> f \<noteq> []" by (simp add: Fields_def)
qed

text \<open>A string in which no white-space rune starts anywhere.\<close>

fun no_space :: "string \<Rightarrow> bool" where
  "no_space [] = True"
| "no_space (c # s) \<longleftrightarrow> lead_len space_encodings (c # s) = 0 \<and> no_space s"

lemma lead_len_mem: "e \<in> set es \<Longrightarrow> e \<noteq> [] \<Longrightarrow> prefix e s \<Longrightarrow> lead_len es s \<noteq> 0"
  by (induction es) auto

lemma lead_len_pos: "lead_len es s \<noteq> 0 \<Longrightarrow> \<exists>e\<in>set es. e \<noteq> [] \<and> prefix e s"
  by (induction es) (auto split: if_splits)

lemma no_space_suffix: "no_space s \<Longrightarrow> suffix t s \<Longrightarrow> t \<noteq> [] \<Longrightarrow> lead_len space_encodings t = 0"
  by (induction s) (auto simp: suffix_Cons)

lemma no_space_TrimSpace: "no_space s \<Longrightarrow> TrimSpace s = s"
proof -
  assume s: "no_space s"
  have front: "lead_len space_encodings s = 0"
    using s by (cases s) (auto simp: space_encodings_def)
  have ends: "lead_len (map rev space_encodings) (rev s) = 0"
  proof (rule ccontr)
    assume "\<not> ?thesis"
    then obtain e where e: "e \<in> set space_encodings" "e \<noteq> []" "prefix (rev e) (rev s)"
      using lead_len_pos by fastforce
    then have "suffix e s" by (simp add: suffix_to_prefix)
    then have "lead_len space_encodings e = 0" by (rule no_space_suffix [OF s _ e(2)])
    with e(1,2) show False by (auto dest: lead_len_mem [where s = e])
  qed
  from front ends show ?thesis by (simp add: TrimSpace_def strip_front_id)
qed

lemma Fields_no_space: "f \<in> set (Fields s) \<Longrightarrow> no_space f"
proof -
  have "f \<in> set (fields_from cur s) \<Longrightarrow> (\<And>t. prefix t s \<Longrightarrow> no_space (rev cur @ t) \<or> \<not> no_space t) \<Longrightarrow> no_space f" for cur
  proof (induction cur s rule: fields_from.induct)
    case (1 cur)
    then show ?case by (auto split: if_splits)
  next
    case (2 cur c s)
    show ?case
    proof (cases "lead_len space_encodings (c # s) = 0")
      case True
      have "no_space (rev (c # cur) @ t) \<or> \<not> no_space t" if "prefix t s" for t
      proof -
        have "lead_len space_encodings (c # t) = 0"
          by (rule lead_len_prefix [OF _ True]) (use that in simp)
        then show ?thesis using "2.prems"(2) [of "c # t"] that by auto
      qed
      with True "2.prems"(1) "2.IH"(1) show ?thesis by simp
    next
      case False
      then consider "cur \<noteq> []" "f = rev cur" | "f \<in> set (fields_from [] (drop (lead_len space_encodings (c # s)) (c # s)))"
        using "2.prems"(1) by (auto simp: Let_def split: if_splits)
      then show ?thesis
      proof cases
        case 1
        with "2.prems"(2) [of "[]"] show ?thesis by simp
      next
        case 2
        with False "2.IH"(2) show ?thesis by simp
      qed
    qed
  qed
  from this [of "[]"] show "f \<in> set (Fields s) \<Longrightarrow> no_space f" by (auto simp: Fields_def)
qed

section \<open>Splitting and joining\<close>

text \<open>\<^verbatim>\<open>strings.Split\<close> at one separator byte: always at least one part.\<close>

fun split_char :: "char \<Rightarrow> string \<Rightarrow> string list" where
  "split_char sep [] = [[]]"
| "split_char sep (c # s) =
     (if c = sep then [] # split_char sep s
      else (case split_char sep s of [] \<Rightarrow> [[c]] | p # ps \<Rightarrow> (c # p) # ps))"

fun join_with :: "string \<Rightarrow> string list \<Rightarrow> string" where
  "join_with sep [] = []"
| "join_with sep [s] = s"
| "join_with sep (s # t # ts) = s @ sep @ join_with sep (t # ts)"

lemma split_char_ne [simp]: "split_char sep s \<noteq> []"
  by (induction s) (auto split: list.splits)

lemma join_split_char: "join_with [sep] (split_char sep s) = s"
proof (induction s)
  case Nil
  then show ?case by simp
next
  case (Cons c s)
  obtain p ps where ps: "split_char sep s = p # ps"
    by (meson neq_Nil_conv split_char_ne)
  with Cons show ?case by (cases ps) auto
qed

text \<open>\<^verbatim>\<open>strings.SplitN(s, sep, 2)\<close>: the part before the first separator, and the rest if there is one.\<close>

definition split_once :: "char \<Rightarrow> string \<Rightarrow> string \<times> string option" where
  "split_once sep s =
     (case dropWhile (\<lambda>c. c \<noteq> sep) s of
        [] \<Rightarrow> (s, None)
      | _ # rest \<Rightarrow> (takeWhile (\<lambda>c. c \<noteq> sep) s, Some rest))"

lemma split_once_word: "sep \<notin> set s \<Longrightarrow> split_once sep (s @ sep # t) = (s, Some t)"
proof -
  assume "sep \<notin> set s"
  then have "dropWhile (\<lambda>c. c \<noteq> sep) (s @ sep # t) = sep # t" "takeWhile (\<lambda>c. c \<noteq> sep) (s @ sep # t) = s"
    by (induction s) auto
  then show ?thesis by (simp add: split_once_def)
qed

definition TrimPrefix :: "string \<Rightarrow> string \<Rightarrow> string" where
  "TrimPrefix s p = (if prefix p s then drop (length p) s else s)"

definition TrimSuffix :: "string \<Rightarrow> string \<Rightarrow> string" where
  "TrimSuffix s p = (if suffix p s then take (length s - length p) s else s)"

text \<open>\<^verbatim>\<open>strings.Contains\<close>.\<close>

definition contains_str :: "string \<Rightarrow> string \<Rightarrow> bool" where
  "contains_str s sub \<longleftrightarrow> sublist sub s"

section \<open>Replacement and case\<close>

text \<open>\<^verbatim>\<open>strings.ReplaceAll(s, old, new)\<close> for a non-empty \<open>old\<close>: left to right, without overlap.\<close>

function replace_all :: "string \<Rightarrow> string \<Rightarrow> string \<Rightarrow> string" where
  "replace_all [] old new = []"
| "replace_all (c # s) old new =
     (if old \<noteq> [] \<and> prefix old (c # s)
      then new @ replace_all (drop (length old) (c # s)) old new
      else c # replace_all s old new)"
  by pat_completeness auto
termination
proof (relation "measure (\<lambda>(s, old, new). length s)", goal_cases)
  case 1
  show ?case by simp
next
  case (2 c s old new)
  then show ?case by (cases old) auto
next
  case (3 c s old new)
  then show ?case by simp
qed

definition lower_byte :: "char \<Rightarrow> char" where
  "lower_byte c = (if CHR ''A'' \<le> c \<and> c \<le> CHR ''Z'' then char_of (of_char c + 32 :: nat) else c)"

text \<open>
  \<^verbatim>\<open>strings.ToLower\<close> on the ASCII letters and on the two other runes whose lower case is ASCII
  (U+212A, the Kelvin sign, and U+0130).  Upper-case letters outside ASCII with a lower case outside
  ASCII are left as they are: they decide no comparison with an ASCII literal.
\<close>

fun ToLower :: "string \<Rightarrow> string" where
  "ToLower [] = []"
| "ToLower (c # s) =
     (if c = CHR 0xC4 \<and> prefix [CHR 0xB0] s then CHR ''i'' # ToLower (tl s)
      else if c = CHR 0xE2 \<and> prefix [CHR 0x84, CHR 0xAA] s then CHR ''k'' # ToLower (tl (tl s))
      else lower_byte c # ToLower s)"

declare ToLower.simps [simp del]

text \<open>
  \<^verbatim>\<open>strings.EqualFold\<close> under simple folding of the ASCII letters and of the two other runes that fold
  to one (U+212A, the Kelvin sign, and U+017F, the long s); all other bytes are compared as they are.
\<close>

fun fold_case :: "string \<Rightarrow> string" where
  "fold_case [] = []"
| "fold_case (c # s) =
     (if c = CHR 0xC5 \<and> prefix [CHR 0xBF] s then CHR ''s'' # fold_case (tl s)
      else if c = CHR 0xE2 \<and> prefix [CHR 0x84, CHR 0xAA] s then CHR ''k'' # fold_case (tl (tl s))
      else lower_byte c # fold_case s)"

declare fold_case.simps [simp del]

definition EqualFold :: "string \<Rightarrow> string \<Rightarrow> bool" where
  "EqualFold s t \<longleftrightarrow> fold_case s = fold_case t"

lemma EqualFold_refl [simp]: "EqualFold s s"
  by (simp add: EqualFold_def)

section \<open>Numbers\<close>

text \<open>
  The conversion \<^verbatim>\<open>int(v)\<close> of a \<^verbatim>\<open>float64\<close>: truncation towards zero; out of range, the value the
  64-bit x86 instruction gives.
\<close>

definition float_int :: "rat \<Rightarrow> int" where
  "float_int r =
     (let i = (if 0 \<le> r then \<lfloor>r\<rfloor> else \<lceil>r\<rceil>)
      in if - (2 ^ 63) \<le> i \<and> i < 2 ^ 63 then i else - (2 ^ 63))"


definition is_digit :: "char \<Rightarrow> bool" where
  "is_digit c \<longleftrightarrow> CHR ''0'' \<le> c \<and> c \<le> CHR ''9''"

definition digit_val :: "char \<Rightarrow> nat" where
  "digit_val c = of_char c - 48"

definition digits_val :: "string \<Rightarrow> nat" where
  "digits_val s = foldl (\<lambda>n c. 10 * n + digit_val c) 0 s"

text \<open>\<^verbatim>\<open>strconv.ParseUint(s, 10, bits)\<close>: \<open>None\<close> for a syntax or range error.\<close>

definition ParseUint :: "string \<Rightarrow> nat \<Rightarrow> nat option" where
  "ParseUint s bits =
     (if s \<noteq> [] \<and> list_all is_digit s \<and> int (digits_val s) < 2 ^ bits then Some (digits_val s) else None)"

text \<open>
  \<^verbatim>\<open>strconv.Atoi\<close> on a 64-bit platform: the value (0 on a syntax error, the nearest bound on a
  range error) and whether the error is nil.
\<close>

definition Atoi :: "string \<Rightarrow> int \<times> bool" where
  "Atoi s =
     (let neg = prefix ''-'' s;
          ds = (if prefix ''-'' s \<or> prefix ''+'' s then tl s else s);
          v = (if neg then - int (digits_val ds) else int (digits_val ds))
      in if ds = [] \<or> \<not> list_all is_digit ds then (0, False)
         else if v < - (2 ^ 63) then (- (2 ^ 63), False)
         else if 2 ^ 63 \<le> v then (2 ^ 63 - 1, False)
         else (v, True))"

text \<open>\<^verbatim>\<open>%d\<close> of a non-negative integer.\<close>

fun show_nat :: "nat \<Rightarrow> string" where
  "show_nat n =
     (if n < 10 then [char_of (48 + n)] else show_nat (n div 10) @ [char_of (48 + n mod 10)])"

declare show_nat.simps [simp del]

definition show_int :: "int \<Rightarrow> string" where
  "show_int i = (if i < 0 then CHR ''-'' # show_nat (nat (- i)) else show_nat (nat i))"

lemma digit_val_char_of [simp]: "n < 10 \<Longrightarrow> digit_val (char_of (48 + n)) = n"
  by (simp add: digit_val_def)

lemma digits_val_show_nat [simp]: "digits_val (show_nat n) = n"
proof (induction n rule: show_nat.induct)
  case (1 n)
  show ?case
  proof (cases "n < 10")
    case True
    then show ?thesis by (subst show_nat.simps) (simp add: digits_val_def)
  next
    case False
    with 1 have "digits_val (show_nat (n div 10)) = n div 10" by simp
    with False show ?thesis by (subst show_nat.simps) (simp add: digits_val_def)
  qed
qed

lemma show_nat_inject [simp]: "show_nat m = show_nat n \<longleftrightarrow> m = n"
  by (metis digits_val_show_nat)

lemma show_nat_digits: "list_all is_digit (show_nat n)"
proof (induction n rule: show_nat.induct)
  case (1 n)
  have d: "is_digit (char_of (48 + k))" if "k < 10" for k :: nat
    using that by (simp add: is_digit_def less_eq_char_def)
  show ?case
  proof (cases "n < 10")
    case True
    with d show ?thesis by (subst show_nat.simps) simp
  next
    case False
    with 1 d [of "n mod 10"] show ?thesis by (subst show_nat.simps) simp
  qed
qed

lemma show_nat_ne [simp]: "show_nat n \<noteq> []"
  by (subst show_nat.simps) simp

lemma ParseUint_show_nat: "int n < 2 ^ bits \<Longrightarrow> ParseUint (show_nat n) bits = Some n"
  by (simp add: ParseUint_def show_nat_digits)

section \<open>Slices used as sets\<close>

text \<open>
  The idiom \<^verbatim>\<open>if tag == "" || seen[tag] { continue }; seen[tag] = true; out = append(out, tag)\<close>:
  the first occurrences of the non-empty strings, in order.
\<close>

fun uniq_from :: "'a list \<Rightarrow> 'a list \<Rightarrow> 'a list" where
  "uniq_from acc [] = acc"
| "uniq_from acc (x # xs) = (if x \<in> set acc then uniq_from acc xs else uniq_from (acc @ [x]) xs)"

lemma set_uniq_from [simp]: "set (uniq_from acc xs) = set acc \<union> set xs"
  by (induction acc xs rule: uniq_from.induct) auto

lemma distinct_uniq_from: "distinct acc \<Longrightarrow> distinct (uniq_from acc xs)"
  by (induction acc xs rule: uniq_from.induct) auto

lemma uniq_from_distinct: "distinct (acc @ xs) \<Longrightarrow> uniq_from acc xs = acc @ xs"
  by (induction acc xs rule: uniq_from.induct) auto

lemma prefix_uniq_from: "prefix acc (uniq_from acc xs)"
  by (induction acc xs rule: uniq_from.induct) (auto dest: append_prefixD)

section \<open>Printing and reading back\<close>

lemma space_encodings_inner: "e \<in> set space_encodings \<Longrightarrow> CHR 0x20 \<notin> set (tl e)"
  by (auto simp: space_encodings_def)

lemma lead_len_before_space:
  assumes "lead_len space_encodings (c # f) = 0"
  shows "lead_len space_encodings (c # f @ CHR 0x20 # s) = 0"
proof (rule ccontr)
  assume "\<not> ?thesis"
  then obtain e where e: "e \<in> set space_encodings" "e \<noteq> []" "prefix e ((c # f) @ CHR 0x20 # s)"
    using lead_len_pos by fastforce
  have "\<not> prefix e (c # f)" using e assms lead_len_mem by blast
  with e(3) obtain r where "e = (c # f) @ r" "r \<noteq> []" "prefix r (CHR 0x20 # s)"
    using prefix_append [of e "c # f" "CHR 0x20 # s"] by fastforce
  then have "CHR 0x20 \<in> set (tl e)" by (cases r) auto
  with space_encodings_inner [OF e(1)] show False by simp
qed

lemma lead_len_blank [simp]: "lead_len space_encodings (CHR 0x20 # s) = 1"
  by (simp add: space_encodings_def)

lemma fields_from_word:
  "no_space f \<Longrightarrow> rev cur @ f \<noteq> [] \<Longrightarrow> fields_from cur (f @ CHR 0x20 # s) = (rev cur @ f) # fields_from [] s"
  by (induction f arbitrary: cur) (auto simp: lead_len_before_space)

lemma fields_from_last:
  "no_space f \<Longrightarrow> rev cur @ f \<noteq> [] \<Longrightarrow> fields_from cur f = [rev cur @ f]"
  by (induction f arbitrary: cur) auto

lemma Fields_join:
  "list_all (\<lambda>f. f \<noteq> [] \<and> no_space f) fs \<Longrightarrow> Fields (join_with '' '' fs) = fs"
proof (induction "'' ''" fs rule: join_with.induct)
  case (3 s t ts)
  then show ?case using fields_from_word [of s "[]"] by (simp add: Fields_def)
qed (auto simp: Fields_def fields_from_last)

lemma split_char_none: "sep \<notin> set s \<Longrightarrow> split_char sep s = [s]"
  by (induction s) auto

lemma split_char_word: "sep \<notin> set s \<Longrightarrow> split_char sep (s @ sep # t) = s # split_char sep t"
  by (induction s) auto

lemma split_char_join:
  "ls \<noteq> [] \<Longrightarrow> list_all (\<lambda>l. sep \<notin> set l) ls \<Longrightarrow> split_char sep (join_with [sep] ls) = ls"
  by (induction "[sep]" ls rule: join_with.induct) (auto simp: split_char_none split_char_word)

lemma Atoi_show_nat: "int n < 2 ^ 63 \<Longrightarrow> Atoi (show_nat n) = (int n, True)"
proof -
  assume n: "int n < 2 ^ 63"
  obtain c s where cs: "show_nat n = c # s" by (cases "show_nat n") auto
  with show_nat_digits [of n] have "is_digit c" by simp
  then have "c \<noteq> CHR ''-''" "c \<noteq> CHR ''+''" by (auto simp: is_digit_def)
  then have "\<not> prefix ''-'' (show_nat n)" "\<not> prefix ''+'' (show_nat n)" by (auto simp: cs)
  with n show ?thesis by (simp add: Atoi_def show_nat_digits)
qed

lemma set_join: "set (join_with sep ls) \<subseteq> set sep \<union> \<Union> (set ` set ls)"
  by (induction sep ls rule: join_with.induct) auto

lemma takeWhile_digits: "list_all is_digit ds \<Longrightarrow> \<not> is_digit c \<Longrightarrow> takeWhile is_digit (ds @ c # r) = ds"
  by (induction ds) auto

lemma dropWhile_digits: "list_all is_digit ds \<Longrightarrow> \<not> is_digit c \<Longrightarrow> dropWhile is_digit (ds @ c # r) = c # r"
  by (induction ds) auto

lemma no_space_plain:
  assumes "set s \<inter> set (map hd space_encodings) = {}"
  shows "no_space s"
  using assms
proof (induction s)
  case Nil
  then show ?case by simp
next
  case (Cons c s)
  have "lead_len space_encodings (c # s) = 0"
  proof (rule ccontr)
    assume "\<not> ?thesis"
    then obtain e where e: "e \<in> set space_encodings" "e \<noteq> []" "prefix e (c # s)" using lead_len_pos by blast
    from e(2,3) have "c = hd e" by (cases e rule: list.exhaust) auto
    with e(1) Cons.prems show False by simp
  qed
  with Cons show ?case by simp
qed

lemma no_space_digits: "list_all is_digit s \<Longrightarrow> no_space s"
  by (rule no_space_plain) (auto simp: list_all_iff space_encodings_def is_digit_def)

lemma Atoi_bound: "Atoi s = (v, True) \<Longrightarrow> v < 2 ^ 63"
  by (auto simp: Atoi_def Let_def split: if_splits)

lemma Atoi_show_int: "0 \<le> v \<Longrightarrow> v < 2 ^ 63 \<Longrightarrow> Atoi (TrimSpace (show_int v)) = (v, True)"
  using Atoi_show_nat [of "nat v"] by (simp add: show_int_def no_space_TrimSpace no_space_digits show_nat_digits)

end
