(* ===== verification/Network_Ownership.thy ===== *)
theory Network_Ownership
  imports Go_Base
begin

text \<open>
  Ownership of the kernel network resources that a running sing-box leaves behind
  (\<^verbatim>\<open>src/backend/internal/service/singbox_cleanup.go\<close>): policy rules, priority-1 route tables and
  the nftables table.  Before the core starts, a baseline is recorded as a \<^emph>\<open>pending\<close> state; once
  the core is up, the resources it added are derived from fresh snapshots and promoted to a
  \<^emph>\<open>ready\<close> state, and only what a ready state records may be deleted later.  The theory models
  the snapshots and their parsers, the normalisation of the persisted state, the derivation, the
  deletion guards and the state file with its atomic replacement and rollback.
\<close>

section \<open>State and managed rules\<close>

definition singboxRouteTable :: string where
  "singboxRouteTable = ''2022''"

definition singboxRouteTableStateVersion :: int where
  "singboxRouteTableStateVersion = 2"

definition singboxOwnershipPending :: string where
  "singboxOwnershipPending = ''pending''"

definition singboxOwnershipReady :: string where
  "singboxOwnershipReady = ''ready''"

record singboxRouteTableState =
  Version :: int
  Phase :: string
  ExpectIPv4 :: bool
  ExpectIPv6 :: bool
  NFTTableAbsent :: bool
  BaselineIPv4Tables :: "string list"
  BaselineIPv6Tables :: "string list"
  BaselineIPv4Rules :: "string list"
  BaselineIPv6Rules :: "string list"
  IPv4Tables :: "string list"
  IPv6Tables :: "string list"
  NFTTableHandle :: string
  NFTIncludeIdentity :: string
  IPv4Rules :: "string list"
  IPv6Rules :: "string list"

record platformNetworkBaseline =
  base_Required :: bool
  base_IPv4Tables :: "string list"
  base_IPv6Tables :: "string list"
  base_IPv4Rules :: "string list"
  base_IPv6Rules :: "string list"
  base_ExpectIPv4 :: bool
  base_ExpectIPv6 :: bool
  base_NFTTableAbsent :: bool

record managedIPRuleSpec =
  spec_id :: string
  spec_priority :: int
  spec_line :: string
  spec_delete :: "string list"

definition managedIPRuleSpecs :: "managedIPRuleSpec list" where
  "managedIPRuleSpecs =
    [\<lparr>spec_id = ''output_mark'', spec_priority = 9000, spec_line = ''from all fwmark 0x2024 goto 9002'',
      spec_delete = [''rule'', ''del'', ''priority'', ''9000'', ''from'', ''all'', ''fwmark'', ''0x2024'', ''goto'', ''9002'']\<rparr>,
     \<lparr>spec_id = ''input_mark'', spec_priority = 9001, spec_line = ''from all fwmark 0x2023 lookup 2022'',
      spec_delete = [''rule'', ''del'', ''priority'', ''9001'', ''from'', ''all'', ''fwmark'', ''0x2023'', ''lookup'', singboxRouteTable]\<rparr>,
     \<lparr>spec_id = ''redirect_nop'', spec_priority = 9002, spec_line = ''from all nop'',
      spec_delete = [''rule'', ''del'', ''priority'', ''9002'', ''from'', ''all'', ''type'', ''nop'']\<rparr>,
     \<lparr>spec_id = ''fallback'', spec_priority = 32768, spec_line = ''from all lookup 2022'',
      spec_delete = [''rule'', ''del'', ''priority'', ''32768'', ''from'', ''all'', ''lookup'', singboxRouteTable]\<rparr>,
     \<lparr>spec_id = ''fallback_inverted'', spec_priority = 32768, spec_line = ''not from all fwmark 0x2024 lookup 2022'',
      spec_delete = [''rule'', ''del'', ''priority'', ''32768'', ''not'', ''from'', ''all'', ''fwmark'', ''0x2024'', ''lookup'', singboxRouteTable]\<rparr>,
     \<lparr>spec_id = ''output_mark_masked'', spec_priority = 9000, spec_line = ''from all fwmark 0x2024/0x2027 goto 9002'',
      spec_delete = [''rule'', ''del'', ''priority'', ''9000'', ''from'', ''all'', ''fwmark'', ''0x2024/0x2027'', ''goto'', ''9002'']\<rparr>,
     \<lparr>spec_id = ''input_mark_masked'', spec_priority = 9001, spec_line = ''from all fwmark 0x2023/0x2027 lookup 2022'',
      spec_delete = [''rule'', ''del'', ''priority'', ''9001'', ''from'', ''all'', ''fwmark'', ''0x2023/0x2027'', ''lookup'', singboxRouteTable]\<rparr>,
     \<lparr>spec_id = ''fallback_masked'', spec_priority = 32768, spec_line = ''not from all fwmark 0x2024/0x2027 lookup 2022'',
      spec_delete = [''rule'', ''del'', ''priority'', ''32768'', ''not'', ''from'', ''all'', ''fwmark'', ''0x2024/0x2027'', ''lookup'', singboxRouteTable]\<rparr>]"

definition managedIPRuleProfiles :: "string list list" where
  "managedIPRuleProfiles =
    [[''output_mark'', ''input_mark'', ''redirect_nop'', ''fallback''],
     [''output_mark'', ''input_mark'', ''redirect_nop'', ''fallback_inverted''],
     [''output_mark_masked'', ''input_mark_masked'', ''redirect_nop'', ''fallback_masked'']]"

text \<open>The error returns of the file, one constructor per message, with the values it prints.\<close>

datatype ownership_error =
    UnsupportedVersion int
  | InvalidPhase string
  | NoExpectedFamily
  | NFTNamespaceNotAbsent
  | InvalidRouteTableID string
  | InvalidNFTTableHandle string
  | InvalidManagedRuleID string
  | UnexpectedIPv4Resources
  | UnexpectedIPv6Resources
  | PendingHasReadyResources
  | OverlapsBaseline
  | NoNFTTableHandle
  | IncompleteIPv4Resources
  | IncompleteIPv6Resources
  | RulePriorityReplaced int
  | RulePriorityShared int
  | PriorityOneRuleReplaced string
  | OwnershipNotRequired
  | NotPending
  | BaselineChanged ownership_error
  | ReservedPriorityShared int
  | ReservedPriorityReplaced int
  | AmbiguousRouteTables "string list"
  | DeriveIPv4 ownership_error
  | DeriveIPv6 ownership_error
  | NFTTableHandleReplaced string string
  | ReadStateFailed
  | ParseStateFailed
  | ParseStateTrailing
  | WriteStateFailed
  | SyncStateDirFailed
  | RemoveStateFailed
  | DiscardNonPending
  | DiscardFailed ownership_error
  | JoinedErrors ownership_error ownership_error
  | RestorePendingFailed ownership_error

section \<open>Snapshots of the kernel state\<close>

type_synonym routeTableSnapshot = "string list"

record ipRuleSnapshot =
  snap_lines :: "(int \<times> string list) list"

abbreviation newline :: char where
  "newline \<equiv> CHR 0x0A"

text \<open>\<^verbatim>\<open>snapshot.lines[priority]\<close>: the empty slice for a missing key.\<close>

definition lines_at :: "ipRuleSnapshot \<Rightarrow> int \<Rightarrow> string list" where
  "lines_at snapshot p = (case map_of (snap_lines snapshot) p of None \<Rightarrow> [] | Some ls \<Rightarrow> ls)"

text \<open>The fields that follow a keyword, in the loops \<^verbatim>\<open>for index := 0; index+1 < len(fields)\<close>.\<close>

fun after_keyword :: "string \<Rightarrow> string list \<Rightarrow> string list" where
  "after_keyword kw (a # b # fs) = (if a = kw then [b] else []) @ after_keyword kw (b # fs)"
| "after_keyword kw _ = []"

definition nonzero_table :: "string \<Rightarrow> bool" where
  "nonzero_table t \<longleftrightarrow> (case ParseUint t 32 of Some v \<Rightarrow> v \<noteq> 0 | None \<Rightarrow> False)"

definition parseRouteTableSnapshot :: "string \<Rightarrow> routeTableSnapshot" where
  "parseRouteTableSnapshot output =
     uniq_from [] (concat (map (\<lambda>line. filter nonzero_table (after_keyword ''table'' (Fields line)))
       (split_char newline output)))"

definition routeTableSnapshot_has :: "routeTableSnapshot \<Rightarrow> string \<Rightarrow> bool" where
  "routeTableSnapshot_has snapshot table \<longleftrightarrow> table \<in> set snapshot"

text \<open>The blanks of the regular expression class \<^verbatim>\<open>\s\<close>.\<close>

definition re_space :: "char \<Rightarrow> bool" where
  "re_space c \<longleftrightarrow> c \<in> {CHR 0x20, CHR 0x09, CHR 0x0A, CHR 0x0C, CHR 0x0D}"

text \<open>
  The two groups of \<^verbatim>\<open>^\s*(\d+):\s*(.+)$\<close> on a line without a newline.  When only blanks follow
  the colon, the last of them is given back to \<^verbatim>\<open>.+\<close>.
\<close>

definition ipRuleLinePattern :: "string \<Rightarrow> (string \<times> string) option" where
  "ipRuleLinePattern line =
     (let s = dropWhile re_space line;
          ds = takeWhile is_digit s;
          rest = dropWhile is_digit s
      in if ds = [] then None
         else (case rest of
             [] \<Rightarrow> None
           | c # r \<Rightarrow>
               if c \<noteq> CHR '':'' \<or> r = [] then None
               else let g = dropWhile re_space r in Some (ds, if g = [] then [last r] else g)))"

definition parse_rule_line :: "ipRuleSnapshot \<Rightarrow> string \<Rightarrow> ipRuleSnapshot" where
  "parse_rule_line snapshot line =
     (case ipRuleLinePattern line of
        None \<Rightarrow> snapshot
      | Some (ds, body) \<Rightarrow>
          (case Atoi ds of (priority, ok) \<Rightarrow>
             if \<not> ok then snapshot
             else snapshot\<lparr>snap_lines :=
                    map_put priority (lines_at snapshot priority @ [join_with '' '' (Fields body)])
                      (snap_lines snapshot)\<rparr>))"

definition parseIPRuleSnapshot :: "string \<Rightarrow> ipRuleSnapshot" where
  "parseIPRuleSnapshot output =
     foldl parse_rule_line \<lparr>snap_lines = []\<rparr> (split_char newline output)"

definition hasExactRule :: "ipRuleSnapshot \<Rightarrow> int \<Rightarrow> string \<Rightarrow> bool" where
  "hasExactRule snapshot priority line \<longleftrightarrow> line \<in> set (lines_at snapshot priority)"

definition managedRuleIDs :: "ipRuleSnapshot \<Rightarrow> string list" where
  "managedRuleIDs snapshot =
     map spec_id (filter (\<lambda>spec. hasExactRule snapshot (spec_priority spec) (spec_line spec)) managedIPRuleSpecs)"

definition singboxTUNPriorityConflicts :: "ipRuleSnapshot \<Rightarrow> int list" where
  "singboxTUNPriorityConflicts snapshot =
     sort (map fst (filter (\<lambda>(priority, lines). lines \<noteq> [] \<and> (9000 \<le> priority \<and> priority \<le> 9010 \<or> priority = 32768))
       (snap_lines snapshot)))"

definition priorityOneLookupTables :: "ipRuleSnapshot \<Rightarrow> string list" where
  "priorityOneLookupTables snapshot =
     sort (uniq_from [] (concat (map (\<lambda>line.
       filter (\<lambda>t. nonzero_table t \<and> t \<noteq> singboxRouteTable) (after_keyword ''lookup'' (Fields line)))
       (lines_at snapshot 1))))"

definition hasExactPriorityOneLookupTable :: "ipRuleSnapshot \<Rightarrow> string \<Rightarrow> bool" where
  "hasExactPriorityOneLookupTable snapshot table \<longleftrightarrow> hasExactRule snapshot 1 (''from all lookup '' @ table)"

definition exactPriorityOneLookupTables :: "ipRuleSnapshot \<Rightarrow> string list" where
  "exactPriorityOneLookupTables snapshot =
     filter (hasExactPriorityOneLookupTable snapshot) (priorityOneLookupTables snapshot)"

definition hasPriorityOneLookupTable :: "ipRuleSnapshot \<Rightarrow> string \<Rightarrow> bool" where
  "hasPriorityOneLookupTable snapshot table \<longleftrightarrow> table \<in> set (priorityOneLookupTables snapshot)"

definition hasLookupTable :: "ipRuleSnapshot \<Rightarrow> string \<Rightarrow> bool" where
  "hasLookupTable snapshot table \<longleftrightarrow>
     list_ex (\<lambda>(_, lines). list_ex (\<lambda>line. table \<in> set (after_keyword ''lookup'' (Fields line))) lines)
       (snap_lines snapshot)"

definition sharedPriorityOneLookupTables :: "ipRuleSnapshot \<Rightarrow> ipRuleSnapshot \<Rightarrow> string list" where
  "sharedPriorityOneLookupTables ipv4 ipv6 =
     filter (\<lambda>t. t \<in> set (priorityOneLookupTables ipv6)) (priorityOneLookupTables ipv4)"

definition priorityOneLookupTablesForFamilies :: "ipRuleSnapshot \<Rightarrow> ipRuleSnapshot \<Rightarrow> bool \<Rightarrow> bool \<Rightarrow> string list" where
  "priorityOneLookupTablesForFamilies ipv4 ipv6 expectIPv4 expectIPv6 =
     (if expectIPv4 \<and> expectIPv6 then sharedPriorityOneLookupTables ipv4 ipv6
      else if expectIPv4 then priorityOneLookupTables ipv4
      else if expectIPv6 then priorityOneLookupTables ipv6
      else [])"

text \<open>The loop over the lines of a route table: \<open>found\<close> records whether a line was accepted.\<close>

fun redirect_table_lines :: "string \<Rightarrow> bool \<Rightarrow> bool \<Rightarrow> string list \<Rightarrow> bool" where
  "redirect_table_lines pre ipv6 found [] = found"
| "redirect_table_lines pre ipv6 found (l # ls) =
     (let line = join_with '' '' (Fields l) in
      if line = [] then redirect_table_lines pre ipv6 found ls
      else if \<not> prefix pre line \<or> (\<not> ipv6 \<and> \<not> contains_str line '' scope host'') then False
      else redirect_table_lines pre ipv6 True ls)"

definition isSingboxRedirectRouteTable :: "string \<Rightarrow> bool \<Rightarrow> bool" where
  "isSingboxRedirectRouteTable output ipv6 =
     redirect_table_lines (if ipv6 then ''local ::1 dev '' else ''local 127.0.0.1 dev '') ipv6 False
       (split_char newline output)"

definition isSafeOwnedRedirectRouteTable :: "string \<Rightarrow> bool \<Rightarrow> bool" where
  "isSafeOwnedRedirectRouteTable output ipv6 \<longleftrightarrow>
     TrimSpace output = [] \<or> isSingboxRedirectRouteTable output ipv6"

record routeTableCleanupAction =
  act_table :: string
  act_deleteRule :: bool
  act_flushTable :: bool

definition planRouteTableCleanup :: "ipRuleSnapshot \<Rightarrow> routeTableSnapshot \<Rightarrow> string list \<Rightarrow> routeTableCleanupAction list" where
  "planRouteTableCleanup rules existing recorded =
     map (\<lambda>table. \<lparr>act_table = table,
                    act_deleteRule = hasExactPriorityOneLookupTable rules table,
                    act_flushTable = routeTableSnapshot_has existing table\<rparr>) recorded"

section \<open>Normalisation of the persisted state\<close>

fun route_table_ids_from :: "string list \<Rightarrow> string list \<Rightarrow> ownership_error + string list" where
  "route_table_ids_from acc [] = Inr acc"
| "route_table_ids_from acc (t # ts) =
     (let table = TrimSpace t in
      if \<not> nonzero_table table \<or> table = singboxRouteTable then Inl (InvalidRouteTableID table)
      else route_table_ids_from (if table \<in> set acc then acc else acc @ [table]) ts)"

definition normalizeRouteTableIDs :: "string list \<Rightarrow> ownership_error + string list" where
  "normalizeRouteTableIDs tables = res_bind (route_table_ids_from [] tables) (\<lambda>r. Inr (sort r))"

fun managed_rule_ids_from :: "string list \<Rightarrow> string list \<Rightarrow> ownership_error + string list" where
  "managed_rule_ids_from acc [] = Inr acc"
| "managed_rule_ids_from acc (r # rs) =
     (if r \<notin> set (map spec_id managedIPRuleSpecs) then Inl (InvalidManagedRuleID r)
      else managed_rule_ids_from (if r \<in> set acc then acc else acc @ [r]) rs)"

definition normalizeManagedIPRuleIDs :: "string list \<Rightarrow> ownership_error + string list" where
  "normalizeManagedIPRuleIDs ruleIDs = res_bind (managed_rule_ids_from [] ruleIDs) (\<lambda>r. Inr (sort r))"

definition hasAllManagedIPRuleIDs :: "string list \<Rightarrow> bool" where
  "hasAllManagedIPRuleIDs ruleIDs \<longleftrightarrow>
     list_ex (\<lambda>profile. length ruleIDs = length profile \<and> list_all (\<lambda>r. r \<in> set ruleIDs) profile)
       managedIPRuleProfiles"

definition stringSlicesOverlap :: "string list \<Rightarrow> string list \<Rightarrow> bool" where
  "stringSlicesOverlap left right \<longleftrightarrow> list_ex (\<lambda>v. v \<in> set left) right"

text \<open>
  The body of \<^verbatim>\<open>normalizeSingboxRouteTableState\<close> in its three parts: the header checks, the
  cleaning of every list and of the handle, and the checks of the cleaned state.
\<close>

definition header_error :: "singboxRouteTableState \<Rightarrow> ownership_error option" where
  "header_error st =
    (if Version st \<noteq> singboxRouteTableStateVersion then Some (UnsupportedVersion (Version st))
     else if Phase st \<noteq> singboxOwnershipPending \<and> Phase st \<noteq> singboxOwnershipReady then Some (InvalidPhase (Phase st))
     else if \<not> ExpectIPv4 st \<and> \<not> ExpectIPv6 st then Some NoExpectedFamily
     else if \<not> NFTTableAbsent st then Some NFTNamespaceNotAbsent
     else None)"

definition valid_handle :: "string \<Rightarrow> bool" where
  "valid_handle h \<longleftrightarrow> (case ParseUint h 64 of None \<Rightarrow> False | Some v \<Rightarrow> v \<noteq> 0)"

definition clean_ownership :: "singboxRouteTableState \<Rightarrow> ownership_error + singboxRouteTableState" where
  "clean_ownership st =
     res_bind (normalizeRouteTableIDs (BaselineIPv4Tables st)) (\<lambda>b4t.
     res_bind (normalizeRouteTableIDs (BaselineIPv6Tables st)) (\<lambda>b6t.
     res_bind (normalizeRouteTableIDs (IPv4Tables st)) (\<lambda>t4.
     res_bind (normalizeRouteTableIDs (IPv6Tables st)) (\<lambda>t6.
     let handle = TrimSpace (NFTTableHandle st); ident = TrimSpace (NFTIncludeIdentity st) in
     if handle \<noteq> [] \<and> \<not> valid_handle handle then Inl (InvalidNFTTableHandle handle)
     else
     res_bind (normalizeManagedIPRuleIDs (BaselineIPv4Rules st)) (\<lambda>b4r.
     res_bind (normalizeManagedIPRuleIDs (BaselineIPv6Rules st)) (\<lambda>b6r.
     res_bind (normalizeManagedIPRuleIDs (IPv4Rules st)) (\<lambda>r4.
     res_bind (normalizeManagedIPRuleIDs (IPv6Rules st)) (\<lambda>r6.
     Inr (st\<lparr>BaselineIPv4Tables := b4t, BaselineIPv6Tables := b6t, IPv4Tables := t4, IPv6Tables := t6,
             NFTTableHandle := handle, NFTIncludeIdentity := ident,
             BaselineIPv4Rules := b4r, BaselineIPv6Rules := b6r, IPv4Rules := r4, IPv6Rules := r6\<rparr>)))))))))"

definition resource_error :: "singboxRouteTableState \<Rightarrow> ownership_error option" where
  "resource_error st =
    (if \<not> ExpectIPv4 st \<and> (BaselineIPv4Tables st \<noteq> [] \<or> BaselineIPv4Rules st \<noteq> [] \<or> IPv4Tables st \<noteq> [] \<or> IPv4Rules st \<noteq> [])
     then Some UnexpectedIPv4Resources
     else if \<not> ExpectIPv6 st \<and> (BaselineIPv6Tables st \<noteq> [] \<or> BaselineIPv6Rules st \<noteq> [] \<or> IPv6Tables st \<noteq> [] \<or> IPv6Rules st \<noteq> [])
     then Some UnexpectedIPv6Resources
     else if Phase st = singboxOwnershipPending then
       (if IPv4Tables st \<noteq> [] \<or> IPv6Tables st \<noteq> [] \<or> NFTTableHandle st \<noteq> [] \<or> IPv4Rules st \<noteq> [] \<or> IPv6Rules st \<noteq> []
        then Some PendingHasReadyResources else None)
     else if stringSlicesOverlap (BaselineIPv4Tables st) (IPv4Tables st) \<or> stringSlicesOverlap (BaselineIPv6Tables st) (IPv6Tables st) \<or>
             stringSlicesOverlap (BaselineIPv4Rules st) (IPv4Rules st) \<or> stringSlicesOverlap (BaselineIPv6Rules st) (IPv6Rules st)
     then Some OverlapsBaseline
     else if NFTTableHandle st = [] then Some NoNFTTableHandle
     else if ExpectIPv4 st \<and> (length (IPv4Tables st) \<noteq> 1 \<or> \<not> hasAllManagedIPRuleIDs (IPv4Rules st)) then Some IncompleteIPv4Resources
     else if ExpectIPv6 st \<and> (length (IPv6Tables st) \<noteq> 1 \<or> \<not> hasAllManagedIPRuleIDs (IPv6Rules st)) then Some IncompleteIPv6Resources
     else None)"

definition normalizeSingboxRouteTableState :: "singboxRouteTableState \<Rightarrow> ownership_error + singboxRouteTableState" where
  "normalizeSingboxRouteTableState st =
     (case header_error st of
        Some e \<Rightarrow> Inl e
      | None \<Rightarrow> res_bind (clean_ownership st) (\<lambda>st'.
          case resource_error st' of Some e \<Rightarrow> Inl e | None \<Rightarrow> Inr st'))"

section \<open>Deletion guards and the derivation of ownership\<close>

definition addedManagedIPRuleIDs :: "string list \<Rightarrow> string list \<Rightarrow> string list" where
  "addedManagedIPRuleIDs current baseline = filter (\<lambda>r. r \<notin> set baseline) current"

definition addedRouteTableIDs :: "string list \<Rightarrow> string list \<Rightarrow> string list" where
  "addedRouteTableIDs current baseline = filter (\<lambda>t. t \<notin> set baseline) current"

definition managedIPRuleSpecByID :: "string \<Rightarrow> managedIPRuleSpec option" where
  "managedIPRuleSpecByID ruleID = find (\<lambda>spec. spec_id spec = ruleID) managedIPRuleSpecs"

fun validateManagedIPRuleDeletions :: "ipRuleSnapshot \<Rightarrow> string list \<Rightarrow> ownership_error option" where
  "validateManagedIPRuleDeletions snapshot [] = None"
| "validateManagedIPRuleDeletions snapshot (r # rs) =
     (case managedIPRuleSpecByID r of
        None \<Rightarrow> validateManagedIPRuleDeletions snapshot rs
      | Some spec \<Rightarrow>
          if \<not> hasExactRule snapshot (spec_priority spec) (spec_line spec) then
            (if lines_at snapshot (spec_priority spec) \<noteq> [] then Some (RulePriorityReplaced (spec_priority spec))
             else validateManagedIPRuleDeletions snapshot rs)
          else if length (lines_at snapshot (spec_priority spec)) \<noteq> 1 then Some (RulePriorityShared (spec_priority spec))
          else validateManagedIPRuleDeletions snapshot rs)"

definition hasSingboxAutoRedirectSignature :: "ipRuleSnapshot \<Rightarrow> bool" where
  "hasSingboxAutoRedirectSignature snapshot \<longleftrightarrow>
     (let ruleIDs = managedRuleIDs snapshot in
      hasAllManagedIPRuleIDs ruleIDs \<and> validateManagedIPRuleDeletions snapshot ruleIDs = None)"

fun validatePriorityOneRuleDeletions :: "ipRuleSnapshot \<Rightarrow> string list \<Rightarrow> ownership_error option" where
  "validatePriorityOneRuleDeletions snapshot [] = None"
| "validatePriorityOneRuleDeletions snapshot (t # ts) =
     (if hasExactPriorityOneLookupTable snapshot t then validatePriorityOneRuleDeletions snapshot ts
      else if hasLookupTable snapshot t then Some (PriorityOneRuleReplaced t)
      else validatePriorityOneRuleDeletions snapshot ts)"

definition pendingSingboxRouteTableState :: "platformNetworkBaseline \<Rightarrow> ownership_error + singboxRouteTableState" where
  "pendingSingboxRouteTableState baseline =
     (if \<not> base_Required baseline then Inl OwnershipNotRequired
      else normalizeSingboxRouteTableState
        \<lparr>Version = singboxRouteTableStateVersion, Phase = singboxOwnershipPending,
         ExpectIPv4 = base_ExpectIPv4 baseline, ExpectIPv6 = base_ExpectIPv6 baseline,
         NFTTableAbsent = base_NFTTableAbsent baseline,
         BaselineIPv4Tables = base_IPv4Tables baseline, BaselineIPv6Tables = base_IPv6Tables baseline,
         BaselineIPv4Rules = base_IPv4Rules baseline, BaselineIPv6Rules = base_IPv6Rules baseline,
         IPv4Tables = [], IPv6Tables = [], NFTTableHandle = [], NFTIncludeIdentity = [],
         IPv4Rules = [], IPv6Rules = []\<rparr>)"

text \<open>The second loop of \<^verbatim>\<open>deriveFamily\<close>: every reserved priority is empty or holds one managed rule.\<close>

fun reserved_priorities_ok :: "ipRuleSnapshot \<Rightarrow> managedIPRuleSpec list \<Rightarrow> ownership_error option" where
  "reserved_priorities_ok snapshot [] = None"
| "reserved_priorities_ok snapshot (spec # specs) =
     (let here = lines_at snapshot (spec_priority spec);
          matched = list_ex (\<lambda>s. spec_priority s = spec_priority spec \<and> hasExactRule snapshot (spec_priority s) (spec_line s))
                      managedIPRuleSpecs
      in if 1 < length here then Some (ReservedPriorityShared (spec_priority spec))
         else if 0 < length here \<and> \<not> matched then Some (ReservedPriorityReplaced (spec_priority spec))
         else reserved_priorities_ok snapshot specs)"

definition deriveFamily :: "bool \<Rightarrow> ipRuleSnapshot \<Rightarrow> string list \<Rightarrow> string list \<Rightarrow> ownership_error + string list \<times> string list" where
  "deriveFamily expected snapshot baselineTables baselineRules =
     (if \<not> expected then Inr ([], [])
      else case validateManagedIPRuleDeletions snapshot baselineRules of
        Some e \<Rightarrow> Inl (BaselineChanged e)
      | None \<Rightarrow>
         (case reserved_priorities_ok snapshot managedIPRuleSpecs of
            Some e \<Rightarrow> Inl e
          | None \<Rightarrow>
             (let tables = addedRouteTableIDs (exactPriorityOneLookupTables snapshot) baselineTables in
              if 1 < length tables then Inl (AmbiguousRouteTables tables)
              else Inr (tables, addedManagedIPRuleIDs (managedRuleIDs snapshot) baselineRules))))"

definition derivePendingSingboxOwnership ::
  "singboxRouteTableState \<Rightarrow> ipRuleSnapshot \<Rightarrow> ipRuleSnapshot \<Rightarrow> string \<Rightarrow> bool \<Rightarrow>
     ownership_error + singboxRouteTableState \<times> bool" where
  "derivePendingSingboxOwnership st0 ipv4 ipv6 nftHandle nftPresent =
     res_bind (normalizeSingboxRouteTableState st0) (\<lambda>st.
     if Phase st \<noteq> singboxOwnershipPending then Inl NotPending
     else case deriveFamily (ExpectIPv4 st) ipv4 (BaselineIPv4Tables st) (BaselineIPv4Rules st) of
       Inl e \<Rightarrow> Inl (DeriveIPv4 e)
     | Inr (t4, r4) \<Rightarrow>
       (case deriveFamily (ExpectIPv6 st) ipv6 (BaselineIPv6Tables st) (BaselineIPv6Rules st) of
          Inl e \<Rightarrow> Inl (DeriveIPv6 e)
        | Inr (t6, r6) \<Rightarrow>
          (let st1 = st\<lparr>IPv4Tables := t4, IPv4Rules := r4, IPv6Tables := t6, IPv6Rules := r6,
                        NFTTableHandle := (if NFTTableAbsent st \<and> nftPresent then nftHandle else NFTTableHandle st)\<rparr>;
               ready = (\<not> ExpectIPv4 st \<or> length t4 = 1 \<and> hasAllManagedIPRuleIDs r4) \<and>
                       (\<not> ExpectIPv6 st \<or> length t6 = 1 \<and> hasAllManagedIPRuleIDs r6) \<and>
                       NFTTableHandle st1 \<noteq> []
           in if ready
              then res_bind (normalizeSingboxRouteTableState (st1\<lparr>Phase := singboxOwnershipReady\<rparr>))
                     (\<lambda>st2. Inr (st2, True))
              else Inr (st1, False))))"

definition hasSingboxNFTTable :: "string \<Rightarrow> bool" where
  "hasSingboxNFTTable output \<longleftrightarrow>
     list_ex (\<lambda>line. join_with '' '' (Fields line) = ''table inet sing-box'') (split_char newline output)"

text \<open>
  A match of \<^verbatim>\<open>table\s+inet\s+sing-box\s*\{\s*#\s*handle\s+(\d+)\<close> at the start of \<open>s\<close>: the digits of
  the handle.  No literal of the pattern starts with a blank, so the greedy repetitions are exact.
\<close>

definition eat :: "string \<Rightarrow> string \<Rightarrow> string option" where
  "eat p s = (if prefix p s then Some (drop (length p) s) else None)"

definition eat_blanks :: "string \<Rightarrow> string option" where
  "eat_blanks s = (if s \<noteq> [] \<and> re_space (hd s) then Some (dropWhile re_space s) else None)"

definition nft_handle_at :: "string \<Rightarrow> string option" where
  "nft_handle_at s =
     Option.bind (eat ''table'' s) (\<lambda>s1. Option.bind (eat_blanks s1) (\<lambda>s2.
     Option.bind (eat ''inet'' s2) (\<lambda>s3. Option.bind (eat_blanks s3) (\<lambda>s4.
     Option.bind (eat ''sing-box'' s4) (\<lambda>s5.
     Option.bind (eat ''{'' (dropWhile re_space s5)) (\<lambda>s6.
     Option.bind (eat ''#'' (dropWhile re_space s6)) (\<lambda>s7.
     Option.bind (eat ''handle'' (dropWhile re_space s7)) (\<lambda>s8. Option.bind (eat_blanks s8) (\<lambda>s9.
       let ds = takeWhile is_digit s9 in if ds = [] then None else Some ds)))))))))"

fun parseSingboxNFTTableHandle :: "string \<Rightarrow> string option" where
  "parseSingboxNFTTableHandle [] = None"
| "parseSingboxNFTTableHandle (c # s) =
     (case nft_handle_at (c # s) of Some h \<Rightarrow> Some h | None \<Rightarrow> parseSingboxNFTTableHandle s)"

definition ownsSingboxNFTTable :: "string \<Rightarrow> string \<Rightarrow> bool \<Rightarrow> bool" where
  "ownsSingboxNFTTable recordedHandle currentHandle tablePresent \<longleftrightarrow>
     tablePresent \<and> recordedHandle \<noteq> [] \<and> recordedHandle = currentHandle"

definition validateRecordedNFTTable :: "string \<Rightarrow> string \<Rightarrow> bool \<Rightarrow> ownership_error option" where
  "validateRecordedNFTTable recordedHandle currentHandle tablePresent =
     (if recordedHandle \<noteq> [] \<and> tablePresent \<and> recordedHandle \<noteq> currentHandle
      then Some (NFTTableHandleReplaced recordedHandle currentHandle) else None)"

section \<open>The state file\<close>

text \<open>
  The state file as its reader sees it: absent, unreadable, one JSON document of the struct, a
  document that does not decode, or a document followed by more data.  A write encodes into a
  temporary file that replaces the old one by a rename, then syncs the directory; the operating
  system decides at which of the two points it fails, if it fails.
\<close>

datatype ownership_file =
    FileAbsent | FileUnreadable | FileState singboxRouteTableState | FileMalformed | FileTrailing

datatype write_outcome = WriteOk | WriteFailsBeforeRename | WriteFailsAtDirSync

datatype remove_outcome = RemoveOk | RemoveFails | RemoveFailsAtDirSync

definition readSingboxRouteTableState :: "ownership_file \<Rightarrow> (ownership_error + singboxRouteTableState option)" where
  "readSingboxRouteTableState f =
     (case f of
        FileAbsent \<Rightarrow> Inr None
      | FileUnreadable \<Rightarrow> Inl ReadStateFailed
      | FileMalformed \<Rightarrow> Inl ParseStateFailed
      | FileTrailing \<Rightarrow> Inl ParseStateTrailing
      | FileState st \<Rightarrow> res_bind (normalizeSingboxRouteTableState st) (\<lambda>st'. Inr (Some st')))"

definition writeSingboxRouteTableState ::
  "write_outcome \<Rightarrow> ownership_file \<Rightarrow> singboxRouteTableState \<Rightarrow> ownership_file \<times> ownership_error option" where
  "writeSingboxRouteTableState io f st =
     (case normalizeSingboxRouteTableState (st\<lparr>Version := singboxRouteTableStateVersion\<rparr>) of
        Inl e \<Rightarrow> (f, Some e)
      | Inr st' \<Rightarrow>
          (case io of
             WriteFailsBeforeRename \<Rightarrow> (f, Some WriteStateFailed)
           | WriteFailsAtDirSync \<Rightarrow> (FileState st', Some SyncStateDirFailed)
           | WriteOk \<Rightarrow> (FileState st', None)))"

definition removeSingboxRouteTableState :: "remove_outcome \<Rightarrow> ownership_file \<Rightarrow> ownership_file \<times> ownership_error option" where
  "removeSingboxRouteTableState io f =
     (case io of
        RemoveFails \<Rightarrow> (f, Some RemoveStateFailed)
      | RemoveFailsAtDirSync \<Rightarrow> (FileAbsent, Some SyncStateDirFailed)
      | RemoveOk \<Rightarrow> (FileAbsent, None))"

definition discardPendingSingboxRouteTableState :: "remove_outcome \<Rightarrow> ownership_file \<Rightarrow> ownership_file \<times> ownership_error option" where
  "discardPendingSingboxRouteTableState io f =
     (case readSingboxRouteTableState f of
        Inl e \<Rightarrow> (f, Some e)
      | Inr None \<Rightarrow> (f, None)
      | Inr (Some st) \<Rightarrow>
          if Phase st \<noteq> singboxOwnershipPending then (f, Some DiscardNonPending)
          else (case removeSingboxRouteTableState io f of (f', e) \<Rightarrow> (f', map_option DiscardFailed e)))"

definition promotePendingSingboxRouteTableState ::
  "write_outcome \<Rightarrow> write_outcome \<Rightarrow> ownership_file \<Rightarrow> singboxRouteTableState \<Rightarrow> singboxRouteTableState \<Rightarrow>
     ownership_file \<times> ownership_error option" where
  "promotePendingSingboxRouteTableState io1 io2 f pending ready =
     (case writeSingboxRouteTableState io1 f ready of
        (f1, None) \<Rightarrow> (f1, None)
      | (f1, Some e) \<Rightarrow>
          (case writeSingboxRouteTableState io2 f1 pending of
             (f2, None) \<Rightarrow> (f2, Some e)
           | (f2, Some e2) \<Rightarrow> (f2, Some (JoinedErrors e (RestorePendingFailed e2)))))"

section \<open>Normal forms\<close>

text \<open>The contract of the two normalisers: clean every entry, refuse an invalid one, and return the
  entries sorted and without repetition.\<close>

locale id_normaliser =
  fixes norm :: "string list \<Rightarrow> 'e + string list"
    and clean :: "string \<Rightarrow> string"
    and ok :: "string \<Rightarrow> bool"
  assumes norm_Inr: "norm xs = Inr ys \<longleftrightarrow>
      list_all ok (map clean xs) \<and> ys = sort (uniq_from [] (map clean xs))"
    and clean_idem: "clean (clean x) = clean x"
begin

lemma norm_canonical:
  assumes "norm xs = Inr ys"
  shows "sorted ys \<and> distinct ys \<and> set ys = clean ` set xs \<and> list_all ok ys \<and> map clean ys = ys"
proof -
  from assms have ys: "ys = sort (uniq_from [] (map clean xs))" and ok: "list_all ok (map clean xs)"
    by (simp_all add: norm_Inr)
  have "set ys = clean ` set xs" using ys by simp
  moreover from this ok have "list_all ok ys" by (auto simp: list_all_iff)
  moreover have "map clean ys = ys"
    using \<open>set ys = clean ` set xs\<close> by (intro map_idI) (auto simp: clean_idem)
  ultimately show ?thesis using ys by (simp add: distinct_uniq_from)
qed

lemma norm_fixed:
  assumes "sorted ys" "distinct ys" "list_all ok ys" "map clean ys = ys"
  shows "norm ys = Inr ys"
proof -
  have "uniq_from [] ys = ys" using assms(2) uniq_from_distinct [of "[]" ys] by simp
  with assms show ?thesis by (simp add: norm_Inr sorted_sort_id)
qed

lemma norm_idem: "norm xs = Inr ys \<Longrightarrow> norm ys = Inr ys"
  using norm_canonical norm_fixed by blast

lemma norm_total: "list_all ok (map clean xs) \<Longrightarrow> \<exists>ys. norm xs = Inr ys"
  by (auto simp: norm_Inr)


end

definition valid_table_id :: "string \<Rightarrow> bool" where
  "valid_table_id t \<longleftrightarrow> nonzero_table t \<and> t \<noteq> singboxRouteTable"

lemma route_table_ids_from_Inr:
  "route_table_ids_from acc ts = Inr r \<longleftrightarrow>
     list_all valid_table_id (map TrimSpace ts) \<and> r = uniq_from acc (map TrimSpace ts)"
  by (induction acc ts rule: route_table_ids_from.induct)
    (auto simp: Let_def valid_table_id_def)

lemma managed_rule_ids_from_Inr:
  "managed_rule_ids_from acc rs = Inr r \<longleftrightarrow>
     list_all (\<lambda>x. x \<in> spec_id ` set managedIPRuleSpecs) rs \<and> r = uniq_from acc rs"
  by (induction acc rs rule: managed_rule_ids_from.induct) auto

interpretation table_ids: id_normaliser normalizeRouteTableIDs TrimSpace valid_table_id
  by unfold_locales (auto simp: normalizeRouteTableIDs_def go_result route_table_ids_from_Inr)

interpretation rule_ids: id_normaliser normalizeManagedIPRuleIDs "\<lambda>x. x"
    "\<lambda>x. x \<in> spec_id ` set managedIPRuleSpecs"
  by unfold_locales (auto simp: normalizeManagedIPRuleIDs_def go_result managed_rule_ids_from_Inr)

text \<open>Which states normalisation accepts unchanged.\<close>

definition canonical_tables :: "string list \<Rightarrow> bool" where
  "canonical_tables ts \<longleftrightarrow> normalizeRouteTableIDs ts = Inr ts"

definition canonical_rules :: "string list \<Rightarrow> bool" where
  "canonical_rules rs \<longleftrightarrow> normalizeManagedIPRuleIDs rs = Inr rs"

definition clean_lists :: "singboxRouteTableState \<Rightarrow> bool" where
  "clean_lists st \<longleftrightarrow>
     canonical_tables (BaselineIPv4Tables st) \<and> canonical_tables (BaselineIPv6Tables st) \<and>
     canonical_tables (IPv4Tables st) \<and> canonical_tables (IPv6Tables st) \<and>
     canonical_rules (BaselineIPv4Rules st) \<and> canonical_rules (BaselineIPv6Rules st) \<and>
     canonical_rules (IPv4Rules st) \<and> canonical_rules (IPv6Rules st) \<and>
     TrimSpace (NFTTableHandle st) = NFTTableHandle st \<and>
     TrimSpace (NFTIncludeIdentity st) = NFTIncludeIdentity st \<and>
     (NFTTableHandle st \<noteq> [] \<longrightarrow> valid_handle (NFTTableHandle st))"

definition ready_ownership :: "singboxRouteTableState \<Rightarrow> bool" where
  "ready_ownership st \<longleftrightarrow>
     set (BaselineIPv4Tables st) \<inter> set (IPv4Tables st) = {} \<and>
     set (BaselineIPv6Tables st) \<inter> set (IPv6Tables st) = {} \<and>
     set (BaselineIPv4Rules st) \<inter> set (IPv4Rules st) = {} \<and>
     set (BaselineIPv6Rules st) \<inter> set (IPv6Rules st) = {} \<and>
     NFTTableHandle st \<noteq> [] \<and>
     (ExpectIPv4 st \<longrightarrow> length (IPv4Tables st) = 1 \<and> hasAllManagedIPRuleIDs (IPv4Rules st)) \<and>
     (ExpectIPv6 st \<longrightarrow> length (IPv6Tables st) = 1 \<and> hasAllManagedIPRuleIDs (IPv6Rules st))"

definition pending_ownership :: "singboxRouteTableState \<Rightarrow> bool" where
  "pending_ownership st \<longleftrightarrow>
     IPv4Tables st = [] \<and> IPv6Tables st = [] \<and> NFTTableHandle st = [] \<and> IPv4Rules st = [] \<and> IPv6Rules st = []"

lemma phases_differ [simp]: "singboxOwnershipReady \<noteq> singboxOwnershipPending"
  by (simp add: singboxOwnershipReady_def singboxOwnershipPending_def)

lemma stringSlicesOverlap_iff [simp]: "stringSlicesOverlap xs ys \<longleftrightarrow> set xs \<inter> set ys \<noteq> {}"
  by (auto simp: stringSlicesOverlap_def list_ex_iff)

lemma clean_ownershipE:
  assumes "clean_ownership st = Inr st'"
  obtains b4t b6t t4 t6 b4r b6r r4 r6 where
    "normalizeRouteTableIDs (BaselineIPv4Tables st) = Inr b4t" "normalizeRouteTableIDs (BaselineIPv6Tables st) = Inr b6t"
    "normalizeRouteTableIDs (IPv4Tables st) = Inr t4" "normalizeRouteTableIDs (IPv6Tables st) = Inr t6"
    "normalizeManagedIPRuleIDs (BaselineIPv4Rules st) = Inr b4r" "normalizeManagedIPRuleIDs (BaselineIPv6Rules st) = Inr b6r"
    "normalizeManagedIPRuleIDs (IPv4Rules st) = Inr r4" "normalizeManagedIPRuleIDs (IPv6Rules st) = Inr r6"
    "TrimSpace (NFTTableHandle st) \<noteq> [] \<longrightarrow> valid_handle (TrimSpace (NFTTableHandle st))"
    "st' = st\<lparr>BaselineIPv4Tables := b4t, BaselineIPv6Tables := b6t, IPv4Tables := t4, IPv6Tables := t6,
             NFTTableHandle := TrimSpace (NFTTableHandle st), NFTIncludeIdentity := TrimSpace (NFTIncludeIdentity st),
             BaselineIPv4Rules := b4r, BaselineIPv6Rules := b6r, IPv4Rules := r4, IPv6Rules := r6\<rparr>"
  using assms by (auto simp: clean_ownership_def go_result Let_def split: if_splits)

lemma clean_ownership_wf:
  assumes "clean_ownership st = Inr st'"
  shows "clean_lists st' \<and> Version st' = Version st \<and> Phase st' = Phase st \<and>
    ExpectIPv4 st' = ExpectIPv4 st \<and> ExpectIPv6 st' = ExpectIPv6 st \<and> NFTTableAbsent st' = NFTTableAbsent st"
  using assms
  by (rule clean_ownershipE)
    (simp add: clean_lists_def canonical_tables_def canonical_rules_def table_ids.norm_idem rule_ids.norm_idem)

lemma clean_ownership_fixed: "clean_lists st \<Longrightarrow> clean_ownership st = Inr st"
  by (cases st) (auto simp: clean_ownership_def clean_lists_def canonical_tables_def canonical_rules_def Let_def)

lemma header_error_cong:
  "Version st' = Version st \<Longrightarrow> Phase st' = Phase st \<Longrightarrow> ExpectIPv4 st' = ExpectIPv4 st \<Longrightarrow>
   ExpectIPv6 st' = ExpectIPv6 st \<Longrightarrow> NFTTableAbsent st' = NFTTableAbsent st \<Longrightarrow> header_error st' = header_error st"
  by (simp add: header_error_def)

lemma normalize_Inr_iff:
  "normalizeSingboxRouteTableState st = Inr st' \<longleftrightarrow>
     header_error st = None \<and> clean_ownership st = Inr st' \<and> resource_error st' = None"
  by (auto simp: normalizeSingboxRouteTableState_def go_result split: option.splits)

lemma normalize_wf:
  assumes "normalizeSingboxRouteTableState st = Inr st'"
  shows "clean_lists st' \<and> header_error st' = None \<and> resource_error st' = None"
  using assms clean_ownership_wf header_error_cong by (metis normalize_Inr_iff)

lemma normalize_fixed:
  assumes "clean_lists st" "header_error st = None" "resource_error st = None"
  shows "normalizeSingboxRouteTableState st = Inr st"
  using assms by (simp add: normalize_Inr_iff clean_ownership_fixed)

lemma resource_error_pending:
  "resource_error st = None \<Longrightarrow> Phase st = singboxOwnershipPending \<Longrightarrow> pending_ownership st"
  by (simp add: resource_error_def pending_ownership_def split: if_splits)

lemma resource_error_ready:
  "resource_error st = None \<Longrightarrow> Phase st \<noteq> singboxOwnershipPending \<Longrightarrow> ready_ownership st"
  by (simp add: resource_error_def ready_ownership_def Int_commute split: if_splits)

section \<open>Deletion guards\<close>

lemma managedRuleIDs_iff:
  "r \<in> set (managedRuleIDs snapshot) \<longleftrightarrow>
     (\<exists>spec\<in>set managedIPRuleSpecs. spec_id spec = r \<and> hasExactRule snapshot (spec_priority spec) (spec_line spec))"
  by (auto simp: managedRuleIDs_def)

lemma spec_ids_distinct: "distinct (map spec_id managedIPRuleSpecs)"
  by (simp add: managedIPRuleSpecs_def)

lemma managedRuleIDs_distinct: "distinct (managedRuleIDs snapshot)"
  using spec_ids_distinct by (simp add: managedRuleIDs_def distinct_map_filter)

lemma managedIPRuleSpecByID_iff:
  "managedIPRuleSpecByID r = Some spec \<longleftrightarrow> spec \<in> set managedIPRuleSpecs \<and> spec_id spec = r"
proof -
  have inj: "inj_on spec_id (set managedIPRuleSpecs)"
    using spec_ids_distinct by (simp add: distinct_map)
  show ?thesis
  proof
    assume "managedIPRuleSpecByID r = Some spec"
    then show "spec \<in> set managedIPRuleSpecs \<and> spec_id spec = r"
      by (auto simp: managedIPRuleSpecByID_def find_Some_iff)
  next
    assume a: "spec \<in> set managedIPRuleSpecs \<and> spec_id spec = r"
    then obtain s where s: "managedIPRuleSpecByID r = Some s"
      by (cases "managedIPRuleSpecByID r") (auto simp: managedIPRuleSpecByID_def find_None_iff)
    then have "s \<in> set managedIPRuleSpecs \<and> spec_id s = r"
      by (auto simp: managedIPRuleSpecByID_def find_Some_iff)
    with a inj have "s = spec" by (auto dest: inj_onD)
    with s show "managedIPRuleSpecByID r = Some spec" by simp
  qed
qed

text \<open>The guard accepts a deletion exactly when each managed rule stands alone or its priority is empty.\<close>

lemma validate_deletions_iff:
  "validateManagedIPRuleDeletions snapshot rs = None \<longleftrightarrow>
     (\<forall>spec\<in>set managedIPRuleSpecs. spec_id spec \<in> set rs \<longrightarrow>
        lines_at snapshot (spec_priority spec) = [] \<or> lines_at snapshot (spec_priority spec) = [spec_line spec])"
proof (induction rs)
  case Nil
  then show ?case by simp
next
  case (Cons r rs)
  have single: "length ls = 1 \<and> x \<in> set ls \<longleftrightarrow> ls = [x]" for ls and x :: string
    by (cases ls) (auto simp: length_Suc_conv)
  show ?case
  proof (cases "managedIPRuleSpecByID r")
    case None
    then have "\<forall>spec\<in>set managedIPRuleSpecs. spec_id spec \<noteq> r"
      using managedIPRuleSpecByID_iff [of r] by force
    with None Cons show ?thesis by auto
  next
    case (Some spec)
    then have spec: "spec \<in> set managedIPRuleSpecs" "spec_id spec = r"
      by (simp_all add: managedIPRuleSpecByID_iff)
    have only: "s = spec" if "s \<in> set managedIPRuleSpecs" "spec_id s = r" for s
      using that Some managedIPRuleSpecByID_iff [of r s] by simp
    define Q where "Q s \<longleftrightarrow> lines_at snapshot (spec_priority s) = [] \<or>
      lines_at snapshot (spec_priority s) = [spec_line s]" for s :: managedIPRuleSpec
    have "validateManagedIPRuleDeletions snapshot (r # rs) = None \<longleftrightarrow>
        Q spec \<and> validateManagedIPRuleDeletions snapshot rs = None"
      using Some single [of "lines_at snapshot (spec_priority spec)" "spec_line spec"]
      by (auto simp: hasExactRule_def Q_def)
    also have "\<dots> \<longleftrightarrow> Q spec \<and> (\<forall>s\<in>set managedIPRuleSpecs. spec_id s \<in> set rs \<longrightarrow> Q s)"
      by (simp only: Cons.IH Q_def)
    also have "\<dots> \<longleftrightarrow> (\<forall>s\<in>set managedIPRuleSpecs. spec_id s \<in> set (r # rs) \<longrightarrow> Q s)"
      using spec by (auto dest: only)
    finally show ?thesis unfolding Q_def .
  qed
qed


section \<open>Derivation\<close>

lemma reserved_priorities_ok_iff:
  "reserved_priorities_ok snapshot specs = None \<longleftrightarrow>
     (\<forall>spec\<in>set specs. lines_at snapshot (spec_priority spec) = [] \<or>
        (\<exists>s\<in>set managedIPRuleSpecs. spec_priority s = spec_priority spec \<and> lines_at snapshot (spec_priority spec) = [spec_line s]))"
proof (induction specs)
  case Nil
  then show ?case by simp
next
  case (Cons spec specs)
  let ?ls = "lines_at snapshot (spec_priority spec)"
  have "length ?ls \<le> 1 \<and> (?ls = [] \<or> (\<exists>s\<in>set managedIPRuleSpecs. spec_priority s = spec_priority spec \<and> spec_line s \<in> set ?ls)) \<longleftrightarrow>
    ?ls = [] \<or> (\<exists>s\<in>set managedIPRuleSpecs. spec_priority s = spec_priority spec \<and> ?ls = [spec_line s])"
    by (cases ?ls) auto
  with Cons show ?case
    by (auto simp: Let_def list_ex_iff hasExactRule_def)
qed

definition owned_only_new :: "ipRuleSnapshot \<Rightarrow> string list \<Rightarrow> string list \<Rightarrow> string list \<Rightarrow> string list \<Rightarrow> bool" where
  "owned_only_new snapshot baseTables baseRules tables rules \<longleftrightarrow>
     (\<forall>t\<in>set tables. t \<notin> set baseTables \<and> hasExactPriorityOneLookupTable snapshot t) \<and>
     (\<forall>r\<in>set rules. r \<notin> set baseRules \<and>
        (\<exists>spec\<in>set managedIPRuleSpecs. spec_id spec = r \<and> lines_at snapshot (spec_priority spec) = [spec_line spec]))"

lemma lookup_table_valid: "t \<in> set (priorityOneLookupTables snapshot) \<Longrightarrow> valid_table_id t \<and> TrimSpace t = t"
proof -
  have kw: "x \<in> set (after_keyword kw fs) \<Longrightarrow> x \<in> set fs" for x kw fs
    by (induction kw fs rule: after_keyword.induct) (auto split: if_splits)
  show "t \<in> set (priorityOneLookupTables snapshot) \<Longrightarrow> valid_table_id t \<and> TrimSpace t = t"
    by (auto simp: priorityOneLookupTables_def valid_table_id_def dest!: kw intro: no_space_TrimSpace Fields_no_space)
qed

lemma deriveFamily_safe:
  assumes "deriveFamily expected snapshot bt br = Inr (ts, rs)"
  shows "owned_only_new snapshot bt br ts rs \<and> length ts \<le> 1 \<and> distinct rs \<and>
    list_all (\<lambda>t. valid_table_id t \<and> TrimSpace t = t) ts \<and> set rs \<subseteq> spec_id ` set managedIPRuleSpecs"
proof (cases expected)
  case False
  with assms show ?thesis by (simp add: deriveFamily_def owned_only_new_def)
next
  case True
  with assms have res: "reserved_priorities_ok snapshot managedIPRuleSpecs = None"
    and ts: "ts = addedRouteTableIDs (exactPriorityOneLookupTables snapshot) bt" "length ts \<le> 1"
    and rs: "rs = addedManagedIPRuleIDs (managedRuleIDs snapshot) br"
    by (auto simp: deriveFamily_def Let_def split: option.splits if_splits)
  have alone: "lines_at snapshot (spec_priority spec) = [spec_line spec]"
    if "spec \<in> set managedIPRuleSpecs" "hasExactRule snapshot (spec_priority spec) (spec_line spec)" for spec
  proof -
    from res that(1) have "length (lines_at snapshot (spec_priority spec)) \<le> 1"
      unfolding reserved_priorities_ok_iff by fastforce
    with that(2) show ?thesis by (cases "lines_at snapshot (spec_priority spec)") (auto simp: hasExactRule_def)
  qed
  have "owned_only_new snapshot bt br ts rs"
    using alone
    by (auto simp: owned_only_new_def ts rs addedRouteTableIDs_def addedManagedIPRuleIDs_def
        exactPriorityOneLookupTables_def managedRuleIDs_iff)
  moreover have "list_all (\<lambda>t. valid_table_id t \<and> TrimSpace t = t) ts"
    by (auto simp: list_all_iff ts addedRouteTableIDs_def exactPriorityOneLookupTables_def dest: lookup_table_valid)
  moreover have "distinct rs" "set rs \<subseteq> spec_id ` set managedIPRuleSpecs"
    using managedRuleIDs_distinct by (auto simp: rs addedManagedIPRuleIDs_def managedRuleIDs_def)
  ultimately show ?thesis using ts(2) by simp
qed

text \<open>What a successful derivation did: it kept the baseline and recorded the two families.\<close>

lemma derive_cases:
  assumes "derivePendingSingboxOwnership st0 ipv4 ipv6 h present = Inr (st', ready)"
  obtains st t4 r4 t6 r6 where "normalizeSingboxRouteTableState st0 = Inr st" "Phase st = singboxOwnershipPending"
    "deriveFamily (ExpectIPv4 st) ipv4 (BaselineIPv4Tables st) (BaselineIPv4Rules st) = Inr (t4, r4)"
    "deriveFamily (ExpectIPv6 st) ipv6 (BaselineIPv6Tables st) (BaselineIPv6Rules st) = Inr (t6, r6)"
    "ready \<Longrightarrow> normalizeSingboxRouteTableState (st\<lparr>IPv4Tables := t4, IPv4Rules := r4, IPv6Tables := t6, IPv6Rules := r6,
        NFTTableHandle := (if NFTTableAbsent st \<and> present then h else NFTTableHandle st), Phase := singboxOwnershipReady\<rparr>) = Inr st'"
    "\<not> ready \<Longrightarrow> st' = st\<lparr>IPv4Tables := t4, IPv4Rules := r4, IPv6Tables := t6, IPv6Rules := r6,
        NFTTableHandle := (if NFTTableAbsent st \<and> present then h else NFTTableHandle st)\<rparr>"
proof -
  obtain st where st: "normalizeSingboxRouteTableState st0 = Inr st"
    using assms by (cases "normalizeSingboxRouteTableState st0") (auto simp: derivePendingSingboxOwnership_def)
  have ph: "Phase st = singboxOwnershipPending"
    using assms st by (auto simp: derivePendingSingboxOwnership_def split: if_splits)
  obtain t4 r4 where f4: "deriveFamily (ExpectIPv4 st) ipv4 (BaselineIPv4Tables st) (BaselineIPv4Rules st) = Inr (t4, r4)"
    using assms st ph by (cases "deriveFamily (ExpectIPv4 st) ipv4 (BaselineIPv4Tables st) (BaselineIPv4Rules st)")
      (auto simp: derivePendingSingboxOwnership_def)
  obtain t6 r6 where f6: "deriveFamily (ExpectIPv6 st) ipv6 (BaselineIPv6Tables st) (BaselineIPv6Rules st) = Inr (t6, r6)"
    using assms st ph f4 by (cases "deriveFamily (ExpectIPv6 st) ipv6 (BaselineIPv6Tables st) (BaselineIPv6Rules st)")
      (auto simp: derivePendingSingboxOwnership_def)
  from assms st ph f4 f6 that show thesis
    by (simp add: derivePendingSingboxOwnership_def Let_def go_result split: if_splits)
qed


lemma small_tables_canonical:
  "length ts \<le> 1 \<Longrightarrow> list_all (\<lambda>t. valid_table_id t \<and> TrimSpace t = t) ts \<Longrightarrow> normalizeRouteTableIDs ts = Inr ts"
  by (rule table_ids.norm_fixed) (auto simp: list_all_iff intro: map_idI elim!: le_SucE simp: length_Suc_conv)

lemma rules_normalise:
  assumes "set rs \<subseteq> spec_id ` set managedIPRuleSpecs"
  obtains rs' where "normalizeManagedIPRuleIDs rs = Inr rs'" "set rs' = set rs" "distinct rs \<Longrightarrow> length rs' = length rs"
proof -
  have "list_all (\<lambda>x. x \<in> spec_id ` set managedIPRuleSpecs) (map (\<lambda>x. x) rs)"
    using assms by (auto simp: list_all_iff)
  then obtain rs' where n: "normalizeManagedIPRuleIDs rs = Inr rs'" using rule_ids.norm_total by blast
  then have c: "distinct rs'" "set rs' = set rs" using rule_ids.norm_canonical by force+
  then have "distinct rs \<Longrightarrow> length rs' = length rs" by (metis distinct_card)
  then show thesis using n c by (intro that)
qed

lemma hasAllManagedIPRuleIDs_cong: "set xs = set ys \<Longrightarrow> length xs = length ys \<Longrightarrow>
  hasAllManagedIPRuleIDs xs = hasAllManagedIPRuleIDs ys"
  by (simp add: hasAllManagedIPRuleIDs_def)

text \<open>The state that the ready branch normalises: its lists are already clean, up to the order of the rules.\<close>

lemma clean_derived:
  assumes "clean_lists st" and t: "length t4 \<le> 1" "list_all (\<lambda>t. valid_table_id t \<and> TrimSpace t = t) t4"
      "length t6 \<le> 1" "list_all (\<lambda>t. valid_table_id t \<and> TrimSpace t = t) t6"
    and r: "normalizeManagedIPRuleIDs r4 = Inr r4'" "normalizeManagedIPRuleIDs r6 = Inr r6'"
    and h: "TrimSpace h = [] \<or> valid_handle (TrimSpace h)"
  shows "clean_ownership (st\<lparr>IPv4Tables := t4, IPv4Rules := r4, IPv6Tables := t6, IPv6Rules := r6,
      NFTTableHandle := h, Phase := p\<rparr>) =
    Inr (st\<lparr>IPv4Tables := t4, IPv4Rules := r4', IPv6Tables := t6, IPv6Rules := r6',
      NFTTableHandle := TrimSpace h, Phase := p\<rparr>)"
  using assms(1) r h small_tables_canonical [OF t(1,2)] small_tables_canonical [OF t(3,4)]
  by (cases st) (auto simp: clean_ownership_def clean_lists_def canonical_tables_def canonical_rules_def Let_def)

lemma derive_fields:
  assumes "derivePendingSingboxOwnership st0 ipv4 ipv6 h present = Inr (st', ready)"
  obtains st t4 r4 t6 r6 where "normalizeSingboxRouteTableState st0 = Inr st"
    "deriveFamily (ExpectIPv4 st) ipv4 (BaselineIPv4Tables st) (BaselineIPv4Rules st) = Inr (t4, r4)"
    "deriveFamily (ExpectIPv6 st) ipv6 (BaselineIPv6Tables st) (BaselineIPv6Rules st) = Inr (t6, r6)"
    "BaselineIPv4Tables st' = BaselineIPv4Tables st" "BaselineIPv6Tables st' = BaselineIPv6Tables st"
    "BaselineIPv4Rules st' = BaselineIPv4Rules st" "BaselineIPv6Rules st' = BaselineIPv6Rules st"
    "IPv4Tables st' = t4" "IPv6Tables st' = t6" "set (IPv4Rules st') = set r4" "set (IPv6Rules st') = set r6"
  using assms
proof (rule derive_cases)
  fix st :: singboxRouteTableState and t4 r4 t6 r6
  let ?h = "if NFTTableAbsent st \<and> present then h else NFTTableHandle st"
  let ?st1 = "st\<lparr>IPv4Tables := t4, IPv4Rules := r4, IPv6Tables := t6, IPv6Rules := r6, NFTTableHandle := ?h\<rparr>"
  assume st: "normalizeSingboxRouteTableState st0 = Inr st"
    and f4: "deriveFamily (ExpectIPv4 st) ipv4 (BaselineIPv4Tables st) (BaselineIPv4Rules st) = Inr (t4, r4)"
    and f6: "deriveFamily (ExpectIPv6 st) ipv6 (BaselineIPv6Tables st) (BaselineIPv6Rules st) = Inr (t6, r6)"
    and ready: "ready \<Longrightarrow> normalizeSingboxRouteTableState (?st1\<lparr>Phase := singboxOwnershipReady\<rparr>) = Inr st'"
    and pend: "\<not> ready \<Longrightarrow> st' = ?st1"
  note s4 = deriveFamily_safe [OF f4] and s6 = deriveFamily_safe [OF f6]
  obtain r4' where r4': "normalizeManagedIPRuleIDs r4 = Inr r4'" "set r4' = set r4"
    using s4 rules_normalise by metis
  obtain r6' where r6': "normalizeManagedIPRuleIDs r6 = Inr r6'" "set r6' = set r6"
    using s6 rules_normalise by metis
  have "\<exists>h' p. st' = st\<lparr>IPv4Tables := t4, IPv4Rules := r4', IPv6Tables := t6, IPv6Rules := r6', NFTTableHandle := h', Phase := p\<rparr>" if ready
  proof -
    from ready [OF that] have c: "clean_ownership (?st1\<lparr>Phase := singboxOwnershipReady\<rparr>) = Inr st'"
      by (simp add: normalize_Inr_iff)
    then have "TrimSpace ?h = [] \<or> valid_handle (TrimSpace ?h)"
      by (rule clean_ownershipE) auto
    from clean_derived [OF _ _ _ _ _ r4'(1) r6'(1) this] s4 s6 normalize_wf [OF st] c show ?thesis
      by auto
  qed
  with pend r4'(2) r6'(2) show thesis
    by (intro that [OF st f4 f6]) (cases ready; force)+
qed

lemma ready_resources:
  assumes st: "clean_lists st" "header_error st = None" "resource_error st = None" "Phase st = singboxOwnershipPending"
    and f4: "deriveFamily (ExpectIPv4 st) ipv4 (BaselineIPv4Tables st) (BaselineIPv4Rules st) = Inr (t4, r4)"
    and f6: "deriveFamily (ExpectIPv6 st) ipv6 (BaselineIPv6Tables st) (BaselineIPv6Rules st) = Inr (t6, r6)"
    and c4: "\<not> ExpectIPv4 st \<or> length t4 = 1 \<and> hasAllManagedIPRuleIDs r4"
    and c6: "\<not> ExpectIPv6 st \<or> length t6 = 1 \<and> hasAllManagedIPRuleIDs r6"
    and h: "TrimSpace h \<noteq> []" "valid_handle (TrimSpace h)"
  shows "\<exists>st'. normalizeSingboxRouteTableState (st\<lparr>IPv4Tables := t4, IPv4Rules := r4, IPv6Tables := t6, IPv6Rules := r6,
      NFTTableHandle := h, Phase := singboxOwnershipReady\<rparr>) = Inr st'"
proof -
  note s4 = deriveFamily_safe [OF f4] and s6 = deriveFamily_safe [OF f6]
  obtain r4' where r4': "normalizeManagedIPRuleIDs r4 = Inr r4'" "set r4' = set r4" "length r4' = length r4"
    using s4 rules_normalise by metis
  obtain r6' where r6': "normalizeManagedIPRuleIDs r6 = Inr r6'" "set r6' = set r6" "length r6' = length r6"
    using s6 rules_normalise by metis
  let ?st1 = "st\<lparr>IPv4Tables := t4, IPv4Rules := r4, IPv6Tables := t6, IPv6Rules := r6,
      NFTTableHandle := h, Phase := singboxOwnershipReady\<rparr>"
  let ?st2 = "st\<lparr>IPv4Tables := t4, IPv4Rules := r4', IPv6Tables := t6, IPv6Rules := r6',
      NFTTableHandle := TrimSpace h, Phase := singboxOwnershipReady\<rparr>"
  have "clean_ownership ?st1 = Inr ?st2"
    using clean_derived [OF st(1) _ _ _ _ r4'(1) r6'(1)] s4 s6 h(2) by blast
  moreover have "header_error ?st1 = None"
    using st(2) by (simp add: header_error_def split: if_splits)
  moreover have "resource_error ?st2 = None"
  proof -
    have e4: "t4 = [] \<and> r4' = []" if "\<not> ExpectIPv4 st"
      using that f4 r4'(2) by (simp add: deriveFamily_def)
    have e6: "t6 = [] \<and> r6' = []" if "\<not> ExpectIPv6 st"
      using that f6 r6'(2) by (simp add: deriveFamily_def)
    have b: "\<not> ExpectIPv4 st \<longrightarrow> BaselineIPv4Tables st = [] \<and> BaselineIPv4Rules st = []"
        "\<not> ExpectIPv6 st \<longrightarrow> BaselineIPv6Tables st = [] \<and> BaselineIPv6Rules st = []"
      using st(3) by (auto simp: resource_error_def split: if_splits)
    have d: "set (BaselineIPv4Tables st) \<inter> set t4 = {}" "set (BaselineIPv6Tables st) \<inter> set t6 = {}"
        "set (BaselineIPv4Rules st) \<inter> set r4' = {}" "set (BaselineIPv6Rules st) \<inter> set r6' = {}"
      using s4 s6 r4'(2) r6'(2) by (auto simp: owned_only_new_def)
    have a: "hasAllManagedIPRuleIDs r4' = hasAllManagedIPRuleIDs r4" "hasAllManagedIPRuleIDs r6' = hasAllManagedIPRuleIDs r6"
      using r4' r6' hasAllManagedIPRuleIDs_cong by blast+
    show ?thesis using b d e4 e6 c4 c6 h(1)
      by (cases "ExpectIPv4 st"; cases "ExpectIPv6 st") (auto simp: resource_error_def a)
  qed
  ultimately show ?thesis by (simp add: normalize_Inr_iff)
qed

lemma derive_new_resources:
  assumes "derivePendingSingboxOwnership st0 ipv4 ipv6 h present = Inr (st', ready)"
  shows "owned_only_new ipv4 (BaselineIPv4Tables st') (BaselineIPv4Rules st') (IPv4Tables st') (IPv4Rules st') \<and>
    owned_only_new ipv6 (BaselineIPv6Tables st') (BaselineIPv6Rules st') (IPv6Tables st') (IPv6Rules st')"
  using assms by (rule derive_fields) (auto simp: owned_only_new_def dest!: deriveFamily_safe)

lemma derived_rules_deletable:
  assumes "derivePendingSingboxOwnership st0 ipv4 ipv6 h present = Inr (st', ready)"
  shows "validateManagedIPRuleDeletions ipv4 (IPv4Rules st') = None \<and> validateManagedIPRuleDeletions ipv6 (IPv6Rules st') = None"
proof -
  have inj: "s = spec" if "s \<in> set managedIPRuleSpecs" "spec \<in> set managedIPRuleSpecs" "spec_id s = spec_id spec" for s spec
    using that spec_ids_distinct by (auto simp: distinct_map dest: inj_onD)
  show ?thesis
    using derive_new_resources [OF assms] unfolding owned_only_new_def validate_deletions_iff
    by (metis inj)
qed

lemma profiles_distinct: "profile \<in> set managedIPRuleProfiles \<Longrightarrow> distinct profile"
  by (auto simp: managedIPRuleProfiles_def)

lemma hasAllManagedIPRuleIDs_iff:
  assumes "distinct ids"
  shows "hasAllManagedIPRuleIDs ids \<longleftrightarrow> (\<exists>profile\<in>set managedIPRuleProfiles. set ids = set profile)"
proof -
  have "length ids = length profile \<and> set profile \<subseteq> set ids \<longleftrightarrow> set ids = set profile"
    if "profile \<in> set managedIPRuleProfiles" for profile
    using assms profiles_distinct [OF that] by (metis List.finite_set card_subset_eq distinct_card order_refl)
  then show ?thesis
    by (auto simp: hasAllManagedIPRuleIDs_def list_ex_iff list_all_iff subset_iff)
qed

section \<open>Reading back printed rules\<close>

text \<open>A rule as \<^verbatim>\<open>ip rule show\<close> prints it: the priority, a colon, a tab and the words of the rule.\<close>

definition ip_rule_line :: "nat \<times> string list \<Rightarrow> string" where
  "ip_rule_line r = show_nat (fst r) @ CHR '':'' # CHR 0x09 # join_with '' '' (snd r)"

definition printable_rule :: "nat \<times> string list \<Rightarrow> bool" where
  "printable_rule r \<longleftrightarrow> int (fst r) < 2 ^ 63 \<and> snd r \<noteq> [] \<and> list_all (\<lambda>f. f \<noteq> [] \<and> no_space f) (snd r)"

lemma no_space_no_newline: "no_space f \<Longrightarrow> newline \<notin> set f"
proof
  assume f: "no_space f" "newline \<in> set f"
  then obtain a b where "f = a @ newline # b" by (meson split_list)
  then have "suffix (newline # b) f" by (auto simp: suffix_def)
  with f(1) have "lead_len space_encodings (newline # b) = 0" by (auto intro: no_space_suffix)
  then show False by (simp add: space_encodings_def)
qed

lemma no_space_head: "no_space f \<Longrightarrow> f \<noteq> [] \<Longrightarrow> \<not> re_space (hd f)"
  by (cases f) (auto simp: re_space_def space_encodings_def)

lemma ipRuleLinePattern_print:
  assumes "printable_rule r"
  shows "ipRuleLinePattern (ip_rule_line r) = Some (show_nat (fst r), join_with '' '' (snd r))"
proof -
  obtain f fs where f: "snd r = f # fs" "f \<noteq> []" "no_space f"
    using assms by (cases "snd r") (auto simp: printable_rule_def)
  then have j: "join_with '' '' (snd r) = hd f # tl (join_with '' '' (snd r))"
    by (cases f; cases fs) auto
  have sp: "\<not> re_space (hd f)" using f no_space_head by blast
  obtain d ds where d: "show_nat (fst r) = d # ds" by (cases "show_nat (fst r)") auto
  then have "is_digit d" using show_nat_digits [of "fst r"] by simp
  then have "\<not> re_space d" by (auto simp: is_digit_def re_space_def)
  then have strip: "dropWhile re_space (ip_rule_line r) = ip_rule_line r"
    by (simp add: ip_rule_line_def d)
  have colon: "\<not> is_digit CHR '':''" by (simp add: is_digit_def)
  have tab: "re_space CHR 0x09" by (simp add: re_space_def)
  have body: "dropWhile re_space (CHR 0x09 # join_with '' '' (snd r)) = join_with '' '' (snd r)"
    using sp tab by (subst j, subst (2) j) simp
  show ?thesis
    unfolding ipRuleLinePattern_def strip
    using show_nat_digits [of "fst r"] body j
    by (cases "join_with '' '' (snd r)") (simp_all add: Let_def ip_rule_line_def takeWhile_digits dropWhile_digits colon tab sp)
qed

lemma parse_rule_line_print:
  assumes "printable_rule r"
  shows "lines_at (parse_rule_line snapshot (ip_rule_line r)) p =
    lines_at snapshot p @ (if p = int (fst r) then [join_with '' '' (snd r)] else [])"
proof -
  have "Atoi (show_nat (fst r)) = (int (fst r), True)" "Fields (join_with '' '' (snd r)) = snd r"
    using assms by (simp_all add: printable_rule_def Atoi_show_nat Fields_join)
  then show ?thesis
    by (simp add: parse_rule_line_def ipRuleLinePattern_print [OF assms] lines_at_def)
qed

lemma parse_lines_print:
  "list_all printable_rule rs \<Longrightarrow>
   lines_at (foldl parse_rule_line snapshot (map ip_rule_line rs)) p =
     lines_at snapshot p @ map (\<lambda>r. join_with '' '' (snd r)) (filter (\<lambda>r. int (fst r) = p) rs)"
  by (induction rs arbitrary: snapshot) (auto simp: parse_rule_line_print)

lemma ip_rule_line_no_newline: "printable_rule r \<Longrightarrow> newline \<notin> set (ip_rule_line r)"
proof -
  assume r: "printable_rule r"
  have "newline \<notin> set (show_nat (fst r))"
    using show_nat_digits [of "fst r"] by (auto simp: list_all_iff is_digit_def)
  moreover have "newline \<notin> set (join_with '' '' (snd r))"
    using r set_join [of "'' ''" "snd r"] no_space_no_newline by (auto simp: printable_rule_def list_all_iff)
  ultimately show ?thesis by (simp add: ip_rule_line_def)
qed

section \<open>Sample states for the witnesses\<close>

definition sample_pending :: singboxRouteTableState where
  "sample_pending = \<lparr>Version = 2, Phase = ''pending'', ExpectIPv4 = True, ExpectIPv6 = False, NFTTableAbsent = True,
     BaselineIPv4Tables = [''7''], BaselineIPv6Tables = [], BaselineIPv4Rules = [], BaselineIPv6Rules = [],
     IPv4Tables = [], IPv6Tables = [], NFTTableHandle = [], NFTIncludeIdentity = [], IPv4Rules = [], IPv6Rules = []\<rparr>"

definition sample_ready :: singboxRouteTableState where
  "sample_ready = sample_pending\<lparr>Phase := ''ready'', IPv4Tables := [''100''], NFTTableHandle := ''12'',
     IPv4Rules := [''fallback'', ''input_mark'', ''output_mark'', ''redirect_nop'']\<rparr>"

definition sample_rules :: ipRuleSnapshot where
  "sample_rules = \<lparr>snap_lines =
     [(1, [''from all lookup 7'', ''from all lookup 100'']), (9000, [''from all fwmark 0x2024 goto 9002'']),
      (9001, [''from all fwmark 0x2023 lookup 2022'']), (9002, [''from all nop'']), (32768, [''from all lookup 2022''])]\<rparr>"

lemma sample_derive:
  "derivePendingSingboxOwnership sample_pending sample_rules \<lparr>snap_lines = []\<rparr> ''12'' True = Inr (sample_ready, True)"
  by code_simp
lemma sample_states_normal:
  "normalizeSingboxRouteTableState sample_pending = Inr sample_pending"
  "normalizeSingboxRouteTableState sample_ready = Inr sample_ready"
  by code_simp+

section \<open>Properties\<close>

text \<open>C7. Whatever ownership is derived for a pending state, the recorded route tables and policy
  rules are new: none is in the pre-start baseline, each table has its exact priority-1 rule in the
  snapshot, each rule is the only one at its priority there, and so the deletion guard accepts
  deleting them in that snapshot.\<close>

theorem derive_owns_only_new:
  assumes "derivePendingSingboxOwnership st0 ipv4 ipv6 h present = Inr (st', ready)"
  shows "owned_only_new ipv4 (BaselineIPv4Tables st') (BaselineIPv4Rules st') (IPv4Tables st') (IPv4Rules st') \<and>
    owned_only_new ipv6 (BaselineIPv6Tables st') (BaselineIPv6Rules st') (IPv6Tables st') (IPv6Rules st') \<and>
    validateManagedIPRuleDeletions ipv4 (IPv4Rules st') = None \<and>
    validateManagedIPRuleDeletions ipv6 (IPv6Rules st') = None"
  using derive_new_resources [OF assms] derived_rules_deletable [OF assms] by simp

theorem derive_owns_only_new_witness:
  "owned_only_new sample_rules [''7''] [] [''100''] [''fallback'', ''input_mark'', ''output_mark'', ''redirect_nop'']"
  using derive_owns_only_new [OF sample_derive] by (simp add: sample_ready_def sample_pending_def)

text \<open>C24. A derivation that reports readiness returns a state in phase ready that owns, for every expected
  address family, exactly one route table and a complete rule profile, has a table handle, shares
  nothing with the baseline, and is a fixed point of normalisation.\<close>

theorem derive_ready_sound:
  assumes "derivePendingSingboxOwnership st0 ipv4 ipv6 h present = Inr (st', True)"
  shows "Phase st' = singboxOwnershipReady \<and> ready_ownership st' \<and> normalizeSingboxRouteTableState st' = Inr st'"
  using assms
proof (rule derive_cases)
  fix st :: singboxRouteTableState and t4 r4 t6 r6
  let ?st1 = "st\<lparr>IPv4Tables := t4, IPv4Rules := r4, IPv6Tables := t6, IPv6Rules := r6,
        NFTTableHandle := (if NFTTableAbsent st \<and> present then h else NFTTableHandle st), Phase := singboxOwnershipReady\<rparr>"
  assume "True \<Longrightarrow> normalizeSingboxRouteTableState ?st1 = Inr st'"
  then have n: "normalizeSingboxRouteTableState ?st1 = Inr st'" by simp
  then have "Phase st' = singboxOwnershipReady"
    using clean_ownership_wf [of ?st1 st'] by (simp add: normalize_Inr_iff)
  with n show ?thesis
    using normalize_wf [OF n] resource_error_ready [of st'] normalize_fixed [of st'] by simp
qed


theorem derive_ready_sound_witness:
  "ready_ownership sample_ready \<and> normalizeSingboxRouteTableState sample_ready = Inr sample_ready"
  using derive_ready_sound [OF sample_derive] by simp

text \<open>Deriving ownership fails only because the persisted state does not normalise or is not
  pending, because a family's snapshot is refused, or because the nftables handle that was read is
  not a positive 64-bit number; the final normalisation adds no other failure.\<close>

theorem derive_errors:
  assumes "derivePendingSingboxOwnership st0 ipv4 ipv6 h present = Inl e"
  shows "normalizeSingboxRouteTableState st0 = Inl e \<or> e = NotPending \<or>
    (\<exists>d. e = DeriveIPv4 d \<or> e = DeriveIPv6 d) \<or>
    present \<and> h \<noteq> [] \<and> \<not> (TrimSpace h \<noteq> [] \<and> valid_handle (TrimSpace h))"
proof (rule ccontr)
  assume neg: "\<not> ?thesis"
  obtain st where st: "normalizeSingboxRouteTableState st0 = Inr st"
    using assms neg by (cases "normalizeSingboxRouteTableState st0") (auto simp: derivePendingSingboxOwnership_def)
  have ph: "Phase st = singboxOwnershipPending"
    using assms neg st by (auto simp: derivePendingSingboxOwnership_def split: if_splits)
  note wf = normalize_wf [OF st]
  have h0: "NFTTableHandle st = []" and ab: "NFTTableAbsent st"
    using wf ph resource_error_pending [of st] by (auto simp: pending_ownership_def header_error_def split: if_splits)
  obtain t4 r4 where f4: "deriveFamily (ExpectIPv4 st) ipv4 (BaselineIPv4Tables st) (BaselineIPv4Rules st) = Inr (t4, r4)"
    using assms neg st ph by (cases "deriveFamily (ExpectIPv4 st) ipv4 (BaselineIPv4Tables st) (BaselineIPv4Rules st)")
      (auto simp: derivePendingSingboxOwnership_def)
  obtain t6 r6 where f6: "deriveFamily (ExpectIPv6 st) ipv6 (BaselineIPv6Tables st) (BaselineIPv6Rules st) = Inr (t6, r6)"
    using assms neg st ph f4 by (cases "deriveFamily (ExpectIPv6 st) ipv6 (BaselineIPv6Tables st) (BaselineIPv6Rules st)")
      (auto simp: derivePendingSingboxOwnership_def)
  from assms st ph f4 f6 h0 ab have c: "\<not> ExpectIPv4 st \<or> length t4 = 1 \<and> hasAllManagedIPRuleIDs r4"
      "\<not> ExpectIPv6 st \<or> length t6 = 1 \<and> hasAllManagedIPRuleIDs r6" "present" "h \<noteq> []"
    and n: "normalizeSingboxRouteTableState (st\<lparr>IPv4Tables := t4, IPv4Rules := r4, IPv6Tables := t6, IPv6Rules := r6,
      NFTTableHandle := h, Phase := singboxOwnershipReady\<rparr>) = Inl e"
    by (auto simp: derivePendingSingboxOwnership_def Let_def go_result split: if_splits)
  with neg have "TrimSpace h \<noteq> []" "valid_handle (TrimSpace h)" by auto
  from ready_resources [OF _ _ _ ph f4 f6 c(1,2) this] wf n show False by auto
qed


theorem derive_errors_witness:
  "derivePendingSingboxOwnership sample_ready sample_rules \<lparr>snap_lines = []\<rparr> [] False = Inl NotPending \<and>
   (normalizeSingboxRouteTableState sample_ready = Inl NotPending \<or> NotPending = NotPending \<or>
    (\<exists>d. NotPending = DeriveIPv4 d \<or> NotPending = DeriveIPv6 d) \<or>
    False \<and> [] \<noteq> [] \<and> \<not> (TrimSpace [] \<noteq> [] \<and> valid_handle (TrimSpace [])))"
proof -
  have d: "derivePendingSingboxOwnership sample_ready sample_rules \<lparr>snap_lines = []\<rparr> [] False = Inl NotPending"
    by code_simp
  from d derive_errors [OF d] show ?thesis by simp
qed

text \<open>Normalising a persisted ownership state is idempotent: what it returns, it accepts
  unchanged, so a state that was written normalised is read back as it is.\<close>

theorem normalize_idempotent:
  "normalizeSingboxRouteTableState st = Inr st' \<Longrightarrow> normalizeSingboxRouteTableState st' = Inr st'"
  using normalize_wf normalize_fixed by blast


theorem normalize_idempotent_witness:
  "normalizeSingboxRouteTableState sample_pending = Inr sample_pending"
  by (rule normalize_idempotent [OF sample_states_normal(1)])

text \<open>The auto-redirect signature is recognised exactly when one of the rule profiles is
  present: each of its rules is alone at its priority and no managed rule outside it is present.\<close>

theorem auto_redirect_signature_iff:
  "hasSingboxAutoRedirectSignature snapshot \<longleftrightarrow>
     (\<exists>profile\<in>set managedIPRuleProfiles. set (managedRuleIDs snapshot) = set profile \<and>
       (\<forall>spec\<in>set managedIPRuleSpecs. spec_id spec \<in> set profile \<longrightarrow>
          lines_at snapshot (spec_priority spec) = [spec_line spec]))"
  (is "?l \<longleftrightarrow> ?r")
proof -
  have present: "lines_at snapshot (spec_priority spec) \<noteq> []"
    if "spec \<in> set managedIPRuleSpecs" "spec_id spec \<in> set (managedRuleIDs snapshot)" for spec
  proof -
    from that obtain s where "s \<in> set managedIPRuleSpecs" "spec_id s = spec_id spec"
      "hasExactRule snapshot (spec_priority s) (spec_line s)" by (auto simp: managedRuleIDs_iff)
    moreover from this that have "s = spec" using spec_ids_distinct by (auto simp: distinct_map dest: inj_onD)
    ultimately show ?thesis by (auto simp: hasExactRule_def)
  qed
  have "?l \<longleftrightarrow> (\<exists>profile\<in>set managedIPRuleProfiles. set (managedRuleIDs snapshot) = set profile) \<and>
      validateManagedIPRuleDeletions snapshot (managedRuleIDs snapshot) = None"
    by (simp add: hasSingboxAutoRedirectSignature_def Let_def hasAllManagedIPRuleIDs_iff managedRuleIDs_distinct)
  also have "\<dots> \<longleftrightarrow> ?r" unfolding validate_deletions_iff using present by metis
  finally show ?thesis .
qed

theorem auto_redirect_signature_iff_witness:
  "hasSingboxAutoRedirectSignature sample_rules \<longleftrightarrow>
     (\<exists>profile\<in>set managedIPRuleProfiles. set (managedRuleIDs sample_rules) = set profile \<and>
       (\<forall>spec\<in>set managedIPRuleSpecs. spec_id spec \<in> set profile \<longrightarrow>
          lines_at sample_rules (spec_priority spec) = [spec_line spec]))"
  by (rule auto_redirect_signature_iff)

text \<open>C14. Promoting a pending ownership file is atomic: whichever of the two writes fails and at
  whichever point, the file afterwards holds the pending or the ready state; it holds the ready one
  when no error is returned and the pending one when an error is returned and the rollback succeeded.\<close>

theorem promote_atomic:
  assumes "normalizeSingboxRouteTableState pending = Inr pending" "normalizeSingboxRouteTableState ready = Inr ready"
    and "promotePendingSingboxRouteTableState io1 io2 (FileState pending) pending ready = (f', err)"
  shows "(f' = FileState pending \<or> f' = FileState ready) \<and> (err = None \<longrightarrow> f' = FileState ready) \<and>
    (err \<noteq> None \<longrightarrow> io2 = WriteOk \<longrightarrow> f' = FileState pending)"
proof -
  have v: "pending\<lparr>Version := singboxRouteTableStateVersion\<rparr> = pending" "ready\<lparr>Version := singboxRouteTableStateVersion\<rparr> = ready"
    using normalize_wf [OF assms(1)] normalize_wf [OF assms(2)]
    by (auto simp: header_error_def split: if_splits)
  show ?thesis
    using assms v
    by (cases io1; cases io2) (auto simp: promotePendingSingboxRouteTableState_def writeSingboxRouteTableState_def)
qed


theorem promote_atomic_witness:
  "fst (promotePendingSingboxRouteTableState WriteFailsAtDirSync WriteOk (FileState sample_pending) sample_pending sample_ready) =
     FileState sample_pending"
proof -
  let ?p = "promotePendingSingboxRouteTableState WriteFailsAtDirSync WriteOk (FileState sample_pending) sample_pending sample_ready"
  have e: "snd ?p = Some SyncStateDirFailed" by code_simp
  have "?p = (fst ?p, snd ?p)" by simp
  from promote_atomic [OF sample_states_normal this] e show ?thesis by simp
qed

text \<open>Discarding changes the ownership file only by removing it, and only when the file reads
  as a pending state: a ready state, which records resources still to be cleaned up, is never lost.\<close>

theorem discard_keeps_ready:
  assumes "discardPendingSingboxRouteTableState io f = (f', err)" "f' \<noteq> f"
  shows "\<exists>st. readSingboxRouteTableState f = Inr (Some st) \<and> Phase st = singboxOwnershipPending \<and> f' = FileAbsent"
  using assms
  by (auto simp: discardPendingSingboxRouteTableState_def removeSingboxRouteTableState_def
      split: sum.splits option.splits if_splits remove_outcome.splits)


theorem discard_keeps_ready_witness:
  "\<exists>st. readSingboxRouteTableState (FileState sample_pending) = Inr (Some st) \<and> Phase st = singboxOwnershipPending \<and>
     FileAbsent = FileAbsent"
proof -
  have d: "discardPendingSingboxRouteTableState RemoveOk (FileState sample_pending) = (FileAbsent, None)" by code_simp
  show ?thesis by (rule discard_keeps_ready [OF d]) simp
qed

text \<open>C27. Reading back a printed rule list is exact: whatever well-formed rules the kernel tool
  prints, the parsed snapshot holds at each priority exactly the printed rules, in order.\<close>

theorem parse_printed_rules:
  assumes "list_all printable_rule rs"
  shows "lines_at (parseIPRuleSnapshot (join_with [newline] (map ip_rule_line rs))) p =
    map (\<lambda>r. join_with '' '' (snd r)) (filter (\<lambda>r. int (fst r) = p) rs)"
proof (cases "rs = []")
  case True
  then show ?thesis
    by (simp add: parseIPRuleSnapshot_def parse_rule_line_def ipRuleLinePattern_def lines_at_def)
next
  case False
  have "split_char newline (join_with [newline] (map ip_rule_line rs)) = map ip_rule_line rs"
    using False assms by (intro split_char_join) (auto simp: list_all_iff ip_rule_line_no_newline)
  then show ?thesis
    using parse_lines_print [OF assms, of "\<lparr>snap_lines = []\<rparr>"]
    by (simp add: parseIPRuleSnapshot_def lines_at_def)
qed


theorem parse_printed_rules_witness:
  "lines_at (parseIPRuleSnapshot (join_with [newline] (map ip_rule_line
     [(0, [''from'', ''all'', ''lookup'', ''local'']), (9002, [''from'', ''all'', ''nop''])]))) 9002 = [''from all nop'']"
proof -
  let ?rs = "[(0, [''from'', ''all'', ''lookup'', ''local'']), (9002, [''from'', ''all'', ''nop''])]"
  have "list_all printable_rule ?rs" by (simp add: printable_rule_def space_encodings_def)
  from parse_printed_rules [OF this, of 9002] show ?thesis by simp
qed

end
