(* ===== verification/Outbound_Graph.thy ===== *)
theory Outbound_Graph
  imports Go_Base
begin

text \<open>
  The outbound graph of a generated sing-box configuration and the DNS leak check
  (\<^verbatim>\<open>hasUsableNonDirectOutboundPath\<close>, \<^verbatim>\<open>hasDirectOutboundPath\<close>, \<^verbatim>\<open>outboundMemberTags\<close> and
  \<^verbatim>\<open>validateDNSDetourPaths\<close> of \<^verbatim>\<open>src/backend/internal/service/config_generator.go\<close>).  Outbounds
  and endpoints share one namespace of tags; a group outbound names its members.  Both searches are
  compared with path and reachability notions over the member relation.
\<close>

section \<open>Model\<close>

text \<open>\<^verbatim>\<open>outboundMemberTags\<close>: a slice of strings as it is, of a mixed slice the non-empty strings.\<close>

fun string_members :: "goval list \<Rightarrow> string list" where
  "string_members [] = []"
| "string_members (VStr s # vs) = (if s \<noteq> [] then s # string_members vs else string_members vs)"
| "string_members (_ # vs) = string_members vs"

fun outboundMemberTags :: "goval \<Rightarrow> string list" where
  "outboundMemberTags (VStrList members) = members"
| "outboundMemberTags (VList members) = string_members members"
| "outboundMemberTags _ = []"

type_synonym tag_map = "(string \<times> gomap) list"

text \<open>The map \<^verbatim>\<open>byTag\<close>: a later outbound with the same tag replaces an earlier one.\<close>

fun index_by_tag :: "bool \<Rightarrow> tag_map \<Rightarrow> goval list \<Rightarrow> tag_map" where
  "index_by_tag empty_too m [] = m"
| "index_by_tag empty_too m (VMap ob # items) =
     (case map_of ob ''tag'' of
        Some (VStr tag) \<Rightarrow>
          index_by_tag empty_too (if tag \<noteq> [] \<or> empty_too then map_put tag ob m else m) items
      | _ \<Rightarrow> index_by_tag empty_too m items)"
| "index_by_tag empty_too m (_ # items) = index_by_tag empty_too m items"

definition outbound_type :: "gomap \<Rightarrow> string" where
  "outbound_type ob = as_string (map_get ob ''type'')"

definition outbound_members :: "gomap \<Rightarrow> string list" where
  "outbound_members ob = outboundMemberTags (map_get ob ''outbounds'')"

text \<open>
  The closure \<^verbatim>\<open>hasPath\<close>: \<open>visiting\<close> holds the tags of the calls that are still open, since each
  call deletes its tag again when it returns.
\<close>

function hasPath :: "tag_map \<Rightarrow> string list \<Rightarrow> string \<Rightarrow> bool" where
  "hasPath byTag visiting tag =
     (if tag = [] \<or> tag = ''direct'' \<or> tag = ''block'' \<or> tag = ''reject'' \<or> tag \<in> set visiting then False
      else case map_of byTag tag of
        None \<Rightarrow> False
      | Some outbound \<Rightarrow>
          (if outbound_type outbound \<in> {''direct'', ''block'', ''reject''} then False
           else if outbound_members outbound = [] then outbound_type outbound \<notin> {''selector'', ''urltest''}
           else list_ex (\<lambda>member. hasPath byTag (tag # visiting) member) (outbound_members outbound)))"
  by pat_completeness auto
termination
proof (relation "measure (\<lambda>(byTag, visiting, tag). card (set (map fst byTag) - set visiting))", goal_cases)
  case 1
  show ?case by simp
next
  case (2 byTag visiting tag outbound member)
  then have "tag \<in> set (map fst byTag) - set visiting"
    using map_of_SomeD by force
  then have "set (map fst byTag) - set (tag # visiting) \<subset> set (map fst byTag) - set visiting"
    by auto
  then show ?case by (auto intro: psubset_card_mono)
qed

declare hasPath.simps [simp del]

definition hasUsableNonDirectOutboundPath :: "goval list \<Rightarrow> goval list \<Rightarrow> string list \<Rightarrow> bool" where
  "hasUsableNonDirectOutboundPath outbounds endpoints rootTags =
     (let byTag = index_by_tag False [] (outbounds @ endpoints)
      in list_ex (hasPath byTag []) rootTags)"

text \<open>
  The closure \<^verbatim>\<open>reachesDirect\<close> shares one \<open>visited\<close> set between all its calls and stops at the first
  success; its call stack is the list of tags still to be tried.
\<close>

definition members_at :: "tag_map \<Rightarrow> string \<Rightarrow> string list" where
  "members_at byTag tag = (case map_of byTag tag of None \<Rightarrow> [] | Some ob \<Rightarrow> outbound_members ob)"

definition typed_direct :: "tag_map \<Rightarrow> string \<Rightarrow> bool" where
  "typed_direct byTag tag \<longleftrightarrow>
     (case map_of byTag tag of None \<Rightarrow> False | Some ob \<Rightarrow> map_get ob ''type'' = VStr ''direct'')"

function reachesDirect :: "tag_map \<Rightarrow> string list \<Rightarrow> string list \<Rightarrow> bool" where
  "reachesDirect byTag visited [] = False"
| "reachesDirect byTag visited (tag # stack) =
     (if tag = ''direct'' then True
      else if tag \<in> set visited then reachesDirect byTag visited stack
      else if typed_direct byTag tag then True
      else reachesDirect byTag (tag # visited) (members_at byTag tag @ stack))"
  by pat_completeness auto
termination
proof (relation "measures [\<lambda>(byTag, visited, stack). card (set (map fst byTag) - set visited),
    \<lambda>(byTag, visited, stack). length stack]", goal_cases)
  case 1
  show ?case by simp
next
  case (2 byTag visited tag stack)
  then show ?case by simp
next
  case (3 byTag visited tag stack)
  let ?K = "set (map fst byTag)"
  show ?case
  proof (cases "tag \<in> ?K")
    case True
    with 3 have "?K - set (tag # visited) \<subset> ?K - set visited" by auto
    then have "card (?K - set (tag # visited)) < card (?K - set visited)"
      by (auto intro: psubset_card_mono)
    then show ?thesis by simp
  next
    case False
    then have "members_at byTag tag = []"
      using map_of_eq_None_iff [of byTag tag] by (simp add: members_at_def)
    moreover from False have "?K - set (tag # visited) = ?K - set visited" by auto
    ultimately show ?thesis by simp
  qed
qed

definition hasDirectOutboundPath :: "goval list \<Rightarrow> goval list \<Rightarrow> string \<Rightarrow> bool" where
  "hasDirectOutboundPath outbounds endpoints rootTag =
     reachesDirect (index_by_tag True [] (outbounds @ endpoints)) [] [rootTag]"

datatype dns_detour_error =
    DNSServersInvalid
  | DetourInvalid string
  | DetourForbidden string string
  | DetourNoProxyPath string string
  | DetourHasDirect string string

definition server_label :: "gomap \<Rightarrow> string" where
  "server_label server =
     (let tag = as_string (map_get server ''tag'') in if tag = [] then ''<unknown>'' else tag)"

fun detour_errors :: "goval list \<Rightarrow> goval list \<Rightarrow> gomap list \<Rightarrow> dns_detour_error option" where
  "detour_errors outbounds endpoints [] = None"
| "detour_errors outbounds endpoints (server # servers) =
     (case map_of server ''detour'' of
        None \<Rightarrow> detour_errors outbounds endpoints servers
      | Some (VStr detour) \<Rightarrow>
          (if detour = [] \<or> detour \<noteq> TrimSpace detour then Some (DetourInvalid (server_label server))
           else if detour = ''direct'' then detour_errors outbounds endpoints servers
           else if detour = ''block'' \<or> detour = ''reject'' then Some (DetourForbidden (server_label server) detour)
           else if \<not> hasUsableNonDirectOutboundPath outbounds endpoints [detour]
             then Some (DetourNoProxyPath (server_label server) detour)
           else if hasDirectOutboundPath outbounds endpoints detour
             then Some (DetourHasDirect (server_label server) detour)
           else detour_errors outbounds endpoints servers)
      | Some _ \<Rightarrow> Some (DetourInvalid (server_label server)))"

definition validateDNSDetourPaths :: "gomap \<Rightarrow> goval list \<Rightarrow> goval list \<Rightarrow> dns_detour_error option" where
  "validateDNSDetourPaths dns outbounds endpoints =
     (case map_get dns ''servers'' of
        VMapList servers \<Rightarrow> detour_errors outbounds endpoints servers
      | _ \<Rightarrow> Some DNSServersInvalid)"

section \<open>Usable paths\<close>

definition refused_tag :: "string \<Rightarrow> bool" where
  "refused_tag tag \<longleftrightarrow> tag = [] \<or> tag = ''direct'' \<or> tag = ''block'' \<or> tag = ''reject''"

definition node_ok :: "tag_map \<Rightarrow> string \<Rightarrow> bool" where
  "node_ok byTag tag \<longleftrightarrow> \<not> refused_tag tag \<and>
     (case map_of byTag tag of None \<Rightarrow> False | Some ob \<Rightarrow> outbound_type ob \<notin> {''direct'', ''block'', ''reject''})"

definition proxy_leaf :: "tag_map \<Rightarrow> string \<Rightarrow> bool" where
  "proxy_leaf byTag tag \<longleftrightarrow> node_ok byTag tag \<and> members_at byTag tag = [] \<and>
     (case map_of byTag tag of None \<Rightarrow> False | Some ob \<Rightarrow> outbound_type ob \<notin> {''selector'', ''urltest''})"

text \<open>A path of admissible tags, each a member of the one before, that ends in a real proxy.\<close>

fun proxy_path :: "tag_map \<Rightarrow> string list \<Rightarrow> bool" where
  "proxy_path byTag [] = False"
| "proxy_path byTag [t] = proxy_leaf byTag t"
| "proxy_path byTag (t # u # ts) \<longleftrightarrow>
     node_ok byTag t \<and> u \<in> set (members_at byTag t) \<and> proxy_path byTag (u # ts)"

lemma hasPath_unfold:
  "hasPath byTag visiting tag \<longleftrightarrow> tag \<notin> set visiting \<and> node_ok byTag tag \<and>
     (if members_at byTag tag = [] then proxy_leaf byTag tag
      else \<exists>m\<in>set (members_at byTag tag). hasPath byTag (tag # visiting) m)"
  by (subst hasPath.simps)
    (auto simp: node_ok_def refused_tag_def proxy_leaf_def members_at_def list_ex_iff split: option.splits)

lemma proxy_path_drop: "proxy_path byTag (as @ y # bs) \<Longrightarrow> proxy_path byTag (y # bs)"
  by (induction as rule: induct_list012) auto

lemma proxy_path_splice:
  "proxy_path byTag (as @ y # bs) \<Longrightarrow> proxy_path byTag (y # cs) \<Longrightarrow> proxy_path byTag (as @ y # cs)"
  by (induction as rule: induct_list012) auto

lemma proxy_path_distinct:
  assumes "proxy_path byTag (t # ts)"
  shows "\<exists>us. proxy_path byTag (t # us) \<and> distinct (t # us)"
  using assms
proof (induction "length ts" arbitrary: ts rule: less_induct)
  case less
  show ?case
  proof (cases "distinct (t # ts)")
    case True
    with less.prems show ?thesis by blast
  next
    case False
    then obtain as y bs cs where dup: "t # ts = as @ [y] @ bs @ [y] @ cs"
      using not_distinct_decomp by blast
    then have p: "proxy_path byTag (as @ y # cs)"
      using less.prems proxy_path_drop [of byTag "as @ y # bs" y cs] proxy_path_splice [of byTag as y "bs @ y # cs" cs]
      by simp
    obtain us where us: "as @ y # cs = t # us" using dup by (cases as) auto
    have "length (t # ts) = length (as @ y # cs) + length bs + 1" by (simp add: dup)
    with us have "length us < length ts" by simp
    with less.hyps p us show ?thesis by simp
  qed
qed

lemma hasPath_path: "hasPath byTag visiting tag \<Longrightarrow> \<exists>ts. proxy_path byTag (tag # ts)"
proof (induction byTag visiting tag rule: hasPath.induct)
  case (1 byTag visiting tag)
  show ?case
  proof (cases "members_at byTag tag = []")
    case True
    with "1.prems" have "proxy_path byTag [tag]" by (simp add: hasPath_unfold [of byTag visiting])
    then show ?thesis by blast
  next
    case False
    with "1.prems" obtain m where m: "tag \<notin> set visiting" "node_ok byTag tag" "m \<in> set (members_at byTag tag)"
        "hasPath byTag (tag # visiting) m"
      by (auto simp: hasPath_unfold [of byTag visiting])
    from m(2) obtain ob where ob: "map_of byTag tag = Some ob" "outbound_type ob \<notin> {''direct'', ''block'', ''reject''}"
      by (auto simp: node_ok_def split: option.splits)
    with m False obtain ts where "proxy_path byTag (m # ts)"
      using "1.IH" [of ob m] by (auto simp: node_ok_def refused_tag_def members_at_def)
    with m have "proxy_path byTag (tag # m # ts)" by simp
    then show ?thesis by blast
  qed
qed

lemma path_hasPath:
  "proxy_path byTag (tag # ts) \<Longrightarrow> distinct (tag # ts) \<Longrightarrow> set (tag # ts) \<inter> set visiting = {} \<Longrightarrow>
   hasPath byTag visiting tag"
proof (induction ts arbitrary: tag visiting)
  case Nil
  then show ?case by (simp add: hasPath_unfold [of byTag visiting] proxy_leaf_def)
next
  case (Cons u us)
  then have "hasPath byTag (tag # visiting) u" by (intro Cons.IH) auto
  with Cons.prems show ?case
    by (auto simp: hasPath_unfold [of byTag visiting tag])
qed

text \<open>The search with its guard against cycles finds a path exactly when there is one.\<close>

lemma hasPath_iff: "hasPath byTag [] tag \<longleftrightarrow> (\<exists>ts. proxy_path byTag (tag # ts))"
  using hasPath_path path_hasPath proxy_path_distinct by (metis Int_empty_right list.set(1))

section \<open>Reaching a direct outbound\<close>

definition member_step :: "tag_map \<Rightarrow> string \<Rightarrow> string \<Rightarrow> bool" where
  "member_step byTag t u \<longleftrightarrow> u \<in> set (members_at byTag t)"

definition is_direct :: "tag_map \<Rightarrow> string \<Rightarrow> bool" where
  "is_direct byTag t \<longleftrightarrow> t = ''direct'' \<or> typed_direct byTag t"

definition can_reach_direct :: "tag_map \<Rightarrow> string \<Rightarrow> bool" where
  "can_reach_direct byTag t \<longleftrightarrow> (\<exists>u. (member_step byTag)\<^sup>*\<^sup>* t u \<and> is_direct byTag u)"

lemma can_reach_direct_member:
  "m \<in> set (members_at byTag t) \<Longrightarrow> can_reach_direct byTag m \<Longrightarrow> can_reach_direct byTag t"
  unfolding can_reach_direct_def member_step_def by (metis converse_rtranclp_into_rtranclp)

lemma reachesDirect_sound: "reachesDirect byTag visited stack \<Longrightarrow> \<exists>t\<in>set stack. can_reach_direct byTag t"
proof (induction byTag visited stack rule: reachesDirect.induct)
  case (1 byTag visited)
  then show ?case by simp
next
  case (2 byTag visited tag stack)
  have here: "is_direct byTag tag \<Longrightarrow> can_reach_direct byTag tag"
    by (auto simp: can_reach_direct_def)
  from 2 here show ?case
    by (auto simp: is_direct_def split: if_splits dest: can_reach_direct_member)
qed

definition search_closed :: "tag_map \<Rightarrow> string list \<Rightarrow> string list \<Rightarrow> bool" where
  "search_closed byTag visited stack \<longleftrightarrow>
     (\<forall>v\<in>set visited. \<not> is_direct byTag v \<and> set (members_at byTag v) \<subseteq> set visited \<union> set stack)"

lemma closed_unreachable:
  assumes "search_closed byTag visited []" "t \<in> set visited"
  shows "\<not> can_reach_direct byTag t"
proof -
  have "u \<in> set visited" if "(member_step byTag)\<^sup>*\<^sup>* t u" for u
    using that
  proof (induction rule: rtranclp_induct)
    case base
    show ?case by (rule assms(2))
  next
    case (step y z)
    then show ?case using assms(1) by (auto simp: search_closed_def member_step_def)
  qed
  with assms(1) show ?thesis by (auto simp: can_reach_direct_def search_closed_def)
qed

lemma reachesDirect_complete:
  "\<not> reachesDirect byTag visited stack \<Longrightarrow> search_closed byTag visited stack \<Longrightarrow>
   t \<in> set visited \<union> set stack \<Longrightarrow> \<not> can_reach_direct byTag t"
proof (induction byTag visited stack rule: reachesDirect.induct)
  case (1 byTag visited)
  then show ?case by (auto simp: closed_unreachable)
next
  case (2 byTag visited tag stack)
  show ?case
  proof (cases "tag \<in> set visited")
    case True
    with "2.prems"(2) have "search_closed byTag visited stack" by (auto simp: search_closed_def)
    with True 2 show ?thesis by (auto split: if_splits)
  next
    case False
    with "2.prems"(1) have nd: "\<not> is_direct byTag tag"
      and r: "\<not> reachesDirect byTag (tag # visited) (members_at byTag tag @ stack)"
      by (auto simp: is_direct_def split: if_splits)
    from nd "2.prems"(2) have "search_closed byTag (tag # visited) (members_at byTag tag @ stack)"
      by (auto simp: search_closed_def)
    with "2.IH"(2) False nd r "2.prems"(3) show ?thesis by (auto simp: is_direct_def)
  qed
qed

lemma reachesDirect_iff: "reachesDirect byTag [] [t] \<longleftrightarrow> can_reach_direct byTag t"
proof
  assume "reachesDirect byTag [] [t]"
  then show "can_reach_direct byTag t" using reachesDirect_sound by fastforce
next
  assume r: "can_reach_direct byTag t"
  show "reachesDirect byTag [] [t]"
  proof (rule ccontr)
    assume "\<not> reachesDirect byTag [] [t]"
    then have "\<not> can_reach_direct byTag t"
      by (rule reachesDirect_complete) (simp_all add: search_closed_def)
    with r show False by simp
  qed
qed

section \<open>Properties\<close>

abbreviation all_tags :: "goval list \<Rightarrow> goval list \<Rightarrow> tag_map" where
  "all_tags outbounds endpoints \<equiv> index_by_tag True [] (outbounds @ endpoints)"

abbreviation named_tags :: "goval list \<Rightarrow> goval list \<Rightarrow> tag_map" where
  "named_tags outbounds endpoints \<equiv> index_by_tag False [] (outbounds @ endpoints)"

text \<open>When a resolver's detour is acceptable: plain direct, or a tag from which a real proxy can be
  reached and no direct outbound can.\<close>

definition detour_ok :: "goval list \<Rightarrow> goval list \<Rightarrow> goval \<Rightarrow> bool" where
  "detour_ok outbounds endpoints v \<longleftrightarrow>
     (\<exists>detour. v = VStr detour \<and> detour \<noteq> [] \<and> TrimSpace detour = detour \<and>
        (detour = ''direct'' \<or>
         detour \<notin> {''block'', ''reject''} \<and>
         (\<exists>ts. proxy_path (named_tags outbounds endpoints) (detour # ts)) \<and>
         \<not> can_reach_direct (all_tags outbounds endpoints) detour))"

lemma usable_iff:
  "hasUsableNonDirectOutboundPath outbounds endpoints rootTags \<longleftrightarrow>
     (\<exists>root\<in>set rootTags. \<exists>ts. proxy_path (named_tags outbounds endpoints) (root # ts))"
  by (simp add: hasUsableNonDirectOutboundPath_def Let_def list_ex_iff hasPath_iff)

lemma direct_iff:
  "hasDirectOutboundPath outbounds endpoints t \<longleftrightarrow> can_reach_direct (all_tags outbounds endpoints) t"
  by (simp only: hasDirectOutboundPath_def reachesDirect_iff)

lemma detour_errors_iff:
  "detour_errors outbounds endpoints servers = None \<longleftrightarrow>
     (\<forall>server\<in>set servers. \<forall>v. map_of server ''detour'' = Some v \<longrightarrow> detour_ok outbounds endpoints v)"
proof (induction servers)
  case Nil
  then show ?case by simp
next
  case (Cons server servers)
  have step: "detour_errors outbounds endpoints (server # servers) = None \<longleftrightarrow>
      (\<forall>v. map_of server ''detour'' = Some v \<longrightarrow> detour_ok outbounds endpoints v) \<and>
      detour_errors outbounds endpoints servers = None"
    by (auto simp: detour_ok_def usable_iff direct_iff split: option.splits goval.splits if_splits)
  show ?case by (simp only: step Cons.IH list.set ball_simps)
qed

text \<open>C8. The DNS leak check is exact: it accepts a DNS section exactly when its server list is
  well formed and every detour in it is a trimmed non-empty text which is either the explicit choice
  \<open>direct\<close> or a tag other than \<open>block\<close> and \<open>reject\<close> from which some proxy can be reached through group
  members and from which no chain of members reaches a direct outbound.\<close>

theorem dns_detours_leak_free:
  "validateDNSDetourPaths dns outbounds endpoints = None \<longleftrightarrow>
     (\<exists>servers. map_get dns ''servers'' = VMapList servers \<and>
        (\<forall>server\<in>set servers. \<forall>v. map_of server ''detour'' = Some v \<longrightarrow>
           (\<exists>detour. v = VStr detour \<and> detour \<noteq> [] \<and> TrimSpace detour = detour \<and>
              (detour \<noteq> ''direct'' \<longrightarrow>
                 detour \<notin> {''block'', ''reject''} \<and>
                 (\<exists>ts. proxy_path (named_tags outbounds endpoints) (detour # ts)) \<and>
                 \<not> can_reach_direct (all_tags outbounds endpoints) detour))))"
proof -
  have "detour_ok outbounds endpoints v \<longleftrightarrow>
      (\<exists>detour. v = VStr detour \<and> detour \<noteq> [] \<and> TrimSpace detour = detour \<and>
         (detour \<noteq> ''direct'' \<longrightarrow>
            detour \<notin> {''block'', ''reject''} \<and>
            (\<exists>ts. proxy_path (named_tags outbounds endpoints) (detour # ts)) \<and>
            \<not> can_reach_direct (all_tags outbounds endpoints) detour))" for v
    unfolding detour_ok_def by blast
  then show ?thesis by (auto simp: validateDNSDetourPaths_def detour_errors_iff split: goval.splits)
qed

definition sample_outbounds :: "goval list" where
  "sample_outbounds =
     [VMap [(''type'', VStr ''direct''), (''tag'', VStr ''direct'')],
      VMap [(''type'', VStr ''trojan''), (''tag'', VStr ''hk'')],
      VMap [(''type'', VStr ''selector''), (''tag'', VStr ''proxy''), (''outbounds'', VStrList [''loop'', ''hk''])],
      VMap [(''type'', VStr ''selector''), (''tag'', VStr ''loop''), (''outbounds'', VList [VStr ''proxy''])],
      VMap [(''type'', VStr ''selector''), (''tag'', VStr ''leaky''), (''outbounds'', VStrList [''hk'', ''direct''])]]"

theorem dns_detours_leak_free_witness:
  "(\<exists>ts. proxy_path (named_tags sample_outbounds []) (''proxy'' # ts)) \<and> \<not> can_reach_direct (all_tags sample_outbounds []) ''proxy''"
proof -
  have "validateDNSDetourPaths [(''servers'', VMapList [[(''tag'', VStr ''d''), (''detour'', VStr ''proxy'')]])] sample_outbounds [] = None"
    by code_simp
  then show ?thesis unfolding dns_detours_leak_free by (simp add: map_get_def)
qed

text \<open>C26. The cycle-guarded search for a usable proxy is correct on every outbound graph, cyclic
  ones included: it succeeds exactly when one of the root tags starts a path of group members that
  ends in an outbound which is neither a group nor direct, block or reject.\<close>

theorem usable_path_correct:
  "hasUsableNonDirectOutboundPath outbounds endpoints rootTags \<longleftrightarrow>
     (\<exists>root\<in>set rootTags. \<exists>ts. proxy_path (named_tags outbounds endpoints) (root # ts))"
  by (rule usable_iff)

text \<open>The depth-first search for a direct outbound is correct on every outbound graph: it
  succeeds exactly when some chain of members from the root tag reaches the tag \<open>direct\<close> or an
  outbound of type direct.\<close>

theorem direct_path_correct:
  "hasDirectOutboundPath outbounds endpoints rootTag \<longleftrightarrow>
     can_reach_direct (all_tags outbounds endpoints) rootTag"
  by (rule direct_iff)

end
