(* ===== verification/Config_Migration.thy ===== *)
theory Config_Migration
  imports Go_Base
begin

text \<open>
  Migration of the active sing-box configuration
  (\<^verbatim>\<open>src/backend/internal/service/config_migration.go\<close>, \<^verbatim>\<open>core_config_compatibility.go\<close> and the
  version functions of \<^verbatim>\<open>version.go\<close>).  Every step edits the decoded JSON object in place and
  counts its edits; here a step returns the edited object with its count, and a nested object or
  list that the source edits through a reference is written back into its parent.  The bytes of a
  configuration are represented by what \<^verbatim>\<open>json.Unmarshal\<close> reads from them.
\<close>

section \<open>Versions\<close>

text \<open>\<^verbatim>\<open>[3]int\<close> with the ignored errors of \<^verbatim>\<open>strconv.Atoi\<close>, and the prerelease.\<close>

definition version_number :: "string list \<Rightarrow> nat \<Rightarrow> int" where
  "version_number parts i = (if i < length parts then fst (Atoi (parts ! i)) else 0)"

definition parseSingboxVersion :: "string \<Rightarrow> int list \<times> string" where
  "parseSingboxVersion version =
     (let v = fst (split_once CHR ''+'' (TrimPrefix (TrimSpace version) ''v'')) in
      case split_once CHR ''-'' v of (core, pre) \<Rightarrow>
        let parts = split_char CHR ''.'' core
        in (map (version_number parts) [0, 1, 2], case pre of None \<Rightarrow> [] | Some p \<Rightarrow> p))"

fun compare_numbers :: "int list \<Rightarrow> int list \<Rightarrow> int" where
  "compare_numbers (l # ls) (r # rs) = (if l < r then -1 else if r < l then 1 else compare_numbers ls rs)"
| "compare_numbers _ _ = 0"

definition compareSingboxVersions :: "string \<Rightarrow> string \<Rightarrow> int" where
  "compareSingboxVersions left right =
     (case parseSingboxVersion left of (l, leftPre) \<Rightarrow>
      case parseSingboxVersion right of (r, rightPre) \<Rightarrow>
        if compare_numbers l r \<noteq> 0 then compare_numbers l r
        else if leftPre = rightPre then 0
        else if leftPre \<noteq> [] \<and> rightPre = [] then -1
        else if leftPre = [] \<and> rightPre \<noteq> [] then 1
        else if leftPre < rightPre then -1
        else if rightPre < leftPre then 1
        else 0)"

text \<open>\<^verbatim>\<open>^\d+\.\d+\.\d+(?:[-+][A-Za-z0-9.-]+)?$\<close>\<close>

definition version_tail_char :: "char \<Rightarrow> bool" where
  "version_tail_char c \<longleftrightarrow> is_digit c \<or> (CHR ''a'' \<le> c \<and> c \<le> CHR ''z'') \<or> (CHR ''A'' \<le> c \<and> c \<le> CHR ''Z'') \<or>
     c = CHR ''.'' \<or> c = CHR ''-''"

definition eat_number :: "string \<Rightarrow> string option" where
  "eat_number s = (if takeWhile is_digit s = [] then None else Some (dropWhile is_digit s))"

definition eat_dot :: "string \<Rightarrow> string option" where
  "eat_dot s = (case s of c # r \<Rightarrow> if c = CHR ''.'' then Some r else None | [] \<Rightarrow> None)"

definition isSingboxVersion :: "string \<Rightarrow> bool" where
  "isSingboxVersion s =
     (case Option.bind (eat_number s) (\<lambda>a. Option.bind (eat_dot a) (\<lambda>b. Option.bind (eat_number b)
        (\<lambda>c. Option.bind (eat_dot c) eat_number))) of
        None \<Rightarrow> False
      | Some [] \<Rightarrow> True
      | Some (c # rest) \<Rightarrow> (c = CHR ''-'' \<or> c = CHR ''+'') \<and> rest \<noteq> [] \<and> list_all version_tail_char rest)"

definition singboxSupportsDNSIndependentCache :: "string \<Rightarrow> bool" where
  "singboxSupportsDNSIndependentCache version0 =
     (let version = TrimPrefix (TrimSpace version0) ''v''; parsed = fst (parseSingboxVersion version)
      in if \<not> isSingboxVersion version then True
         else parsed ! 0 < 1 \<or> parsed ! 0 = 1 \<and> parsed ! 1 < 14)"

definition singboxSupportsDevelopmentOptions :: "string \<Rightarrow> bool" where
  "singboxSupportsDevelopmentOptions version =
     (let parsed = fst (parseSingboxVersion version) in 1 < parsed ! 0 \<or> parsed ! 0 = 1 \<and> 15 \<le> parsed ! 1)"

definition singboxSupportsCertificateProvider :: "string \<Rightarrow> bool" where
  "singboxSupportsCertificateProvider version =
     (let parsed = fst (parseSingboxVersion version) in 1 < parsed ! 0 \<or> parsed ! 0 = 1 \<and> 14 \<le> parsed ! 1)"

section \<open>Constants and list values\<close>

definition legacyUpdateProxyInboundTag :: string where "legacyUpdateProxyInboundTag = ''ackwrap-update-in''"
definition dnsInboundTag :: string where "dnsInboundTag = ''ackwrap-dns-in''"
definition defaultRuleSetHTTPClientTag :: string where "defaultRuleSetHTTPClientTag = ''ackwrap-rule-set-direct''"
definition defaultTUNIPv4Address :: string where "defaultTUNIPv4Address = ''172.31.255.1/30''"
definition defaultTUNIPv6Address :: string where "defaultTUNIPv6Address = ''fdfe:dcba:9875::1/126''"
definition defaultTUNIPv4LinkLocal :: string where "defaultTUNIPv4LinkLocal = ''169.254.0.0/16''"
definition defaultTUNIPv6LinkLocal :: string where "defaultTUNIPv6LinkLocal = ''fe80::/10''"
definition legacyDefaultTUNIPv4Address :: string where "legacyDefaultTUNIPv4Address = ''172.19.0.1/30''"
definition previousDefaultTUNIPv4 :: string where "previousDefaultTUNIPv4 = ''172.254.0.1/30''"
definition previousDefaultTUNIPv6 :: string where "previousDefaultTUNIPv6 = ''fdfe:dcba:9876::1/126''"

text \<open>\<^verbatim>\<open>fmt.Sprintf("0x%x", defaultAutoRedirectMark)\<close>\<close>
definition default_auto_redirect_mark :: string where "default_auto_redirect_mark = ''0x2024''"

definition stringListContains :: "goval \<Rightarrow> string \<Rightarrow> bool" where
  "stringListContains v expected =
     (case v of VList xs \<Rightarrow> VStr expected \<in> set xs | VStrList ss \<Rightarrow> expected \<in> set ss | _ \<Rightarrow> False)"

definition stringListEquals :: "goval \<Rightarrow> string \<Rightarrow> bool" where
  "stringListEquals v expected =
     (case v of VList xs \<Rightarrow> xs = [VStr expected] | VStrList ss \<Rightarrow> ss = [expected] | _ \<Rightarrow> False)"

definition configNumber :: "goval \<Rightarrow> int" where
  "configNumber v = (case v of VFloat r \<Rightarrow> float_int r | VInt i \<Rightarrow> i | _ \<Rightarrow> 0)"

definition is_str :: "goval \<Rightarrow> bool" where
  "is_str v = (case v of VStr _ \<Rightarrow> True | _ \<Rightarrow> False)"

definition configStringListLength :: "goval \<Rightarrow> nat option" where
  "configStringListLength v =
     (case v of VList xs \<Rightarrow> if list_all is_str xs then Some (length xs) else None
      | VStrList ss \<Rightarrow> Some (length ss) | _ \<Rightarrow> None)"

definition stringListHasIPv6 :: "goval \<Rightarrow> bool" where
  "stringListHasIPv6 v =
     (case v of VList xs \<Rightarrow> list_ex (\<lambda>x. is_str x \<and> CHR '':'' \<in> set (as_string x)) xs
      | VStrList ss \<Rightarrow> list_ex (\<lambda>s. CHR '':'' \<in> set s) ss | _ \<Rightarrow> False)"

definition appendStringList :: "goval \<Rightarrow> string \<Rightarrow> goval" where
  "appendStringList v item =
     (case v of VList xs \<Rightarrow> VList (xs @ [VStr item]) | VStrList ss \<Rightarrow> VStrList (ss @ [item]) | _ \<Rightarrow> VList [VStr item])"

fun dedup_strings :: "string list \<Rightarrow> goval list \<Rightarrow> goval list" where
  "dedup_strings seen [] = []"
| "dedup_strings seen (VStr s # xs) =
     (if s \<in> set seen then dedup_strings seen xs else VStr s # dedup_strings (s # seen) xs)"
| "dedup_strings seen (x # xs) = x # dedup_strings seen xs"

definition deduplicateStringList :: "goval \<Rightarrow> goval \<times> bool" where
  "deduplicateStringList v =
     (case v of
        VStrList ss \<Rightarrow> (VStrList (uniq_from [] ss), length (uniq_from [] ss) \<noteq> length ss)
      | VList xs \<Rightarrow> (VList (dedup_strings [] xs), length (dedup_strings [] xs) \<noteq> length xs)
      | _ \<Rightarrow> (v, False))"

definition ackwrap_process :: "goval \<Rightarrow> bool" where
  "ackwrap_process v \<longleftrightarrow> is_str v \<and>
     list_ex (EqualFold (as_string v)) [''ackwrap'', ''ackwrap.exe'', ''sing-box'', ''sing-box.exe'']"

definition splitAckwrapProcessNames :: "goval \<Rightarrow> goval list \<times> goval list" where
  "splitAckwrapProcessNames v =
     (let values = (case v of VList xs \<Rightarrow> xs | VStrList ss \<Rightarrow> map VStr ss | _ \<Rightarrow> [])
      in (filter ackwrap_process values, filter (\<lambda>x. \<not> ackwrap_process x) values))"

definition is_tagged :: "string \<Rightarrow> goval \<Rightarrow> bool" where
  "is_tagged tag item = (case as_map item of Some m \<Rightarrow> map_get m ''tag'' = VStr tag | None \<Rightarrow> False)"

definition taggedConfigItem :: "goval list \<Rightarrow> string \<Rightarrow> gomap option" where
  "taggedConfigItem items tag = (case filter (is_tagged tag) items of x # _ \<Rightarrow> as_map x | [] \<Rightarrow> None)"

definition hasTaggedConfigItem :: "goval list \<Rightarrow> string \<Rightarrow> bool" where
  "hasTaggedConfigItem items tag \<longleftrightarrow> taggedConfigItem items tag \<noteq> None"

fun replaceTaggedConfigItem :: "goval list \<Rightarrow> string \<Rightarrow> gomap \<Rightarrow> goval list" where
  "replaceTaggedConfigItem [] tag r = []"
| "replaceTaggedConfigItem (x # xs) tag r =
     (if is_tagged tag x then VMap r # xs else x # replaceTaggedConfigItem xs tag r)"

section \<open>TUN inbounds\<close>

definition hasTUNInbound :: "goval list \<Rightarrow> bool" where
  "hasTUNInbound inbounds =
     list_ex (\<lambda>raw. case as_map raw of Some m \<Rightarrow> map_get m ''type'' = VStr ''tun'' | None \<Rightarrow> False) inbounds"

definition hasDefaultTUNIPv4Address :: "goval \<Rightarrow> bool" where
  "hasDefaultTUNIPv4Address v \<longleftrightarrow> stringListContains v defaultTUNIPv4Address \<or>
     stringListContains v legacyDefaultTUNIPv4Address \<or> stringListContains v previousDefaultTUNIPv4"

definition isAckwrapManagedConfig :: "gomap \<Rightarrow> goval list \<Rightarrow> gomap \<Rightarrow> bool" where
  "isAckwrapManagedConfig config inbounds route \<longleftrightarrow>
     map_get route ''default_http_client'' = VStr defaultRuleSetHTTPClientTag \<or>
     (case as_list (map_get config ''http_clients'') of
        Some cs \<Rightarrow> hasTaggedConfigItem cs defaultRuleSetHTTPClientTag | None \<Rightarrow> False) \<or>
     list_ex (\<lambda>raw. case as_map raw of
         Some m \<Rightarrow> map_get m ''type'' = VStr ''tun'' \<and> map_get m ''tag'' = VStr ''tun-in'' \<and>
           map_get m ''interface_name'' = VStr ''tun0'' \<and> hasDefaultTUNIPv4Address (map_get m ''address'')
       | None \<Rightarrow> False) inbounds"

definition replace_address :: "string \<Rightarrow> string" where
  "replace_address a =
     (if a = previousDefaultTUNIPv4 then defaultTUNIPv4Address
      else if a = previousDefaultTUNIPv6 then defaultTUNIPv6Address else a)"

definition replace_address_value :: "goval \<Rightarrow> goval" where
  "replace_address_value v = (case v of VStr s \<Rightarrow> VStr (replace_address s) | _ \<Rightarrow> v)"

definition previous_address :: "string \<Rightarrow> bool" where
  "previous_address a \<longleftrightarrow> a = previousDefaultTUNIPv4 \<or> a = previousDefaultTUNIPv6"

definition migrateDefaultTUNAddresses :: "goval \<Rightarrow> goval \<times> bool" where
  "migrateDefaultTUNAddresses v =
     (case v of
        VStrList ss \<Rightarrow> (VStrList (map replace_address ss), list_ex previous_address ss)
      | VList xs \<Rightarrow> (VList (map replace_address_value xs), list_ex (\<lambda>x. is_str x \<and> previous_address (as_string x)) xs)
      | _ \<Rightarrow> (v, False))"

type_synonym counted = "gomap \<times> nat"

definition put_missing :: "string \<Rightarrow> goval \<Rightarrow> counted \<Rightarrow> counted" where
  "put_missing k v mc = (if has_key (fst mc) k then mc else (map_put k v (fst mc), snd mc + 1))"

definition put_changed :: "string \<Rightarrow> goval \<times> bool \<Rightarrow> counted \<Rightarrow> counted" where
  "put_changed k vc mc = (if snd vc then (map_put k (fst vc) (fst mc), snd mc + 1) else mc)"

definition add_exclusion :: "string \<Rightarrow> counted \<Rightarrow> counted" where
  "add_exclusion address mc =
     (let v = map_get (fst mc) ''route_exclude_address''
      in put_changed ''route_exclude_address'' (appendStringList v address, \<not> stringListContains v address) mc)"

definition tun_defaults :: "counted \<Rightarrow> counted" where
  "tun_defaults mc = put_missing ''strict_route'' (VBool True) (put_missing ''auto_route'' (VBool True) mc)"

definition tun_addresses :: "counted \<Rightarrow> counted" where
  "tun_addresses mc =
     (let mc1 = put_changed ''address'' (migrateDefaultTUNAddresses (map_get (fst mc) ''address'')) mc;
          a = map_get (fst mc1) ''address''
      in put_changed ''address'' (appendStringList a defaultTUNIPv6Address,
           hasDefaultTUNIPv4Address a \<and> \<not> stringListHasIPv6 a) mc1)"

definition tun_exclusions :: "counted \<Rightarrow> counted" where
  "tun_exclusions mc =
     (if map_get (fst mc) ''auto_route'' = VBool True then
        add_exclusion defaultTUNIPv6LinkLocal (add_exclusion defaultTUNIPv4LinkLocal
          (put_changed ''route_exclude_address'' (deduplicateStringList (map_get (fst mc) ''route_exclude_address'')) mc))
      else mc)"

definition tun_redirect :: "bool \<Rightarrow> counted \<Rightarrow> counted" where
  "tun_redirect linux mc =
     (if linux then
        let mc1 = (if map_get (fst mc) ''auto_route'' = VBool True then put_missing ''auto_redirect'' (VBool True) mc else mc)
        in if map_get (fst mc1) ''auto_redirect'' = VBool True
           then put_missing ''auto_redirect_output_mark'' (VStr default_auto_redirect_mark) mc1 else mc1
      else mc)"

definition migrate_tun_inbound :: "bool \<Rightarrow> goval \<Rightarrow> goval \<times> nat" where
  "migrate_tun_inbound linux raw =
     (case as_map raw of
        None \<Rightarrow> (raw, 0)
      | Some inbound \<Rightarrow>
          if map_get inbound ''type'' \<noteq> VStr ''tun'' \<or> map_get inbound ''tag'' \<noteq> VStr ''tun-in'' then (raw, 0)
          else (case tun_redirect linux (tun_exclusions (tun_addresses (tun_defaults (inbound, 0)))) of
                  (m, n) \<Rightarrow> (VMap m, n)))"

definition migrateAckwrapTUNInbounds :: "goval list \<Rightarrow> bool \<Rightarrow> goval list \<times> nat" where
  "migrateAckwrapTUNInbounds inbounds linux =
     (let r = map (migrate_tun_inbound linux) inbounds in (map fst r, sum_list (map snd r)))"

section \<open>Route rules\<close>

definition rule_map :: "goval \<Rightarrow> gomap" where
  "rule_map raw = (case as_map raw of Some m \<Rightarrow> m | None \<Rightarrow> [])"

definition is_map :: "goval \<Rightarrow> bool" where
  "is_map raw \<longleftrightarrow> as_map raw \<noteq> None"

definition legacy_rule :: "goval \<Rightarrow> bool" where
  "legacy_rule raw \<longleftrightarrow> is_map raw \<and> stringListContains (map_get (rule_map raw) ''inbound'') legacyUpdateProxyInboundTag"

text \<open>The loop that scopes direct process rules to the TUN inbound: what a rule becomes.\<close>

definition scope_rule :: "goval \<Rightarrow> goval list \<times> bool" where
  "scope_rule raw =
     (let rule = rule_map raw; (ackwrapNames, otherNames) = splitAckwrapProcessNames (map_get rule ''process_name'') in
      if \<not> is_map raw \<or> map_get rule ''outbound'' \<noteq> VStr ''direct'' \<or> map_get rule ''inbound'' \<noteq> VNil then ([raw], False)
      else if ackwrapNames = [] then ([raw], False)
      else
        let scoped = map_put ''inbound'' (VList [VStr ''tun-in'']) (map_put ''process_name'' (VList ackwrapNames) rule)
        in if otherNames = [] then ([VMap scoped], True)
           else ([VMap scoped, VMap (map_put ''process_name'' (VList otherNames) rule)], True))"

definition managed_dns_hijack :: "goval \<Rightarrow> bool" where
  "managed_dns_hijack raw \<longleftrightarrow>
     (let rule = rule_map raw in is_map raw \<and> map_get rule ''action'' = VStr ''hijack-dns'' \<and>
        (map_get rule ''inbound'' = VStr dnsInboundTag \<or> stringListContains (map_get rule ''inbound'') dnsInboundTag \<or>
         configNumber (map_get rule ''port'') = 53))"

definition managed_bypass :: "goval \<Rightarrow> bool" where
  "managed_bypass raw \<longleftrightarrow>
     (let rule = rule_map raw;
          kernelBypass = (map_get rule ''action'' = VStr ''bypass'' \<and>
            (map_get rule ''outbound'' = VNil \<or> map_get rule ''outbound'' = VStr []))
      in is_map raw \<and> (map_get rule ''outbound'' = VStr ''direct'' \<or> kernelBypass) \<and>
         stringListContains (map_get rule ''inbound'') ''tun-in'' \<and>
         fst (splitAckwrapProcessNames (map_get rule ''process_name'')) \<noteq> [])"

definition rule_category :: "goval \<Rightarrow> nat" where
  "rule_category raw = (if managed_dns_hijack raw then 0 else if managed_bypass raw then 1 else 2)"

definition bypass_action :: "goval \<Rightarrow> goval \<times> bool" where
  "bypass_action raw =
     (if rule_category raw = 1 \<and> map_get (rule_map raw) ''action'' \<noteq> VStr ''bypass''
      then (VMap (map_put ''action'' (VStr ''bypass'') (rule_map raw)), True) else (raw, False))"

fun needs_reorder :: "nat \<Rightarrow> nat list \<Rightarrow> bool" where
  "needs_reorder lastCategory [] = False"
| "needs_reorder lastCategory (c # cs) =
     (c < lastCategory \<or> needs_reorder (max c lastCategory) cs)"

definition migrateAckwrapProcessBypassRules :: "goval list \<Rightarrow> goval list \<times> nat" where
  "migrateAckwrapProcessBypassRules rules =
     (let edited = map bypass_action rules;
          migrated = length (filter snd edited);
          keyed = zip (map rule_category rules) (map fst edited);
          pick = (\<lambda>c. map snd (filter (\<lambda>p. fst p = c) keyed))
      in if \<not> needs_reorder 0 (map rule_category rules) then (map fst edited, migrated)
         else (pick 0 @ pick 1 @ pick 2, migrated + 1))"

definition hasFakeIPDNSServer :: "gomap \<Rightarrow> bool" where
  "hasFakeIPDNSServer config =
     (case as_map (map_get config ''dns'') of
        None \<Rightarrow> False
      | Some dns \<Rightarrow>
          (case as_list (map_get dns ''servers'') of
             None \<Rightarrow> False
           | Some servers \<Rightarrow> list_ex (\<lambda>raw. is_map raw \<and> map_get (rule_map raw) ''type'' = VStr ''fakeip'') servers))"

definition is_sniff :: "goval \<Rightarrow> bool" where
  "is_sniff raw \<longleftrightarrow> is_map raw \<and> map_get (rule_map raw) ''action'' = VStr ''sniff''"

definition is_icmp_resolve :: "goval \<Rightarrow> bool" where
  "is_icmp_resolve raw \<longleftrightarrow> is_map raw \<and> map_get (rule_map raw) ''action'' = VStr ''resolve'' \<and>
     stringListEquals (map_get (rule_map raw) ''network'') ''icmp'' \<and>
     stringListEquals (map_get (rule_map raw) ''inbound'') ''tun-in''"

definition resolve_rule :: goval where
  "resolve_rule = VMap [(''inbound'', VList [VStr ''tun-in'']), (''network'', VList [VStr ''icmp'']), (''action'', VStr ''resolve'')]"

definition indexes_of :: "('a \<Rightarrow> bool) \<Rightarrow> 'a list \<Rightarrow> nat list" where
  "indexes_of P xs = filter (\<lambda>i. P (xs ! i)) [0..<length xs]"

definition migrateFakeIPICMPResolveRule :: "goval list \<Rightarrow> goval list \<times> nat" where
  "migrateFakeIPICMPResolveRule rules =
     (let managed = indexes_of is_icmp_resolve rules in
      if list_ex (\<lambda>raw. is_icmp_resolve raw \<and> length (rule_map raw) \<noteq> 3) rules then (rules, 0)
      else case indexes_of is_sniff rules of
        [] \<Rightarrow> (rules, 0)
      | sniffIndex # _ \<Rightarrow>
          if managed = [sniffIndex + 1] then (rules, 0)
          else
            let filtered = filter (\<lambda>raw. \<not> is_icmp_resolve raw) rules;
                target = (case indexes_of is_sniff filtered of i # _ \<Rightarrow> i + 1 | [] \<Rightarrow> 0)
            in (take target filtered @ [resolve_rule] @ drop target filtered, 1))"

section \<open>The managed configuration\<close>

datatype migrate_error =
    ParseFailed
  | NullConfig
  | InboundsInvalid
  | OutboundsInvalid
  | ProxyMembersInvalid
  | RouteInvalid
  | RulesInvalid
  | UnsupportedCoreOption string string

definition list_field :: "migrate_error \<Rightarrow> gomap \<Rightarrow> string \<Rightarrow> migrate_error + goval list" where
  "list_field e m k =
     (case map_of m k of None \<Rightarrow> Inr [] | Some v \<Rightarrow> (case as_list v of Some xs \<Rightarrow> Inr xs | None \<Rightarrow> Inl e))"

definition direct_item :: gomap where
  "direct_item = [(''type'', VStr ''direct''), (''tag'', VStr ''direct'')]"

definition proxy_item :: gomap where
  "proxy_item = [(''type'', VStr ''selector''), (''tag'', VStr ''proxy''), (''outbounds'', VList [VStr ''direct''])]"

definition ensure_proxy :: "goval list \<Rightarrow> migrate_error + goval list \<times> nat" where
  "ensure_proxy outbounds =
     (case taggedConfigItem outbounds ''proxy'' of
        None \<Rightarrow> Inr (outbounds @ [VMap proxy_item], 1)
      | Some proxy \<Rightarrow>
          if map_get proxy ''type'' = VStr ''selector'' \<or> map_get proxy ''type'' = VStr ''urltest'' then
            (case map_of proxy ''outbounds'' of
               None \<Rightarrow> Inr (replaceTaggedConfigItem outbounds ''proxy'' proxy_item, 1)
             | Some members \<Rightarrow>
                 (case configStringListLength members of
                    None \<Rightarrow> Inl ProxyMembersInvalid
                  | Some n \<Rightarrow> if n = 0 then Inr (replaceTaggedConfigItem outbounds ''proxy'' proxy_item, 1) else Inr (outbounds, 0)))
          else Inr (outbounds, 0))"

definition ensure_outbounds :: "goval list \<Rightarrow> migrate_error + goval list \<times> nat" where
  "ensure_outbounds outbounds =
     (let missing = \<not> hasTaggedConfigItem outbounds ''direct'';
          o1 = (if missing then outbounds @ [VMap direct_item] else outbounds)
      in res_bind (ensure_proxy o1) (\<lambda>(o2, n). Inr (o2, n + (if missing then 1 else 0))))"

definition route_field :: "gomap \<Rightarrow> migrate_error + gomap \<times> nat" where
  "route_field config =
     (case map_of config ''route'' of
        None \<Rightarrow> Inr ([], 1)
      | Some v \<Rightarrow> (case as_map v of Some r \<Rightarrow> Inr (r, 0) | None \<Rightarrow> Inl RouteInvalid))"

definition legacy_inbound :: "goval \<Rightarrow> bool" where
  "legacy_inbound raw \<longleftrightarrow> is_map raw \<and> map_get (rule_map raw) ''tag'' = VStr legacyUpdateProxyInboundTag"

text \<open>The edits of \<^verbatim>\<open>route["rules"]\<close>, in the order of the source.\<close>

definition scope_rules :: "goval list \<Rightarrow> goval list \<times> nat" where
  "scope_rules rules = (let r = map scope_rule rules in (concat (map fst r), length (filter snd r)))"

definition migrate_rules :: "bool \<Rightarrow> bool \<Rightarrow> goval list \<Rightarrow> goval list \<times> nat" where
  "migrate_rules managed fakeip rules =
     (let kept = filter (\<lambda>r. \<not> legacy_rule r) rules;
          n0 = length (filter legacy_rule rules);
          (scoped, n1) = scope_rules kept;
          (bypassed, n2) = (if managed then migrateAckwrapProcessBypassRules scoped else (scoped, 0));
          (resolved, n3) = (if managed \<and> fakeip then migrateFakeIPICMPResolveRule bypassed else (bypassed, 0))
      in (resolved, n0 + n1 + n2 + n3))"

text \<open>TUN edits when the configuration is managed, then removal of the legacy update inbound.\<close>

definition managed_inbounds :: "bool \<Rightarrow> bool \<Rightarrow> goval list \<Rightarrow> goval list \<times> nat" where
  "managed_inbounds managed linux inbounds =
     (let tun = (if managed then migrateAckwrapTUNInbounds inbounds linux else (inbounds, 0))
      in (filter (\<lambda>r. \<not> legacy_inbound r) (fst tun), snd tun + length (filter legacy_inbound (fst tun))))"

definition managed_route :: "bool \<Rightarrow> gomap \<Rightarrow> counted" where
  "managed_route managed route = (if managed then put_missing ''auto_detect_interface'' (VBool True) (route, 0) else (route, 0))"

definition managed_rest :: "bool \<Rightarrow> bool \<Rightarrow> gomap \<Rightarrow> goval list \<Rightarrow> gomap \<Rightarrow> migrate_error + counted" where
  "managed_rest managed linux config inbounds route =
     (let inb = managed_inbounds managed linux inbounds;
          rt = managed_route managed route;
          config2 = (if managed \<or> snd inb \<noteq> 0 then map_put ''inbounds'' (VList (fst inb)) config else config)
      in res_bind (list_field RulesInvalid (fst rt) ''rules'') (\<lambda>rules.
         let r = migrate_rules managed (hasFakeIPDNSServer config2) rules;
             route2 = (if snd r \<noteq> 0 then map_put ''rules'' (VList (fst r)) (fst rt) else fst rt)
         in Inr (map_put ''route'' (VMap route2) config2, snd rt + snd inb + snd r)))"

definition managed_tun :: "gomap \<Rightarrow> goval list \<Rightarrow> gomap \<Rightarrow> bool" where
  "managed_tun config inbounds route \<longleftrightarrow> hasTUNInbound inbounds \<and> isAckwrapManagedConfig config inbounds route"

text \<open>\<open>linux\<close> is \<^verbatim>\<open>runtime.GOOS == "linux"\<close>.\<close>

definition migrateManagedConfig :: "bool \<Rightarrow> gomap \<Rightarrow> migrate_error + counted" where
  "migrateManagedConfig linux config =
     res_bind (list_field InboundsInvalid config ''inbounds'') (\<lambda>inbounds.
     res_bind (list_field OutboundsInvalid config ''outbounds'') (\<lambda>outbounds0.
     res_bind (ensure_outbounds outbounds0) (\<lambda>(outbounds, n0).
     let config1 = map_put ''outbounds'' (VList outbounds) config in
     res_bind (route_field config1) (\<lambda>(route, n1).
     res_bind (managed_rest (managed_tun config1 inbounds route) linux config1 inbounds route) (\<lambda>(config2, n2).
     Inr (config2, n0 + n1 + n2))))))"

section \<open>Inline ACME\<close>

definition hasCertificateProvider :: "goval \<Rightarrow> bool" where
  "hasCertificateProvider v = (case v of VStr s \<Rightarrow> TrimSpace s \<noteq> [] | VMap m \<Rightarrow> m \<noteq> [] | _ \<Rightarrow> False)"

definition hasACMEDomain :: "goval \<Rightarrow> bool" where
  "hasACMEDomain v =
     (case v of
        VStr s \<Rightarrow> TrimSpace s \<noteq> []
      | VList xs \<Rightarrow> list_ex (\<lambda>x. is_str x \<and> TrimSpace (as_string x) \<noteq> []) xs
      | VStrList ss \<Rightarrow> list_ex (\<lambda>s. TrimSpace s \<noteq> []) ss
      | _ \<Rightarrow> False)"

definition migrate_acme_tls :: "gomap \<Rightarrow> counted" where
  "migrate_acme_tls tls =
     (case map_of tls ''acme'' of
        None \<Rightarrow> (tls, 0)
      | Some raw \<Rightarrow>
          if hasCertificateProvider (map_get tls ''certificate_provider'') then (map_del ''acme'' tls, 1)
          else (case as_map raw of
                  None \<Rightarrow> (tls, 0)
                | Some acme \<Rightarrow>
                    if \<not> hasACMEDomain (map_get acme ''domain'') then (map_del ''acme'' tls, 1)
                    else (map_del ''acme'' (map_put ''certificate_provider'' (VMap (map_put ''type'' (VStr ''acme'') acme)) tls), 1)))"

definition migrate_acme_inbound :: "goval \<Rightarrow> goval \<times> nat" where
  "migrate_acme_inbound raw =
     (case as_map raw of
        None \<Rightarrow> (raw, 0)
      | Some inbound \<Rightarrow>
          (case as_map (map_get inbound ''tls'') of
             None \<Rightarrow> (raw, 0)
           | Some tls \<Rightarrow> (case migrate_acme_tls tls of (tls', n) \<Rightarrow> (VMap (map_put ''tls'' (VMap tls') inbound), n))))"

definition migrateInlineACME :: "gomap \<Rightarrow> counted" where
  "migrateInlineACME config =
     (case as_list (map_get config ''inbounds'') of
        None \<Rightarrow> (config, 0)
      | Some inbounds \<Rightarrow>
          let r = map migrate_acme_inbound inbounds
          in (map_put ''inbounds'' (VList (map fst r)) config, sum_list (map snd r)))"

section \<open>Options of the development line\<close>

text \<open>
  \<^verbatim>\<open>strconv.ParseUint(mark, 0, 32)\<close> succeeds with the value 0: a zero literal with an optional base
  prefix, whose underscores separate digits.
\<close>

definition zero_literal :: "string \<Rightarrow> bool" where
  "zero_literal s =
     (case s of
        [] \<Rightarrow> False
      | c # r \<Rightarrow>
          let body = (if 3 \<le> length s \<and> hd r \<in> set ''bBoOxX'' then tl r else r)
          in c = CHR ''0'' \<and> set body \<subseteq> set ''0_'' \<and> \<not> contains_str body ''__'' \<and> (body = [] \<or> last body \<noteq> CHR ''_''))"

definition removeInactiveCoreOption ::
  "gomap \<Rightarrow> string \<Rightarrow> string \<Rightarrow> string \<Rightarrow> bool \<Rightarrow> migrate_error + counted" where
  "removeInactiveCoreOption options field location version inactive =
     (case map_of options field of
        None \<Rightarrow> Inr (options, 0)
      | Some v \<Rightarrow>
          let inactiveBoolean = ((field = ''on_demand'' \<or> field = ''multi_queue'') \<and> v = VBool False)
          in if \<not> inactive \<and> v \<noteq> VNil \<and> \<not> inactiveBoolean
             then Inl (UnsupportedCoreOption (location @ ''.'' @ field) version)
             else Inr (map_del field options, 1))"

definition inactive_mark :: "goval \<Rightarrow> bool" where
  "inactive_mark v \<longleftrightarrow> (case v of VStr s \<Rightarrow> zero_literal s | _ \<Rightarrow> v = VNil \<or> v = VFloat 0)"

definition dev_mark :: "string \<Rightarrow> string \<Rightarrow> gomap \<Rightarrow> migrate_error + counted" where
  "dev_mark version location inbound =
     (case map_of inbound ''auto_redirect_tproxy_mark'' of
        None \<Rightarrow> Inr (inbound, 0)
      | Some v \<Rightarrow>
          if \<not> inactive_mark v then Inl (UnsupportedCoreOption (location @ ''.auto_redirect_tproxy_mark'') version)
          else Inr (map_del ''auto_redirect_tproxy_mark'' inbound, 1))"

definition dev_inbound :: "string \<Rightarrow> nat \<Rightarrow> goval \<Rightarrow> migrate_error + goval \<times> nat" where
  "dev_inbound version index raw =
     (case as_map raw of
        None \<Rightarrow> Inr (raw, 0)
      | Some inbound \<Rightarrow>
          if map_get inbound ''type'' \<noteq> VStr ''tun'' then Inr (raw, 0)
          else
            let location = ''inbounds['' @ show_nat index @ '']'' in
            if map_get inbound ''stack'' = VStr ''go'' then Inl (UnsupportedCoreOption (location @ ''.stack'') version)
            else res_bind (removeInactiveCoreOption inbound ''multi_queue'' location version False) (\<lambda>(m1, n1).
                 res_bind (dev_mark version location m1) (\<lambda>(m2, n2). Inr (VMap m2, n1 + n2))))"

definition dev_endpoint :: "string \<Rightarrow> nat \<Rightarrow> goval \<Rightarrow> migrate_error + goval \<times> nat" where
  "dev_endpoint version index raw =
     (case as_map raw of
        None \<Rightarrow> Inr (raw, 0)
      | Some endpoint \<Rightarrow>
          res_bind (removeInactiveCoreOption endpoint ''on_demand'' (''endpoints['' @ show_nat index @ '']'') version False)
            (\<lambda>(m, n). Inr (VMap m, n)))"

fun each_item :: "(nat \<Rightarrow> goval \<Rightarrow> migrate_error + goval \<times> nat) \<Rightarrow> nat \<Rightarrow> goval list \<Rightarrow> migrate_error + goval list \<times> nat" where
  "each_item f i [] = Inr ([], 0)"
| "each_item f i (x # xs) =
     res_bind (f i x) (\<lambda>(y, n). res_bind (each_item f (i + 1) xs) (\<lambda>(ys, k). Inr (y # ys, n + k)))"

definition edit_list :: "(nat \<Rightarrow> goval \<Rightarrow> migrate_error + goval \<times> nat) \<Rightarrow> string \<Rightarrow> gomap \<Rightarrow> migrate_error + counted" where
  "edit_list f key config =
     (case as_list (map_get config key) of
        None \<Rightarrow> Inr (config, 0)
      | Some xs \<Rightarrow> res_bind (each_item f 0 xs) (\<lambda>(ys, n). Inr (map_put key (VList ys) config, n)))"

definition dev_cache :: "string \<Rightarrow> gomap \<Rightarrow> migrate_error + counted" where
  "dev_cache version cache =
     (let inactive = (map_get cache ''enabled'' \<noteq> VBool True) in
      res_bind (removeInactiveCoreOption cache ''buffer_size'' ''experimental.cache_file'' version inactive) (\<lambda>(c1, n1).
      res_bind (removeInactiveCoreOption c1 ''flush_interval'' ''experimental.cache_file'' version inactive) (\<lambda>(c2, n2).
      Inr (c2, n1 + n2))))"

definition dev_experimental :: "string \<Rightarrow> gomap \<Rightarrow> migrate_error + counted" where
  "dev_experimental version config =
     (case as_map (map_get config ''experimental'') of
        None \<Rightarrow> Inr (config, 0)
      | Some experimental \<Rightarrow>
          (case as_map (map_get experimental ''cache_file'') of
             None \<Rightarrow> Inr (config, 0)
           | Some cache \<Rightarrow> res_bind (dev_cache version cache) (\<lambda>(cache', n).
               Inr (map_put ''experimental'' (VMap (map_put ''cache_file'' (VMap cache') experimental)) config, n))))"

definition migrate_development :: "string \<Rightarrow> gomap \<Rightarrow> migrate_error + counted" where
  "migrate_development version config =
     res_bind (edit_list (dev_inbound version) ''inbounds'' config) (\<lambda>(c1, n1).
     res_bind (edit_list (dev_endpoint version) ''endpoints'' c1) (\<lambda>(c2, n2).
     res_bind (dev_experimental version c2) (\<lambda>(c3, n3). Inr (c3, n1 + n2 + n3))))"

section \<open>Configuration data\<close>

text \<open>What \<^verbatim>\<open>json.Unmarshal\<close> into a map makes of the bytes: an error, a nil map, or an object.\<close>

datatype config_data = NotAnObject | NullDocument | Object gomap

definition migrateDevelopmentConfigData :: "config_data \<Rightarrow> string \<Rightarrow> migrate_error + config_data \<times> nat" where
  "migrateDevelopmentConfigData data version =
     (if version = [] \<or> singboxSupportsDevelopmentOptions version then Inr (data, 0)
      else case data of
        NotAnObject \<Rightarrow> Inl ParseFailed
      | NullDocument \<Rightarrow> Inl NullConfig
      | Object config \<Rightarrow> res_bind (migrate_development version config) (\<lambda>(config', n).
          Inr (if n = 0 then data else Object config', n)))"

definition migrateInlineACMEConfig :: "config_data \<Rightarrow> string \<Rightarrow> migrate_error + config_data \<times> nat" where
  "migrateInlineACMEConfig data version =
     (if \<not> singboxSupportsCertificateProvider version then Inr (data, 0)
      else case data of
        NotAnObject \<Rightarrow> Inl ParseFailed
      | NullDocument \<Rightarrow> Inr (data, 0)
      | Object config \<Rightarrow>
          (case migrateInlineACME config of (config', n) \<Rightarrow> Inr (if n = 0 then data else Object config', n)))"

definition migrateManagedConfigData :: "bool \<Rightarrow> config_data \<Rightarrow> migrate_error + config_data \<times> nat" where
  "migrateManagedConfigData linux data =
     (case data of
        NotAnObject \<Rightarrow> Inl ParseFailed
      | NullDocument \<Rightarrow> Inl NullConfig
      | Object config \<Rightarrow> res_bind (migrateManagedConfig linux config) (\<lambda>(config', n).
          Inr (if n = 0 then data else Object config', n)))"

definition migrateCoreCompatibilityData :: "bool \<Rightarrow> config_data \<Rightarrow> string \<Rightarrow> migrate_error + config_data \<times> nat" where
  "migrateCoreCompatibilityData linux data version =
     res_bind (migrateDevelopmentConfigData data version) (\<lambda>(d1, n1).
     res_bind (migrateInlineACMEConfig d1 version) (\<lambda>(d2, n2).
     res_bind (migrateManagedConfigData linux d2) (\<lambda>(d3, n3).
     Inr (d3, n1 + n2 + n3))))"

section \<open>Migrating the active configuration file\<close>

text \<open>
  The environment of \<^verbatim>\<open>ConfigService.MigrateCompatibility\<close>: the outcome of every file operation, the
  validator that runs the staged file through the core, and the daily backup.  The state is the
  active configuration file and the configuration that the backup of the day holds, if one was made;
  a failing backup may have been written before it failed.
\<close>

record config_file =
  file_content :: config_data
  file_mode :: nat
  file_saved :: "config_data option"

record migrate_env =
  lookup_ok :: bool
  installed_version :: string
  active_exists :: bool
  stat_ok :: bool
  chmod_ok :: bool
  read_ok :: bool
  stage_ok :: bool
  validator :: "config_data \<Rightarrow> bool"
  backup_ok :: bool
  backup_written :: bool
  replace_ok :: bool
  on_linux :: bool

datatype migrate_failure =
    LookupFailed | StatFailed | ChmodFailed | ReadFailed | MigrationFailed migrate_error
  | StagingFailed | ValidationFailed | BackupFailed | ReplaceFailed

definition migrate_staged :: "migrate_env \<Rightarrow> config_data \<Rightarrow> config_file \<Rightarrow> config_file \<times> (migrate_failure + bool)" where
  "migrate_staged env data f =
     (if \<not> stage_ok env then (f, Inl StagingFailed)
      else if \<not> validator env data then (f, Inl ValidationFailed)
      else
        let f' = f\<lparr>file_saved := Some (case file_saved f of None \<Rightarrow> file_content f | Some b \<Rightarrow> b)\<rparr> in
        if \<not> backup_ok env then (if backup_written env then f' else f, Inl BackupFailed)
        else if \<not> replace_ok env then (f', Inl ReplaceFailed)
        else (f'\<lparr>file_content := data\<rparr>, Inr True))"

definition MigrateCompatibility ::
  "migrate_env \<Rightarrow> string \<Rightarrow> config_file \<Rightarrow> config_file \<times> (migrate_failure + bool)" where
  "MigrateCompatibility env version f =
     (if \<not> lookup_ok env then (f, Inl LookupFailed)
      else if \<not> active_exists env then (f, Inr False)
      else if \<not> stat_ok env then (f, Inl StatFailed)
      else if file_mode f \<noteq> 384 \<and> \<not> chmod_ok env then (f, Inl ChmodFailed)
      else
        let f1 = f\<lparr>file_mode := 384\<rparr> in
        if \<not> read_ok env then (f1, Inl ReadFailed)
        else case migrateCoreCompatibilityData (on_linux env) (file_content f1)
            (if version = [] then installed_version env else version) of
          Inl e \<Rightarrow> (f1, Inl (MigrationFailed e))
        | Inr (data, n) \<Rightarrow>
            if n = 0 then (f1, Inr (file_mode f \<noteq> 384)) else migrate_staged env data f1)"

section \<open>Version order\<close>

lemma version_numbers: "\<exists>a b c. fst (parseSingboxVersion v) = [a, b, c]"
  by (simp add: parseSingboxVersion_def Let_def split: prod.splits)

definition compare_parsed :: "int list \<times> string \<Rightarrow> int list \<times> string \<Rightarrow> int" where
  "compare_parsed l r =
     (if compare_numbers (fst l) (fst r) \<noteq> 0 then compare_numbers (fst l) (fst r)
      else if snd l = snd r then 0
      else if snd r = [] then -1 else if snd l = [] then 1 else if snd l < snd r then -1 else 1)"

lemma compare_versions_parsed: "compareSingboxVersions l r = compare_parsed (parseSingboxVersion l) (parseSingboxVersion r)"
  by (auto simp: compareSingboxVersions_def compare_parsed_def split: prod.splits)

lemma compare_numbers_flip: "compare_numbers xs ys = - compare_numbers ys xs"
  by (induction xs ys rule: compare_numbers.induct) auto

lemma compare_numbers_trans:
  "length xs = length ys \<Longrightarrow> length ys = length zs \<Longrightarrow> compare_numbers xs ys \<le> 0 \<Longrightarrow> compare_numbers ys zs \<le> 0 \<Longrightarrow>
   compare_numbers xs zs \<le> 0 \<and> (compare_numbers xs zs = 0 \<longrightarrow> compare_numbers xs ys = 0 \<and> compare_numbers ys zs = 0)"
proof (induction xs arbitrary: ys zs)
  case Nil
  then show ?case by simp
next
  case (Cons x xs)
  obtain y ys' z zs' where "ys = y # ys'" "zs = z # zs'" using Cons.prems by (metis length_Suc_conv)
  with Cons.prems Cons.IH [of ys' zs'] show ?case by (auto split: if_splits)
qed

lemma compare_parsed_flip: "compare_parsed l r = - compare_parsed r l"
  using compare_numbers_flip [of "fst l" "fst r"] by (auto simp: compare_parsed_def)

lemma compare_parsed_trans:
  assumes "length (fst a) = length (fst b)" "length (fst b) = length (fst c)" "compare_parsed a b \<le> 0" "compare_parsed b c \<le> 0"
  shows "compare_parsed a c \<le> 0"
proof -
  have n: "compare_numbers (fst a) (fst b) \<le> 0" "compare_numbers (fst b) (fst c) \<le> 0"
    using assms(3,4) by (auto simp: compare_parsed_def split: if_splits)
  note t = compare_numbers_trans [OF assms(1,2) n]
  show ?thesis
  proof (cases "compare_numbers (fst a) (fst c) = 0")
    case True
    with t assms(3,4) show ?thesis by (auto simp: compare_parsed_def split: if_splits)
  next
    case False
    with t show ?thesis by (simp add: compare_parsed_def)
  qed
qed

text \<open>Comparing core versions is a consistent total preorder: swapping the arguments negates the
  result, and \<open>\<le>\<close> is transitive, so the newest of a set of releases does not depend on the order
  in which they are compared.\<close>

theorem version_order_total:
  "compareSingboxVersions a b = - compareSingboxVersions b a \<and>
   (compareSingboxVersions a b \<le> 0 \<longrightarrow> compareSingboxVersions b c \<le> 0 \<longrightarrow> compareSingboxVersions a c \<le> 0)"
proof -
  have "length (fst (parseSingboxVersion v)) = 3" for v using version_numbers [of v] by auto
  then have "compare_parsed (parseSingboxVersion a) (parseSingboxVersion b) \<le> 0 \<longrightarrow>
      compare_parsed (parseSingboxVersion b) (parseSingboxVersion c) \<le> 0 \<longrightarrow>
      compare_parsed (parseSingboxVersion a) (parseSingboxVersion c) \<le> 0"
    using compare_parsed_trans [of "parseSingboxVersion a" "parseSingboxVersion b" "parseSingboxVersion c"] by simp
  then show ?thesis unfolding compare_versions_parsed using compare_parsed_flip by blast
qed

theorem version_order_total_witness:
  "compareSingboxVersions ''1.13.9'' ''v1.14.0-rc.1'' \<le> 0 \<and> compareSingboxVersions ''1.14.0-rc.1'' ''1.14.0'' \<le> 0 \<and>
   compareSingboxVersions ''1.13.9'' ''1.14.0'' \<le> 0"
proof -
  have a: "compareSingboxVersions ''1.13.9'' ''v1.14.0-rc.1'' \<le> 0" "compareSingboxVersions ''v1.14.0-rc.1'' ''1.14.0'' \<le> 0"
    "compareSingboxVersions ''1.14.0-rc.1'' ''1.14.0'' \<le> 0" by code_simp+
  with version_order_total [of "''1.13.9''" "''v1.14.0-rc.1''" "''1.14.0''"] show ?thesis by blast
qed

text \<open>The prerelease is compared as a byte string: the tenth release candidate is older than the ninth.\<close>

lemma prerelease_bytewise: "compareSingboxVersions ''1.14.0-rc.10'' ''1.14.0-rc.9'' = -1"
  by code_simp

end
