(* ===== verification/Migration_Stable.thy ===== *)
theory Migration_Stable
  imports Config_Migration
begin

text \<open>
  Why a configuration migration settles after one run: for every kind of edit of
  \<^verbatim>\<open>Config_Migration\<close> a predicate that says nothing is left to do, that the edit establishes it,
  and that the edits which run later keep it.  The properties are idempotence of the whole migration
  and the safety of replacing the active configuration file.
\<close>

section \<open>Settled inbounds\<close>

lemmas counted_step = put_missing_def put_changed_def

definition defaults_settled :: "gomap \<Rightarrow> bool" where
  "defaults_settled m \<longleftrightarrow> has_key m ''auto_route'' \<and> has_key m ''strict_route''"

definition addresses_settled :: "gomap \<Rightarrow> bool" where
  "addresses_settled m \<longleftrightarrow>
     \<not> snd (migrateDefaultTUNAddresses (map_get m ''address'')) \<and>
     (hasDefaultTUNIPv4Address (map_get m ''address'') \<longrightarrow> stringListHasIPv6 (map_get m ''address''))"

definition exclusions_settled :: "gomap \<Rightarrow> bool" where
  "exclusions_settled m \<longleftrightarrow>
     (map_get m ''auto_route'' = VBool True \<longrightarrow>
        \<not> snd (deduplicateStringList (map_get m ''route_exclude_address'')) \<and>
        stringListContains (map_get m ''route_exclude_address'') defaultTUNIPv4LinkLocal \<and>
        stringListContains (map_get m ''route_exclude_address'') defaultTUNIPv6LinkLocal)"

definition redirect_settled :: "bool \<Rightarrow> gomap \<Rightarrow> bool" where
  "redirect_settled linux m \<longleftrightarrow>
     (linux \<longrightarrow> (map_get m ''auto_route'' = VBool True \<longrightarrow> has_key m ''auto_redirect'') \<and>
        (map_get m ''auto_redirect'' = VBool True \<longrightarrow> has_key m ''auto_redirect_output_mark''))"

definition tun_settled :: "bool \<Rightarrow> gomap \<Rightarrow> bool" where
  "tun_settled linux m \<longleftrightarrow>
     defaults_settled m \<and> addresses_settled m \<and> exclusions_settled m \<and> redirect_settled linux m"

lemmas settled_defs = defaults_settled_def addresses_settled_def exclusions_settled_def redirect_settled_def

lemma tun_settled_fixed:
  assumes "tun_settled linux m"
  shows "tun_redirect linux (tun_exclusions (tun_addresses (tun_defaults (m, n)))) = (m, n)"
proof -
  have "tun_defaults (m, n) = (m, n)" "tun_addresses (m, n) = (m, n)" "tun_exclusions (m, n) = (m, n)" "tun_redirect linux (m, n) = (m, n)"
    using assms unfolding tun_settled_def settled_defs
    by (auto simp: tun_defaults_def tun_addresses_def tun_exclusions_def tun_redirect_def add_exclusion_def counted_step Let_def)
  then show ?thesis by simp
qed

lemma contains_append: "stringListContains (appendStringList v x) y \<longleftrightarrow> y = x \<or> stringListContains v y"
  by (cases v) (auto simp: stringListContains_def appendStringList_def)

lemma has_ipv6_append: "stringListHasIPv6 (appendStringList v x) \<longleftrightarrow> CHR '':'' \<in> set x \<or> stringListHasIPv6 v"
  by (cases v) (auto simp: stringListHasIPv6_def appendStringList_def is_str_def)

lemma default_append: "hasDefaultTUNIPv4Address (appendStringList v defaultTUNIPv6Address) \<longleftrightarrow> hasDefaultTUNIPv4Address v"
  by (auto simp: hasDefaultTUNIPv4Address_def contains_append defaultTUNIPv4Address_def defaultTUNIPv6Address_def
      legacyDefaultTUNIPv4Address_def previousDefaultTUNIPv4_def)

lemma replace_not_previous: "\<not> previous_address (replace_address a)"
  by (simp add: previous_address_def replace_address_def defaultTUNIPv4Address_def defaultTUNIPv6Address_def
      previousDefaultTUNIPv4_def previousDefaultTUNIPv6_def)

lemma addresses_migrated: "\<not> snd (migrateDefaultTUNAddresses (fst (migrateDefaultTUNAddresses v)))"
proof (cases v)
  case (VList xs)
  have "\<not> (is_str (replace_address_value x) \<and> previous_address (as_string (replace_address_value x)))" for x
    by (cases x) (simp_all add: replace_address_value_def is_str_def replace_not_previous)
  with VList show ?thesis by (auto simp: migrateDefaultTUNAddresses_def list_ex_iff)
qed (auto simp: migrateDefaultTUNAddresses_def list_ex_iff replace_not_previous)

lemma addresses_append:
  "\<not> snd (migrateDefaultTUNAddresses v) \<Longrightarrow> \<not> snd (migrateDefaultTUNAddresses (appendStringList v defaultTUNIPv6Address))"
  by (cases v) (auto simp: migrateDefaultTUNAddresses_def appendStringList_def is_str_def previous_address_def
      defaultTUNIPv6Address_def previousDefaultTUNIPv4_def previousDefaultTUNIPv6_def)

lemma dedup_length: "length (dedup_strings seen xs) \<le> length xs"
  by (induction seen xs rule: dedup_strings.induct) auto

lemma dedup_free_iff:
  "length (dedup_strings seen xs) = length xs \<longleftrightarrow>
     distinct (filter is_str xs) \<and> (\<forall>s\<in>set seen. VStr s \<notin> set xs)"
proof (induction seen xs rule: dedup_strings.induct)
  case (2 seen s xs)
  then show ?case using dedup_length [of seen xs] by (auto simp: is_str_def)
qed (auto simp: is_str_def)

lemma dedup_result_free: "length (dedup_strings seen (dedup_strings seen xs)) = length (dedup_strings seen xs)"
proof -
  have "distinct (filter is_str (dedup_strings seen xs)) \<and> (\<forall>s\<in>set seen. VStr s \<notin> set (dedup_strings seen xs))"
    by (induction seen xs rule: dedup_strings.induct) (auto simp: is_str_def)
  then show ?thesis by (simp add: dedup_free_iff)
qed

lemma uniq_free_iff: "length (uniq_from acc xs) = length acc + length xs \<longleftrightarrow> distinct xs \<and> set acc \<inter> set xs = {}"
proof (induction acc xs rule: uniq_from.induct)
  case (2 acc x xs)
  have "length (uniq_from acc xs) \<le> length acc + length xs" for acc
    by (induction acc xs rule: uniq_from.induct) auto
  from this [of acc] 2 show ?case by auto
qed simp

lemma dedup_done: "\<not> snd (deduplicateStringList (fst (deduplicateStringList v)))"
  by (cases v) (simp_all add: deduplicateStringList_def dedup_result_free uniq_from_distinct distinct_uniq_from)

lemma dedup_needed:
  "snd (deduplicateStringList v) \<longleftrightarrow>
     (case v of VStrList ss \<Rightarrow> \<not> distinct ss | VList xs \<Rightarrow> \<not> distinct (filter is_str xs) | _ \<Rightarrow> False)"
  using uniq_free_iff [of "[]"] by (cases v) (auto simp: deduplicateStringList_def dedup_free_iff)

lemma dedup_append:
  "\<not> snd (deduplicateStringList v) \<Longrightarrow> \<not> stringListContains v x \<Longrightarrow> \<not> snd (deduplicateStringList (appendStringList v x))"
  by (cases v) (auto simp: dedup_needed appendStringList_def stringListContains_def)

lemma tun_defaults_settles: "defaults_settled (fst (tun_defaults mc))"
  by (simp add: tun_defaults_def defaults_settled_def counted_step)

lemma tun_addresses_settles:
  "addresses_settled (fst (tun_addresses mc))" "defaults_settled (fst mc) \<Longrightarrow> defaults_settled (fst (tun_addresses mc))"
proof -
  define mc1 where "mc1 = put_changed ''address'' (migrateDefaultTUNAddresses (map_get (fst mc) ''address'')) mc"
  have "\<not> snd (migrateDefaultTUNAddresses (map_get (fst mc1) ''address''))"
    by (simp add: mc1_def put_changed_def addresses_migrated)
  moreover have "CHR '':'' \<in> set defaultTUNIPv6Address" by (simp add: defaultTUNIPv6Address_def)
  ultimately show "addresses_settled (fst (tun_addresses mc))"
    unfolding tun_addresses_def mc1_def [symmetric] Let_def
    by (simp add: addresses_settled_def put_changed_def addresses_append default_append has_ipv6_append)
  show "defaults_settled (fst mc) \<Longrightarrow> defaults_settled (fst (tun_addresses mc))"
    by (simp add: tun_addresses_def defaults_settled_def put_changed_def Let_def)
qed

lemma add_exclusion_keeps:
  assumes "\<not> snd (deduplicateStringList (map_get (fst mc) ''route_exclude_address''))"
  shows "\<not> snd (deduplicateStringList (map_get (fst (add_exclusion a mc)) ''route_exclude_address''))"
    and "stringListContains (map_get (fst (add_exclusion a mc)) ''route_exclude_address'') b \<longleftrightarrow>
      b = a \<or> stringListContains (map_get (fst mc) ''route_exclude_address'') b"
  using assms by (auto simp: add_exclusion_def put_changed_def dedup_append contains_append Let_def)

lemma add_exclusion_frame:
  "k \<noteq> ''route_exclude_address'' \<Longrightarrow> map_get (fst (add_exclusion a mc)) k = map_get (fst mc) k"
  "k \<noteq> ''route_exclude_address'' \<Longrightarrow> has_key (fst (add_exclusion a mc)) k = has_key (fst mc) k"
  by (simp_all add: add_exclusion_def put_changed_def Let_def)

lemma tun_exclusions_frame:
  "k \<noteq> ''route_exclude_address'' \<Longrightarrow> map_get (fst (tun_exclusions mc)) k = map_get (fst mc) k"
  "k \<noteq> ''route_exclude_address'' \<Longrightarrow> has_key (fst (tun_exclusions mc)) k = has_key (fst mc) k"
  by (simp_all add: tun_exclusions_def add_exclusion_frame put_changed_def)

lemma tun_exclusions_settles:
  "exclusions_settled (fst (tun_exclusions mc))"
  "defaults_settled (fst mc) \<Longrightarrow> defaults_settled (fst (tun_exclusions mc))"
  "addresses_settled (fst mc) \<Longrightarrow> addresses_settled (fst (tun_exclusions mc))"
proof -
  let ?mc1 = "put_changed ''route_exclude_address'' (deduplicateStringList (map_get (fst mc) ''route_exclude_address'')) mc"
  have "\<not> snd (deduplicateStringList (map_get (fst ?mc1) ''route_exclude_address''))"
    by (simp add: put_changed_def dedup_done)
  then show "exclusions_settled (fst (tun_exclusions mc))"
    by (simp add: exclusions_settled_def tun_exclusions_frame) (simp add: tun_exclusions_def add_exclusion_keeps)
  show "defaults_settled (fst mc) \<Longrightarrow> defaults_settled (fst (tun_exclusions mc))"
    by (simp add: defaults_settled_def tun_exclusions_frame)
  show "addresses_settled (fst mc) \<Longrightarrow> addresses_settled (fst (tun_exclusions mc))"
    by (simp add: addresses_settled_def tun_exclusions_frame)
qed

lemma tun_redirect_frame:
  "k \<noteq> ''auto_redirect'' \<Longrightarrow> k \<noteq> ''auto_redirect_output_mark'' \<Longrightarrow> map_get (fst (tun_redirect linux mc)) k = map_get (fst mc) k"
  "has_key (fst mc) k \<Longrightarrow> has_key (fst (tun_redirect linux mc)) k"
  by (simp_all add: tun_redirect_def put_missing_def Let_def)

lemma tun_redirect_settles:
  "redirect_settled linux (fst (tun_redirect linux mc))"
  by (auto simp: tun_redirect_def put_missing_def redirect_settled_def Let_def)

lemma tun_pipeline_settled:
  "tun_settled linux (fst (tun_redirect linux (tun_exclusions (tun_addresses (tun_defaults mc)))))"
  (is "tun_settled linux (fst (tun_redirect linux ?mc))")
proof -
  have "defaults_settled (fst ?mc)" "addresses_settled (fst ?mc)" "exclusions_settled (fst ?mc)"
    by (simp_all add: tun_exclusions_settles tun_addresses_settles tun_defaults_settles)
  then show ?thesis using tun_redirect_settles [of linux ?mc]
    by (simp add: tun_settled_def defaults_settled_def addresses_settled_def exclusions_settled_def tun_redirect_frame)
qed

lemma tun_pipeline_frame:
  assumes "k = ''type'' \<or> k = ''tag''"
  shows "map_get (fst (tun_redirect linux (tun_exclusions (tun_addresses (tun_defaults mc))))) k = map_get (fst mc) k"
  using assms by (elim disjE)
    (simp_all add: tun_redirect_frame tun_exclusions_frame tun_addresses_def tun_defaults_def counted_step Let_def)

lemma migrate_tun_inbound_again:
  "migrate_tun_inbound linux (fst (migrate_tun_inbound linux raw)) = (fst (migrate_tun_inbound linux raw), 0)"
proof -
  obtain m n where mn: "tun_redirect linux (tun_exclusions (tun_addresses (tun_defaults (rule_map raw, 0)))) = (m, n)"
    by (cases "tun_redirect linux (tun_exclusions (tun_addresses (tun_defaults (rule_map raw, 0))))")
  with tun_pipeline_settled [of linux "(rule_map raw, 0)"] tun_pipeline_frame [of _ linux "(rule_map raw, 0)"]
  have m: "tun_settled linux m" "map_get m ''type'' = map_get (rule_map raw) ''type''" "map_get m ''tag'' = map_get (rule_map raw) ''tag''"
    by fastforce+
  then show ?thesis
    using mn by (cases raw) (auto simp: migrate_tun_inbound_def rule_map_def tun_settled_fixed split: prod.splits)
qed

lemma tun_inbounds_again:
  "migrateAckwrapTUNInbounds xs linux = (ys, n) \<Longrightarrow> migrateAckwrapTUNInbounds ys linux = (ys, 0)"
  by (auto simp: migrateAckwrapTUNInbounds_def migrate_tun_inbound_again o_def sum_list_0)

section \<open>Settled route rules\<close>

definition rule_settled :: "goval \<Rightarrow> bool" where
  "rule_settled r \<longleftrightarrow> \<not> legacy_rule r \<and> scope_rule r = ([r], False)"

lemma split_others: "fst (splitAckwrapProcessNames (VList (snd (splitAckwrapProcessNames v)))) = []"
  by (simp add: splitAckwrapProcessNames_def Let_def filter_empty_conv)

lemma legacy_rule_VMap: "legacy_rule (VMap m) \<longleftrightarrow> stringListContains (map_get m ''inbound'') legacyUpdateProxyInboundTag"
  by (simp add: legacy_rule_def is_map_def rule_map_def)

lemma scope_rule_cases:
  assumes "scope_rule raw = (rs, c)"
  shows "rs = [raw] \<and> \<not> c \<or>
    (\<exists>rule names others. raw = VMap rule \<and> map_get rule ''inbound'' = VNil \<and>
       fst (splitAckwrapProcessNames (VList others)) = [] \<and>
       (\<forall>r\<in>set rs. r = VMap (map_put ''inbound'' (VList [VStr ''tun-in'']) (map_put ''process_name'' (VList names) rule)) \<or>
          r = VMap (map_put ''process_name'' (VList others) rule)))"
proof (cases "as_map raw")
  case None
  with assms show ?thesis by (auto simp: scope_rule_def is_map_def split: prod.splits)
next
  case (Some rule)
  then have raw: "raw = VMap rule" by (simp add: as_map_Some)
  obtain names others where sp: "splitAckwrapProcessNames (map_get rule ''process_name'') = (names, others)" by fastforce
  have ot: "fst (splitAckwrapProcessNames (VList others)) = []" using split_others [of "map_get rule ''process_name''"] sp by simp
  show ?thesis
  proof (cases "map_get rule ''outbound'' \<noteq> VStr ''direct'' \<or> map_get rule ''inbound'' \<noteq> VNil \<or> names = []")
    case True
    with assms raw sp have "rs = [raw] \<and> \<not> c" by (simp add: scope_rule_def rule_map_def is_map_def split: if_splits)
    then show ?thesis by blast
  next
    case False
    with assms raw sp have
      "\<forall>r\<in>set rs. r = VMap (map_put ''inbound'' (VList [VStr ''tun-in'']) (map_put ''process_name'' (VList names) rule)) \<or>
          r = VMap (map_put ''process_name'' (VList others) rule)"
      by (auto simp: scope_rule_def rule_map_def is_map_def Let_def split: if_splits)
    with False raw ot show ?thesis by blast
  qed
qed

lemma scope_rule_fixed:
  assumes "map_get rule ''inbound'' \<noteq> VNil \<or> fst (splitAckwrapProcessNames (map_get rule ''process_name'')) = []"
  shows "scope_rule (VMap rule) = ([VMap rule], False)"
  using assms by (cases "splitAckwrapProcessNames (map_get rule ''process_name'')")
    (auto simp: scope_rule_def rule_map_def is_map_def)

lemma scope_rule_settled:
  assumes "r \<in> set (fst (scope_rule raw))" "\<not> legacy_rule raw"
  shows "rule_settled r"
proof -
  obtain rs c where rs: "scope_rule raw = (rs, c)" by fastforce
  from scope_rule_cases [OF rs] show ?thesis
  proof (elim disjE exE conjE)
    assume "rs = [raw]" "\<not> c"
    with assms rs show ?thesis by (simp add: rule_settled_def)
  next
    fix rule names others
    let ?a = "map_put ''inbound'' (VList [VStr ''tun-in'']) (map_put ''process_name'' (VList names) rule)"
      and ?b = "map_put ''process_name'' (VList others) rule"
    assume h: "map_get rule ''inbound'' = VNil" "fst (splitAckwrapProcessNames (VList others)) = []"
      "\<forall>r\<in>set rs. r = VMap ?a \<or> r = VMap ?b"
    have "rule_settled (VMap ?a)"
      by (simp add: rule_settled_def scope_rule_fixed legacy_rule_VMap stringListContains_def legacyUpdateProxyInboundTag_def)
    moreover have "rule_settled (VMap ?b)"
      using h by (simp add: rule_settled_def scope_rule_fixed legacy_rule_VMap stringListContains_def)
    ultimately show ?thesis using h(3) assms(1) rs by auto
  qed
qed

lemma settled_fixed:
  assumes "\<forall>r\<in>set rs. rule_settled r"
  shows "filter (\<lambda>r. \<not> legacy_rule r) rs = rs" "filter legacy_rule rs = []" "scope_rules rs = (rs, 0)"
proof -
  from assms show "filter (\<lambda>r. \<not> legacy_rule r) rs = rs" "filter legacy_rule rs = []"
    by (auto simp: rule_settled_def filter_empty_conv filter_id_conv)
  from assms have "map scope_rule rs = map (\<lambda>r. ([r], False)) rs" by (simp add: rule_settled_def)
  then show "scope_rules rs = (rs, 0)"
    by (simp only: scope_rules_def Let_def) (simp add: o_def)
qed

subsection \<open>Bypass order\<close>

lemma needs_reorder_iff: "\<not> needs_reorder l cs \<longleftrightarrow> sorted cs \<and> (\<forall>c\<in>set cs. l \<le> c)"
  by (induction l cs rule: needs_reorder.induct) (fastforce simp: max_def)+

lemma managed_bypass_action: "managed_bypass (VMap m) \<Longrightarrow> \<not> managed_dns_hijack (VMap m) \<Longrightarrow>
    managed_bypass (VMap (map_put ''action'' (VStr ''bypass'') m)) \<and> \<not> managed_dns_hijack (VMap (map_put ''action'' (VStr ''bypass'') m))"
  by (auto simp: managed_bypass_def managed_dns_hijack_def rule_map_def is_map_def Let_def)

lemma bypass_action_cases:
  assumes "bypass_action r = (r', c)"
  shows "r' = r \<and> \<not> c \<or> (\<exists>m. r = VMap m \<and> r' = VMap (map_put ''action'' (VStr ''bypass'') m) \<and> rule_category r = 1 \<and> rule_category r' = 1)"
proof (cases "rule_category r = 1 \<and> map_get (rule_map r) ''action'' \<noteq> VStr ''bypass''")
  case False
  with assms show ?thesis by (auto simp: bypass_action_def)
next
  case True
  then have mb: "managed_bypass r" "\<not> managed_dns_hijack r" by (simp_all add: rule_category_def split: if_splits)
  then obtain m where m: "r = VMap m" by (auto simp: managed_bypass_def is_map_def as_map_Some Let_def)
  with mb managed_bypass_action [of m] have "rule_category (VMap (map_put ''action'' (VStr ''bypass'') m)) = 1"
    by (simp add: rule_category_def)
  with True assms m show ?thesis by (auto simp: bypass_action_def rule_map_def)
qed

lemma bypass_action_again:
  "rule_category (fst (bypass_action r)) = rule_category r"
  "bypass_action (fst (bypass_action r)) = (fst (bypass_action r), False)"
proof -
  obtain r' c where r: "bypass_action r = (r', c)" by fastforce
  from bypass_action_cases [OF r] r show "rule_category (fst (bypass_action r)) = rule_category r" by auto
  from bypass_action_cases [OF r] show "bypass_action (fst (bypass_action r)) = (fst (bypass_action r), False)"
  proof (elim disjE exE conjE)
    assume "r' = r" "\<not> c"
    with r show ?thesis by simp
  next
    fix m assume "r' = VMap (map_put ''action'' (VStr ''bypass'') m)" "rule_category r' = 1"
    then have "bypass_action r' = (r', False)" by (simp add: bypass_action_def rule_map_def)
    with r show ?thesis by simp
  qed
qed

lemma bypass_action_settled: "rule_settled r \<Longrightarrow> rule_settled (fst (bypass_action r))"
proof -
  assume s: "rule_settled r"
  obtain r' c where r: "bypass_action r = (r', c)" by fastforce
  from bypass_action_cases [OF r] show ?thesis
  proof (elim disjE exE conjE)
    assume "r' = r" with s r show ?thesis by simp
  next
    fix m assume m: "r = VMap m" "r' = VMap (map_put ''action'' (VStr ''bypass'') m)" "rule_category r = 1"
    then have "stringListContains (map_get m ''inbound'') ''tun-in''"
      by (auto simp: rule_category_def managed_bypass_def rule_map_def Let_def split: if_splits)
    then have "map_get m ''inbound'' \<noteq> VNil" by (auto simp: stringListContains_def)
    with s r m show ?thesis by (simp add: rule_settled_def legacy_rule_VMap scope_rule_fixed)
  qed
qed

definition bypass_settled :: "goval list \<Rightarrow> bool" where
  "bypass_settled rs \<longleftrightarrow> sorted (map rule_category rs) \<and> (\<forall>r\<in>set rs. bypass_action r = (r, False))"

lemma bypass_settled_fixed: "bypass_settled rs \<Longrightarrow> migrateAckwrapProcessBypassRules rs = (rs, 0)"
proof -
  assume s: "bypass_settled rs"
  then have "map bypass_action rs = map (\<lambda>r. (r, False)) rs" by (simp add: bypass_settled_def)
  moreover have "\<not> needs_reorder 0 (map rule_category rs)" using s by (simp add: needs_reorder_iff bypass_settled_def)
  ultimately show ?thesis
    by (simp only: migrateAckwrapProcessBypassRules_def Let_def) (simp add: o_def)
qed

lemma zip_map_filter: "map snd (filter (\<lambda>p. fst p = c) (zip (map f xs) (map g xs))) = map g (filter (\<lambda>x. f x = c) xs)"
  by (induction xs) auto

lemma bypass_rules_form:
  "fst (migrateAckwrapProcessBypassRules rs) =
     (let e = \<lambda>r. fst (bypass_action r) in
      if \<not> needs_reorder 0 (map rule_category rs) then map e rs
      else map e (filter (\<lambda>r. rule_category r = 0) rs @ filter (\<lambda>r. rule_category r = 1) rs @ filter (\<lambda>r. rule_category r = 2) rs))"
  using zip_map_filter [of _ rule_category rs "\<lambda>r. fst (bypass_action r)"]
  by (simp add: migrateAckwrapProcessBypassRules_def Let_def o_def)

lemma category_le: "rule_category r \<le> 2"
  by (simp add: rule_category_def)

lemma sorted_categories:
  "sorted (map rule_category (filter (\<lambda>r. rule_category r = 0) rs @ filter (\<lambda>r. rule_category r = 1) rs @ filter (\<lambda>r. rule_category r = 2) rs))"
proof -
  have "sorted (map rule_category (filter (\<lambda>r. rule_category r = c) rs))" for c
    by (induction rs) auto
  then show ?thesis by (auto simp: sorted_append)
qed

lemma bypass_rules_settled:
  assumes "migrateAckwrapProcessBypassRules rs = (ys, n)"
  shows "bypass_settled ys" "(\<forall>r\<in>set rs. rule_settled r) \<Longrightarrow> \<forall>r\<in>set ys. rule_settled r"
proof -
  let ?e = "\<lambda>r. fst (bypass_action r)"
  have "\<exists>zs. ys = map ?e zs \<and> set zs \<subseteq> set rs \<and> sorted (map rule_category zs)"
  proof (cases "needs_reorder 0 (map rule_category rs)")
    case True
    then have "ys = map ?e (filter (\<lambda>r. rule_category r = 0) rs @ filter (\<lambda>r. rule_category r = 1) rs @ filter (\<lambda>r. rule_category r = 2) rs)"
      using bypass_rules_form [of rs] assms by (simp add: Let_def)
    with sorted_categories show ?thesis by fastforce
  next
    case False
    with bypass_rules_form [of rs] assms needs_reorder_iff show ?thesis by fastforce
  qed
  then obtain zs where zs: "ys = map ?e zs" "set zs \<subseteq> set rs" "sorted (map rule_category zs)" by blast
  then show "bypass_settled ys" by (simp add: bypass_settled_def bypass_action_again o_def)
  from zs show "(\<forall>r\<in>set rs. rule_settled r) \<Longrightarrow> \<forall>r\<in>set ys. rule_settled r" by (auto simp: bypass_action_settled)
qed


subsection \<open>The resolve rule\<close>

lemma indexes_of_Nil [simp]: "indexes_of P [] = []"
  by (simp add: indexes_of_def)

lemma indexes_of_Cons [simp]: "indexes_of P (x # xs) = (if P x then [0] else []) @ map Suc (indexes_of P xs)"
proof -
  have "[0..<length (x # xs)] = 0 # map Suc [0..<length xs]"
    by (simp add: map_Suc_upt upt_conv_Cons del: upt_Suc)
  then show ?thesis by (simp add: indexes_of_def filter_map o_def)
qed

lemma indexes_of_append: "indexes_of P (xs @ ys) = indexes_of P xs @ map (\<lambda>i. i + length xs) (indexes_of P ys)"
  by (induction xs) (simp_all add: o_def)

lemma indexes_of_none: "indexes_of P xs = [] \<longleftrightarrow> (\<forall>x\<in>set xs. \<not> P x)"
  by (induction xs) auto

lemma indexes_of_first:
  "indexes_of P xs = i # js \<Longrightarrow> \<exists>as x bs. xs = as @ x # bs \<and> length as = i \<and> P x \<and> (\<forall>a\<in>set as. \<not> P a)"
proof (induction xs arbitrary: i js)
  case Nil
  then show ?case by simp
next
  case (Cons y ys)
  show ?case
  proof (cases "P y")
    case True
    with Cons.prems show ?thesis by (intro exI [of _ "[]"]) auto
  next
    case False
    with Cons.prems obtain i' js' where i: "indexes_of P ys = i' # js'" "i = Suc i'" by auto
    from Cons.IH [OF i(1)] obtain as x bs where "ys = as @ x # bs" "length as = i'" "P x" "\<forall>a\<in>set as. \<not> P a" by blast
    with False i(2) show ?thesis by (intro exI [of _ "y # as"]) auto
  qed
qed

lemma resolve_rule_facts:
  "is_icmp_resolve resolve_rule" "length (rule_map resolve_rule) = 3" "\<not> is_sniff resolve_rule"
  "rule_settled resolve_rule" "rule_category resolve_rule = 2" "bypass_action resolve_rule = (resolve_rule, False)"
  by (code_simp, code_simp, code_simp, code_simp, code_simp) (simp add: bypass_action_def, code_simp)

lemma resolve_inserted:
  assumes "\<forall>r\<in>set (as @ s # bs). \<not> is_icmp_resolve r" "is_sniff s" "\<forall>a\<in>set as. \<not> is_sniff a"
  shows "migrateFakeIPICMPResolveRule (as @ s # resolve_rule # bs) = (as @ s # resolve_rule # bs, 0)"
proof -
  have i: "indexes_of is_icmp_resolve (as @ s # resolve_rule # bs) = [length as + 1]"
    using assms(1) indexes_of_none [of is_icmp_resolve as] indexes_of_none [of is_icmp_resolve bs]
    by (simp add: indexes_of_append resolve_rule_facts)
  obtain js where j: "indexes_of is_sniff (as @ s # resolve_rule # bs) = length as # js"
    using assms(2,3) indexes_of_none [of is_sniff as] by (simp add: indexes_of_append)
  have "\<not> list_ex (\<lambda>raw. is_icmp_resolve raw \<and> length (rule_map raw) \<noteq> 3) (as @ s # resolve_rule # bs)"
    using assms(1) by (auto simp: list_ex_iff resolve_rule_facts)
  with i j show ?thesis by (simp add: migrateFakeIPICMPResolveRule_def)
qed

lemma resolve_rules_form:
  assumes "migrateFakeIPICMPResolveRule rs = (ys, n)"
  shows "ys = rs \<and> n = 0 \<or>
    (\<exists>as s bs. filter (\<lambda>r. \<not> is_icmp_resolve r) rs = as @ s # bs \<and> ys = as @ s # resolve_rule # bs \<and>
       is_sniff s \<and> (\<forall>a\<in>set as. \<not> is_sniff a))"
proof (cases "ys = rs \<and> n = 0")
  case False
  let ?F = "filter (\<lambda>r. \<not> is_icmp_resolve r) rs"
  let ?t = "case indexes_of is_sniff ?F of i # _ \<Rightarrow> i + 1 | [] \<Rightarrow> 0"
  have long: "\<not> list_ex (\<lambda>raw. is_icmp_resolve raw \<and> length (rule_map raw) \<noteq> 3) rs"
    by (rule ccontr) (use assms False in \<open>simp add: migrateFakeIPICMPResolveRule_def Let_def\<close>)
  with assms False obtain k ks where k: "indexes_of is_sniff rs = k # ks"
    by (cases "indexes_of is_sniff rs") (simp_all add: migrateFakeIPICMPResolveRule_def Let_def)
  have "indexes_of is_icmp_resolve rs \<noteq> [k + 1]"
    using assms False long k by (auto simp: migrateFakeIPICMPResolveRule_def Let_def)
  then have ys: "ys = take ?t ?F @ [resolve_rule] @ drop ?t ?F"
    using assms long k unfolding migrateFakeIPICMPResolveRule_def Let_def by simp
  from indexes_of_first [OF k] obtain s where "s \<in> set rs" "is_sniff s" by fastforce
  then have "s \<in> set ?F" "is_sniff s" by (auto simp: is_sniff_def is_icmp_resolve_def)
  then obtain i js where i: "indexes_of is_sniff ?F = i # js" using indexes_of_none [of is_sniff ?F] by (cases "indexes_of is_sniff ?F") auto
  from indexes_of_first [OF i] obtain as s bs where f: "?F = as @ s # bs" "length as = i" "is_sniff s" "\<forall>a\<in>set as. \<not> is_sniff a" by blast
  with ys i have "ys = as @ s # resolve_rule # bs" by simp
  with f show ?thesis by blast
qed simp

lemma sniff_category: "bypass_action s = (s, False) \<Longrightarrow> is_sniff s \<Longrightarrow> rule_category s = 2"
  by (auto simp: bypass_action_def is_sniff_def rule_category_def managed_dns_hijack_def Let_def split: if_splits)

lemma bypass_settled_insert:
  assumes "bypass_settled (as @ s # bs)" "is_sniff s"
  shows "bypass_settled (as @ s # resolve_rule # bs)"
proof -
  from assms have "rule_category s = 2" by (simp add: sniff_category bypass_settled_def)
  with assms(1) category_le show ?thesis
    by (auto simp: bypass_settled_def sorted_append resolve_rule_facts)
qed

lemma bypass_settled_filter: "bypass_settled rs \<Longrightarrow> bypass_settled (filter P rs)"
  by (auto simp: bypass_settled_def sorted_filter)

lemma resolve_rules_settled:
  assumes "migrateFakeIPICMPResolveRule rs = (ys, n)"
  shows "migrateFakeIPICMPResolveRule ys = (ys, 0)" "bypass_settled rs \<Longrightarrow> bypass_settled ys"
    "(\<forall>r\<in>set rs. rule_settled r) \<Longrightarrow> \<forall>r\<in>set ys. rule_settled r"
proof (atomize (full), cases "ys = rs \<and> n = 0")
  case True
  with assms show "migrateFakeIPICMPResolveRule ys = (ys, 0) \<and> (bypass_settled rs \<longrightarrow> bypass_settled ys) \<and>
    ((\<forall>r\<in>set rs. rule_settled r) \<longrightarrow> (\<forall>r\<in>set ys. rule_settled r))" by simp
next
  case False
  with resolve_rules_form [OF assms] obtain as s bs where
    f: "filter (\<lambda>r. \<not> is_icmp_resolve r) rs = as @ s # bs" and ys: "ys = as @ s # resolve_rule # bs"
    and s: "is_sniff s" "\<forall>a\<in>set as. \<not> is_sniff a" by auto
  have sub: "set (as @ s # bs) \<subseteq> set rs" "\<forall>r\<in>set (as @ s # bs). \<not> is_icmp_resolve r"
    unfolding f [symmetric] by auto
  have "migrateFakeIPICMPResolveRule ys = (ys, 0)" using ys s sub(2) resolve_inserted by simp
  moreover have "bypass_settled rs \<longrightarrow> bypass_settled ys"
    using ys s f bypass_settled_insert [of as s bs] bypass_settled_filter [of rs "\<lambda>r. \<not> is_icmp_resolve r"] by simp
  moreover have "(\<forall>r\<in>set rs. rule_settled r) \<longrightarrow> (\<forall>r\<in>set ys. rule_settled r)"
    using ys sub(1) resolve_rule_facts by auto
  ultimately show "migrateFakeIPICMPResolveRule ys = (ys, 0) \<and> (bypass_settled rs \<longrightarrow> bypass_settled ys) \<and>
    ((\<forall>r\<in>set rs. rule_settled r) \<longrightarrow> (\<forall>r\<in>set ys. rule_settled r))" by blast
qed

lemma migrate_rules_again:
  assumes "migrate_rules managed fakeip rs = (ys, n)" and "managed' \<longrightarrow> managed"
  shows "migrate_rules managed' fakeip ys = (ys, 0)"
proof -
  obtain s1 n1 where s1: "scope_rules (filter (\<lambda>r. \<not> legacy_rule r) rs) = (s1, n1)" by fastforce
  have "\<forall>r\<in>set s1. rule_settled r"
    using s1 by (auto simp: scope_rules_def Let_def intro: scope_rule_settled)
  moreover obtain s2 n2 where s2: "(if managed then migrateAckwrapProcessBypassRules s1 else (s1, 0)) = (s2, n2)" by fastforce
  ultimately have r2: "\<forall>r\<in>set s2. rule_settled r" "managed \<longrightarrow> bypass_settled s2"
    using bypass_rules_settled [of s1 s2 n2] by (auto split: if_splits)
  obtain n3 where s3: "(if managed \<and> fakeip then migrateFakeIPICMPResolveRule s2 else (s2, 0)) = (ys, n3)"
    using assms(1) s1 s2 by (auto simp: migrate_rules_def Let_def split: prod.splits)
  with r2 resolve_rules_settled [of s2 ys n3]
  have "\<forall>r\<in>set ys. rule_settled r" "managed \<longrightarrow> bypass_settled ys" "managed \<and> fakeip \<longrightarrow> migrateFakeIPICMPResolveRule ys = (ys, 0)"
    by (auto split: if_splits)
  with assms(2) settled_fixed [of ys] show ?thesis
    by (auto simp: migrate_rules_def Let_def bypass_settled_fixed)
qed

section \<open>Settled outbounds\<close>

lemma tagged_simps [simp]:
  "taggedConfigItem [] tag = None"
  "taggedConfigItem (x # xs) tag = (if is_tagged tag x then as_map x else taggedConfigItem xs tag)"
  by (simp_all add: taggedConfigItem_def)

lemma is_tagged_map: "is_tagged tag x \<Longrightarrow> \<exists>m. as_map x = Some m"
  by (auto simp: is_tagged_def split: option.splits)

lemma tagged_append:
  "taggedConfigItem (xs @ [x]) tag = (case taggedConfigItem xs tag of Some m \<Rightarrow> Some m | None \<Rightarrow> if is_tagged tag x then as_map x else None)"
  by (induction xs) (auto dest: is_tagged_map)

lemma tagged_replace:
  "taggedConfigItem xs tag \<noteq> None \<Longrightarrow> is_tagged tag (VMap r) \<Longrightarrow> taggedConfigItem (replaceTaggedConfigItem xs tag r) tag = Some r"
  by (induction xs) (auto split: if_splits)

lemma tagged_replace_other:
  "tag' \<noteq> tag \<Longrightarrow> is_tagged tag (VMap r) \<Longrightarrow> taggedConfigItem (replaceTaggedConfigItem xs tag r) tag' = taggedConfigItem xs tag'"
  by (induction xs) (auto simp: is_tagged_def split: option.splits)

lemma item_facts: "is_tagged ''proxy'' (VMap proxy_item)" "is_tagged ''direct'' (VMap direct_item)"
  "\<not> is_tagged ''direct'' (VMap proxy_item)" "\<not> is_tagged ''proxy'' (VMap direct_item)"
  "map_get proxy_item ''type'' = VStr ''selector''" "map_of proxy_item ''outbounds'' = Some (VList [VStr ''direct''])"
  "configStringListLength (VList [VStr ''direct'']) = Some 1"
  by code_simp+

lemma ensure_proxy_again:
  assumes "ensure_proxy xs = Inr (ys, n)"
  shows "ensure_proxy ys = Inr (ys, 0)" "taggedConfigItem ys ''direct'' = taggedConfigItem xs ''direct''"
proof -
  consider "ys = xs" "n = 0" | "taggedConfigItem xs ''proxy'' = None" "ys = xs @ [VMap proxy_item]"
    | "taggedConfigItem xs ''proxy'' \<noteq> None" "ys = replaceTaggedConfigItem xs ''proxy'' proxy_item"
    using assms by (auto simp: ensure_proxy_def split: option.splits if_splits)
  note cs = this
  then have "taggedConfigItem ys ''proxy'' = Some proxy_item \<or> ys = xs \<and> n = 0"
    by cases (simp_all add: tagged_append tagged_replace item_facts)
  then show "ensure_proxy ys = Inr (ys, 0)" using assms by (auto simp: ensure_proxy_def item_facts)
  from cs show "taggedConfigItem ys ''direct'' = taggedConfigItem xs ''direct''"
    by cases (simp_all add: tagged_append tagged_replace_other item_facts split: option.splits)
qed

lemma ensure_outbounds_again:
  assumes "ensure_outbounds xs = Inr (ys, n)"
  shows "ensure_outbounds ys = Inr (ys, 0)"
proof -
  let ?o = "if \<not> hasTaggedConfigItem xs ''direct'' then xs @ [VMap direct_item] else xs"
  obtain k where k: "ensure_proxy ?o = Inr (ys, k)" using assms by (auto simp: ensure_outbounds_def Let_def go_result)
  have "hasTaggedConfigItem ?o ''direct''" by (auto simp: hasTaggedConfigItem_def tagged_append item_facts)
  with ensure_proxy_again [OF k] show ?thesis by (simp add: ensure_outbounds_def hasTaggedConfigItem_def)
qed

section \<open>The managed configuration is settled after one run\<close>

lemma tun_inbound_type:
  "map_get (rule_map (fst (migrate_tun_inbound linux raw))) k = map_get (rule_map raw) k" if "k = ''type'' \<or> k = ''tag''"
  using tun_pipeline_frame [OF that, of linux "(rule_map raw, 0)"] that
  by (cases raw) (auto simp: migrate_tun_inbound_def rule_map_def split: prod.splits)

lemma managed_config_mono:
  assumes "isAckwrapManagedConfig config' (filter P inbounds) route'"
    and "map_get route' ''default_http_client'' = map_get route ''default_http_client''"
    and "map_get config' ''http_clients'' = map_get config ''http_clients''"
  shows "isAckwrapManagedConfig config inbounds route"
  using assms unfolding isAckwrapManagedConfig_def list_ex_iff by auto

lemma has_tun_mono: "hasTUNInbound (filter P inbounds) \<Longrightarrow> hasTUNInbound inbounds"
  by (auto simp: hasTUNInbound_def list_ex_iff)

lemma fakeip_cong: "map_get c ''dns'' = map_get c' ''dns'' \<Longrightarrow> hasFakeIPDNSServer c = hasFakeIPDNSServer c'"
  by (simp add: hasFakeIPDNSServer_def)

lemma list_field_put [simp]:
  "list_field e (map_put k' v m) k = (if k' = k then (case as_list v of Some xs \<Rightarrow> Inr xs | None \<Rightarrow> Inl e) else list_field e m k)"
  by (simp add: list_field_def)


subsection \<open>No count, no edit\<close>

lemma scope_none: "snd (scope_rules rs) = 0 \<Longrightarrow> fst (scope_rules rs) = rs"
proof -
  assume "snd (scope_rules rs) = 0"
  then have "\<not> snd (scope_rule r)" if "r \<in> set rs" for r
    using that by (auto simp: scope_rules_def Let_def filter_empty_conv)
  moreover have "scope_rule r = ([r], False)" if "\<not> snd (scope_rule r)" for r
    using that by (auto simp: scope_rule_def Let_def split: prod.splits if_splits)
  ultimately have "map scope_rule rs = map (\<lambda>r. ([r], False)) rs" by simp
  then show ?thesis by (simp only: scope_rules_def Let_def) (simp add: o_def)
qed

lemma bypass_none:
  assumes "snd (migrateAckwrapProcessBypassRules rs) = 0"
  shows "fst (migrateAckwrapProcessBypassRules rs) = rs"
proof -
  have "\<forall>r\<in>set rs. \<not> snd (bypass_action r)" "\<not> needs_reorder 0 (map rule_category rs)"
    using assms by (auto simp: migrateAckwrapProcessBypassRules_def Let_def filter_empty_conv split: if_splits)
  moreover have "fst (bypass_action r) = r" if "\<not> snd (bypass_action r)" for r
    using that by (auto simp: bypass_action_def split: if_splits)
  ultimately show ?thesis
    by (simp add: bypass_rules_form Let_def map_idI)
qed

lemma resolve_none:
  assumes "snd (migrateFakeIPICMPResolveRule rs) = 0"
  shows "fst (migrateFakeIPICMPResolveRule rs) = rs"
  using assms unfolding migrateFakeIPICMPResolveRule_def Let_def
  by (cases "indexes_of is_sniff rs") (auto split: if_split_asm)

lemma migrate_rules_none:
  assumes "snd (migrate_rules managed fakeip rs) = 0"
  shows "fst (migrate_rules managed fakeip rs) = rs"
proof -
  define sc where "sc = scope_rules (filter (\<lambda>r. \<not> legacy_rule r) rs)"
  define bp where "bp = (if managed then migrateAckwrapProcessBypassRules (fst sc) else (fst sc, 0))"
  define rr where "rr = (if managed \<and> fakeip then migrateFakeIPICMPResolveRule (fst bp) else (fst bp, 0))"
  have eq: "migrate_rules managed fakeip rs = (fst rr, length (filter legacy_rule rs) + snd sc + snd bp + snd rr)"
    unfolding migrate_rules_def Let_def rr_def bp_def sc_def by (simp split: prod.splits)
  with assms have z: "filter legacy_rule rs = []" "snd sc = 0" "snd bp = 0" "snd rr = 0" by simp_all
  have "filter (\<lambda>r. \<not> legacy_rule r) rs = rs" using z(1) by (simp add: filter_empty_conv filter_id_conv)
  then have "fst sc = rs" using scope_none z(2) by (simp add: sc_def)
  then have "fst bp = rs" using bypass_none z(3) by (simp add: bp_def split: if_splits)
  then have "fst rr = rs" using resolve_none z(4) by (auto simp: rr_def split: if_splits)
  with eq show ?thesis by simp
qed

subsection \<open>One more run\<close>

lemma managed_inbounds_again:
  assumes "managed' \<longrightarrow> managed"
  shows "managed_inbounds managed' linux (fst (managed_inbounds managed linux xs)) = (fst (managed_inbounds managed linux xs), 0)"
proof -
  let ?ys = "fst (managed_inbounds managed linux xs)"
  have leg: "filter legacy_inbound ?ys = []" "filter (\<lambda>r. \<not> legacy_inbound r) ?ys = ?ys"
    by (simp_all add: managed_inbounds_def Let_def)
  have "migrate_tun_inbound linux y = (y, 0)" if "managed" "y \<in> set ?ys" for y
    using that by (auto simp: managed_inbounds_def migrateAckwrapTUNInbounds_def migrate_tun_inbound_again Let_def)
  then have "managed \<Longrightarrow> map (migrate_tun_inbound linux) ?ys = map (\<lambda>y. (y, 0)) ?ys" by simp
  then have "managed \<Longrightarrow> migrateAckwrapTUNInbounds ?ys linux = (?ys, 0)"
    by (simp only: migrateAckwrapTUNInbounds_def Let_def) (simp add: o_def)
  with leg assms show ?thesis by (auto simp: managed_inbounds_def [of managed' linux ?ys] Let_def)
qed

lemma managed_inbounds_none:
  "snd (managed_inbounds False linux xs) = 0 \<Longrightarrow> fst (managed_inbounds False linux xs) = xs"
  by (simp add: managed_inbounds_def filter_empty_conv filter_id_conv)

lemma managed_rest_form:
  assumes "managed_rest managed linux c xs r = Inr (c', n)" and "list_field InboundsInvalid c ''inbounds'' = Inr xs"
  obtains ys r' rules where
    "ys = fst (managed_inbounds managed linux xs)"
    "list_field InboundsInvalid c' ''inbounds'' = Inr ys"
    "map_of c' ''route'' = Some (VMap r')"
    "managed \<longrightarrow> has_key r' ''auto_detect_interface''"
    "managed \<longrightarrow> map_of c' ''inbounds'' = Some (VList ys)"
    "list_field RulesInvalid r' ''rules'' = Inr (fst (migrate_rules managed (hasFakeIPDNSServer c') rules))"
    "map_get r' ''default_http_client'' = map_get r ''default_http_client''"
    "\<forall>k. k \<noteq> ''inbounds'' \<and> k \<noteq> ''route'' \<longrightarrow> map_of c' k = map_of c k"
proof -
  define inb where "inb = managed_inbounds managed linux xs"
  define rt where "rt = managed_route managed r"
  define c2 where "c2 = (if managed \<or> snd inb \<noteq> 0 then map_put ''inbounds'' (VList (fst inb)) c else c)"
  obtain rules where rules: "list_field RulesInvalid (fst rt) ''rules'' = Inr rules"
    using assms(1) by (auto simp: managed_rest_def Let_def go_result rt_def)
  define ru where "ru = migrate_rules managed (hasFakeIPDNSServer c2) rules"
  define r2 where "r2 = (if snd ru \<noteq> 0 then map_put ''rules'' (VList (fst ru)) (fst rt) else fst rt)"
  have c': "c' = map_put ''route'' (VMap r2) c2"
    using assms(1) rules unfolding managed_rest_def Let_def inb_def [symmetric] rt_def [symmetric] c2_def [symmetric]
    by (auto simp: r2_def ru_def)
  have fk: "hasFakeIPDNSServer c' = hasFakeIPDNSServer c2" by (rule fakeip_cong) (simp add: c')
  show ?thesis
  proof (rule that [of "fst inb" r2 rules])
    show "list_field InboundsInvalid c' ''inbounds'' = Inr (fst inb)"
      using managed_inbounds_none [of linux xs] assms(2) by (cases managed) (auto simp: c' c2_def inb_def)
    show "list_field RulesInvalid r2 ''rules'' = Inr (fst (migrate_rules managed (hasFakeIPDNSServer c') rules))"
      using rules migrate_rules_none [of managed "hasFakeIPDNSServer c2" rules] unfolding fk
      by (cases "snd ru = 0") (simp_all add: r2_def ru_def)
  qed (auto simp: c' c2_def r2_def inb_def rt_def managed_route_def put_missing_def)
qed

lemma managed_rest_fixed:
  assumes "managed_inbounds m linux ys = (ys, 0)" "managed_route m r = (r, 0)" "m \<longrightarrow> map_put ''inbounds'' (VList ys) c = c"
    "list_field RulesInvalid r ''rules'' = Inr rs" "migrate_rules m (hasFakeIPDNSServer c) rs = (rs, 0)"
    "map_put ''route'' (VMap r) c = c"
  shows "managed_rest m linux c ys r = Inr (c, 0)"
  using assms by (cases m) (simp_all add: managed_rest_def Let_def)

lemma managed_again:
  assumes "migrateManagedConfig linux config = Inr (c', n)"
  shows "migrateManagedConfig linux c' = Inr (c', 0)"
proof -
  obtain xs os outs n0 c1 r n1 n2 where xs: "list_field InboundsInvalid config ''inbounds'' = Inr xs"
    and outs: "ensure_outbounds os = Inr (outs, n0)" and c1: "c1 = map_put ''outbounds'' (VList outs) config"
    and r: "route_field c1 = Inr (r, n1)" and rest: "managed_rest (managed_tun c1 xs r) linux c1 xs r = Inr (c', n2)"
    using assms by (auto simp: migrateManagedConfig_def Let_def go_result)
  let ?m = "managed_tun c1 xs r"
  have xs1: "list_field InboundsInvalid c1 ''inbounds'' = Inr xs" using xs by (simp add: c1)
  obtain ys r' rules where
    ys: "ys = fst (managed_inbounds ?m linux xs)" "list_field InboundsInvalid c' ''inbounds'' = Inr ys"
    and r': "map_of c' ''route'' = Some (VMap r')" "?m \<longrightarrow> has_key r' ''auto_detect_interface''"
      "?m \<longrightarrow> map_of c' ''inbounds'' = Some (VList ys)"
    and rules: "list_field RulesInvalid r' ''rules'' = Inr (fst (migrate_rules ?m (hasFakeIPDNSServer c') rules))"
    and hc: "map_get r' ''default_http_client'' = map_get r ''default_http_client''"
    and frame: "\<forall>k. k \<noteq> ''inbounds'' \<and> k \<noteq> ''route'' \<longrightarrow> map_of c' k = map_of c1 k"
    by (rule managed_rest_form [OF rest xs1]) (rule that)
  let ?m' = "managed_tun c' ys r'"
  have mono: "?m' \<longrightarrow> ?m"
  proof (intro impI, rule ccontr)
    assume m': "?m'" and no: "\<not> ?m"
    then have "ys = filter (\<lambda>x. \<not> legacy_inbound x) xs" by (simp add: ys(1) managed_inbounds_def)
    with m' spec [OF frame, of "''http_clients''"] hc have "?m"
      unfolding managed_tun_def by (auto simp: map_get_def [of _ "''http_clients''"] intro: has_tun_mono managed_config_mono)
    with no show False by contradiction
  qed
  have "map_of c' ''outbounds'' = Some (VList outs)" using spec [OF frame, of "''outbounds''"] by (simp add: c1)
  then have outs': "list_field OutboundsInvalid c' ''outbounds'' = Inr outs" "map_put ''outbounds'' (VList outs) c' = c'"
    by (simp_all add: list_field_def map_put_same)
  have inb: "managed_inbounds ?m' linux ys = (ys, 0)" using managed_inbounds_again [OF mono] ys(1) by simp
  have rt: "managed_route ?m' r' = (r', 0)" using mono r'(2) by (simp add: managed_route_def put_missing_def)
  have ru: "migrate_rules ?m' (hasFakeIPDNSServer c') (fst (migrate_rules ?m (hasFakeIPDNSServer c') rules)) =
      (fst (migrate_rules ?m (hasFakeIPDNSServer c') rules), 0)"
    using migrate_rules_again [OF surjective_pairing mono] .
  have "?m' \<longrightarrow> map_put ''inbounds'' (VList ys) c' = c'" using mono r'(3) by (simp add: map_put_same)
  then have "managed_rest ?m' linux c' ys r' = Inr (c', 0)"
    using managed_rest_fixed [OF inb rt _ rules ru] r'(1) by (simp add: map_put_same)
  moreover have "route_field c' = Inr (r', 0)" by (simp add: route_field_def r'(1))
  ultimately show ?thesis
    using ys(2) outs' ensure_outbounds_again [OF outs] by (simp add: migrateManagedConfig_def)
qed

section \<open>Inline ACME and development options settle too\<close>

lemma tun_pipeline_other:
  assumes "k \<notin> {''auto_route'', ''strict_route'', ''address'', ''route_exclude_address'', ''auto_redirect'', ''auto_redirect_output_mark''}"
  shows "map_of (fst (tun_redirect linux (tun_exclusions (tun_addresses (tun_defaults mc))))) k = map_of (fst mc) k"
proof -
  have a: "map_of (fst (add_exclusion a mc)) k = map_of (fst mc) k" for a mc
    using assms by (simp add: add_exclusion_def put_changed_def Let_def)
  have "map_of (fst (tun_redirect linux mc)) k = map_of (fst mc) k" for mc
    using assms by (simp add: tun_redirect_def put_missing_def Let_def)
  moreover have "map_of (fst (tun_exclusions mc)) k = map_of (fst mc) k" for mc
    using assms a by (simp add: tun_exclusions_def put_changed_def)
  moreover have "map_of (fst (tun_addresses mc)) k = map_of (fst mc) k" "map_of (fst (tun_defaults mc)) k = map_of (fst mc) k" for mc
    using assms by (simp_all add: tun_addresses_def tun_defaults_def counted_step Let_def)
  ultimately show ?thesis by simp
qed

lemma tun_inbound_other:
  assumes "fst (migrate_tun_inbound linux raw) = VMap m'"
  obtains m where "raw = VMap m" "\<forall>k\<in>{''type'', ''stack'', ''multi_queue'', ''auto_redirect_tproxy_mark'', ''tls''}. map_of m' k = map_of m k"
proof -
  from assms obtain m where m: "raw = VMap m"
    by (cases raw) (auto simp: migrate_tun_inbound_def split: prod.splits if_splits)
  have "m' = m \<or> m' = fst (tun_redirect linux (tun_exclusions (tun_addresses (tun_defaults (m, 0)))))"
    using assms m by (auto simp: migrate_tun_inbound_def split: prod.splits if_splits)
  moreover have "map_of (fst (tun_redirect linux (tun_exclusions (tun_addresses (tun_defaults (m, 0)))))) k = map_of m k"
    if "k \<in> {''type'', ''stack'', ''multi_queue'', ''auto_redirect_tproxy_mark'', ''tls''}" for k
    by (subst tun_pipeline_other) (use that in auto)
  ultimately show ?thesis using m by (intro that [of m]) blast+
qed

subsection \<open>Inbounds\<close>

definition dev_settled :: "goval \<Rightarrow> bool" where
  "dev_settled raw \<longleftrightarrow> (case as_map raw of None \<Rightarrow> True | Some m \<Rightarrow>
     map_get m ''type'' = VStr ''tun'' \<longrightarrow>
       map_get m ''stack'' \<noteq> VStr ''go'' \<and> \<not> has_key m ''multi_queue'' \<and> \<not> has_key m ''auto_redirect_tproxy_mark'')"

definition acme_settled :: "goval \<Rightarrow> bool" where
  "acme_settled raw \<longleftrightarrow> (case as_map raw of None \<Rightarrow> True | Some m \<Rightarrow>
     (case as_map (map_get m ''tls'') of None \<Rightarrow> True | Some tls \<Rightarrow> migrate_acme_tls tls = (tls, 0)))"

lemma acme_tls_again: "migrate_acme_tls tls = (t, n) \<Longrightarrow> migrate_acme_tls t = (t, 0)"
  by (auto simp: migrate_acme_tls_def split: option.splits if_splits)

lemma acme_tls_none: "migrate_acme_tls tls = (t, 0) \<Longrightarrow> t = tls"
  by (auto simp: migrate_acme_tls_def split: option.splits if_splits)

lemma acme_settled_fixed: "acme_settled raw \<Longrightarrow> migrate_acme_inbound raw = (raw, 0)"
proof (cases "as_map raw")
  case (Some m)
  assume a: "acme_settled raw"
  show ?thesis
  proof (cases "as_map (map_get m ''tls'')")
    case (Some tls)
    then have "map_of m ''tls'' = Some (VMap tls)" by (simp add: as_map_Some map_get_Some)
    with a Some \<open>as_map raw = Some m\<close> show ?thesis
      by (simp add: acme_settled_def migrate_acme_inbound_def map_put_same as_map_Some)
  qed (use Some in \<open>simp add: migrate_acme_inbound_def\<close>)
qed (simp add: migrate_acme_inbound_def)

lemma acme_inbound_settled: "acme_settled (fst (migrate_acme_inbound raw))"
proof (cases "as_map raw")
  case (Some m)
  then show ?thesis
  proof (cases "as_map (map_get m ''tls'')")
    case (Some tls)
    obtain t n where t: "migrate_acme_tls tls = (t, n)" by fastforce
    with Some \<open>as_map raw = Some m\<close> acme_tls_again [OF t] show ?thesis by (simp add: migrate_acme_inbound_def acme_settled_def)
  qed (simp add: migrate_acme_inbound_def acme_settled_def)
qed (simp add: migrate_acme_inbound_def acme_settled_def)

lemma acme_inbound_none: "snd (migrate_acme_inbound raw) = 0 \<Longrightarrow> acme_settled raw"
  by (auto simp: migrate_acme_inbound_def acme_settled_def split: option.splits prod.splits dest: acme_tls_none)

lemma acme_keeps_dev: "dev_settled raw \<Longrightarrow> dev_settled (fst (migrate_acme_inbound raw))"
  by (auto simp: dev_settled_def migrate_acme_inbound_def split: option.splits prod.splits)

lemma tun_keeps:
  "dev_settled raw \<Longrightarrow> dev_settled (fst (migrate_tun_inbound linux raw))"
  "acme_settled raw \<Longrightarrow> acme_settled (fst (migrate_tun_inbound linux raw))"
proof -
  have "(dev_settled raw \<longrightarrow> dev_settled (fst (migrate_tun_inbound linux raw))) \<and>
    (acme_settled raw \<longrightarrow> acme_settled (fst (migrate_tun_inbound linux raw)))"
  proof (cases "as_map (fst (migrate_tun_inbound linux raw))")
    case (Some m')
    then have "fst (migrate_tun_inbound linux raw) = VMap m'" by (simp add: as_map_Some)
    then obtain m where "raw = VMap m"
      "\<forall>k\<in>{''type'', ''stack'', ''multi_queue'', ''auto_redirect_tproxy_mark'', ''tls''}. map_of m' k = map_of m k"
      by (rule tun_inbound_other)
    with Some show ?thesis by (simp add: dev_settled_def acme_settled_def map_get_def has_key_def)
  qed (simp add: dev_settled_def acme_settled_def)
  then show "dev_settled raw \<Longrightarrow> dev_settled (fst (migrate_tun_inbound linux raw))"
    "acme_settled raw \<Longrightarrow> acme_settled (fst (migrate_tun_inbound linux raw))" by blast+
qed

lemma managed_inbounds_keep:
  "\<forall>x\<in>set xs. dev_settled x \<Longrightarrow> \<forall>x\<in>set (fst (managed_inbounds managed linux xs)). dev_settled x"
  "\<forall>x\<in>set xs. acme_settled x \<Longrightarrow> \<forall>x\<in>set (fst (managed_inbounds managed linux xs)). acme_settled x"
  by (auto simp: managed_inbounds_def migrateAckwrapTUNInbounds_def Let_def tun_keeps)

subsection \<open>Development options\<close>

lemma remove_inactive_cases:
  "removeInactiveCoreOption m f loc v i = Inr (m', n) \<Longrightarrow> m' = map_del f m \<and> \<not> has_key m' f \<and> (n = 0 \<longrightarrow> m' = m)"
  by (auto simp: removeInactiveCoreOption_def has_key_def map_del_absent Let_def split: option.splits if_splits)

lemma remove_inactive_fixed: "\<not> has_key m f \<Longrightarrow> removeInactiveCoreOption m f loc v i = Inr (m, 0)"
  by (auto simp: removeInactiveCoreOption_def has_key_def)

lemma dev_mark_cases:
  "dev_mark v loc m = Inr (m', n) \<Longrightarrow> m' = map_del ''auto_redirect_tproxy_mark'' m \<and> \<not> has_key m' ''auto_redirect_tproxy_mark'' \<and> (n = 0 \<longrightarrow> m' = m)"
  by (auto simp: dev_mark_def has_key_def map_del_absent split: option.splits if_splits)

lemma map_del_fixed: "map_del k m = m \<Longrightarrow> \<not> has_key m k"
  by (metis has_key_del)

lemma dev_inbound_settled: "dev_inbound v i raw = Inr (raw', n) \<Longrightarrow> dev_settled raw' \<and> (n = 0 \<longrightarrow> raw' = raw)"
  by (cases raw) (auto simp: dev_inbound_def dev_settled_def go_result Let_def split: if_splits
      dest!: remove_inactive_cases dev_mark_cases dest: map_del_fixed)

lemma dev_inbound_fixed: "dev_settled raw \<Longrightarrow> dev_inbound v i raw = Inr (raw, 0)"
  by (cases raw) (auto simp: dev_inbound_def dev_settled_def remove_inactive_fixed dev_mark_def has_key_def)

definition endpoint_settled :: "goval \<Rightarrow> bool" where
  "endpoint_settled raw \<longleftrightarrow> (case as_map raw of None \<Rightarrow> True | Some m \<Rightarrow> \<not> has_key m ''on_demand'')"

lemma dev_endpoint_settled: "dev_endpoint v i raw = Inr (raw', n) \<Longrightarrow> endpoint_settled raw' \<and> (n = 0 \<longrightarrow> raw' = raw)"
  by (cases raw) (auto simp: dev_endpoint_def endpoint_settled_def go_result dest!: remove_inactive_cases)

lemma dev_endpoint_fixed: "endpoint_settled raw \<Longrightarrow> dev_endpoint v i raw = Inr (raw, 0)"
  by (cases raw) (auto simp: dev_endpoint_def endpoint_settled_def remove_inactive_fixed)

definition items_settled :: "(goval \<Rightarrow> bool) \<Rightarrow> string \<Rightarrow> gomap \<Rightarrow> bool" where
  "items_settled P key c \<longleftrightarrow> (case as_list (map_get c key) of None \<Rightarrow> True | Some xs \<Rightarrow> \<forall>x\<in>set xs. P x)"

text \<open>
  The contract of a fallible edit of one list item, and what it gives for the loop over a list of
  the configuration: after a successful run every item is settled, a run without a count changed
  nothing, and a list of settled items is left alone.
\<close>

locale item_edit =
  fixes edit :: "nat \<Rightarrow> goval \<Rightarrow> migrate_error + goval \<times> nat" and settled :: "goval \<Rightarrow> bool"
  assumes settles: "edit i x = Inr (y, n) \<Longrightarrow> settled y"
    and uncounted: "edit i x = Inr (y, 0) \<Longrightarrow> y = x"
    and fixed: "settled x \<Longrightarrow> edit i x = Inr (x, 0)"
begin

lemma each_item_settled:
  "each_item edit i xs = Inr (ys, n) \<Longrightarrow> (\<forall>y\<in>set ys. settled y) \<and> (n = 0 \<longrightarrow> ys = xs)"
proof (induction xs arbitrary: i ys n)
  case Nil
  then show ?case by simp
next
  case (Cons x xs)
  then show ?case using settles uncounted by (fastforce simp: go_result)
qed

lemma each_item_fixed: "\<forall>x\<in>set xs. settled x \<Longrightarrow> each_item edit i xs = Inr (xs, 0)"
  by (induction xs arbitrary: i) (auto simp: fixed)

lemma edit_list_cases:
  assumes "edit_list edit key c = Inr (c', n)"
  shows "items_settled settled key c' \<and> (n = 0 \<longrightarrow> c' = c) \<and> (\<forall>k. k \<noteq> key \<longrightarrow> map_of c' k = map_of c k)"
proof (cases "as_list (map_get c key)")
  case None
  with assms show ?thesis by (auto simp: edit_list_def items_settled_def)
next
  case (Some xs)
  with assms obtain ys where ys: "each_item edit 0 xs = Inr (ys, n)" "c' = map_put key (VList ys) c"
    by (auto simp: edit_list_def go_result)
  from each_item_settled [OF ys(1)] ys(2) Some show ?thesis
    by (auto simp: items_settled_def as_list_Some map_put_same dest!: map_get_Some)
qed

lemma edit_list_fixed:
  assumes "items_settled settled key c"
  shows "edit_list edit key c = Inr (c, 0)"
proof (cases "as_list (map_get c key)")
  case None
  then show ?thesis by (simp add: edit_list_def)
next
  case (Some xs)
  with assms have "each_item edit 0 xs = Inr (xs, 0)" by (intro each_item_fixed) (auto simp: items_settled_def)
  with Some show ?thesis by (auto simp: edit_list_def as_list_Some map_put_same dest: map_get_Some)
qed

end

interpretation inbound_options: item_edit "dev_inbound v" dev_settled for v
  by unfold_locales (auto simp: dev_inbound_fixed dest: dev_inbound_settled)

interpretation endpoint_options: item_edit "dev_endpoint v" endpoint_settled for v
  by unfold_locales (auto simp: dev_endpoint_fixed dest: dev_endpoint_settled)

definition cache_settled :: "gomap \<Rightarrow> bool" where
  "cache_settled c \<longleftrightarrow>
     (case as_map (map_get c ''experimental'') of None \<Rightarrow> True | Some e \<Rightarrow>
       (case as_map (map_get e ''cache_file'') of None \<Rightarrow> True | Some m \<Rightarrow>
          \<not> has_key m ''buffer_size'' \<and> \<not> has_key m ''flush_interval''))"

lemma dev_cache_settled:
  "dev_cache v m = Inr (m', n) \<Longrightarrow> \<not> has_key m' ''buffer_size'' \<and> \<not> has_key m' ''flush_interval'' \<and> (n = 0 \<longrightarrow> m' = m)"
  by (auto simp: dev_cache_def go_result Let_def dest!: remove_inactive_cases)

lemma dev_experimental_settled:
  assumes "dev_experimental v c = Inr (c', n)"
  shows "cache_settled c'" "n = 0 \<longrightarrow> c' = c" "\<forall>k. k \<noteq> ''experimental'' \<longrightarrow> map_of c' k = map_of c k"
proof -
  have "cache_settled c' \<and> (n = 0 \<longrightarrow> c' = c) \<and> (\<forall>k. k \<noteq> ''experimental'' \<longrightarrow> map_of c' k = map_of c k)"
  proof (cases "as_map (map_get c ''experimental'')")
    case e: (Some e)
    show ?thesis
    proof (cases "as_map (map_get e ''cache_file'')")
      case (Some m)
      with e assms obtain m' where m': "dev_cache v m = Inr (m', n)"
        "c' = map_put ''experimental'' (VMap (map_put ''cache_file'' (VMap m') e)) c"
        by (auto simp: dev_experimental_def go_result)
      from dev_cache_settled [OF m'(1)] m'(2) e Some show ?thesis
        by (auto simp: cache_settled_def as_map_Some map_put_same map_get_Some)
    qed (use assms e in \<open>auto simp: dev_experimental_def cache_settled_def\<close>)
  qed (use assms in \<open>auto simp: dev_experimental_def cache_settled_def\<close>)
  then show "cache_settled c'" "n = 0 \<longrightarrow> c' = c" "\<forall>k. k \<noteq> ''experimental'' \<longrightarrow> map_of c' k = map_of c k" by blast+
qed

lemma dev_experimental_fixed: "cache_settled c \<Longrightarrow> dev_experimental v c = Inr (c, 0)"
  by (auto simp: cache_settled_def dev_experimental_def dev_cache_def remove_inactive_fixed as_map_Some map_put_same map_get_Some
      split: option.splits)

definition config_settled :: "gomap \<Rightarrow> bool" where
  "config_settled c \<longleftrightarrow> items_settled dev_settled ''inbounds'' c \<and> items_settled endpoint_settled ''endpoints'' c \<and> cache_settled c"

lemma config_settled_fixed: "config_settled c \<Longrightarrow> migrate_development v c = Inr (c, 0)"
  by (simp add: migrate_development_def config_settled_def inbound_options.edit_list_fixed endpoint_options.edit_list_fixed
      dev_experimental_fixed)

lemma items_settled_cong: "map_of c k = map_of c' k \<Longrightarrow> items_settled P k c = items_settled P k c'"
  by (simp add: items_settled_def map_get_def)

lemma cache_settled_cong: "map_of c ''experimental'' = map_of c' ''experimental'' \<Longrightarrow> cache_settled c = cache_settled c'"
  by (simp add: cache_settled_def map_get_def)

lemma development_settled:
  assumes "migrate_development v c = Inr (c', n)"
  shows "config_settled c'" "n = 0 \<longrightarrow> c' = c"
proof -
  obtain c1 n1 c2 n2 n3 where c1: "edit_list (dev_inbound v) ''inbounds'' c = Inr (c1, n1)"
    and c2: "edit_list (dev_endpoint v) ''endpoints'' c1 = Inr (c2, n2)"
    and c3: "dev_experimental v c2 = Inr (c', n3)" and n: "n = n1 + n2 + n3"
    using assms by (auto simp: migrate_development_def go_result)
  note s1 = inbound_options.edit_list_cases [OF c1] and s2 = endpoint_options.edit_list_cases [OF c2]
    and s3 = dev_experimental_settled [OF c3]
  from s1 s2 s3(3) have "items_settled dev_settled ''inbounds'' c'"
    by (simp add: items_settled_cong [of c' _ c1])
  moreover from s2 s3(3) have "items_settled endpoint_settled ''endpoints'' c'"
    by (simp add: items_settled_cong [of c' _ c2])
  ultimately show "config_settled c'" using s3(1) by (simp add: config_settled_def)
  show "n = 0 \<longrightarrow> c' = c" using s1 s2 s3(2) n by simp
qed

subsection \<open>Later stages keep what the earlier ones settled\<close>

definition inbounds_settled :: "gomap \<Rightarrow> bool" where
  "inbounds_settled c \<longleftrightarrow> items_settled acme_settled ''inbounds'' c"

lemma inline_acme_facts:
  assumes "migrateInlineACME c = (c', n)"
  shows "inbounds_settled c'" "n = 0 \<Longrightarrow> inbounds_settled c" "config_settled c \<Longrightarrow> config_settled c'"
proof -
  have "inbounds_settled c' \<and> (n = 0 \<longrightarrow> inbounds_settled c) \<and> (config_settled c \<longrightarrow> config_settled c')"
  proof (cases "as_list (map_get c ''inbounds'')")
    case None
    with assms show ?thesis by (auto simp: migrateInlineACME_def inbounds_settled_def items_settled_def)
  next
    case (Some xs)
    let ?ys = "map fst (map migrate_acme_inbound xs)"
    have c': "c' = map_put ''inbounds'' (VList ?ys) c" "n = sum_list (map snd (map migrate_acme_inbound xs))"
      using assms Some by (auto simp: migrateInlineACME_def Let_def)
    have "config_settled c \<longrightarrow> config_settled c'"
      using Some acme_keeps_dev cache_settled_cong [of c' c] items_settled_cong [of c' "''endpoints''" c]
      by (auto simp: config_settled_def c'(1) items_settled_def)
    moreover have "n = 0 \<longrightarrow> inbounds_settled c"
      using Some acme_inbound_none by (auto simp: c'(2) inbounds_settled_def items_settled_def)
    moreover have "inbounds_settled c'" by (auto simp: c'(1) inbounds_settled_def items_settled_def acme_inbound_settled)
    ultimately show ?thesis by blast
  qed
  then show "inbounds_settled c'" "n = 0 \<Longrightarrow> inbounds_settled c" "config_settled c \<Longrightarrow> config_settled c'" by blast+
qed

lemma inline_acme_fixed: "inbounds_settled c \<Longrightarrow> migrateInlineACME c = (c, 0)"
proof (cases "as_list (map_get c ''inbounds'')")
  case (Some xs)
  assume "inbounds_settled c"
  with Some have same: "\<forall>x\<in>set xs. migrate_acme_inbound x = (x, 0)"
    by (simp add: inbounds_settled_def items_settled_def acme_settled_fixed)
  then have "map fst (map migrate_acme_inbound xs) = xs" "sum_list (map snd (map migrate_acme_inbound xs)) = 0"
    by (simp_all add: map_idI)
  moreover have "map_put ''inbounds'' (VList xs) c = c" using Some by (simp add: as_list_Some map_get_Some map_put_same)
  ultimately show ?thesis using Some by (simp add: migrateInlineACME_def Let_def del: map_map)
qed (simp add: migrateInlineACME_def)

lemma managed_keeps:
  assumes "migrateManagedConfig linux c = Inr (c', n)"
  shows "config_settled c \<Longrightarrow> config_settled c'" "inbounds_settled c \<Longrightarrow> inbounds_settled c'"
proof -
  obtain xs outs c1 r n2 where xs: "list_field InboundsInvalid c ''inbounds'' = Inr xs"
    and c1: "c1 = map_put ''outbounds'' (VList outs) c"
    and rest: "managed_rest (managed_tun c1 xs r) linux c1 xs r = Inr (c', n2)"
    using assms by (auto simp: migrateManagedConfig_def Let_def go_result)
  have xs1: "list_field InboundsInvalid c1 ''inbounds'' = Inr xs" using xs by (simp add: c1)
  obtain ys where ys: "ys = fst (managed_inbounds (managed_tun c1 xs r) linux xs)" "list_field InboundsInvalid c' ''inbounds'' = Inr ys"
    and frame: "\<forall>k. k \<noteq> ''inbounds'' \<and> k \<noteq> ''route'' \<longrightarrow> map_of c' k = map_of c1 k"
    by (rule managed_rest_form [OF rest xs1]) (rule that)
  have lf: "items_settled P ''inbounds'' m \<longleftrightarrow> (\<forall>x\<in>set zs. P x)" if "list_field InboundsInvalid m ''inbounds'' = Inr zs" for P m zs
    using that by (auto simp: list_field_def items_settled_def map_get_def split: option.splits)
  have e: "items_settled P ''endpoints'' c' = items_settled P ''endpoints'' c" "cache_settled c' = cache_settled c" for P
    using spec [OF frame, of "''endpoints''"] spec [OF frame, of "''experimental''"]
    by (simp_all add: c1 items_settled_cong [of c' _ c] cache_settled_cong [of c' c])
  show "config_settled c \<Longrightarrow> config_settled c'" "inbounds_settled c \<Longrightarrow> inbounds_settled c'"
    using managed_inbounds_keep [of xs] lf [OF xs] lf [OF ys(2)] e
    by (simp_all add: config_settled_def inbounds_settled_def ys(1))
qed

lemma development_none: "migrate_development v c = Inr (c', 0) \<Longrightarrow> config_settled c"
  using development_settled by blast

lemma core_compatibility_again:
  assumes "migrateCoreCompatibilityData linux data version = Inr (d, n)"
  shows "migrateCoreCompatibilityData linux d version = Inr (d, 0)"
proof -
  obtain d1 n1 d2 n2 n3 where d1: "migrateDevelopmentConfigData data version = Inr (d1, n1)"
    and d2: "migrateInlineACMEConfig d1 version = Inr (d2, n2)" and d3: "migrateManagedConfigData linux d2 = Inr (d, n3)"
    using assms by (auto simp: migrateCoreCompatibilityData_def go_result)
  from d3 obtain c2 where c2: "d2 = Object c2"
    by (auto simp: migrateManagedConfigData_def split: config_data.splits)
  from d3 c2 obtain c3 where c3: "migrateManagedConfig linux c2 = Inr (c3, n3)" "d = (if n3 = 0 then Object c2 else Object c3)"
    by (auto simp: migrateManagedConfigData_def go_result)
  from c2 d2 obtain c1 where c1: "d1 = Object c1"
    by (auto simp: migrateInlineACMEConfig_def split: config_data.splits if_splits prod.splits)
  let ?dev = "version \<noteq> [] \<and> \<not> singboxSupportsDevelopmentOptions version" and ?acme = "singboxSupportsCertificateProvider version"
  have s1: "?dev \<longrightarrow> config_settled c1"
    using d1 c1 development_settled(1) [of version] development_none [of version]
    by (auto simp: migrateDevelopmentConfigData_def go_result split: config_data.splits if_splits)
  have s2: "(?dev \<longrightarrow> config_settled c2) \<and> (?acme \<longrightarrow> inbounds_settled c2)"
    using d2 c1 c2 s1 inline_acme_facts [of c1]
    by (auto simp: migrateInlineACMEConfig_def split: if_splits prod.splits)
  obtain c where c: "d = Object c" "?dev \<longrightarrow> config_settled c" "?acme \<longrightarrow> inbounds_settled c"
    using c3(2) s2 managed_keeps [OF c3(1)] by (cases "n3 = 0") auto
  have "migrateManagedConfigData linux d = Inr (d, 0)"
    using c3 managed_again [OF c3(1)] by (simp add: migrateManagedConfigData_def split: if_splits)
  moreover have "migrateDevelopmentConfigData d version = Inr (d, 0)"
    using c by (auto simp: migrateDevelopmentConfigData_def config_settled_fixed)
  moreover have "migrateInlineACMEConfig d version = Inr (d, 0)"
    using c by (auto simp: migrateInlineACMEConfig_def inline_acme_fixed)
  ultimately show ?thesis by (simp add: migrateCoreCompatibilityData_def)
qed

section \<open>Properties\<close>

text \<open>C22. Migrating a configuration is idempotent: on the result of a migration, whatever it had to
  change (development options, inline ACME, outbounds, route, TUN inbounds, route rules), a second
  migration for the same core version and platform succeeds, counts no edit and returns the same
  configuration.\<close>

theorem migration_idempotent:
  assumes "migrateCoreCompatibilityData linux data version = Inr (d, n)"
  shows "migrateCoreCompatibilityData linux d version = Inr (d, 0)"
  using assms by (rule core_compatibility_again)

definition sample_config :: gomap where
  "sample_config =
     [(''inbounds'', VList [VMap [(''type'', VStr ''tun''), (''tag'', VStr ''tun-in''), (''interface_name'', VStr ''tun0''),
         (''address'', VList [VStr ''172.254.0.1/30'']), (''multi_queue'', VBool False)],
        VMap [(''tag'', VStr ''ackwrap-update-in'')]]),
      (''route'', VMap [(''rules'', VList [VMap [(''action'', VStr ''sniff'')],
         VMap [(''process_name'', VList [VStr ''Sing-Box'', VStr ''curl'']), (''outbound'', VStr ''direct'')]])]),
      (''dns'', VMap [(''servers'', VList [VMap [(''type'', VStr ''fakeip'')]])])]"

definition sample_migrated :: config_data where
  "sample_migrated = (case migrateCoreCompatibilityData True (Object sample_config) ''1.14.2'' of Inr (d, _) \<Rightarrow> d | Inl _ \<Rightarrow> NotAnObject)"

theorem migration_idempotent_witness:
  "migrateCoreCompatibilityData True sample_migrated ''1.14.2'' = Inr (sample_migrated, 0)"
proof (rule migration_idempotent)
  show "migrateCoreCompatibilityData True (Object sample_config) ''1.14.2'' = Inr (sample_migrated, 17)"
    by code_simp
qed

text \<open>C23. The active configuration file is replaced only by a migrated configuration that the
  validator accepted and after a backup was taken: whatever file operation fails, and on every
  error, the file keeps its content; when its content changed, the call reported success, the new
  content is the migration of the old one, and the backup of the day exists.\<close>

theorem migrate_file_safe:
  assumes "MigrateCompatibility env version f = (f', result)"
  shows "(file_content f' = file_content f \<or>
      (\<exists>n. result = Inr True \<and> validator env (file_content f') \<and> file_saved f' \<noteq> None \<and>
        migrateCoreCompatibilityData (on_linux env) (file_content f) (if version = [] then installed_version env else version) =
          Inr (file_content f', n))) \<and>
    (\<forall>e. result = Inl e \<longrightarrow> file_content f' = file_content f)"
  using assms
  by (auto simp: MigrateCompatibility_def migrate_staged_def Let_def split: if_splits sum.splits)

definition sample_env :: migrate_env where
  "sample_env = \<lparr>lookup_ok = True, installed_version = ''1.14.2'', active_exists = True, stat_ok = True, chmod_ok = True, read_ok = True,
     stage_ok = True, validator = (\<lambda>d. d \<noteq> NotAnObject), backup_ok = True, backup_written = True, replace_ok = True, on_linux = True\<rparr>"

theorem migrate_file_safe_witness:
  "file_content (fst (MigrateCompatibility sample_env [] \<lparr>file_content = Object sample_config, file_mode = 420, file_saved = None\<rparr>)) = Object sample_config \<or>
    (\<exists>n. snd (MigrateCompatibility sample_env [] \<lparr>file_content = Object sample_config, file_mode = 420, file_saved = None\<rparr>) = Inr True \<and>
      migrateCoreCompatibilityData True (Object sample_config) ''1.14.2'' =
        Inr (file_content (fst (MigrateCompatibility sample_env [] \<lparr>file_content = Object sample_config, file_mode = 420, file_saved = None\<rparr>)), n))"
  using migrate_file_safe [OF surjective_pairing, of sample_env "[]" "\<lparr>file_content = Object sample_config, file_mode = 420, file_saved = None\<rparr>"]
  by (auto simp: sample_env_def)

end
