(* ===== verification/Sip003.thy ===== *)
theory Sip003
  imports Go_Base
begin

text \<open>
  SIP003 plugin options of Shadowsocks nodes and Hysteria port ranges
  (\<^verbatim>\<open>src/backend/internal/parser/helpers.go\<close>, \<^verbatim>\<open>hysteria_options.go\<close>).  An option string
  \<open>key=value;flag;...\<close> is read with backslash escapes, checked against the options that the
  bundled plugins know, and written back in a canonical form.  A string offset of the source is the
  remaining string here.
\<close>

section \<open>Model\<close>

record sip003PluginOption =
  opt_value :: string
  opt_hasValue :: bool

type_synonym sip_options = "(string \<times> sip003PluginOption) list"

datatype sip_error =
    NothingFollowsEscape
  | EmptyOptionKey
  | DuplicateOption string
  | BooleanNotValid string
  | NonIntegerValue string
  | UnsupportedValueType string
  | UnsupportedContainer
  | UnsupportedPlugin string
  | InvalidPluginOpts sip_error
  | OptionsWithoutPlugin
  | UnsupportedObfsOption string
  | DuplicateObfsOption string
  | UnsupportedObfsMode string
  | InvalidTLSValue string
  | UnsupportedV2RayMode string
  | InvalidMuxValue string
  | UnsupportedV2RayOption string

text \<open>The closure \<^verbatim>\<open>readPart\<close>: the unescaped part, the delimiter that ended it, and what follows.\<close>

fun readPart :: "bool \<Rightarrow> string \<Rightarrow> sip_error + string \<times> char option \<times> string" where
  "readPart stopAtEquals [] = Inr ([], None, [])"
| "readPart stopAtEquals (c # s) =
     (if c = CHR 0x5C then
        (case s of
           [] \<Rightarrow> Inl NothingFollowsEscape
         | d # s' \<Rightarrow> res_bind (readPart stopAtEquals s') (\<lambda>(part, del, rest). Inr (d # part, del, rest)))
      else if c = CHR '';'' then Inr ([], Some CHR '';'', s)
      else if c = CHR ''='' \<and> stopAtEquals then Inr ([], Some CHR ''='', s)
      else res_bind (readPart stopAtEquals s) (\<lambda>(part, del, rest). Inr (c # part, del, rest)))"

definition parseSIP003PluginOption :: "string \<Rightarrow> sip_error + string \<times> sip003PluginOption \<times> string" where
  "parseSIP003PluginOption s =
     res_bind (readPart True s) (\<lambda>(key, del, rest).
       if key = [] then Inl EmptyOptionKey
       else if del \<noteq> Some CHR ''='' then Inr (key, \<lparr>opt_value = ''1'', opt_hasValue = False\<rparr>, rest)
       else res_bind (readPart False rest) (\<lambda>(v, _, rest').
              Inr (key, \<lparr>opt_value = v, opt_hasValue = True\<rparr>, rest')))"

lemma readPart_rest:
  "readPart e s = Inr (part, del, rest) \<Longrightarrow> length rest \<le> length s \<and> (s \<noteq> [] \<longrightarrow> length rest < length s)"
proof (induction e s arbitrary: part del rest rule: readPart.induct)
  case (1 e)
  then show ?case by simp
next
  case (2 e c s)
  then show ?case
    by (fastforce simp: go_result split: if_splits list.splits)
qed

lemma parseSIP003PluginOption_rest:
  "parseSIP003PluginOption s = Inr (key, opt, rest) \<Longrightarrow> s \<noteq> [] \<Longrightarrow> length rest < length s"
  by (auto simp: parseSIP003PluginOption_def go_result split: if_splits dest!: readPart_rest)

function parse_options_from :: "sip_options \<Rightarrow> string \<Rightarrow> sip_error + sip_options" where
  "parse_options_from acc s =
     (if s = [] then Inr acc
      else case parseSIP003PluginOption s of
        Inl e \<Rightarrow> Inl e
      | Inr (key, opt, rest) \<Rightarrow>
          if has_key acc key then Inl (DuplicateOption key)
          else parse_options_from (map_put key opt acc) rest)"
  by pat_completeness auto
termination
  by (relation "measure (\<lambda>(acc, s). length s)") (auto dest: parseSIP003PluginOption_rest)

declare parse_options_from.simps [simp del]

definition parseSIP003PluginOptions :: "string \<Rightarrow> sip_error + sip_options" where
  "parseSIP003PluginOptions value = parse_options_from [] value"

definition escape_byte :: "char \<Rightarrow> string" where
  "escape_byte c = (if c = CHR 0x5C \<or> c = CHR '';'' \<or> c = CHR ''='' then [CHR 0x5C, c] else [c])"

definition escapePluginOption :: "string \<Rightarrow> string" where
  "escapePluginOption value = concat (map escape_byte value)"

definition encode_part :: "sip_options \<Rightarrow> string \<Rightarrow> string" where
  "encode_part options key =
     (case map_of options key of
        Some opt \<Rightarrow>
          escapePluginOption key @ (if opt_hasValue opt then CHR ''='' # escapePluginOption (opt_value opt) else [])
      | None \<Rightarrow> escapePluginOption key)"

definition encodeSIP003PluginOptions :: "sip_options \<Rightarrow> string" where
  "encodeSIP003PluginOptions options =
     join_with '';'' (map (encode_part options) (sort (map fst options)))"

definition text_option :: "string \<Rightarrow> sip003PluginOption" where
  "text_option v = \<lparr>opt_value = v, opt_hasValue = True\<rparr>"

definition flag_option :: sip003PluginOption where
  "flag_option = \<lparr>opt_value = [], opt_hasValue = False\<rparr>"

text \<open>
  One entry of the loop over a decoded option map.  A float is accepted when it is an integer in
  the range of \<^verbatim>\<open>int64\<close>.
\<close>

definition add_input_option :: "sip_options \<Rightarrow> string \<times> goval \<Rightarrow> sip_error + sip_options" where
  "add_input_option acc kv =
     (let key = TrimSpace (fst kv) in
      if key = [] then Inl EmptyOptionKey
      else case snd kv of
        VStr v \<Rightarrow> Inr (map_put key (text_option v) acc)
      | VBool b \<Rightarrow>
          (if key = ''tls'' then Inr (if b then map_put key flag_option acc else acc)
           else if key = ''mux'' then Inr (map_put key (text_option (if b then ''1'' else ''0'')) acc)
           else Inl (BooleanNotValid key))
      | VInt i \<Rightarrow> Inr (map_put key (text_option (show_int i)) acc)
      | VFloat r \<Rightarrow>
          (if of_int \<lfloor>r\<rfloor> \<noteq> r \<or> \<lfloor>r\<rfloor> < - (2 ^ 63) \<or> 2 ^ 63 \<le> \<lfloor>r\<rfloor> then Inl (NonIntegerValue key)
           else Inr (map_put key (text_option (show_int \<lfloor>r\<rfloor>)) acc))
      | _ \<Rightarrow> Inl (UnsupportedValueType key))"

definition normalizeSIP003OptionInput :: "goval \<Rightarrow> sip_error + sip_options" where
  "normalizeSIP003OptionInput raw =
     (case raw of
        VNil \<Rightarrow> Inr []
      | VStr s \<Rightarrow> parseSIP003PluginOptions s
      | VMap m \<Rightarrow> res_fold add_input_option [] m
      | _ \<Rightarrow> Inl UnsupportedContainer)"

definition canonical_obfs :: "sip_options \<Rightarrow> string \<times> sip003PluginOption \<Rightarrow> sip_error + sip_options" where
  "canonical_obfs acc kv =
     (let key = fst kv; option = snd kv;
          nk = (if key = ''mode'' then ''obfs'' else if key = ''host'' then ''obfs-host'' else key)
      in if nk \<noteq> ''obfs'' \<and> nk \<noteq> ''obfs-host'' then Inl (UnsupportedObfsOption key)
         else if has_key acc nk then Inl (DuplicateObfsOption nk)
         else if nk = ''obfs'' then
           (let mode = ToLower (opt_value option) in
            if mode \<noteq> ''http'' \<and> mode \<noteq> ''tls'' then Inl (UnsupportedObfsMode (opt_value option))
            else Inr (map_put nk (text_option mode) acc))
         else Inr (map_put nk (text_option (opt_value option)) acc))"

definition canonical_v2ray :: "sip_options \<Rightarrow> string \<times> sip003PluginOption \<Rightarrow> sip_error + sip_options" where
  "canonical_v2ray acc kv =
     (let key = fst kv; option = snd kv in
      if key = ''tls'' then
        (if \<not> opt_hasValue option then Inr (map_put key flag_option acc)
         else let v = ToLower (TrimSpace (opt_value option)) in
           if v = ''1'' \<or> v = ''true'' then Inr (map_put key flag_option acc)
           else if v = ''0'' \<or> v = ''false'' then Inr acc
           else Inl (InvalidTLSValue (opt_value option)))
      else if key = ''mode'' then
        (let mode = ToLower (opt_value option) in
         if mode \<noteq> ''websocket'' \<and> mode \<noteq> ''quic'' then Inl (UnsupportedV2RayMode (opt_value option))
         else Inr (map_put key (text_option mode) acc))
      else if key = ''mux'' then
        (case Atoi (TrimSpace (opt_value option)) of (mux, ok) \<Rightarrow>
           if \<not> ok \<or> mux < 0 then Inl (InvalidMuxValue (opt_value option))
           else Inr (map_put key (text_option (show_int mux)) acc))
      else if key = ''host'' \<or> key = ''path'' \<or> key = ''cert'' \<or> key = ''certRaw'' then
        Inr (map_put key (text_option (opt_value option)) acc)
      else Inl (UnsupportedV2RayOption key))"

definition NormalizeShadowsocksSIP003Plugin :: "string \<Rightarrow> goval \<Rightarrow> sip_error + string \<times> string" where
  "NormalizeShadowsocksSIP003Plugin plugin0 rawOptions =
     (let lowered = ToLower (TrimSpace plugin0);
          plugin = (if lowered = ''obfs'' \<or> lowered = ''simple-obfs'' then ''obfs-local'' else lowered)
      in if plugin \<noteq> [] \<and> plugin \<noteq> ''obfs-local'' \<and> plugin \<noteq> ''v2ray-plugin'' then Inl (UnsupportedPlugin plugin)
         else case normalizeSIP003OptionInput rawOptions of
           Inl e \<Rightarrow> Inl (InvalidPluginOpts e)
         | Inr options \<Rightarrow>
             if plugin = [] then (if options \<noteq> [] then Inl OptionsWithoutPlugin else Inr ([], []))
             else res_bind (res_fold (if plugin = ''obfs-local'' then canonical_obfs else canonical_v2ray) [] options)
               (\<lambda>canonical. Inr (plugin, encodeSIP003PluginOptions canonical)))"

section \<open>Hysteria port ranges\<close>

datatype port_range_error = RangeWrongContainer | RangeEmptyItem | RangeInvalid

text \<open>
  \<open>sprint\<close> stands for \<^verbatim>\<open>fmt.Sprint\<close> of a list item; a string item prints as itself.
\<close>

definition port_bounds :: "char option \<Rightarrow> string \<Rightarrow> string \<Rightarrow> port_range_error + string" where
  "port_bounds sep startText endText =
     (let start = (if startText \<noteq> [] \<or> sep \<noteq> Some CHR '':'' then ParseUint startText 16 else Some 0);
          stop = (if endText \<noteq> [] \<or> sep \<noteq> Some CHR '':'' then ParseUint endText 16 else Some 65535)
      in case (start, stop) of
           (Some a, Some b) \<Rightarrow>
             if b < a \<or> (sep \<noteq> Some CHR '':'' \<and> a = 0) then Inl RangeInvalid
             else Inr ((if startText \<noteq> [] then show_nat a else []) @ '':'' @ (if endText \<noteq> [] then show_nat b else []))
         | _ \<Rightarrow> Inl RangeInvalid)"

definition port_range :: "string \<Rightarrow> port_range_error + string" where
  "port_range rawRange =
     (let r = TrimSpace rawRange in
      if r = [] then Inl RangeEmptyItem
      else
        let sep = (if CHR ''-'' \<in> set r then Some CHR ''-'' else if CHR '':'' \<in> set r then Some CHR '':'' else None)
        in case sep of
             None \<Rightarrow> port_bounds sep r r
           | Some c \<Rightarrow> (case split_once c r of
               (a, Some b) \<Rightarrow> port_bounds sep (TrimSpace a) (TrimSpace b)
             | (a, None) \<Rightarrow> port_bounds sep a a))"

fun port_ranges :: "string list \<Rightarrow> port_range_error + string list" where
  "port_ranges [] = Inr []"
| "port_ranges (r # rs) = res_bind (port_range r) (\<lambda>x. res_bind (port_ranges rs) (\<lambda>xs. Inr (x # xs)))"

definition NormalizeHysteriaPortRanges :: "(goval \<Rightarrow> string) \<Rightarrow> goval \<Rightarrow> port_range_error + string list option" where
  "NormalizeHysteriaPortRanges sprint value =
     (case value of
        VNil \<Rightarrow> Inr None
      | VStr s \<Rightarrow> res_bind (port_ranges (split_char CHR '','' s)) (\<lambda>r. Inr (Some r))
      | VStrList ss \<Rightarrow> res_bind (port_ranges ss) (\<lambda>r. Inr (Some r))
      | VList vs \<Rightarrow> res_bind (port_ranges (map (\<lambda>v. case v of VStr s \<Rightarrow> s | _ \<Rightarrow> sprint v) vs)) (\<lambda>r. Inr (Some r))
      | _ \<Rightarrow> Inl RangeWrongContainer)"

section \<open>Reading back an encoded option list\<close>

definition read_back :: "sip003PluginOption \<Rightarrow> sip003PluginOption" where
  "read_back opt = (if opt_hasValue opt then opt else \<lparr>opt_value = ''1'', opt_hasValue = False\<rparr>)"

lemma readPart_escape:
  "readPart e (escapePluginOption v @ t) = res_bind (readPart e t) (\<lambda>(p, d, r). Inr (v @ p, d, r))"
proof (induction v)
  case Nil
  then show ?case by (cases "readPart e t") (auto simp: escapePluginOption_def)
next
  case (Cons c v)
  then show ?case
    by (cases "readPart e t") (auto simp: escapePluginOption_def escape_byte_def)
qed

definition ends_part :: "string \<Rightarrow> string \<Rightarrow> bool" where
  "ends_part t rest \<longleftrightarrow> t = [] \<and> rest = [] \<or> t = CHR '';'' # rest"

lemma parse_encoded_part:
  assumes "key \<noteq> []" and "map_of options key = Some opt" and "ends_part t rest"
  shows "parseSIP003PluginOption (encode_part options key @ t) = Inr (key, read_back opt, rest)"
  using assms
  by (cases opt) (auto simp: parseSIP003PluginOption_def encode_part_def read_back_def readPart_escape ends_part_def)

lemma encode_part_ne: "key \<noteq> [] \<Longrightarrow> encode_part options key \<noteq> []"
  by (cases key) (auto simp: encode_part_def escapePluginOption_def escape_byte_def split: option.splits)

lemma parse_encoded_parts:
  assumes "distinct keys" and "[] \<notin> set keys" and "set keys \<subseteq> dom (map_of options)"
    and "set keys \<inter> fst ` set acc = {}"
  shows "parse_options_from acc (join_with '';'' (map (encode_part options) keys)) =
    Inr (acc @ map (\<lambda>k. (k, read_back (the (map_of options k)))) keys)"
  using assms
proof (induction keys arbitrary: acc)
  case Nil
  then show ?case by (simp add: parse_options_from.simps)
next
  case (Cons k ks)
  obtain opt where opt: "map_of options k = Some opt" using Cons.prems(3) by auto
  have k: "k \<noteq> []" using Cons.prems(2) by auto
  let ?more = "join_with '';'' (map (encode_part options) ks)"
  let ?t = "if ks = [] then [] else CHR '';'' # ?more"
  have join: "join_with '';'' (map (encode_part options) (k # ks)) = encode_part options k @ ?t"
    by (cases ks) auto
  have "ends_part ?t (if ks = [] then [] else ?more)" by (simp add: ends_part_def)
  from parse_encoded_part [OF k opt this]
  have p: "parseSIP003PluginOption (encode_part options k @ ?t) = Inr (k, read_back opt, ?more)"
    by (simp split: if_splits)
  have fresh: "\<not> has_key acc k" using Cons.prems(4) by (auto simp: has_key_iff)
  have "parse_options_from acc (encode_part options k @ ?t) = parse_options_from (acc @ [(k, read_back opt)]) ?more"
    using p fresh encode_part_ne [OF k, of options]
    by (subst parse_options_from.simps) (simp add: map_put_fresh)
  also have "\<dots> = Inr ((acc @ [(k, read_back opt)]) @ map (\<lambda>k. (k, read_back (the (map_of options k)))) ks)"
    using Cons.prems by (intro Cons.IH) auto
  finally show ?case unfolding join by (simp add: opt)
qed

lemma parse_encoded:
  assumes "distinct (map fst options)" and "[] \<notin> fst ` set options"
  shows "parseSIP003PluginOptions (encodeSIP003PluginOptions options) =
    Inr (map (\<lambda>k. (k, read_back (the (map_of options k)))) (sort (map fst options)))"
  unfolding parseSIP003PluginOptions_def encodeSIP003PluginOptions_def
  using assms parse_encoded_parts [of "sort (map fst options)" options "[]"]
  by (simp add: dom_map_of_conv_image_fst)

section \<open>Canonical option maps\<close>

lemma encode_cong:
  assumes "map_of a = map_of b" "distinct (map fst a)" "distinct (map fst b)"
  shows "encodeSIP003PluginOptions a = encodeSIP003PluginOptions b"
proof -
  have "set (map fst a) = set (map fst b)"
    using assms(1) by (metis dom_map_of_conv_image_fst list.set_map)
  with assms have "sort (map fst a) = sort (map fst b)"
    by (intro sorted_distinct_set_unique) auto
  moreover have "encode_part a = encode_part b" by (simp add: fun_eq_iff encode_part_def assms(1))
  ultimately show ?thesis by (simp add: encodeSIP003PluginOptions_def)
qed

text \<open>
  The contract that the two canonicalisers share: a step either fails or stores options that, when
  read back from their encoding, the step stores again as they are.
\<close>

locale canonicaliser =
  fixes step :: "sip_options \<Rightarrow> string \<times> sip003PluginOption \<Rightarrow> sip_error + sip_options"
    and fixed :: "string \<Rightarrow> sip003PluginOption \<Rightarrow> bool"
  assumes step_fixed: "step acc kv = Inr acc' \<Longrightarrow> acc' = acc \<or> (\<exists>k v. acc' = map_put k v acc \<and> fixed k v)"
    and fixed_step: "fixed k v \<Longrightarrow> \<not> has_key acc k \<Longrightarrow> step acc (k, read_back v) = Inr (map_put k v acc)"
    and fixed_key: "fixed k v \<Longrightarrow> k \<noteq> []"
begin

lemma fold_fixed:
  assumes "res_fold step [] kvs = Inr canonical"
  shows "distinct (map fst canonical) \<and> (\<forall>k v. map_of canonical k = Some v \<longrightarrow> fixed k v)"
  using assms
proof (rule res_fold_invariant)
  fix s x s'
  assume a: "distinct (map fst s) \<and> (\<forall>k v. map_of s k = Some v \<longrightarrow> fixed k v)" "step s x = Inr s'"
  from step_fixed [OF a(2)] a(1) show "distinct (map fst s') \<and> (\<forall>k v. map_of s' k = Some v \<longrightarrow> fixed k v)"
    by (auto simp: distinct_map_put split: if_splits)
qed simp

lemma fold_read_back:
  assumes "\<And>k. k \<in> set keys \<Longrightarrow> \<exists>v. m k = Some v \<and> fixed k v" "distinct keys" "set keys \<inter> fst ` set acc = {}"
  shows "res_fold step acc (map (\<lambda>k. (k, read_back (the (m k)))) keys) = Inr (acc @ map (\<lambda>k. (k, the (m k))) keys)"
  using assms
proof (induction keys arbitrary: acc)
  case Nil
  then show ?case by simp
next
  case (Cons k ks)
  then obtain v where v: "m k = Some v" "fixed k v" by force
  have fresh: "\<not> has_key acc k" using Cons.prems(3) by (auto simp: has_key_iff)
  have "res_fold step (acc @ [(k, v)]) (map (\<lambda>k. (k, read_back (the (m k)))) ks) =
      Inr ((acc @ [(k, v)]) @ map (\<lambda>k. (k, the (m k))) ks)"
    using Cons.prems by (intro Cons.IH) auto
  with v fresh show ?case by (simp add: fixed_step map_put_fresh)
qed

lemma canonical_again:
  assumes "res_fold step [] kvs = Inr canonical"
  shows "\<exists>options again. parseSIP003PluginOptions (encodeSIP003PluginOptions canonical) = Inr options \<and>
    res_fold step [] options = Inr again \<and> encodeSIP003PluginOptions again = encodeSIP003PluginOptions canonical"
proof -
  from fold_fixed [OF assms] have d: "distinct (map fst canonical)"
    and f: "\<And>k v. map_of canonical k = Some v \<Longrightarrow> fixed k v" by auto
  let ?keys = "sort (map fst canonical)"
  have some: "\<exists>v. map_of canonical k = Some v \<and> fixed k v" if "k \<in> set ?keys" for k
    using that f by (metis dom_map_of_conv_image_fst domD list.set_map set_sort)
  have "[] \<notin> fst ` set canonical"
    using some fixed_key by (metis list.set_map set_sort)
  from parse_encoded [OF d this]
  have p: "parseSIP003PluginOptions (encodeSIP003PluginOptions canonical) =
      Inr (map (\<lambda>k. (k, read_back (the (map_of canonical k)))) ?keys)" .
  let ?again = "map (\<lambda>k. (k, the (map_of canonical k))) ?keys"
  have r: "res_fold step [] (map (\<lambda>k. (k, read_back (the (map_of canonical k)))) ?keys) = Inr ?again"
    using fold_read_back [of ?keys "map_of canonical" "[]"] some d by simp
  have "map_of ?again = map_of canonical"
  proof
    fix k
    show "map_of ?again k = map_of canonical k"
      using some [of k] map_of_eq_None_iff [of canonical k] by (auto simp: map_of_keyed)
  qed
  then have "encodeSIP003PluginOptions ?again = encodeSIP003PluginOptions canonical"
    using d by (intro encode_cong) (auto simp: o_def)
  with p r show ?thesis by blast
qed

end

definition obfs_fixed :: "string \<Rightarrow> sip003PluginOption \<Rightarrow> bool" where
  "obfs_fixed k v \<longleftrightarrow> opt_hasValue v \<and>
     (k = ''obfs'' \<and> (opt_value v = ''http'' \<or> opt_value v = ''tls'') \<or> k = ''obfs-host'')"

definition mux_option :: "sip003PluginOption \<Rightarrow> bool" where
  "mux_option v \<longleftrightarrow> (\<exists>i. 0 \<le> i \<and> i < 2 ^ 63 \<and> v = text_option (show_int i))"

definition v2ray_fixed :: "string \<Rightarrow> sip003PluginOption \<Rightarrow> bool" where
  "v2ray_fixed k v \<longleftrightarrow>
     k = ''tls'' \<and> v = flag_option \<or>
     k = ''mode'' \<and> (v = text_option ''websocket'' \<or> v = text_option ''quic'') \<or>
     k = ''mux'' \<and> mux_option v \<or>
     (k = ''host'' \<or> k = ''path'' \<or> k = ''cert'' \<or> k = ''certRaw'') \<and> opt_hasValue v"

lemma lower_constants:
  "ToLower ''http'' = ''http''" "ToLower ''tls'' = ''tls''" "ToLower ''websocket'' = ''websocket''" "ToLower ''quic'' = ''quic''"
  by code_simp+

lemma obfs_fixedE:
  assumes "obfs_fixed k v"
  obtains (mode) "opt_hasValue v" "k = ''obfs''" "opt_value v = ''http'' \<or> opt_value v = ''tls''"
    | (host) "opt_hasValue v" "k = ''obfs-host''"
  using assms unfolding obfs_fixed_def by blast

lemma text_option_id: "opt_hasValue v \<Longrightarrow> text_option (opt_value v) = v"
  by (cases v) (simp add: text_option_def)

lemma text_option_sel [simp]: "opt_hasValue (text_option x)" "opt_value (text_option x) = x"
  by (simp_all add: text_option_def)

lemma canonical_obfs_step:
  assumes "canonical_obfs acc kv = Inr acc'"
  shows "\<exists>k v. acc' = map_put k v acc \<and> obfs_fixed k v"
proof -
  define nk where "nk = (if fst kv = ''mode'' then ''obfs'' else if fst kv = ''host'' then ''obfs-host'' else fst kv)"
  define x where "x = (if nk = ''obfs'' then ToLower (opt_value (snd kv)) else opt_value (snd kv))"
  have "acc' = map_put nk (text_option x) acc \<and> obfs_fixed nk (text_option x)"
    using assms unfolding canonical_obfs_def Let_def nk_def [symmetric]
    by (auto simp: x_def obfs_fixed_def split: if_splits)
  then show ?thesis by blast
qed

lemma canonical_v2ray_step:
  assumes "canonical_v2ray acc kv = Inr acc'"
  shows "acc' = acc \<or> (\<exists>k v. acc' = map_put k v acc \<and> v2ray_fixed k v)"
proof -
  obtain key option where kv: "kv = (key, option)" by (cases kv)
  consider (tls) "key = ''tls''" | (mode) "key = ''mode''" | (mux) "key = ''mux''"
    | (other) "key \<noteq> ''tls''" "key \<noteq> ''mode''" "key \<noteq> ''mux''" by blast
  then show ?thesis
  proof cases
    case tls
    with assms kv have "acc' = acc \<or> acc' = map_put key flag_option acc"
      by (auto simp: canonical_v2ray_def Let_def split: if_splits)
    moreover have "v2ray_fixed key flag_option" by (simp add: v2ray_fixed_def tls)
    ultimately show ?thesis by blast
  next
    case mode
    let ?v = "text_option (ToLower (opt_value option))"
    from mode assms kv have "acc' = map_put key ?v acc \<and> v2ray_fixed key ?v"
      by (auto simp: canonical_v2ray_def v2ray_fixed_def Let_def split: if_splits)
    then show ?thesis by blast
  next
    case mux
    obtain i ok where a: "Atoi (TrimSpace (opt_value option)) = (i, ok)" by fastforce
    with mux assms kv have "acc' = map_put key (text_option (show_int i)) acc" "ok" "0 \<le> i"
      by (auto simp: canonical_v2ray_def Let_def split: if_splits)
    moreover from a \<open>ok\<close> have "i < 2 ^ 63" using Atoi_bound [of _ i] by simp
    ultimately have "mux_option (text_option (show_int i))" by (auto simp: mux_option_def)
    with mux have "v2ray_fixed key (text_option (show_int i))" by (simp add: v2ray_fixed_def)
    then show ?thesis using \<open>acc' = _\<close> by blast
  next
    case other
    let ?v = "text_option (opt_value option)"
    from other assms kv have "acc' = map_put key ?v acc \<and> v2ray_fixed key ?v"
      by (auto simp: canonical_v2ray_def v2ray_fixed_def Let_def split: if_splits)
    then show ?thesis by blast
  qed
qed

lemma v2ray_fixedE:
  assumes "v2ray_fixed k v"
  obtains (tls) "k = ''tls''" "v = flag_option"
    | (mode) "k = ''mode''" "v = text_option ''websocket'' \<or> v = text_option ''quic''"
    | (mux) i where "k = ''mux''" "0 \<le> i" "i < 2 ^ 63" "v = text_option (show_int i)"
    | (plain) x where "k \<in> {''host'', ''path'', ''cert'', ''certRaw''}" "v = text_option x"
  using assms text_option_id [of v] unfolding v2ray_fixed_def mux_option_def insert_iff
  by metis

lemma read_back_text: "read_back (text_option x) = text_option x"
  by (simp add: read_back_def)

lemma canonical_v2ray_fixed:
  assumes "v2ray_fixed k v"
  shows "canonical_v2ray acc (k, read_back v) = Inr (map_put k v acc)"
  using assms
proof (cases rule: v2ray_fixedE)
  case tls
  then show ?thesis by (simp add: canonical_v2ray_def read_back_def flag_option_def)
next
  case mode
  then show ?thesis by (elim disjE) (simp_all add: canonical_v2ray_def read_back_text lower_constants)
next
  case (mux i)
  then show ?thesis by (simp add: canonical_v2ray_def read_back_text Atoi_show_int)
next
  case (plain x)
  then show ?thesis by (elim insertE) (simp_all add: canonical_v2ray_def read_back_text)
qed

interpretation obfs: canonicaliser canonical_obfs obfs_fixed
proof (unfold_locales, goal_cases)
  case (1 acc kv acc')
  then show ?case using canonical_obfs_step by blast
next
  case (2 k v acc)
  then obtain x where x: "v = text_option x"
    by (metis obfs_fixedE text_option_id)
  have "read_back v = v" by (simp add: x read_back_def)
  moreover from 2(1) have "canonical_obfs acc (k, v) = Inr (map_put k v acc)"
    by (elim obfs_fixedE) (use 2(2) in \<open>auto simp: canonical_obfs_def x lower_constants\<close>)
  ultimately show ?case by simp
next
  case (3 k v)
  then show ?case by (auto simp: obfs_fixed_def)
qed

interpretation v2ray: canonicaliser canonical_v2ray v2ray_fixed
proof (unfold_locales, goal_cases)
  case (1 acc kv acc')
  then show ?case by (rule canonical_v2ray_step)
next
  case (2 k v acc)
  then show ?case using canonical_v2ray_fixed by blast
next
  case (3 k v)
  then show ?case by (auto simp: v2ray_fixed_def)
qed

section \<open>Properties\<close>

text \<open>Writing and reading SIP003 options are inverse: for an option map with distinct,
  non-empty keys, parsing the encoded string gives exactly its keys, with the value of every option
  that has one; a flag without a value reads back as the value 1, whatever bytes need escaping.\<close>

theorem sip003_encode_parse:
  assumes "distinct (map fst options)" and "[] \<notin> fst ` set options"
  shows "\<exists>parsed. parseSIP003PluginOptions (encodeSIP003PluginOptions options) = Inr parsed \<and>
    (\<forall>k. map_of parsed k = map_option read_back (map_of options k))"
proof -
  let ?keys = "sort (map fst options)"
  have "map_of (map (\<lambda>k. (k, read_back (the (map_of options k)))) ?keys) k = map_option read_back (map_of options k)" for k
    using map_of_SomeD [of options k] map_of_eq_None_iff [of options k]
    by (cases "map_of options k") (force simp: map_of_keyed)+
  with parse_encoded [OF assms] show ?thesis by blast
qed

theorem sip003_encode_parse_witness:
  "\<exists>parsed. parseSIP003PluginOptions (encodeSIP003PluginOptions [(''a;b'', text_option ''x=y''), (''tls'', flag_option)]) = Inr parsed \<and>
    (\<forall>k. map_of parsed k = map_option read_back (map_of [(''a;b'', text_option ''x=y''), (''tls'', flag_option)] k))"
  by (rule sip003_encode_parse) simp_all

lemma normalize_plugin_again:
  assumes "NormalizeShadowsocksSIP003Plugin plugin raw = Inr (p, opts)"
  shows "NormalizeShadowsocksSIP003Plugin p (VStr opts) = Inr (p, opts)"
proof -
  let ?step = "if p = ''obfs-local'' then canonical_obfs else canonical_v2ray"
  from assms have "p = [] \<and> opts = [] \<or> (p = ''obfs-local'' \<or> p = ''v2ray-plugin'') \<and>
      (\<exists>kvs canonical. res_fold ?step [] kvs = Inr canonical \<and> opts = encodeSIP003PluginOptions canonical)"
    by (auto simp: NormalizeShadowsocksSIP003Plugin_def Let_def go_result split: sum.splits if_splits)
  then show ?thesis
  proof (elim disjE conjE exE)
    assume "p = []" "opts = []"
    then show ?thesis by (simp, code_simp)
  next
    fix kvs canonical
    assume p: "p = ''obfs-local''" and c: "res_fold ?step [] kvs = Inr canonical" "opts = encodeSIP003PluginOptions canonical"
    have low: "ToLower (TrimSpace ''obfs-local'') = ''obfs-local''" by code_simp
    from c p obfs.canonical_again [of kvs canonical] low show ?thesis
      by (auto simp: NormalizeShadowsocksSIP003Plugin_def normalizeSIP003OptionInput_def)
  next
    fix kvs canonical
    assume p: "p = ''v2ray-plugin''" and c: "res_fold ?step [] kvs = Inr canonical" "opts = encodeSIP003PluginOptions canonical"
    have low: "ToLower (TrimSpace ''v2ray-plugin'') = ''v2ray-plugin''" by code_simp
    from c p v2ray.canonical_again [of kvs canonical] low show ?thesis
      by (auto simp: NormalizeShadowsocksSIP003Plugin_def normalizeSIP003OptionInput_def)
  qed
qed

text \<open>Normalising SIP003 options is stable: what it emits for a plugin is accepted again
  unchanged, as a plugin name and an option string, so re-importing an exported node keeps it.\<close>

theorem sip003_normalize_stable:
  assumes "NormalizeShadowsocksSIP003Plugin plugin raw = Inr (p, opts)"
  shows "NormalizeShadowsocksSIP003Plugin p (VStr opts) = Inr (p, opts)"
  using assms by (rule normalize_plugin_again)

theorem sip003_normalize_stable_witness:
  "NormalizeShadowsocksSIP003Plugin ''v2ray-plugin'' (VStr ''host=a.example;mux=4;tls'') = Inr (''v2ray-plugin'', ''host=a.example;mux=4;tls'')"
proof (rule sip003_normalize_stable)
  show "NormalizeShadowsocksSIP003Plugin '' V2Ray-Plugin'' (VMap [(''tls'', VBool True), (''mux'', VInt 4), (''host'', VStr ''a.example'')]) =
      Inr (''v2ray-plugin'', ''host=a.example;mux=4;tls'')"
    by code_simp
qed

section \<open>Port ranges\<close>

definition bound_text :: "nat option \<Rightarrow> string" where
  "bound_text b = (case b of None \<Rightarrow> [] | Some n \<Rightarrow> show_nat n)"

lemma bound_text_digits: "list_all is_digit (bound_text b)"
  by (auto simp: bound_text_def show_nat_digits split: option.splits)

lemma digits_miss: "list_all is_digit s \<Longrightarrow> \<not> is_digit c \<Longrightarrow> c \<notin> set s"
  by (auto simp: list_all_iff)

lemma ParseUint_bound: "ParseUint s 16 = Some n \<Longrightarrow> s \<noteq> [] \<and> n \<le> 65535"
  by (auto simp: ParseUint_def split: if_splits)

definition valid_range :: "nat option \<Rightarrow> nat option \<Rightarrow> bool" where
  "valid_range a b \<longleftrightarrow>
     (let low = (case a of None \<Rightarrow> 0 | Some n \<Rightarrow> n); high = (case b of None \<Rightarrow> 65535 | Some n \<Rightarrow> n)
      in low \<le> high \<and> high \<le> 65535)"

lemma port_bounds_shape:
  assumes "port_bounds sep s e = Inr t"
  shows "\<exists>a b. t = bound_text a @ '':'' @ bound_text b \<and> valid_range a b"
proof -
  from assms obtain x y where
    x: "(if s \<noteq> [] \<or> sep \<noteq> Some CHR '':'' then ParseUint s 16 else Some 0) = Some x"
    and y: "(if e \<noteq> [] \<or> sep \<noteq> Some CHR '':'' then ParseUint e 16 else Some 65535) = Some y"
    and t: "x \<le> y" "t = (if s \<noteq> [] then show_nat x else []) @ '':'' @ (if e \<noteq> [] then show_nat y else [])"
    unfolding port_bounds_def Let_def by (simp split: option.splits if_split_asm)
  let ?a = "if s \<noteq> [] then Some x else None" and ?b = "if e \<noteq> [] then Some y else None"
  have "x = (case ?a of None \<Rightarrow> 0 | Some n \<Rightarrow> n)" "y = (case ?b of None \<Rightarrow> 65535 | Some n \<Rightarrow> n)" "y \<le> 65535"
    using x y ParseUint_bound by (fastforce split: if_splits)+
  then have "valid_range ?a ?b" using t(1) by (simp add: valid_range_def)
  moreover have "t = bound_text ?a @ '':'' @ bound_text ?b" using t by (simp add: bound_text_def)
  ultimately show ?thesis by blast
qed

lemma port_range_shape:
  assumes "port_range r = Inr t"
  shows "\<exists>a b. t = bound_text a @ '':'' @ bound_text b \<and> valid_range a b"
proof -
  from assms obtain sep s e where "port_bounds sep s e = Inr t"
    by (auto simp: port_range_def Let_def split: if_splits option.splits prod.splits)
  then show ?thesis by (rule port_bounds_shape)
qed

lemma no_space_range: "list_all is_digit a \<Longrightarrow> list_all is_digit b \<Longrightarrow> no_space (a @ '':'' @ b)"
  by (rule no_space_plain) (auto simp: list_all_iff space_encodings_def is_digit_def)

lemma port_bounds_text:
  assumes "valid_range a b"
  shows "port_bounds (Some CHR '':'') (bound_text a) (bound_text b) = Inr (bound_text a @ '':'' @ bound_text b)"
  using assms by (cases a; cases b) (simp_all add: valid_range_def port_bounds_def bound_text_def ParseUint_show_nat)

lemma port_range_bounds:
  assumes "valid_range a b"
  shows "port_range (bound_text a @ '':'' @ bound_text b) = Inr (bound_text a @ '':'' @ bound_text b)"
proof -
  let ?t = "bound_text a @ CHR '':'' # bound_text b"
  have ts: "TrimSpace ?t = ?t" "TrimSpace (bound_text a) = bound_text a" "TrimSpace (bound_text b) = bound_text b"
    using no_space_range [of "bound_text a" "bound_text b"]
    by (simp_all add: no_space_TrimSpace no_space_digits bound_text_digits)
  have c: "CHR ''-'' \<notin> set ?t" "CHR '':'' \<notin> set (bound_text a)"
    using bound_text_digits digits_miss [of _ "CHR ''-''"] digits_miss [of _ "CHR '':''"] by (auto simp: is_digit_def)
  then show ?thesis
    using port_bounds_text [OF assms] by (simp add: port_range_def ts split_once_word)
qed

lemma port_range_again: "port_range r = Inr t \<Longrightarrow> port_range t = Inr t"
  using port_range_shape port_range_bounds by metis

lemma port_ranges_again: "port_ranges rs = Inr ts \<Longrightarrow> port_ranges ts = Inr ts"
  by (induction rs arbitrary: ts) (auto simp: go_result port_range_again)

text \<open>Normalised Hysteria port ranges are valid and stable: every range that is returned reads
  \<open>a:b\<close> with bounds, open or decimal, that satisfy \<open>a \<le> b \<le> 65535\<close>, and normalising the
  returned list again returns it unchanged.\<close>

theorem hysteria_ranges_stable:
  assumes "NormalizeHysteriaPortRanges sprint value = Inr (Some ranges)"
  shows "NormalizeHysteriaPortRanges sprint (VStrList ranges) = Inr (Some ranges) \<and>
    (\<forall>t\<in>set ranges. \<exists>a b. t = bound_text a @ '':'' @ bound_text b \<and> valid_range a b)"
proof -
  from assms obtain rs where rs: "port_ranges rs = Inr ranges"
    by (auto simp: NormalizeHysteriaPortRanges_def go_result split: goval.splits)
  then have "\<forall>t\<in>set ranges. \<exists>r. port_range r = Inr t"
    by (induction rs arbitrary: ranges) (auto simp: go_result)
  moreover from rs have "NormalizeHysteriaPortRanges sprint (VStrList ranges) = Inr (Some ranges)"
    by (simp add: NormalizeHysteriaPortRanges_def port_ranges_again)
  ultimately show ?thesis using port_range_shape by blast
qed

theorem hysteria_ranges_stable_witness:
  "NormalizeHysteriaPortRanges as_string (VStrList [''2000:3000'', '':443'']) = Inr (Some [''2000:3000'', '':443''])"
proof -
  have "NormalizeHysteriaPortRanges as_string (VStr '' 2000-3000 , :443'') = Inr (Some [''2000:3000'', '':443''])"
    by code_simp
  from hysteria_ranges_stable [OF this] show ?thesis by blast
qed

end
