(* ===== verification/Node_Outbound.thy ===== *)
theory Node_Outbound
  imports Sip003 Config_Migration
begin

text \<open>
  From a stored node to a sing-box outbound or WireGuard endpoint
  (\<^verbatim>\<open>generateNodeOutbound\<close>, \<^verbatim>\<open>generateWireGuardEndpoint\<close> and their helpers in
  \<^verbatim>\<open>src/backend/internal/service/config_generator.go\<close>, and the protocol table of
  \<^verbatim>\<open>src/backend/internal/parser/protocol_support.go\<close>).  The source edits the decoded node in place;
  here every step returns the edited map, and a nested map is written back into its parent.  On an
  error the caller drops the node, so an error carries no state.
\<close>

section \<open>Protocols\<close>

definition normalizeProtocolType :: "string \<Rightarrow> string" where
  "normalizeProtocolType typ =
     (let t = ToLower (TrimSpace typ) in
      if t = ''ss'' then ''shadowsocks''
      else if t = ''shadowsocksr'' then ''ssr''
      else if t = ''hy2'' then ''hysteria2''
      else if t = ''wg'' then ''wireguard''
      else if t = ''socks5'' \<or> t = ''socks4'' \<or> t = ''socks4a'' then ''socks''
      else t)"

definition supportedNodeProtocols :: "string list" where
  "supportedNodeProtocols =
     [''anytls'', ''http'', ''hysteria'', ''hysteria2'', ''naive'', ''shadowsocks'', ''snell'', ''socks'', ''ssh'', ''ssr'',
      ''trojan'', ''tuic'', ''vless'', ''vmess'', ''wireguard'']"

definition IsSupportedNodeProtocol :: "string \<Rightarrow> bool" where
  "IsSupportedNodeProtocol nodeType \<longleftrightarrow> normalizeProtocolType nodeType \<in> set supportedNodeProtocols"

definition isUnsupportedNodeType :: "string \<Rightarrow> bool" where
  "isUnsupportedNodeType nodeType \<longleftrightarrow> \<not> IsSupportedNodeProtocol nodeType"

section \<open>Reading values\<close>

text \<open>
  \<^verbatim>\<open>fmt.Sprintf("%g", v)\<close>.  For an integral value below \<open>10 ^ 15\<close> the shortest decimal digits are
  those of the integer without its trailing zeros, and the exponent form is used from \<open>10 ^ 6\<close> on;
  the digits of other values are left to the parameter \<open>g\<close>.
\<close>

definition strip_zeros :: "string \<Rightarrow> string" where
  "strip_zeros s = rev (dropWhile (\<lambda>c. c = CHR ''0'') (rev s))"

definition nat_g :: "nat \<Rightarrow> string" where
  "nat_g n =
     (let digits = show_nat n; exp = length digits - 1; ds = strip_zeros digits in
      if exp < 6 then digits
      else hd ds # (if tl ds = [] then [] else CHR ''.'' # tl ds) @ ''e+'' @ (if exp < 10 then ''0'' else []) @ show_nat exp)"

definition float_g :: "(rat \<Rightarrow> string) \<Rightarrow> rat \<Rightarrow> string" where
  "float_g g r =
     (if of_int \<lfloor>r\<rfloor> = r \<and> \<bar>\<lfloor>r\<rfloor>\<bar> < 10 ^ 15
      then (if \<lfloor>r\<rfloor> < 0 then CHR ''-'' # nat_g (nat (- \<lfloor>r\<rfloor>)) else nat_g (nat \<lfloor>r\<rfloor>))
      else g r)"

definition configStringValue :: "(rat \<Rightarrow> string) \<Rightarrow> goval \<Rightarrow> string" where
  "configStringValue g v =
     (case v of VStr s \<Rightarrow> TrimSpace s | VFloat r \<Rightarrow> float_g g r | VInt i \<Rightarrow> show_int i | _ \<Rightarrow> [])"

fun firstExistingValue :: "gomap \<Rightarrow> string list \<Rightarrow> goval" where
  "firstExistingValue data [] = VNil"
| "firstExistingValue data (k # ks) = (case map_of data k of Some v \<Rightarrow> v | None \<Rightarrow> firstExistingValue data ks)"

fun firstStringValue :: "(rat \<Rightarrow> string) \<Rightarrow> gomap \<Rightarrow> string list \<Rightarrow> string" where
  "firstStringValue g data [] = []"
| "firstStringValue g data (k # ks) =
     (let v = configStringValue g (map_get data k) in if v \<noteq> [] then v else firstStringValue g data ks)"

definition stringListValue :: "(rat \<Rightarrow> string) \<Rightarrow> goval \<Rightarrow> string list" where
  "stringListValue g v =
     (case v of
        VStrList ss \<Rightarrow> ss
      | VList xs \<Rightarrow> filter (\<lambda>s. s \<noteq> []) (map (configStringValue g) xs)
      | VStr s \<Rightarrow> filter (\<lambda>p. p \<noteq> []) (map TrimSpace (split_char CHR '','' s))
      | _ \<Rightarrow> [])"

definition intValue :: "goval \<Rightarrow> int" where
  "intValue v = (case v of VInt i \<Rightarrow> i | VFloat r \<Rightarrow> float_int r | VStr s \<Rightarrow> fst (Atoi (TrimSpace s)) | _ \<Rightarrow> 0)"

definition intListValue :: "goval \<Rightarrow> int list" where
  "intListValue v = (case v of VList xs \<Rightarrow> filter (\<lambda>i. 0 \<le> i) (map intValue xs) | _ \<Rightarrow> [])"

definition configBoolValue :: "goval \<Rightarrow> bool" where
  "configBoolValue v =
     (case v of VBool b \<Rightarrow> b | VStr s \<Rightarrow> s = ''1'' \<or> EqualFold s ''true'' | VInt i \<Rightarrow> i \<noteq> 0 | VFloat r \<Rightarrow> r \<noteq> 0 | _ \<Rightarrow> False)"

definition tlsEnabledValue :: "goval \<Rightarrow> bool" where
  "tlsEnabledValue v = (case v of VMap m \<Rightarrow> configBoolValue (map_get m ''enabled'') | _ \<Rightarrow> configBoolValue v)"

definition moveConfigField :: "string \<Rightarrow> string \<Rightarrow> gomap \<Rightarrow> gomap" where
  "moveConfigField source target data =
     (case map_of data source of
        None \<Rightarrow> data
      | Some v \<Rightarrow> map_del source (if has_key data target then data else map_put target v data))"

definition delete_keys :: "string list \<Rightarrow> gomap \<Rightarrow> gomap" where
  "delete_keys ks m = fold map_del ks m"

datatype node_error =
    UnsupportedProtocol string
  | NodeJSONInvalid
  | NilMapWrite
  | FingerprintUnknown
  | CertificatePinsUnknown
  | RealityUnknown
  | TransportUnsupported string
  | ServerPortsInvalid string port_range_error
  | TUICTokenUnsupported
  | TLSWrappedSocks
  | AlterIDUnsupported
  | SSNetworkWithoutPlugin string
  | SSTLSFieldNeedsPlugin string
  | SSTLSFieldUnmergeable string
  | SSTransportUnmergeable
  | SSModeConflict
  | SSWSOptsUnknown
  | SSWSOptUnmappable string
  | SSWSHeadersUnknown
  | SSWSHeaderUnmappable string
  | SSTLSFieldUnmappable string
  | SSInsecureTLS
  | SSTLSUnknown
  | SSInsecureField string
  | SSHostConflict
  | SSPathConflict
  | SSSkipCertVerify
  | PluginInvalid sip_error
  | CoreOptionActive migrate_error
  | WGAddressMissing
  | WGPrivateKeyMissing
  | WGPublicKeyMissing
  | WGPeersEmpty
  | WGPeerInvalid nat
  | WGPeerKeyMissing nat
  | WGPeerAddressInvalid nat
  | WGNoDialablePeer
  | WGServerMissing

section \<open>TLS fields\<close>

definition is_hex :: "char \<Rightarrow> bool" where
  "is_hex c \<longleftrightarrow> is_digit c \<or> (CHR ''a'' \<le> c \<and> c \<le> CHR ''f'') \<or> (CHR ''A'' \<le> c \<and> c \<le> CHR ''F'')"

definition normalizeSHA256HexString :: "string \<Rightarrow> string option" where
  "normalizeSHA256HexString v =
     (let s = ToLower (filter (\<lambda>c. c \<noteq> CHR '':'' \<and> c \<noteq> CHR ''-'') (TrimSpace v))
      in if length s \<noteq> 64 \<or> \<not> list_all is_hex s then None else Some s)"

fun all_some :: "'a option list \<Rightarrow> 'a list option" where
  "all_some [] = Some []"
| "all_some (x # xs) = (case x of None \<Rightarrow> None | Some y \<Rightarrow> (case all_some xs of None \<Rightarrow> None | Some ys \<Rightarrow> Some (y # ys)))"

definition normalizeSHA256HexValues :: "goval \<Rightarrow> string list option" where
  "normalizeSHA256HexValues v =
     (let values = (case v of
            VStr s \<Rightarrow> Some [s]
          | VStrList ss \<Rightarrow> Some ss
          | VList xs \<Rightarrow> all_some (map (\<lambda>x. case x of VStr s \<Rightarrow> Some s | _ \<Rightarrow> None) xs)
          | _ \<Rightarrow> None)
      in case values of
           None \<Rightarrow> None
         | Some ss \<Rightarrow> if ss = [] then None else all_some (map normalizeSHA256HexString ss))"

definition mergeCertificateSHA256Pins :: "gomap \<Rightarrow> string list \<Rightarrow> node_error + gomap" where
  "mergeCertificateSHA256Pins tlsMap migratedPins =
     res_bind (case map_of tlsMap ''certificate_sha256'' of
                 None \<Rightarrow> Inr []
               | Some v \<Rightarrow> (case normalizeSHA256HexValues v of None \<Rightarrow> Inl CertificatePinsUnknown | Some ps \<Rightarrow> Inr ps))
       (\<lambda>existing. Inr (map_put ''certificate_sha256'' (VStrList (uniq_from existing migratedPins)) tlsMap))"

definition utlsFingerprints :: "string list" where
  "utlsFingerprints = [''chrome'', ''firefox'', ''edge'', ''safari'', ''360'', ''qq'', ''ios'', ''android'', ''random'', ''randomized'',
     ''chrome_psk'', ''chrome_psk_shuffle'', ''chrome_padding_psk_shuffle'', ''chrome_pq'', ''chrome_pq_psk'']"

definition isSingboxUTLSFingerprint :: "string \<Rightarrow> bool" where
  "isSingboxUTLSFingerprint v \<longleftrightarrow> ToLower (TrimSpace v) \<in> set utlsFingerprints"

definition migrate_legacy_pins :: "gomap \<Rightarrow> node_error + gomap" where
  "migrate_legacy_pins tls =
     (case map_of tls ''certificate_public_key_sha256'' of
        None \<Rightarrow> Inr tls
      | Some v \<Rightarrow>
          (case normalizeSHA256HexValues v of
             None \<Rightarrow> Inr tls
           | Some pins \<Rightarrow> res_bind (mergeCertificateSHA256Pins tls pins)
               (\<lambda>t. Inr (map_del ''certificate_public_key_sha256'' t))))"

definition migrate_fingerprint :: "gomap \<Rightarrow> node_error + gomap" where
  "migrate_fingerprint tls =
     (case as_map (map_get tls ''utls'') of
        None \<Rightarrow> Inr tls
      | Some utls \<Rightarrow>
          let fingerprint = as_string (map_get utls ''fingerprint'') in
          if fingerprint = [] \<or> isSingboxUTLSFingerprint fingerprint then Inr tls
          else (case normalizeSHA256HexString fingerprint of
                  None \<Rightarrow> Inl FingerprintUnknown
                | Some pin \<Rightarrow> res_bind (mergeCertificateSHA256Pins tls [pin]) (\<lambda>t.
                    let utls' = map_del ''fingerprint'' utls in
                    if length utls' = 1 \<and> configBoolValue (map_get utls' ''enabled'') then Inr (map_del ''utls'' t)
                    else Inr (map_put ''utls'' (VMap utls') t))))"

text \<open>The top-level fields that belong into the TLS options: the node and its TLS options after the move.\<close>

definition tls_top_fields :: "gomap \<Rightarrow> gomap \<Rightarrow> gomap \<times> gomap" where
  "tls_top_fields nodeData tls =
     (let (n1, tls1) = (case map_of nodeData ''skip-cert-verify'' of
            None \<Rightarrow> (nodeData, tls)
          | Some v \<Rightarrow> (map_del ''skip-cert-verify'' nodeData, map_put ''insecure'' (VBool (configBoolValue v)) tls))
      in case map_of n1 ''alpn'' of
           None \<Rightarrow> (n1, tls1)
         | Some v \<Rightarrow> (map_del ''alpn'' n1, map_put ''alpn'' v tls1))"

definition mapTLSFingerprintFields :: "gomap \<Rightarrow> node_error + gomap" where
  "mapTLSFingerprintFields nodeData =
     (case as_map (map_get nodeData ''tls'') of
        None \<Rightarrow> Inr nodeData
      | Some tls \<Rightarrow>
          (case tls_top_fields nodeData tls of (n1, tls1) \<Rightarrow>
             res_bind (migrate_legacy_pins tls1) (\<lambda>tls2.
             res_bind (migrate_fingerprint tls2) (\<lambda>tls3.
             Inr (map_put ''tls'' (VMap tls3) n1)))))"

definition tls_required :: "string list" where
  "tls_required = [''anytls'', ''hysteria'', ''hysteria2'', ''naive'', ''shadowtls'', ''trojan'', ''tuic'']"

definition ensureRequiredOutboundTLS :: "string \<Rightarrow> gomap \<Rightarrow> gomap" where
  "ensureRequiredOutboundTLS outboundType nodeData =
     (if ToLower (TrimSpace outboundType) \<notin> set tls_required then nodeData
      else let tls = (case as_map (map_get nodeData ''tls'') of Some m \<Rightarrow> m | None \<Rightarrow> [])
           in map_put ''tls'' (VMap (map_put ''enabled'' (VBool True) tls)) nodeData)"

definition put_nonempty :: "string \<Rightarrow> string \<Rightarrow> gomap \<Rightarrow> gomap" where
  "put_nonempty k s m = (if s \<noteq> [] then map_put k (VStr s) m else m)"

definition normalizeLegacyRealityOptions :: "(rat \<Rightarrow> string) \<Rightarrow> gomap \<Rightarrow> node_error + gomap" where
  "normalizeLegacyRealityOptions g nodeData =
     (case map_of nodeData ''reality-opts'' of
        None \<Rightarrow> Inr nodeData
      | Some v \<Rightarrow>
          (case as_map v of
             None \<Rightarrow> Inl RealityUnknown
           | Some opts \<Rightarrow>
               let n1 = map_del ''reality-opts'' nodeData;
                   tls = (case as_map (map_get n1 ''tls'') of Some m \<Rightarrow> m | None \<Rightarrow> []);
                   tls1 = map_put ''enabled'' (VBool True) tls;
                   reality = (case as_map (map_get tls1 ''reality'') of Some m \<Rightarrow> m | None \<Rightarrow> []);
                   reality1 = put_nonempty ''short_id'' (firstStringValue g opts [''short_id'', ''short-id'', ''sid''])
                     (put_nonempty ''public_key'' (firstStringValue g opts [''public_key'', ''public-key'', ''pbk''])
                       (map_put ''enabled'' (VBool True) reality))
               in Inr (map_put ''tls'' (VMap (map_put ''reality'' (VMap reality1) tls1)) n1)))"

section \<open>V2Ray transports\<close>

definition legacy_transport_keys :: "string list" where
  "legacy_transport_keys = [''ws-opts'', ''grpc-opts'', ''h2-opts'', ''http-upgrade-opts'', ''xhttp-opts'']"

definition copy_keys :: "string list \<Rightarrow> gomap \<Rightarrow> gomap \<Rightarrow> gomap" where
  "copy_keys ks source target =
     fold (\<lambda>k t. case map_of source k of Some v \<Rightarrow> map_put k v t | None \<Rightarrow> t) ks target"

definition ws_transport :: "(rat \<Rightarrow> string) \<Rightarrow> gomap \<Rightarrow> gomap \<Rightarrow> gomap" where
  "ws_transport g options transport =
     (let t1 = put_nonempty ''path'' (firstStringValue g options [''path'']) transport;
          t2 = (case map_get options ''headers'' of VMap h \<Rightarrow> if h \<noteq> [] then map_put ''headers'' (VMap h) t1 else t1 | _ \<Rightarrow> t1);
          early = intValue (map_get options ''max-early-data'');
          t3 = (if 0 < early then map_put ''max_early_data'' (VInt early) t2 else t2)
      in put_nonempty ''early_data_header_name'' (firstStringValue g options [''early-data-header-name'']) t3)"

definition build_transport :: "(rat \<Rightarrow> string) \<Rightarrow> string \<Rightarrow> gomap \<Rightarrow> node_error + gomap" where
  "build_transport g network nodeData =
     (let transport = [(''type'', VStr network)] in
      if network = ''ws'' then
        Inr (case as_map (map_get nodeData ''ws-opts'') of Some o1 \<Rightarrow> ws_transport g o1 transport | None \<Rightarrow> transport)
      else if network = ''grpc'' then
        Inr (case as_map (map_get nodeData ''grpc-opts'') of
               Some o1 \<Rightarrow> put_nonempty ''service_name''
                 (firstStringValue g o1 [''grpc-service-name'', ''service-name'', ''service_name'']) transport
             | None \<Rightarrow> transport)
      else if network = ''http'' \<or> network = ''h2'' then
        (let t = map_put ''type'' (VStr ''http'') transport in
         Inr (case as_map (map_get nodeData ''h2-opts'') of
                Some o1 \<Rightarrow> copy_keys [''host''] o1 (put_nonempty ''path'' (firstStringValue g o1 [''path'']) t)
              | None \<Rightarrow> t))
      else if network = ''httpupgrade'' then
        Inr (case as_map (map_get nodeData ''http-upgrade-opts'') of
               Some o1 \<Rightarrow> copy_keys [''host'', ''path'', ''headers''] o1 transport
             | None \<Rightarrow> transport)
      else Inl (TransportUnsupported network))"

text \<open>The deferred deletion of the legacy keys runs on every successful return.\<close>

definition normalizeLegacyV2RayTransport :: "(rat \<Rightarrow> string) \<Rightarrow> string \<Rightarrow> gomap \<Rightarrow> node_error + gomap" where
  "normalizeLegacyV2RayTransport g outboundType nodeData =
     (if outboundType \<noteq> ''vmess'' \<and> outboundType \<noteq> ''vless'' \<and> outboundType \<noteq> ''trojan'' then Inr nodeData
      else
        let network = ToLower (firstStringValue g nodeData [''network'']) in
        if network = [] \<or> network = ''tcp'' \<or> network = ''udp'' then Inr (delete_keys legacy_transport_keys nodeData)
        else if has_key nodeData ''transport'' then Inr (delete_keys legacy_transport_keys (map_del ''network'' nodeData))
        else res_bind (build_transport g network nodeData) (\<lambda>transport.
               Inr (delete_keys legacy_transport_keys (map_del ''network'' (map_put ''transport'' (VMap transport) nodeData)))))"

section \<open>Shadowsocks plugins\<close>

definition ss_tls_fields :: "string list" where
  "ss_tls_fields = [''tls'', ''sni'', ''servername'', ''server_name'', ''alpn'', ''fingerprint'', ''certificate-sha256'', ''certificate_sha256'',
     ''client-fingerprint'', ''client_fingerprint'', ''skip-cert-verify'', ''skip_cert_verify'', ''insecure'', ''reality-opts'']"

text \<open>The first field of a list that is present and not null.\<close>

fun first_present :: "string list \<Rightarrow> gomap \<Rightarrow> string option" where
  "first_present [] m = None"
| "first_present (k # ks) m = (if map_get m k \<noteq> VNil then Some k else first_present ks m)"

definition legacyShadowsocksTLSField :: "gomap \<Rightarrow> string option" where
  "legacyShadowsocksTLSField nodeData = first_present ss_tls_fields nodeData"

definition put_plugin :: "string \<Rightarrow> string \<Rightarrow> gomap \<Rightarrow> gomap" where
  "put_plugin plugin opts nodeData =
     (let n1 = map_put ''plugin'' (VStr plugin) nodeData
      in if opts = [] then map_del ''plugin_opts'' n1 else map_put ''plugin_opts'' (VStr opts) n1)"

definition normalized_plugin :: "string \<Rightarrow> goval \<Rightarrow> (string \<Rightarrow> string \<Rightarrow> gomap) \<Rightarrow> node_error + gomap" where
  "normalized_plugin plugin raw k =
     (case NormalizeShadowsocksSIP003Plugin plugin raw of Inl e \<Rightarrow> Inl (PluginInvalid e) | Inr (p, opts) \<Rightarrow> Inr (k p opts))"

definition ss_ws_options :: "(rat \<Rightarrow> string) \<Rightarrow> string \<Rightarrow> gomap \<Rightarrow> node_error + string \<times> string \<times> gomap" where
  "ss_ws_options g mode nodeData =
     (case map_of nodeData ''ws-opts'' of
        None \<Rightarrow> Inr ([], [], nodeData)
      | Some v \<Rightarrow>
          (case as_map v of
             None \<Rightarrow> Inl SSWSOptsUnknown
           | Some options \<Rightarrow>
               if mode \<noteq> ''websocket'' then Inl SSWSOptsUnknown
               else case filter (\<lambda>k. k \<noteq> ''path'' \<and> k \<noteq> ''headers'') (map fst options) of
                 k # _ \<Rightarrow> Inl (SSWSOptUnmappable k)
               | [] \<Rightarrow>
                   res_bind (case map_of options ''headers'' of
                       None \<Rightarrow> Inr []
                     | Some hv \<Rightarrow>
                         (case as_map hv of
                            None \<Rightarrow> Inl SSWSHeadersUnknown
                          | Some headers \<Rightarrow>
                              (case filter (\<lambda>k. \<not> EqualFold k ''host'') (map fst headers) of
                                 k # _ \<Rightarrow> Inl (SSWSHeaderUnmappable k)
                               | [] \<Rightarrow> Inr (firstStringValue g headers [''Host'', ''host'']))))
                   (\<lambda>wsHost. Inr (wsHost, firstStringValue g options [''path''], map_del ''ws-opts'' nodeData))))"

definition ss_tls_option :: "(rat \<Rightarrow> string) \<Rightarrow> string \<Rightarrow> string \<times> goval \<Rightarrow> node_error + string" where
  "ss_tls_option g tlsHost kv =
     (if fst kv = ''enabled'' then Inr tlsHost
      else if fst kv = ''server_name'' then Inr (configStringValue g (snd kv))
      else if fst kv = ''insecure'' then (if configBoolValue (snd kv) then Inl SSInsecureTLS else Inr tlsHost)
      else Inl (SSTLSFieldUnmappable (fst kv)))"

definition ss_tls_host :: "(rat \<Rightarrow> string) \<Rightarrow> gomap \<Rightarrow> node_error + string" where
  "ss_tls_host g nodeData =
     (case map_of nodeData ''tls'' of
        None \<Rightarrow> Inr []
      | Some (VBool _) \<Rightarrow> Inr []
      | Some (VMap options) \<Rightarrow> res_fold (ss_tls_option g) [] options
      | Some _ \<Rightarrow> Inl SSTLSUnknown)"

fun drop_insecure :: "string list \<Rightarrow> gomap \<Rightarrow> node_error + gomap" where
  "drop_insecure [] nodeData = Inr nodeData"
| "drop_insecure (k # ks) nodeData =
     (if configBoolValue (map_get nodeData k) then Inl (SSInsecureField k) else drop_insecure ks (map_del k nodeData))"

text \<open>The candidates of a plugin option have to agree with it and with each other.\<close>

fun agree :: "(string \<Rightarrow> string \<Rightarrow> bool) \<Rightarrow> node_error \<Rightarrow> string \<Rightarrow> string list \<Rightarrow> node_error + string" where
  "agree same e current [] = Inr current"
| "agree same e current (c # cs) =
     (if c = [] then agree same e current cs
      else if current \<noteq> [] \<and> \<not> same current c then Inl e
      else agree same e c cs)"

definition ss_plugin_mode :: "(rat \<Rightarrow> string) \<Rightarrow> string \<Rightarrow> gomap \<Rightarrow> gomap \<Rightarrow> node_error + string \<times> gomap \<times> gomap" where
  "ss_plugin_mode g network pluginOptions nodeData =
     (if network = ''ws'' \<or> network = ''websocket'' \<or> network = ''quic'' then
        let mode = (if network = ''quic'' then ''quic'' else ''websocket'');
            configured = firstStringValue g pluginOptions [''mode'']
        in if configured \<noteq> [] \<and> configured \<noteq> mode then Inl SSModeConflict
           else Inr (mode, map_put ''mode'' (VStr mode) pluginOptions, map_del ''network'' nodeData)
      else Inr ([], pluginOptions, nodeData))"

definition ss_unmappable :: "string list" where
  "ss_unmappable = [''alpn'', ''fingerprint'', ''certificate-sha256'', ''certificate_sha256'', ''client-fingerprint'', ''client_fingerprint'', ''reality-opts'']"

text \<open>
  The migration of legacy transport fields to v2ray-plugin options: \<open>ss_collect\<close> reads mode,
  WebSocket and TLS fields and refuses what has no equivalent, \<open>ss_finish\<close> merges host and path
  and writes the plugin.
\<close>

definition ss_collect ::
  "(rat \<Rightarrow> string) \<Rightarrow> string \<Rightarrow> gomap \<Rightarrow> gomap \<Rightarrow> node_error + gomap \<times> string \<times> string \<times> string \<times> gomap" where
  "ss_collect g network pluginOptions nodeData =
     res_bind (ss_plugin_mode g network pluginOptions nodeData) (\<lambda>(mode, options1, n1).
     res_bind (ss_ws_options g mode n1) (\<lambda>(wsHost, wsPath, n2).
     case first_present ss_unmappable n2 of Some k \<Rightarrow> Inl (SSTLSFieldUnmappable k) | None \<Rightarrow>
     res_bind (ss_tls_host g n2) (\<lambda>tlsHost.
     res_bind (drop_insecure [''skip-cert-verify'', ''skip_cert_verify'', ''insecure''] n2) (\<lambda>n3.
     Inr (options1, wsHost, wsPath, tlsHost, n3)))))"

definition ss_finish ::
  "(rat \<Rightarrow> string) \<Rightarrow> gomap \<Rightarrow> string \<Rightarrow> string \<Rightarrow> string \<Rightarrow> gomap \<Rightarrow> node_error + gomap" where
  "ss_finish g options1 wsHost wsPath tlsHost n3 =
     res_bind (agree EqualFold SSHostConflict (firstStringValue g options1 [''host''])
         [wsHost, tlsHost, firstStringValue g n3 [''host'', ''sni'', ''servername'', ''server_name'']]) (\<lambda>pluginHost.
     let options2 = put_nonempty ''host'' pluginHost options1;
         n4 = delete_keys [''host'', ''sni'', ''servername'', ''server_name''] n3
     in res_bind (agree (=) SSPathConflict (firstStringValue g options2 [''path''])
          [wsPath, firstStringValue g n4 [''path'']]) (\<lambda>pluginPath.
     let options3 = put_nonempty ''path'' pluginPath options2;
         options4 = (if tlsEnabledValue (map_get n4 ''tls'') then map_put ''tls'' (VBool True) options3 else options3);
         n5 = delete_keys [''path'', ''tls''] n4
     in if configBoolValue (map_get options4 ''skip-cert-verify'') then Inl SSSkipCertVerify
        else normalized_plugin ''v2ray-plugin'' (VMap (delete_keys [''skip-cert-verify'', ''skip_cert_verify''] options4))
               (\<lambda>p opts. put_plugin p opts n5)))"

definition ss_migrate_v2ray :: "(rat \<Rightarrow> string) \<Rightarrow> string \<Rightarrow> gomap \<Rightarrow> gomap \<Rightarrow> node_error + gomap" where
  "ss_migrate_v2ray g network pluginOptions nodeData =
     res_bind (ss_collect g network pluginOptions nodeData) (\<lambda>(options1, wsHost, wsPath, tlsHost, n3).
     ss_finish g options1 wsHost wsPath tlsHost n3)"

text \<open>A plugin other than v2ray-plugin, and v2ray-plugin with an option string.\<close>

definition ss_plain_plugin :: "string \<Rightarrow> gomap \<Rightarrow> node_error + gomap" where
  "ss_plain_plugin plugin nodeData =
     (case legacyShadowsocksTLSField nodeData of
        Some field \<Rightarrow> Inl (SSTLSFieldNeedsPlugin field)
      | None \<Rightarrow> normalized_plugin plugin (map_get nodeData ''plugin_opts'')
          (\<lambda>p opts. if p = [] then delete_keys [''plugin'', ''plugin_opts''] nodeData else put_plugin p opts nodeData))"

definition ss_existing_plugin :: "(rat \<Rightarrow> string) \<Rightarrow> string \<Rightarrow> bool \<Rightarrow> string \<Rightarrow> gomap \<Rightarrow> node_error + gomap" where
  "ss_existing_plugin g plugin legacyTransport existingOptions nodeData =
     (case legacyShadowsocksTLSField nodeData of
        Some field \<Rightarrow> Inl (SSTLSFieldUnmergeable field)
      | None \<Rightarrow>
          if legacyTransport \<or> map_get nodeData ''ws-opts'' \<noteq> VNil \<or> firstStringValue g nodeData [''host'', ''path''] \<noteq> [] \<or>
             map_get nodeData ''skip-cert-verify'' \<noteq> VNil \<or> map_get nodeData ''skip_cert_verify'' \<noteq> VNil \<or>
             map_get nodeData ''insecure'' \<noteq> VNil
          then Inl SSTransportUnmergeable
          else normalized_plugin plugin (VStr existingOptions) (\<lambda>p opts. put_plugin p opts nodeData))"

definition normalizeLegacyShadowsocksPlugin :: "(rat \<Rightarrow> string) \<Rightarrow> gomap \<Rightarrow> node_error + gomap" where
  "normalizeLegacyShadowsocksPlugin g nodeData =
     (let plugin0 = ToLower (firstStringValue g nodeData [''plugin'']);
          network = ToLower (firstStringValue g nodeData [''network'']);
          existingOptions = as_string (map_get nodeData ''plugin_opts'');
          pluginOptions = (case as_map (map_get nodeData ''plugin_opts'') of Some m \<Rightarrow> m | None \<Rightarrow> []);
          legacyTransport = (network = ''ws'' \<or> network = ''websocket'' \<or> network = ''quic'');
          plugin = (if plugin0 = [] \<and> legacyTransport then ''v2ray-plugin'' else plugin0)
      in if plugin \<noteq> ''v2ray-plugin'' \<and> network \<noteq> [] \<and> network \<noteq> ''tcp'' \<and> network \<noteq> ''udp''
         then Inl (SSNetworkWithoutPlugin network)
         else if plugin \<noteq> ''v2ray-plugin'' then ss_plain_plugin plugin nodeData
         else if existingOptions \<noteq> [] then ss_existing_plugin g plugin legacyTransport existingOptions nodeData
         else ss_migrate_v2ray g network pluginOptions nodeData)"

section \<open>Protocol-specific fields\<close>

definition move_cipher :: "string \<Rightarrow> gomap \<Rightarrow> gomap" where
  "move_cipher outboundType nodeData =
     (case map_of nodeData ''cipher'' of
        None \<Rightarrow> nodeData
      | Some cipher \<Rightarrow>
          let n1 = (if outboundType = ''vmess'' \<and> \<not> has_key nodeData ''security'' then map_put ''security'' cipher nodeData
                    else if (outboundType = ''shadowsocks'' \<or> outboundType = ''ssr'') \<and> \<not> has_key nodeData ''method''
                    then map_put ''method'' cipher nodeData
                    else nodeData)
          in if outboundType \<noteq> ''ssh'' then map_del ''cipher'' n1 else n1)"

definition move_fields :: "(string \<times> string) list \<Rightarrow> gomap \<Rightarrow> gomap" where
  "move_fields ps m = fold (\<lambda>(s, t). moveConfigField s t) ps m"

definition positive_int :: "string \<Rightarrow> gomap \<Rightarrow> gomap" where
  "positive_int key m = (let v = intValue (map_get m key) in if 0 < v then map_put key (VInt v) m else m)"

definition hysteria_fields :: "(rat \<Rightarrow> string) \<Rightarrow> gomap \<Rightarrow> gomap" where
  "hysteria_fields g nodeData =
     (let n1 = (if firstStringValue g nodeData [''auth_str'', ''auth''] = []
                then put_nonempty ''auth_str'' (firstStringValue g nodeData [''password'']) nodeData else nodeData);
          n2 = move_fields [(''obfs-param'', ''obfs''), (''obfs_param'', ''obfs''), (''receive-window'', ''recv_window''),
                 (''receive_window'', ''recv_window''), (''receive-window-conn'', ''recv_window_conn''),
                 (''receive_window_conn'', ''recv_window_conn''), (''disable-mtu-discovery'', ''disable_mtu_discovery'')]
               (map_del ''password'' n1)
      in positive_int ''recv_window_conn'' (positive_int ''recv_window'' n2))"

definition tuic_fields :: "(rat \<Rightarrow> string) \<Rightarrow> gomap \<Rightarrow> node_error + gomap" where
  "tuic_fields g nodeData =
     (let n1 = move_fields [(''udp-relay-mode'', ''udp_relay_mode''), (''reduce-rtt'', ''zero_rtt_handshake''),
                 (''reduce_rtt'', ''zero_rtt_handshake''), (''zero-rtt-handshake'', ''zero_rtt_handshake'')] nodeData
      in if firstStringValue g n1 [''token''] = [] then Inr n1
         else let n2 = map_del ''token'' n1
              in if firstStringValue g n2 [''uuid''] = [] \<or> firstStringValue g n2 [''password''] = []
                 then Inl TUICTokenUnsupported else Inr n2)"

definition alter_id_zero :: "goval \<Rightarrow> bool" where
  "alter_id_zero v =
     (case v of VNil \<Rightarrow> True | VFloat r \<Rightarrow> r = 0 | VInt i \<Rightarrow> i = 0
      | VStr s \<Rightarrow> TrimSpace s = [] \<or> TrimSpace s = ''0'' | _ \<Rightarrow> False)"

definition server_ports :: "(goval \<Rightarrow> string) \<Rightarrow> string \<Rightarrow> gomap \<Rightarrow> node_error + gomap" where
  "server_ports sprint outboundType nodeData =
     (if outboundType \<noteq> ''hysteria'' \<and> outboundType \<noteq> ''hysteria2'' then Inr nodeData
      else case NormalizeHysteriaPortRanges sprint (map_get nodeData ''server_ports'') of
        Inl e \<Rightarrow> Inl (ServerPortsInvalid outboundType e)
      | Inr None \<Rightarrow> Inr nodeData
      | Inr (Some ports) \<Rightarrow> Inr (map_put ''server_ports'' (VStrList ports) nodeData))"

definition protocol_fields :: "(rat \<Rightarrow> string) \<Rightarrow> string \<Rightarrow> gomap \<Rightarrow> node_error + gomap" where
  "protocol_fields g outboundType nodeData =
     (if outboundType = ''hysteria'' then Inr (hysteria_fields g nodeData)
      else if outboundType = ''tuic'' then tuic_fields g nodeData
      else if outboundType = ''shadowsocks'' then
        normalizeLegacyShadowsocksPlugin g (moveConfigField ''plugin-opts'' ''plugin_opts'' nodeData)
      else if outboundType = ''socks'' then
        (if tlsEnabledValue (map_get nodeData ''tls'') then Inl TLSWrappedSocks else Inr nodeData)
      else Inr nodeData)"

definition final_fields :: "string \<Rightarrow> gomap \<Rightarrow> node_error + gomap" where
  "final_fields outboundType nodeData =
     (if outboundType = ''ssr'' then
        Inr (map_del ''group'' (move_fields [(''obfs-param'', ''obfs_param''), (''protocol-param'', ''protocol_param'')]
          (map_put ''type'' (VStr ''shadowsocksr'') nodeData)))
      else if outboundType \<noteq> ''vmess'' then Inr nodeData
      else case map_of nodeData ''alter_id'' of
        None \<Rightarrow> Inr nodeData
      | Some v \<Rightarrow> if alter_id_zero v then Inr (map_del ''alter_id'' nodeData) else Inl AlterIDUnsupported)"

definition normalizeLegacyOutboundFields ::
  "(rat \<Rightarrow> string) \<Rightarrow> (goval \<Rightarrow> string) \<Rightarrow> string \<Rightarrow> gomap \<Rightarrow> node_error + gomap" where
  "normalizeLegacyOutboundFields g sprint outboundType0 nodeData =
     (let outboundType = ToLower (TrimSpace outboundType0) in
      res_bind (normalizeLegacyRealityOptions g nodeData) (\<lambda>n1.
      res_bind (normalizeLegacyV2RayTransport g outboundType n1) (\<lambda>n2.
      res_bind (server_ports sprint outboundType (move_cipher outboundType n2)) (\<lambda>n3.
      res_bind (protocol_fields g outboundType n3) (\<lambda>n4.
      final_fields outboundType n4)))))"

definition mapMihomoUDPFlagToSingboxNetwork :: "(rat \<Rightarrow> string) \<Rightarrow> gomap \<Rightarrow> gomap" where
  "mapMihomoUDPFlagToSingboxNetwork g nodeData =
     (case map_of nodeData ''udp'' of
        None \<Rightarrow> nodeData
      | Some udp \<Rightarrow>
          let n1 = (if \<not> configBoolValue udp then map_put ''network'' (VStr ''tcp'') nodeData
                    else if EqualFold (firstStringValue g nodeData [''network'']) ''tcp'' \<and>
                            ToLower (firstStringValue g nodeData [''type'']) \<in> {''vmess'', ''vless'', ''trojan''}
                    then map_del ''network'' nodeData else nodeData)
          in map_del ''udp'' n1)"

definition applyDomainResolverBinding :: "gomap \<Rightarrow> gomap \<Rightarrow> gomap" where
  "applyDomainResolverBinding resolver outbound =
     (if resolver = [] then outbound else map_put ''domain_resolver'' (VMap resolver) outbound)"

section \<open>Outbounds\<close>

text \<open>A stored node; its raw JSON is represented by what \<^verbatim>\<open>json.Unmarshal\<close> reads from it.\<close>

record Node =
  UID :: string
  SubscriptionID :: int
  Name :: string
  node_type :: string
  RawJSON :: config_data

definition NodeChainMetadataKey :: string where
  "NodeChainMetadataKey = ''_ackwrap_chain''"

definition generateNodeOutbound ::
  "(rat \<Rightarrow> string) \<Rightarrow> (goval \<Rightarrow> string) \<Rightarrow> Node \<Rightarrow> string \<Rightarrow> gomap \<Rightarrow> node_error + gomap" where
  "generateNodeOutbound g sprint node tag domainResolver =
     (if isUnsupportedNodeType (node_type node) then Inl (UnsupportedProtocol (node_type node))
      else case RawJSON node of
        NotAnObject \<Rightarrow> Inl NodeJSONInvalid
      | NullDocument \<Rightarrow> Inl NilMapWrite
      | Object raw \<Rightarrow>
          let n1 = mapMihomoUDPFlagToSingboxNetwork g
                (map_del ''name'' (map_put ''tag'' (VStr tag) (map_del NodeChainMetadataKey raw)))
          in res_bind (mapTLSFingerprintFields n1) (\<lambda>n2.
             res_bind (normalizeLegacyOutboundFields g sprint (node_type node) (ensureRequiredOutboundTLS (node_type node) n2)) (\<lambda>n3.
             Inr (applyDomainResolverBinding domainResolver n3))))"

section \<open>WireGuard endpoints\<close>

definition wireguard_peer :: "(rat \<Rightarrow> string) \<Rightarrow> nat \<Rightarrow> goval \<Rightarrow> node_error + gomap \<times> bool" where
  "wireguard_peer g index v =
     (case as_map v of
        None \<Rightarrow> Inl (WGPeerInvalid (index + 1))
      | Some peer \<Rightarrow>
          let address = firstStringValue g peer [''address'', ''server''];
              port = intValue (firstExistingValue peer [''port'', ''server_port'']);
              publicKey = firstStringValue g peer [''public_key'', ''public-key'']
          in if publicKey = [] then Inl (WGPeerKeyMissing (index + 1))
             else if (address = []) \<noteq> (port = 0) \<or> port < 0 \<or> 65535 < port then Inl (WGPeerAddressInvalid (index + 1))
             else
               let p1 = (if address \<noteq> [] then map_put ''port'' (VInt port) (map_put ''address'' (VStr address) peer) else peer)
               in Inr (delete_keys [''server'', ''server_port'', ''public-key''] (map_put ''public_key'' (VStr publicKey) p1), address \<noteq> []))"

fun wireguard_peers :: "(rat \<Rightarrow> string) \<Rightarrow> nat \<Rightarrow> goval list \<Rightarrow> node_error + (gomap \<times> bool) list" where
  "wireguard_peers g i [] = Inr []"
| "wireguard_peers g i (v # vs) =
     res_bind (wireguard_peer g i v) (\<lambda>p. res_bind (wireguard_peers g (i + 1) vs) (\<lambda>ps. Inr (p # ps)))"

definition normalizeWireGuardEndpointPeers :: "(rat \<Rightarrow> string) \<Rightarrow> goval \<Rightarrow> node_error + goval list" where
  "normalizeWireGuardEndpointPeers g raw =
     (case as_list raw of
        None \<Rightarrow> Inl WGPeersEmpty
      | Some values \<Rightarrow>
          if values = [] then Inl WGPeersEmpty
          else res_bind (wireguard_peers g 0 values) (\<lambda>ps.
            if \<not> list_ex snd ps then Inl WGNoDialablePeer else Inr (map (\<lambda>p. VMap (fst p)) ps)))"

definition wireguard_options :: "string list" where
  "wireguard_options = [''system'', ''mtu'', ''listen_port'', ''udp_timeout'', ''udp_mapping'', ''udp_filtering'', ''udp_nat_max'', ''workers'',
     ''on_demand'', ''detour'', ''domain_resolver'', ''bind_interface'', ''routing_mark'', ''reuse_addr'', ''netns'']"

definition copyWireGuardEndpointOptions :: "(rat \<Rightarrow> string) \<Rightarrow> gomap \<Rightarrow> gomap \<Rightarrow> gomap" where
  "copyWireGuardEndpointOptions g source endpoint =
     (let e1 = copy_keys wireguard_options source endpoint;
          e2 = (if has_key e1 ''system'' then e1
                else case map_of source ''system_interface'' of
                  Some v \<Rightarrow> map_put ''system'' (VBool (configBoolValue v)) e1 | None \<Rightarrow> e1)
      in put_nonempty ''name'' (firstStringValue g source [''interface_name'', ''interface-name'']) e2)"

definition wireguard_single_peer :: "(rat \<Rightarrow> string) \<Rightarrow> gomap \<Rightarrow> string \<Rightarrow> int \<Rightarrow> string \<Rightarrow> gomap" where
  "wireguard_single_peer g nodeData server serverPort publicKey =
     (let p0 = [(''address'', VStr server), (''port'', VInt serverPort), (''public_key'', VStr publicKey),
                (''allowed_ips'', VStrList [''0.0.0.0/0'', ''::/0''])];
          allowed = stringListValue g (firstExistingValue nodeData [''allowed_ips'', ''allowed-ips'']);
          p1 = (if allowed \<noteq> [] then map_put ''allowed_ips'' (VStrList allowed) p0 else p0);
          p2 = put_nonempty ''pre_shared_key'' (firstStringValue g nodeData [''pre_shared_key'', ''pre-shared-key'', ''preshared-key'']) p1;
          reserved = firstExistingValue nodeData [''reserved''];
          p3 = (case as_list reserved of
                  Some (r # rs) \<Rightarrow> map_put ''reserved'' (VList (r # rs)) p2
                | _ \<Rightarrow> if intListValue reserved \<noteq> [] then map_put ''reserved'' (VList (map VInt (intListValue reserved))) p2 else p2);
          keepalive = intValue (firstExistingValue nodeData [''persistent_keepalive_interval'', ''persistent-keepalive'', ''persistent_keepalive''])
      in if 0 < keepalive then map_put ''persistent_keepalive_interval'' (VInt keepalive) p3 else p3)"

definition drop_on_demand :: "string \<Rightarrow> gomap \<Rightarrow> node_error + gomap" where
  "drop_on_demand version nodeData =
     (if has_key nodeData ''on_demand'' \<and> version \<noteq> [] \<and> \<not> singboxSupportsDevelopmentOptions version then
        (case removeInactiveCoreOption nodeData ''on_demand'' ''WireGuard endpoint'' version False of
           Inl e \<Rightarrow> Inl (CoreOptionActive e) | Inr (m, _) \<Rightarrow> Inr m)
      else Inr nodeData)"

definition wireguard_base :: "string \<Rightarrow> string list \<Rightarrow> string \<Rightarrow> goval list \<Rightarrow> gomap" where
  "wireguard_base tag address privateKey peers =
     [(''type'', VStr ''wireguard''), (''tag'', VStr tag), (''address'', VStrList address),
      (''private_key'', VStr privateKey), (''peers'', VList peers)]"

definition wireguard_endpoint :: "(rat \<Rightarrow> string) \<Rightarrow> string \<Rightarrow> gomap \<Rightarrow> node_error + gomap" where
  "wireguard_endpoint g tag nodeData =
     (let address = stringListValue g (firstExistingValue nodeData [''address'', ''local_address'', ''local-address'']);
          privateKey = firstStringValue g nodeData [''private_key'', ''private-key''];
          publicKey = firstStringValue g nodeData [''peer_public_key'', ''public_key'', ''public-key''];
          server = firstStringValue g nodeData [''server''];
          serverPort = intValue (firstExistingValue nodeData [''server_port'', ''port''])
      in if address = [] then Inl WGAddressMissing
         else if privateKey = [] then Inl WGPrivateKeyMissing
         else if \<not> has_key nodeData ''peers'' \<and> publicKey = [] then Inl WGPublicKeyMissing
         else case map_of nodeData ''peers'' of
           Some rawPeers \<Rightarrow> res_bind (normalizeWireGuardEndpointPeers g rawPeers) (\<lambda>peers.
             Inr (if server = []
                  then map_put ''peers'' (VList peers) (map_put ''tag'' (VStr tag) (map_put ''type'' (VStr ''wireguard'') nodeData))
                  else copyWireGuardEndpointOptions g nodeData (wireguard_base tag address privateKey peers)))
         | None \<Rightarrow>
             if server = [] \<or> serverPort < 1 \<or> 65535 < serverPort then Inl WGServerMissing
             else Inr (copyWireGuardEndpointOptions g nodeData
               (wireguard_base tag address privateKey [VMap (wireguard_single_peer g nodeData server serverPort publicKey)])))"

definition generateWireGuardEndpoint ::
  "(rat \<Rightarrow> string) \<Rightarrow> string \<Rightarrow> Node \<Rightarrow> string \<Rightarrow> gomap \<Rightarrow> node_error + gomap" where
  "generateWireGuardEndpoint g version node tag domainResolver =
     (if RawJSON node = NotAnObject then Inl NodeJSONInvalid
      else
        let raw = (case RawJSON node of Object m \<Rightarrow> m | _ \<Rightarrow> []) in
        res_bind (drop_on_demand version (map_del NodeChainMetadataKey raw)) (\<lambda>nodeData.
        res_bind (wireguard_endpoint g tag nodeData) (\<lambda>endpoint.
        Inr (applyDomainResolverBinding domainResolver endpoint))))"

end
