(* ===== verification/Node_Facts.thy ===== *)
theory Node_Facts
  imports Node_Outbound
begin

text \<open>
  What the generation of outbounds and endpoints guarantees: which keys every step touches
  (\<open>keeps\<close>), the shape of a generated outbound, canonical Shadowsocks plugins, certificate pins and
  WireGuard peers.
\<close>

section \<open>Which keys a step touches\<close>

text \<open>\<open>keeps K m n\<close>: the step from \<open>m\<close> to \<open>n\<close> changes no key outside \<open>K\<close>.\<close>

definition keeps :: "string list \<Rightarrow> gomap \<Rightarrow> gomap \<Rightarrow> bool" where
  "keeps K m n \<longleftrightarrow> (\<forall>k. k \<notin> set K \<longrightarrow> map_of n k = map_of m k)"

definition apart :: "string list \<Rightarrow> string list \<Rightarrow> bool" where
  "apart ks ls \<longleftrightarrow> list_all (\<lambda>k. \<not> List.member ls k) ks"

definition inside :: "string list \<Rightarrow> string list \<Rightarrow> bool" where
  "inside ks ls \<longleftrightarrow> list_all (List.member ls) ks"

named_theorems frame \<open>which keys the steps of node generation touch\<close>

lemma keepsD: "keeps K m n \<Longrightarrow> k \<in> set ks \<Longrightarrow> apart ks K \<Longrightarrow> map_of n k = map_of m k"
  by (auto simp: keeps_def apart_def list_all_iff)

lemma keeps_refl [frame]: "keeps K m m"
  by (simp add: keeps_def)

lemma keeps_trans: "keeps K l m \<Longrightarrow> keeps K m n \<Longrightarrow> keeps K l n"
  by (simp add: keeps_def)

lemma keeps_mono: "keeps K m n \<Longrightarrow> inside K L \<Longrightarrow> keeps L m n"
  by (auto simp: keeps_def inside_def list_all_iff)

lemma keeps_put [frame]: "List.member K k \<Longrightarrow> keeps K l m \<Longrightarrow> keeps K l (map_put k v m)"
  by (auto simp: keeps_def)

lemma keeps_del [frame]: "List.member K k \<Longrightarrow> keeps K l m \<Longrightarrow> keeps K l (map_del k m)"
  by (auto simp: keeps_def)

lemma keeps_nonempty [frame]: "List.member K k \<Longrightarrow> keeps K l m \<Longrightarrow> keeps K l (put_nonempty k s m)"
  by (simp add: put_nonempty_def keeps_put)

lemma map_of_delete_keys: "map_of (delete_keys ks m) k = (if k \<in> set ks then None else map_of m k)"
  unfolding delete_keys_def by (induction ks arbitrary: m) auto

lemma keeps_delete [frame]: "inside ks K \<Longrightarrow> keeps K l m \<Longrightarrow> keeps K l (delete_keys ks m)"
  by (auto simp: keeps_def map_of_delete_keys inside_def list_all_iff)

lemma keeps_move: "List.member K s \<Longrightarrow> List.member K t \<Longrightarrow> keeps K l m \<Longrightarrow> keeps K l (moveConfigField s t m)"
  by (auto simp: moveConfigField_def keeps_put keeps_del split: option.splits)

lemma keeps_moves [frame]: "inside (map fst ps @ map snd ps) K \<Longrightarrow> keeps K l m \<Longrightarrow> keeps K l (move_fields ps m)"
  unfolding move_fields_def by (induction ps arbitrary: m) (auto simp: keeps_move inside_def)

lemma udp_frame: "keeps [''network'', ''udp''] m (mapMihomoUDPFlagToSingboxNetwork g m)"
  by (auto simp: mapMihomoUDPFlagToSingboxNetwork_def Let_def frame split: option.splits)

lemma udp_gone: "\<not> has_key (mapMihomoUDPFlagToSingboxNetwork g m) ''udp''"
  by (auto simp: mapMihomoUDPFlagToSingboxNetwork_def Let_def has_key_def split: option.splits)

lemma top_fields_frame:
  "tls_top_fields m t = (n, t') \<Longrightarrow> keeps [''skip-cert-verify'', ''alpn'', ''tls''] m n \<and> keeps [''insecure'', ''alpn''] t t'"
  by (auto simp: tls_top_fields_def Let_def frame split: option.split_asm)

lemma fingerprint_frame:
  assumes "mapTLSFingerprintFields m = Inr n"
  shows "keeps [''skip-cert-verify'', ''alpn'', ''tls''] m n"
proof (cases "as_map (map_get m ''tls'')")
  case None
  with assms show ?thesis by (simp add: mapTLSFingerprintFields_def frame)
next
  case (Some t)
  obtain n1 t1 where n1: "tls_top_fields m t = (n1, t1)" by fastforce
  with assms Some obtain t3 where "n = map_put ''tls'' (VMap t3) n1" by (auto simp: mapTLSFingerprintFields_def go_result)
  with top_fields_frame [OF n1] show ?thesis by (simp add: frame)
qed

lemma ensure_tls_frame: "keeps [''tls''] m (ensureRequiredOutboundTLS t m)"
  by (auto simp: ensureRequiredOutboundTLS_def Let_def frame)

lemma reality_frame: "normalizeLegacyRealityOptions g m = Inr n \<Longrightarrow> keeps [''reality-opts'', ''tls''] m n"
  by (auto simp: normalizeLegacyRealityOptions_def Let_def frame split: option.splits)

lemma reality_gone: "normalizeLegacyRealityOptions g m = Inr n \<Longrightarrow> \<not> has_key n ''reality-opts''"
  by (auto simp: normalizeLegacyRealityOptions_def Let_def has_key_def split: option.splits)

lemma transport_frame:
  assumes "normalizeLegacyV2RayTransport g t m = Inr n" "List.member K ''network''" "List.member K ''transport''" "inside legacy_transport_keys K"
  shows "keeps K m n"
  using assms unfolding normalizeLegacyV2RayTransport_def Let_def
  by (auto simp: go_result frame simp del: firstStringValue.simps split: if_split_asm)

lemma cipher_frame: "keeps [''security'', ''method'', ''cipher''] m (move_cipher t m)"
  by (auto simp: move_cipher_def Let_def frame split: option.splits)

lemma cipher_gone: "t \<noteq> ''ssh'' \<Longrightarrow> \<not> has_key (move_cipher t m) ''cipher''"
  by (auto simp: move_cipher_def Let_def has_key_def split: option.splits)

lemma ports_frame: "server_ports sp t m = Inr n \<Longrightarrow> keeps [''server_ports''] m n"
  by (auto simp: server_ports_def frame split: if_splits sum.splits option.splits)

lemma put_plugin_frame [frame]: "keeps K l m \<Longrightarrow> List.member K ''plugin'' \<Longrightarrow> List.member K ''plugin_opts'' \<Longrightarrow> keeps K l (put_plugin p o1 m)"
  by (simp add: put_plugin_def Let_def frame)

definition ss_keys :: "string list" where
  "ss_keys = [''plugin'', ''plugin_opts'', ''plugin-opts'', ''network'', ''ws-opts'', ''skip-cert-verify'', ''skip_cert_verify'', ''insecure'',
     ''host'', ''sni'', ''servername'', ''server_name'', ''path'', ''tls'']"

lemma drop_insecure_frame: "drop_insecure ks m = Inr n \<Longrightarrow> inside ks K \<Longrightarrow> keeps K m n"
proof (induction ks arbitrary: m)
  case (Cons k ks)
  then have "keeps K (map_del k m) n" by (auto simp: inside_def split: if_splits)
  moreover have "keeps K m (map_del k m)" using Cons.prems by (simp add: frame inside_def)
  ultimately show ?case by (rule keeps_trans [rotated])
qed (simp add: frame)

lemma ss_mode_frame: "ss_plugin_mode g nw po m = Inr (mo, po', n) \<Longrightarrow> keeps [''network''] m n"
  by (auto simp: ss_plugin_mode_def Let_def frame split: if_splits)

lemma ss_ws_frame: "ss_ws_options g mo m = Inr (h, p, n) \<Longrightarrow> keeps [''ws-opts''] m n"
  by (auto simp: ss_ws_options_def go_result frame split: option.splits if_splits list.splits)

lemma ss_collect_frame: "ss_collect g nw po m = Inr (o1, h, p, th, n) \<Longrightarrow> keeps ss_keys m n"
proof -
  assume "ss_collect g nw po m = Inr (o1, h, p, th, n)"
  then obtain mo n1 n2 where n1: "ss_plugin_mode g nw po m = Inr (mo, o1, n1)" and n2: "ss_ws_options g mo n1 = Inr (h, p, n2)"
    and n3: "drop_insecure [''skip-cert-verify'', ''skip_cert_verify'', ''insecure''] n2 = Inr n"
    by (auto simp: ss_collect_def go_result simp del: drop_insecure.simps split: option.split_asm)
  have k1: "keeps ss_keys m n1" by (rule keeps_mono [OF ss_mode_frame [OF n1]]) code_simp
  have k2: "keeps ss_keys n1 n2" by (rule keeps_mono [OF ss_ws_frame [OF n2]]) code_simp
  have k3: "keeps ss_keys n2 n" by (rule drop_insecure_frame [OF n3]) code_simp
  show ?thesis by (rule keeps_trans [OF keeps_trans [OF k1 k2] k3])
qed

lemma ss_finish_cases:
  assumes "ss_finish g o1 h p th m = Inr n"
  obtains raw q o' where "NormalizeShadowsocksSIP003Plugin ''v2ray-plugin'' raw = Inr (q, o')"
    "n = put_plugin q o' (delete_keys [''path'', ''tls''] (delete_keys [''host'', ''sni'', ''servername'', ''server_name''] m))"
  using assms unfolding ss_finish_def Let_def
  by (auto simp: go_result normalized_plugin_def simp del: firstStringValue.simps agree.simps split: if_split_asm sum.split_asm)

lemma ss_migrate_cases:
  assumes "ss_migrate_v2ray g nw po m = Inr n"
  obtains raw q o' n3 where "NormalizeShadowsocksSIP003Plugin ''v2ray-plugin'' raw = Inr (q, o')" "keeps ss_keys m n3"
    "n = put_plugin q o' (delete_keys [''path'', ''tls''] (delete_keys [''host'', ''sni'', ''servername'', ''server_name''] n3))"
proof -
  from assms obtain o1 h p th n3 where "ss_collect g nw po m = Inr (o1, h, p, th, n3)" "ss_finish g o1 h p th n3 = Inr n"
    by (auto simp: ss_migrate_v2ray_def go_result)
  with ss_finish_cases that ss_collect_frame show ?thesis by metis
qed

lemma ss_migrate_frame:
  assumes "ss_migrate_v2ray g nw po m = Inr n"
  shows "keeps ss_keys m n"
proof -
  have w: "inside [''path'', ''tls''] ss_keys" "inside [''host'', ''sni'', ''servername'', ''server_name''] ss_keys"
    "List.member ss_keys ''plugin''" "List.member ss_keys ''plugin_opts''" by code_simp+
  from assms show ?thesis
    by (rule ss_migrate_cases) (simp only:, intro put_plugin_frame keeps_delete w)
qed

lemma ss_plugin_cases:
  assumes "normalizeLegacyShadowsocksPlugin g m = Inr n"
  obtains (plain) p where "ss_plain_plugin p m = Inr n" | (existing) p l o' where "ss_existing_plugin g p l o' m = Inr n"
    | (migrate) nw po where "ss_migrate_v2ray g nw po m = Inr n"
  using assms unfolding normalizeLegacyShadowsocksPlugin_def Let_def by (auto split: if_split_asm)

lemma ss_plugin_frame: "normalizeLegacyShadowsocksPlugin g m = Inr n \<Longrightarrow> keeps ss_keys m n"
proof (elim ss_plugin_cases)
  have w: "inside [''plugin'', ''plugin_opts''] ss_keys" "List.member ss_keys ''plugin''" "List.member ss_keys ''plugin_opts''" by code_simp+
  show "ss_plain_plugin p m = Inr n \<Longrightarrow> keeps ss_keys m n" for p
    by (auto simp: ss_plain_plugin_def normalized_plugin_def intro!: frame w split: option.split_asm sum.split_asm if_split_asm)
  show "ss_existing_plugin g p l o' m = Inr n \<Longrightarrow> keeps ss_keys m n" for p l o'
    by (auto simp: ss_existing_plugin_def normalized_plugin_def intro!: frame w simp del: firstStringValue.simps
        split: option.split_asm sum.split_asm if_split_asm)
qed (rule ss_migrate_frame)

definition hysteria_moves :: "(string \<times> string) list" where
  "hysteria_moves = [(''obfs-param'', ''obfs''), (''obfs_param'', ''obfs''), (''receive-window'', ''recv_window''),
     (''receive_window'', ''recv_window''), (''receive-window-conn'', ''recv_window_conn''),
     (''receive_window_conn'', ''recv_window_conn''), (''disable-mtu-discovery'', ''disable_mtu_discovery'')]"

definition hysteria_keys :: "string list" where
  "hysteria_keys = [''auth_str'', ''password'', ''recv_window'', ''recv_window_conn''] @ map fst hysteria_moves @ map snd hysteria_moves"

lemma hysteria_frame: "keeps hysteria_keys m (hysteria_fields g m)"
proof -
  have w: "List.member hysteria_keys k" if "List.member [''auth_str'', ''password'', ''recv_window'', ''recv_window_conn''] k" for k
    using that by (auto simp: hysteria_keys_def)
  have "inside (map fst hysteria_moves @ map snd hysteria_moves) hysteria_keys" by code_simp
  then show ?thesis
    by (auto simp: hysteria_fields_def positive_int_def Let_def hysteria_moves_def [symmetric] intro!: frame w simp del: firstStringValue.simps)
qed

definition tuic_moves :: "(string \<times> string) list" where
  "tuic_moves = [(''udp-relay-mode'', ''udp_relay_mode''), (''reduce-rtt'', ''zero_rtt_handshake''),
     (''reduce_rtt'', ''zero_rtt_handshake''), (''zero-rtt-handshake'', ''zero_rtt_handshake'')]"

definition tuic_keys :: "string list" where
  "tuic_keys = ''token'' # map fst tuic_moves @ map snd tuic_moves"

lemma tuic_frame: "tuic_fields g m = Inr n \<Longrightarrow> keeps tuic_keys m n"
proof -
  assume a: "tuic_fields g m = Inr n"
  have w: "List.member tuic_keys ''token''" "inside (map fst tuic_moves @ map snd tuic_moves) tuic_keys" by code_simp+
  show ?thesis
    using a by (auto simp: tuic_fields_def Let_def tuic_moves_def [symmetric] simp del: firstStringValue.simps intro!: frame w split: if_split_asm)
qed

text \<open>Keys that no protocol-specific step touches; but for Shadowsocks, the TLS options are one.\<close>

definition node_keys :: "string list" where
  "node_keys = [''tag'', ''name'', ''udp'', ''_ackwrap_chain'', ''reality-opts'', ''cipher'']"

lemma protocol_frame:
  assumes "protocol_fields g t m = Inr n" "k \<in> set node_keys \<or> t \<noteq> ''shadowsocks'' \<and> k = ''tls''"
  shows "map_of n k = map_of m k"
proof -
  have "n = m \<or> n = hysteria_fields g m \<and> t \<noteq> ''shadowsocks'' \<or> tuic_fields g m = Inr n \<and> t \<noteq> ''shadowsocks'' \<or>
      normalizeLegacyShadowsocksPlugin g (moveConfigField ''plugin-opts'' ''plugin_opts'' m) = Inr n \<and> t = ''shadowsocks''"
    using assms(1) unfolding protocol_fields_def by (simp split: if_split_asm)
  then consider "n = m" | "t \<noteq> ''shadowsocks''" "n = hysteria_fields g m" | "t \<noteq> ''shadowsocks''" "tuic_fields g m = Inr n"
    | "t = ''shadowsocks''" "normalizeLegacyShadowsocksPlugin g (moveConfigField ''plugin-opts'' ''plugin_opts'' m) = Inr n"
    by blast
  then show ?thesis
  proof cases
    case 2
    have "apart (''tls'' # node_keys) hysteria_keys" by code_simp
    with hysteria_frame [of m g] assms(2) 2 show ?thesis by (metis keepsD list.set_intros)
  next
    case 3
    have "apart (''tls'' # node_keys) tuic_keys" by code_simp
    with tuic_frame [OF 3(2)] assms(2) show ?thesis by (metis keepsD list.set_intros)
  next
    case 4
    have "List.member ss_keys ''plugin-opts''" "List.member ss_keys ''plugin_opts''" "apart node_keys ss_keys" by code_simp+
    moreover from this have "keeps ss_keys m (moveConfigField ''plugin-opts'' ''plugin_opts'' m)" by (intro keeps_move keeps_refl)
    from keeps_trans [OF this ss_plugin_frame [OF 4(2)]] have "keeps ss_keys m n" .
    ultimately show ?thesis using 4(1) assms(2) by (metis keepsD)
  qed simp
qed

definition final_keys :: "string list" where
  "final_keys = [''type'', ''group'', ''alter_id'', ''obfs-param'', ''protocol-param'', ''obfs_param'', ''protocol_param'']"

lemma final_frame:
  assumes "final_fields t m = Inr n" "k \<in> set (''tls'' # node_keys)"
  shows "map_of n k = map_of m k"
proof -
  have w: "List.member final_keys ''type''" "List.member final_keys ''group''" "List.member final_keys ''alter_id''"
    "inside (map fst [(''obfs-param'', ''obfs_param''), (''protocol-param'', ''protocol_param'')] @
       map snd [(''obfs-param'', ''obfs_param''), (''protocol-param'', ''protocol_param'')]) final_keys"
    "apart (''tls'' # node_keys) final_keys" by code_simp+
  have "keeps final_keys m n"
    using assms(1) by (auto simp: final_fields_def intro!: frame w(1-4) split: if_split_asm option.split_asm)
  from keepsD [OF this assms(2) w(5)] show ?thesis .
qed

lemma legacy_fields_steps:
  assumes "normalizeLegacyOutboundFields g sp t0 m = Inr n"
  obtains n1 n2 n3 n4 where "normalizeLegacyRealityOptions g m = Inr n1"
    "normalizeLegacyV2RayTransport g (ToLower (TrimSpace t0)) n1 = Inr n2"
    "server_ports sp (ToLower (TrimSpace t0)) (move_cipher (ToLower (TrimSpace t0)) n2) = Inr n3"
    "protocol_fields g (ToLower (TrimSpace t0)) n3 = Inr n4" "final_fields (ToLower (TrimSpace t0)) n4 = Inr n"
  using assms by (auto simp: normalizeLegacyOutboundFields_def Let_def go_result)

definition legacy_keys :: "string list" where
  "legacy_keys = [''network'', ''transport'', ''security'', ''method'', ''cipher'', ''server_ports''] @ legacy_transport_keys"

lemma legacy_fields_frame:
  assumes "normalizeLegacyOutboundFields g sp t0 m = Inr n"
  shows "k \<in> set [''tag'', ''name'', ''udp'', ''_ackwrap_chain''] \<Longrightarrow> map_of n k = map_of m k"
    and "\<not> has_key n ''reality-opts''" and "ToLower (TrimSpace t0) \<noteq> ''ssh'' \<Longrightarrow> \<not> has_key n ''cipher''"
    and "ToLower (TrimSpace t0) \<noteq> ''shadowsocks'' \<Longrightarrow> \<exists>n1. normalizeLegacyRealityOptions g m = Inr n1 \<and> map_of n ''tls'' = map_of n1 ''tls''"
proof -
  let ?t = "ToLower (TrimSpace t0)"
  obtain n1 n2 n3 n4 where s: "normalizeLegacyRealityOptions g m = Inr n1" "normalizeLegacyV2RayTransport g ?t n1 = Inr n2"
    "server_ports sp ?t (move_cipher ?t n2) = Inr n3" "protocol_fields g ?t n3 = Inr n4" "final_fields ?t n4 = Inr n"
    by (rule legacy_fields_steps [OF assms])
  have w: "List.member legacy_keys ''network''" "List.member legacy_keys ''transport''" "inside legacy_transport_keys legacy_keys"
    "inside [''security'', ''method'', ''cipher''] legacy_keys" "inside [''server_ports''] legacy_keys"
    "apart [''tls'', ''tag'', ''name'', ''udp'', ''_ackwrap_chain'', ''reality-opts''] legacy_keys"
    "apart [''tag'', ''name'', ''udp'', ''_ackwrap_chain''] [''reality-opts'', ''tls'']"
    "apart [''cipher''] [''server_ports'']" by code_simp+
  have "keeps legacy_keys n1 n2" by (rule transport_frame [OF s(2) w(1-3)])
  from keeps_trans [OF this keeps_mono [OF cipher_frame w(4)]] have k3: "keeps legacy_keys n1 n3"
    by (rule keeps_trans) (rule keeps_mono [OF ports_frame [OF s(3)] w(5)])
  have to_n3: "map_of n k = map_of n3 k" if "k \<in> set node_keys \<or> ?t \<noteq> ''shadowsocks'' \<and> k = ''tls''" for k
    using protocol_frame [OF s(4) that] final_frame [OF s(5), of k] that by auto
  note to_n1 = keepsD [OF k3 _ w(6)]
  have r: "map_of n1 k = map_of m k" if "k \<in> set [''tag'', ''name'', ''udp'', ''_ackwrap_chain'']" for k
    using keepsD [OF reality_frame [OF s(1)] that w(7)] .
  show "map_of n k = map_of m k" if "k \<in> set [''tag'', ''name'', ''udp'', ''_ackwrap_chain'']"
    using that r [OF that] to_n1 [of k] to_n3 [of k] by (auto simp: node_keys_def)
  show "\<not> has_key n ''reality-opts''"
    using to_n1 [of "''reality-opts''"] to_n3 [of "''reality-opts''"] reality_gone [OF s(1)] by (simp add: has_key_def node_keys_def)
  show "\<not> has_key n ''cipher''" if "?t \<noteq> ''ssh''"
    using cipher_gone [OF that, of n2] to_n3 [of "''cipher''"] keepsD [OF ports_frame [OF s(3)] _ w(8), of "''cipher''"]
    by (simp add: has_key_def node_keys_def)
  show "\<exists>n1. normalizeLegacyRealityOptions g m = Inr n1 \<and> map_of n ''tls'' = map_of n1 ''tls''" if "?t \<noteq> ''shadowsocks''"
    using s(1) to_n1 [of "''tls''"] to_n3 [of "''tls''"] that by auto
qed

definition tls_on :: "gomap \<Rightarrow> bool" where
  "tls_on m \<longleftrightarrow> (case map_get m ''tls'' of VMap t \<Rightarrow> map_get t ''enabled'' = VBool True | _ \<Rightarrow> False)"

lemma ensure_tls_on: "ToLower (TrimSpace t) \<in> set tls_required \<Longrightarrow> tls_on (ensureRequiredOutboundTLS t m)"
  by (simp add: ensureRequiredOutboundTLS_def tls_on_def Let_def)

lemma reality_keeps_tls: "tls_on m \<Longrightarrow> normalizeLegacyRealityOptions g m = Inr n \<Longrightarrow> tls_on n"
proof -
  assume t: "tls_on m" and n: "normalizeLegacyRealityOptions g m = Inr n"
  have "n = m \<or> tls_on n"
    using n unfolding normalizeLegacyRealityOptions_def Let_def
    by (auto simp: tls_on_def simp del: firstStringValue.simps map_put.simps split: option.split_asm)
  with t show ?thesis by blast
qed

section \<open>Properties of outbounds\<close>

text \<open>C25. A generated outbound is safe to hand to the core: its protocol is supported, it carries
  exactly the assigned tag, none of the manager's private or foreign keys survive (the chain
  metadata, name, udp, reality-opts and, but for ssh, cipher), protocols that require TLS have it
  enabled whatever the node said, and a domain resolver is bound when there is one.\<close>

theorem node_outbound_shape:
  assumes "generateNodeOutbound g sprint node tag resolver = Inr outbound"
  shows "IsSupportedNodeProtocol (node_type node) \<and> map_get outbound ''tag'' = VStr tag \<and>
    (\<forall>k\<in>{''name'', ''udp'', NodeChainMetadataKey, ''reality-opts''}. \<not> has_key outbound k) \<and>
    (ToLower (TrimSpace (node_type node)) \<noteq> ''ssh'' \<longrightarrow> \<not> has_key outbound ''cipher'') \<and>
    (ToLower (TrimSpace (node_type node)) \<in> set tls_required \<longrightarrow> tls_on outbound) \<and>
    (resolver \<noteq> [] \<longrightarrow> map_get outbound ''domain_resolver'' = VMap resolver)"
proof -
  let ?t = "ToLower (TrimSpace (node_type node))"
  obtain raw n2 n3 where raw: "RawJSON node = Object raw" and sup: "IsSupportedNodeProtocol (node_type node)"
    and n2: "mapTLSFingerprintFields (mapMihomoUDPFlagToSingboxNetwork g
        (map_del ''name'' (map_put ''tag'' (VStr tag) (map_del NodeChainMetadataKey raw)))) = Inr n2"
    and n3: "normalizeLegacyOutboundFields g sprint (node_type node) (ensureRequiredOutboundTLS (node_type node) n2) = Inr n3"
    and out: "outbound = applyDomainResolverBinding resolver n3"
    using assms by (auto simp: generateNodeOutbound_def isUnsupportedNodeType_def go_result Let_def split: if_split_asm config_data.splits)
  let ?n0 = "map_del ''name'' (map_put ''tag'' (VStr tag) (map_del NodeChainMetadataKey raw))"
  note l = legacy_fields_frame [OF n3]
  have w: "apart [''tag'', ''name'', ''udp'', ''_ackwrap_chain''] [''skip-cert-verify'', ''alpn'', ''tls'']"
    "apart [''tag'', ''name'', ''udp'', ''_ackwrap_chain''] [''tls'']" "apart [''tag'', ''name'', ''_ackwrap_chain''] [''network'', ''udp'']"
    by code_simp+
  have pre: "map_of n3 k = map_of (mapMihomoUDPFlagToSingboxNetwork g ?n0) k" if "k \<in> set [''tag'', ''name'', ''udp'', ''_ackwrap_chain'']" for k
    using l(1) [OF that] keepsD [OF fingerprint_frame [OF n2] that w(1)] keepsD [OF ensure_tls_frame that w(2)] by simp
  have base: "map_of n3 k = map_of ?n0 k" if "k \<in> set [''tag'', ''name'', ''_ackwrap_chain'']" for k
  proof -
    from that have "k \<in> set [''tag'', ''name'', ''udp'', ''_ackwrap_chain'']" by auto
    from trans [OF pre [OF this] keepsD [OF udp_frame that w(3)]] show ?thesis .
  qed
  have tag: "map_of n3 ''tag'' = Some (VStr tag)" and nm: "map_of n3 ''name'' = None" and ch: "map_of n3 ''_ackwrap_chain'' = None"
    using base [of "''tag''"] base [of "''name''"] base [of "''_ackwrap_chain''"] by (simp_all add: NodeChainMetadataKey_def)
  have udp: "map_of n3 ''udp'' = None" using pre [of "''udp''"] udp_gone [of g ?n0] by (simp add: has_key_def)
  have tls: "tls_on n3" if t: "?t \<in> set tls_required"
  proof -
    from t have "?t \<noteq> ''shadowsocks''" by (auto simp: tls_required_def)
    from l(4) [OF this] ensure_tls_on [OF t] reality_keeps_tls show ?thesis unfolding tls_on_def map_get_def by metis
  qed
  have res: "map_of outbound k = map_of n3 k" if "k \<noteq> ''domain_resolver''" for k
    using that by (simp add: out applyDomainResolverBinding_def)
  show ?thesis
    using sup tag nm ch udp tls l(2,3) res
    by (simp add: has_key_def map_get_def NodeChainMetadataKey_def tls_on_def) (simp add: out applyDomainResolverBinding_def)
qed

definition sample_node :: Node where
  "sample_node = \<lparr>UID = ''n1'', SubscriptionID = 1, Name = ''t'', node_type = ''trojan'',
     RawJSON = Object [(''type'', VStr ''trojan''), (''name'', VStr ''t''), (''server'', VStr ''a.example''), (''udp'', VBool True),
       (''network'', VStr ''ws''), (''ws-opts'', VMap [(''path'', VStr ''/x'')]), (''cipher'', VStr ''auto''), (''reality-opts'', VMap [(''public-key'', VStr ''k'')])]\<rparr>"

definition sample_outbound :: gomap where
  "sample_outbound = (case generateNodeOutbound (\<lambda>_. []) as_string sample_node ''t-n1'' [(''server'', VStr ''local'')] of Inr m \<Rightarrow> m | Inl _ \<Rightarrow> [])"

theorem node_outbound_shape_witness:
  "map_get sample_outbound ''tag'' = VStr ''t-n1'' \<and> \<not> has_key sample_outbound ''udp'' \<and>
   map_get sample_outbound ''domain_resolver'' = VMap [(''server'', VStr ''local'')]"
proof -
  have "generateNodeOutbound (\<lambda>_. []) as_string sample_node ''t-n1'' [(''server'', VStr ''local'')] = Inr sample_outbound"
    by code_simp
  from node_outbound_shape [OF this] show ?thesis by blast
qed

section \<open>Shadowsocks plugins stay canonical\<close>

text \<open>The plugin part of a node: absent, or a bundled plugin whose option string is canonical.\<close>

definition plugin_canonical :: "gomap \<Rightarrow> bool" where
  "plugin_canonical m \<longleftrightarrow>
     \<not> has_key m ''plugin'' \<and> \<not> has_key m ''plugin_opts'' \<or>
     (\<exists>p. map_get m ''plugin'' = VStr p \<and> p \<in> {''obfs-local'', ''v2ray-plugin''} \<and>
        NormalizeShadowsocksSIP003Plugin p (VStr (as_string (map_get m ''plugin_opts''))) = Inr (p, as_string (map_get m ''plugin_opts'')))"

lemma normalized_name:
  assumes "NormalizeShadowsocksSIP003Plugin plugin raw = Inr (p, opts)"
  shows "p = [] \<or> p = ''obfs-local'' \<or> p = ''v2ray-plugin''"
  using assms unfolding NormalizeShadowsocksSIP003Plugin_def Let_def
  by (auto simp: go_result split: if_split_asm sum.split_asm)

lemma put_plugin_canonical:
  assumes "NormalizeShadowsocksSIP003Plugin plugin raw = Inr (p, opts)" "p \<noteq> []"
  shows "plugin_canonical (put_plugin p opts m)"
proof -
  have "as_string (map_get (put_plugin p opts m) ''plugin_opts'') = opts" "map_get (put_plugin p opts m) ''plugin'' = VStr p"
    by (simp_all add: put_plugin_def Let_def)
  with normalize_plugin_again [OF assms(1)] normalized_name [OF assms(1)] assms(2) show ?thesis
    unfolding plugin_canonical_def by auto
qed

lemma v2ray_nonempty: "NormalizeShadowsocksSIP003Plugin ''v2ray-plugin'' raw = Inr (p, opts) \<Longrightarrow> p \<noteq> []"
proof -
  have l: "ToLower (TrimSpace ''v2ray-plugin'') = ''v2ray-plugin''" by code_simp
  show "NormalizeShadowsocksSIP003Plugin ''v2ray-plugin'' raw = Inr (p, opts) \<Longrightarrow> p \<noteq> []"
    unfolding NormalizeShadowsocksSIP003Plugin_def l Let_def by (auto simp: go_result split: sum.split_asm if_split_asm)
qed

lemma delete_plugin_canonical: "plugin_canonical (delete_keys [''plugin'', ''plugin_opts''] m)"
  by (simp add: plugin_canonical_def has_key_def map_of_delete_keys)

lemma ss_plain_canonical: "ss_plain_plugin p m = Inr n \<Longrightarrow> plugin_canonical n \<and> legacyShadowsocksTLSField m = None"
  unfolding ss_plain_plugin_def normalized_plugin_def
  by (auto split: option.split_asm sum.split_asm if_split_asm intro: put_plugin_canonical delete_plugin_canonical)

text \<open>Normalising the plugin of a Shadowsocks node never drops a security setting and leaves a
  plugin the core accepts: on success the plugin is absent or one of the bundled ones with an option
  string that normalises to itself; a plugin other than v2ray-plugin is accepted only when the node
  has no TLS field at all, and a node with an option string for v2ray-plugin only when it has none.\<close>

theorem ss_plugin_safe:
  assumes "normalizeLegacyShadowsocksPlugin g nodeData = Inr n"
  shows "plugin_canonical n \<and>
    ((ToLower (firstStringValue g nodeData [''plugin'']) \<notin> {[], ''v2ray-plugin''} \<or> as_string (map_get nodeData ''plugin_opts'') \<noteq> []) \<longrightarrow>
       legacyShadowsocksTLSField nodeData = None)"
proof -
  let ?p = "ToLower (firstStringValue g nodeData [''plugin''])" and ?o = "as_string (map_get nodeData ''plugin_opts'')"
  have "(\<exists>p. ss_plain_plugin p nodeData = Inr n) \<or> (\<exists>l. ss_existing_plugin g ''v2ray-plugin'' l ?o nodeData = Inr n) \<or>
      (\<exists>nw po. ss_migrate_v2ray g nw po nodeData = Inr n) \<and> ?p \<in> {[], ''v2ray-plugin''} \<and> ?o = []"
    using assms unfolding normalizeLegacyShadowsocksPlugin_def Let_def by (simp split: if_split_asm del: firstStringValue.simps) blast+
  then show ?thesis
  proof (elim disjE exE conjE)
    fix l
    assume "ss_existing_plugin g ''v2ray-plugin'' l ?o nodeData = Inr n"
    then obtain p opts where "NormalizeShadowsocksSIP003Plugin ''v2ray-plugin'' (VStr ?o) = Inr (p, opts)" "n = put_plugin p opts nodeData"
      and "legacyShadowsocksTLSField nodeData = None"
      unfolding ss_existing_plugin_def normalized_plugin_def
      by (auto simp del: firstStringValue.simps split: option.split_asm sum.split_asm if_split_asm)
    then show ?thesis using put_plugin_canonical v2ray_nonempty by blast
  next
    fix nw po
    assume m: "ss_migrate_v2ray g nw po nodeData = Inr n" and p: "?p \<in> {[], ''v2ray-plugin''}" and o: "?o = []"
    from m obtain raw q o' n3 where "NormalizeShadowsocksSIP003Plugin ''v2ray-plugin'' raw = Inr (q, o')" "n = put_plugin q o' n3"
      by (rule ss_migrate_cases) blast
    then have "plugin_canonical n" using put_plugin_canonical v2ray_nonempty by blast
    with p o show ?thesis by simp
  qed (use ss_plain_canonical in blast)
qed

theorem ss_plugin_safe_witness:
  "plugin_canonical [(''server'', VStr ''a''), (''plugin'', VStr ''v2ray-plugin''), (''plugin_opts'', VStr ''host=h.example;mode=websocket;path=/w;tls'')]"
proof -
  have "normalizeLegacyShadowsocksPlugin (\<lambda>_. []) [(''server'', VStr ''a''), (''network'', VStr ''ws''), (''tls'', VBool True),
      (''ws-opts'', VMap [(''path'', VStr ''/w''), (''headers'', VMap [(''Host'', VStr ''h.example'')])])] =
    Inr [(''server'', VStr ''a''), (''plugin'', VStr ''v2ray-plugin''), (''plugin_opts'', VStr ''host=h.example;mode=websocket;path=/w;tls'')]"
    by code_simp
  from ss_plugin_safe [OF this] show ?thesis by blast
qed

section \<open>Certificate pins\<close>

definition pin_ok :: "string \<Rightarrow> bool" where
  "pin_ok p \<longleftrightarrow> length p = 64 \<and> list_all is_hex p"

lemma sha_pin: "normalizeSHA256HexString s = Some p \<Longrightarrow> pin_ok p"
  by (auto simp: normalizeSHA256HexString_def pin_ok_def Let_def split: if_split_asm)

lemma all_some_set: "all_some xs = Some ys \<Longrightarrow> set xs = Some ` set ys"
  by (induction xs arbitrary: ys) (auto split: option.split_asm)

lemma sha_values: "normalizeSHA256HexValues v = Some ps \<Longrightarrow> \<forall>p\<in>set ps. pin_ok p"
proof -
  assume "normalizeSHA256HexValues v = Some ps"
  then obtain ss where "all_some (map normalizeSHA256HexString ss) = Some ps"
    by (auto simp: normalizeSHA256HexValues_def Let_def split: option.split_asm if_split_asm)
  from all_some_set [OF this] show ?thesis using sha_pin by (metis (no_types, lifting) image_eqI image_iff list.set_map)
qed

lemma merge_pins:
  assumes "mergeCertificateSHA256Pins tls pins = Inr t"
  obtains ps where "map_get t ''certificate_sha256'' = VStrList ps" "set pins \<subseteq> set ps"
    "\<forall>p\<in>set ps. pin_ok p \<or> p \<in> set pins" "\<And>k. k \<noteq> ''certificate_sha256'' \<Longrightarrow> map_of t k = map_of tls k"
    "\<And>old. has_key tls ''certificate_sha256'' \<Longrightarrow> normalizeSHA256HexValues (map_get tls ''certificate_sha256'') = Some old \<Longrightarrow> set old \<subseteq> set ps"
proof -
  from assms obtain ex where ex: "t = map_put ''certificate_sha256'' (VStrList (uniq_from ex pins)) tls"
    "(case map_of tls ''certificate_sha256'' of None \<Rightarrow> Inr [] | Some v \<Rightarrow>
        (case normalizeSHA256HexValues v of None \<Rightarrow> Inl CertificatePinsUnknown | Some ps \<Rightarrow> Inr ps)) = Inr ex"
    by (auto simp: mergeCertificateSHA256Pins_def go_result)
  have "\<forall>p\<in>set ex. pin_ok p" using ex(2) sha_values by (auto split: option.split_asm)
  with ex show ?thesis
    by (intro that [of "uniq_from ex pins"]) (auto simp: map_get_def has_key_def split: option.split_asm)
qed


lemma fingerprint_pin:
  assumes "migrate_fingerprint tls = Inr t" "as_map (map_get tls ''utls'') = Some utls"
    and "as_string (map_get utls ''fingerprint'') \<noteq> []" "\<not> isSingboxUTLSFingerprint (as_string (map_get utls ''fingerprint''))"
  obtains pin ps where "normalizeSHA256HexString (as_string (map_get utls ''fingerprint'')) = Some pin"
    "map_get t ''certificate_sha256'' = VStrList ps" "pin \<in> set ps" "\<forall>p\<in>set ps. pin_ok p"
proof -
  from assms obtain pin t1 where pin: "normalizeSHA256HexString (as_string (map_get utls ''fingerprint'')) = Some pin"
    and t1: "mergeCertificateSHA256Pins tls [pin] = Inr t1" and t: "map_get t ''certificate_sha256'' = map_get t1 ''certificate_sha256''"
    by (auto simp: migrate_fingerprint_def Let_def go_result split: option.split_asm if_split_asm)
  from t1 obtain ps where "map_get t1 ''certificate_sha256'' = VStrList ps" "set [pin] \<subseteq> set ps" "\<forall>p\<in>set ps. pin_ok p \<or> p \<in> set [pin]"
    by (rule merge_pins) blast
  with pin t sha_pin [OF pin] that show ?thesis by auto
qed

lemma legacy_pins_keep: "migrate_legacy_pins tls = Inr t \<Longrightarrow> map_of t ''utls'' = map_of tls ''utls''"
  by (auto simp: migrate_legacy_pins_def mergeCertificateSHA256Pins_def go_result split: option.split_asm)

text \<open>A certificate pin is never lost or mistaken for a browser fingerprint: when an old node
  carries a value in utls.fingerprint that is no browser name, mapping its TLS fields either fails
  or moves it, as 64 hexadecimal digits, into certificate_sha256, and every pin there is well formed.\<close>

theorem certificate_pin_kept:
  assumes "mapTLSFingerprintFields nodeData = Inr n"
    and "map_get nodeData ''tls'' = VMap tls" and "map_get tls ''utls'' = VMap utls"
    and "map_get utls ''fingerprint'' = VStr fingerprint" and "fingerprint \<noteq> []" and "\<not> isSingboxUTLSFingerprint fingerprint"
  shows "\<exists>pin tls' ps. normalizeSHA256HexString fingerprint = Some pin \<and> map_get n ''tls'' = VMap tls' \<and>
    map_get tls' ''certificate_sha256'' = VStrList ps \<and> pin \<in> set ps \<and> (\<forall>p\<in>set ps. pin_ok p)"
proof -
  obtain n1 t2 where top: "tls_top_fields nodeData tls = (n1, t2)" by fastforce
  with assms(1,2) obtain t3 t4 where t3: "migrate_legacy_pins t2 = Inr t3" and t4: "migrate_fingerprint t3 = Inr t4"
    and n: "map_get n ''tls'' = VMap t4"
    by (auto simp: mapTLSFingerprintFields_def go_result)
  have t2: "map_of t2 ''utls'' = map_of tls ''utls''" using top_fields_frame [OF top] by (simp add: keeps_def)
  have "as_map (map_get t3 ''utls'') = Some utls" using t2 legacy_pins_keep [OF t3] assms(3) by (simp add: map_get_def)
  from fingerprint_pin [OF t4 this] assms(4-6) n show ?thesis by (metis as_string.simps(1))
qed

definition sample_pin :: string where
  "sample_pin = concat (replicate 32 ''ab'')"

theorem certificate_pin_kept_witness:
  "\<exists>pin tls' ps. normalizeSHA256HexString sample_pin = Some pin \<and>
     map_get [(''tls'', VMap [(''enabled'', VBool True), (''certificate_sha256'', VStrList [sample_pin])])] ''tls'' = VMap tls' \<and>
     map_get tls' ''certificate_sha256'' = VStrList ps \<and> pin \<in> set ps \<and> (\<forall>p\<in>set ps. pin_ok p)"
proof -
  let ?utls = "[(''enabled'', VBool True), (''fingerprint'', VStr sample_pin)]"
  let ?tls = "[(''enabled'', VBool True), (''utls'', VMap ?utls)]"
  have "mapTLSFingerprintFields [(''tls'', VMap ?tls)] =
      Inr [(''tls'', VMap [(''enabled'', VBool True), (''certificate_sha256'', VStrList [sample_pin])])]" by code_simp
  moreover have "sample_pin \<noteq> []" "\<not> isSingboxUTLSFingerprint sample_pin" by code_simp+
  ultimately show ?thesis
    by (intro certificate_pin_kept [of "[(''tls'', VMap ?tls)]" _ ?tls ?utls]) (simp_all add: map_get_def)
qed

section \<open>WireGuard endpoints\<close>

definition dialable :: "gomap \<Rightarrow> bool" where
  "dialable m \<longleftrightarrow> (\<exists>a p. a \<noteq> [] \<and> map_get m ''address'' = VStr a \<and> map_get m ''port'' = VInt p \<and> 1 \<le> p \<and> p \<le> 65535)"

definition keyed :: "gomap \<Rightarrow> bool" where
  "keyed m \<longleftrightarrow> (\<exists>k. k \<noteq> [] \<and> map_get m ''public_key'' = VStr k)"

lemma wireguard_peer_ok:
  assumes "wireguard_peer g i v = Inr (m, d)"
  shows "keyed m" "d \<Longrightarrow> dialable m" "\<not> d \<Longrightarrow> configStringValue g (map_get m ''address'') = []"
proof -
  from assms obtain peer where v: "v = VMap peer" by (cases v) (simp_all add: wireguard_peer_def)
  define address where "address = firstStringValue g peer [''address'', ''server'']"
  define port where "port = intValue (firstExistingValue peer [''port'', ''server_port''])"
  define key where "key = firstStringValue g peer [''public_key'', ''public-key'']"
  let ?p1 = "if address \<noteq> [] then map_put ''port'' (VInt port) (map_put ''address'' (VStr address) peer) else peer"
  have ok: "key \<noteq> []" "(address = []) = (port = 0)" "0 \<le> port" "port \<le> 65535"
    "m = delete_keys [''server'', ''server_port'', ''public-key''] (map_put ''public_key'' (VStr key) ?p1)" "d = (address \<noteq> [])"
    using assms unfolding wireguard_peer_def v as_map.simps option.case Let_def address_def [symmetric] port_def [symmetric] key_def [symmetric]
    by (auto split: if_split_asm)
  have get: "map_of m k = map_of (map_put ''public_key'' (VStr key) ?p1) k" if "k \<in> {''public_key'', ''address'', ''port''}" for k
    using that by (auto simp: ok(5) map_of_delete_keys)
  show "keyed m" using get [of "''public_key''"] ok(1) by (simp add: keyed_def map_get_def)
  show "dialable m" if d using that get [of "''address''"] get [of "''port''"] ok by (auto simp: dialable_def map_get_def)
  show "configStringValue g (map_get m ''address'') = []" if "\<not> d"
    using that get [of "''address''"] ok(6) by (auto simp: map_get_def address_def Let_def split: if_split_asm)
qed

lemma wireguard_peers_ok:
  "wireguard_peers g i vs = Inr ps \<Longrightarrow> length ps = length vs \<and>
     (\<forall>(m, d)\<in>set ps. keyed m \<and> (d \<longrightarrow> dialable m) \<and> (\<not> d \<longrightarrow> configStringValue g (map_get m ''address'') = []))"
proof (induction vs arbitrary: i ps)
  case Nil
  then show ?case by simp
next
  case (Cons v vs)
  then obtain m d qs where "wireguard_peer g i v = Inr (m, d)" "wireguard_peers g (i + 1) vs = Inr qs" "ps = (m, d) # qs"
    by (auto simp: go_result)
  with Cons.IH wireguard_peer_ok [of g i v m d] show ?case by auto
qed

definition peers_ok :: "(rat \<Rightarrow> string) \<Rightarrow> gomap \<Rightarrow> bool" where
  "peers_ok g e \<longleftrightarrow> (\<exists>ms. map_get e ''peers'' = VList (map VMap ms) \<and> (\<exists>m\<in>set ms. dialable m) \<and>
     (\<forall>m\<in>set ms. keyed m \<and> (dialable m \<or> configStringValue g (map_get m ''address'') = [])))"

lemma normalized_peers_ok:
  assumes "normalizeWireGuardEndpointPeers g raw = Inr peers" "map_get e ''peers'' = VList peers"
  shows "peers_ok g e"
proof -
  from assms(1) obtain vs ps where ps: "wireguard_peers g 0 vs = Inr ps" "list_ex snd ps" "peers = map (\<lambda>p. VMap (fst p)) ps"
    by (auto simp: normalizeWireGuardEndpointPeers_def go_result split: option.split_asm if_split_asm)
  note ok = wireguard_peers_ok [OF ps(1)]
  have "map_get e ''peers'' = VList (map VMap (map fst ps))" using assms(2) ps(3) by simp
  moreover have "\<exists>m\<in>set (map fst ps). dialable m"
  proof -
    from ps(2) obtain p where "p \<in> set ps" "snd p" by (auto simp: list_ex_iff)
    with ok show ?thesis by (intro bexI [of _ "fst p"]) (auto simp: split_beta)
  qed
  moreover from ok have "\<forall>m\<in>set (map fst ps). keyed m \<and> (dialable m \<or> configStringValue g (map_get m ''address'') = [])"
    by (auto simp: split_beta)
  ultimately show ?thesis unfolding peers_ok_def by blast
qed

lemma copy_keys_frame: "k \<notin> set ks \<Longrightarrow> map_of (copy_keys ks s t) k = map_of t k"
  unfolding copy_keys_def by (induction ks arbitrary: t) (auto split: option.splits)

lemma endpoint_options_frame:
  assumes "k \<in> set [''type'', ''tag'', ''peers'']"
  shows "map_of (copyWireGuardEndpointOptions g s e) k = map_of e k"
proof -
  have "apart [''type'', ''tag'', ''peers''] (''system'' # ''name'' # wireguard_options)" by code_simp
  then have "k \<notin> set (''system'' # ''name'' # wireguard_options)" using assms by (auto simp: apart_def list_all_iff)
  then show ?thesis
    by (auto simp: copyWireGuardEndpointOptions_def put_nonempty_def copy_keys_frame Let_def split: option.splits)
qed

lemma single_peer_ok:
  assumes "server \<noteq> []" "1 \<le> port" "port \<le> 65535" "key \<noteq> []"
  shows "dialable (wireguard_single_peer g nd server port key)" "keyed (wireguard_single_peer g nd server port key)"
proof -
  let ?p0 = "[(''address'', VStr server), (''port'', VInt port), (''public_key'', VStr key), (''allowed_ips'', VStrList [''0.0.0.0/0'', ''::/0''])]"
  have "keeps [''allowed_ips'', ''pre_shared_key'', ''reserved'', ''persistent_keepalive_interval''] ?p0 (wireguard_single_peer g nd server port key)"
    unfolding wireguard_single_peer_def Let_def
    by (auto intro!: frame simp del: firstStringValue.simps firstExistingValue.simps map_put.simps split: option.splits list.splits)
  moreover have "apart [''address'', ''port'', ''public_key''] [''allowed_ips'', ''pre_shared_key'', ''reserved'', ''persistent_keepalive_interval'']"
    by code_simp
  ultimately have "map_of (wireguard_single_peer g nd server port key) k = map_of ?p0 k" if "k \<in> set [''address'', ''port'', ''public_key'']" for k
    using that keepsD by blast
  from this [of "''address''"] this [of "''port''"] this [of "''public_key''"] assms
  show "dialable (wireguard_single_peer g nd server port key)" "keyed (wireguard_single_peer g nd server port key)"
    by (simp_all add: dialable_def keyed_def map_get_def)
qed

text \<open>C29. A generated WireGuard endpoint can be dialled: it has the assigned tag and type, every peer
  has a public key and either a complete address with a port from 1 to 65535 or no address at all,
  and at least one peer has an address.\<close>

theorem wireguard_endpoint_dialable:
  assumes "generateWireGuardEndpoint g version node tag resolver = Inr endpoint"
  shows "map_get endpoint ''type'' = VStr ''wireguard'' \<and> map_get endpoint ''tag'' = VStr tag \<and> peers_ok g endpoint"
proof -
  define good :: "gomap \<Rightarrow> bool" where
    "good = (\<lambda>e. map_get e ''type'' = VStr ''wireguard'' \<and> map_get e ''tag'' = VStr tag \<and> peers_ok g e)"
  have res: "good (applyDomainResolverBinding resolver e)" if "good e" for e
    using that by (simp add: good_def applyDomainResolverBinding_def peers_ok_def)
  have copy: "good (copyWireGuardEndpointOptions g nd (wireguard_base tag a pk ps))"
    if "peers_ok g (wireguard_base tag a pk ps)" for nd a pk ps
    using that endpoint_options_frame [of _ g nd "wireguard_base tag a pk ps"]
    by (simp add: good_def map_get_def peers_ok_def wireguard_base_def)
  have base: "map_get (wireguard_base tag a pk ps) ''peers'' = VList ps" for a pk ps by (simp add: wireguard_base_def map_get_def)
  have single: "peers_ok g (wireguard_base tag a pk [VMap m])" if "dialable m" "keyed m" for a pk m
    using that base [of a pk "[VMap m]"] unfolding peers_ok_def by (intro exI [of _ "[m]"]) simp
  from assms obtain nodeData e where nd: "wireguard_endpoint g tag nodeData = Inr e" and e: "endpoint = applyDomainResolverBinding resolver e"
    by (auto simp: generateWireGuardEndpoint_def Let_def go_result split: if_split_asm)
  define server where "server = firstStringValue g nodeData [''server'']"
  define port where "port = intValue (firstExistingValue nodeData [''server_port'', ''port''])"
  define key where "key = firstStringValue g nodeData [''peer_public_key'', ''public_key'', ''public-key'']"
  have "good e"
  proof (cases "map_of nodeData ''peers''")
    case None
    with nd have "server \<noteq> [] \<and> 1 \<le> port \<and> port \<le> 65535 \<and> key \<noteq> [] \<and>
      (\<exists>a pk. e = copyWireGuardEndpointOptions g nodeData (wireguard_base tag a pk [VMap (wireguard_single_peer g nodeData server port key)]))"
      unfolding wireguard_endpoint_def Let_def server_def [symmetric] port_def [symmetric] key_def [symmetric]
      by (auto simp: has_key_def simp del: firstStringValue.simps firstExistingValue.simps split: if_split_asm)
    then obtain a pk where ok: "server \<noteq> []" "1 \<le> port" "port \<le> 65535" "key \<noteq> []"
      and e: "e = copyWireGuardEndpointOptions g nodeData (wireguard_base tag a pk [VMap (wireguard_single_peer g nodeData server port key)])"
      by (elim conjE exE)
    show ?thesis unfolding e by (rule copy [OF single [OF single_peer_ok [OF ok]]])
  next
    case (Some raw)
    with nd obtain peers a pk where p: "normalizeWireGuardEndpointPeers g raw = Inr peers"
      and "e = map_put ''peers'' (VList peers) (map_put ''tag'' (VStr tag) (map_put ''type'' (VStr ''wireguard'') nodeData)) \<or>
        e = copyWireGuardEndpointOptions g nodeData (wireguard_base tag a pk peers)"
      unfolding wireguard_endpoint_def Let_def server_def [symmetric] port_def [symmetric] key_def [symmetric]
      by (auto simp: go_result simp del: firstStringValue.simps firstExistingValue.simps split: if_split_asm)
    then show ?thesis
    proof (elim disjE)
      assume "e = map_put ''peers'' (VList peers) (map_put ''tag'' (VStr tag) (map_put ''type'' (VStr ''wireguard'') nodeData))"
      with normalized_peers_ok [OF p, of e] show ?thesis by (simp add: good_def)
    next
      assume "e = copyWireGuardEndpointOptions g nodeData (wireguard_base tag a pk peers)"
      with copy [OF normalized_peers_ok [OF p base]] show ?thesis by simp
    qed
  qed
  with res e have "good endpoint" by simp
  then show ?thesis by (simp add: good_def)
qed


theorem wireguard_endpoint_dialable_witness:
  "peers_ok (\<lambda>_. []) [(''type'', VStr ''wireguard''), (''tag'', VStr ''wg''), (''address'', VStrList [''10.0.0.2/32'']), (''private_key'', VStr ''p''),
     (''peers'', VList [VMap [(''address'', VStr ''a.example''), (''port'', VInt 51820), (''public_key'', VStr ''k''), (''allowed_ips'', VStrList [''0.0.0.0/0'', ''::/0''])]])]"
proof -
  have "generateWireGuardEndpoint (\<lambda>_. []) ''1.14.2'' \<lparr>UID = ''u'', SubscriptionID = 1, Name = ''w'', node_type = ''wireguard'', RawJSON = Object
      [(''server'', VStr ''a.example''), (''port'', VFloat 51820), (''address'', VStr ''10.0.0.2/32''), (''private-key'', VStr ''p''), (''public-key'', VStr ''k''), (''on_demand'', VBool False)]\<rparr> ''wg'' [] =
    Inr [(''type'', VStr ''wireguard''), (''tag'', VStr ''wg''), (''address'', VStrList [''10.0.0.2/32'']), (''private_key'', VStr ''p''),
     (''peers'', VList [VMap [(''address'', VStr ''a.example''), (''port'', VInt 51820), (''public_key'', VStr ''k''), (''allowed_ips'', VStrList [''0.0.0.0/0'', ''::/0''])]])]"
    by code_simp
  from wireguard_endpoint_dialable [OF this] show ?thesis by blast
qed

section \<open>Numbers as credentials\<close>

text \<open>
  A numeric credential reaches the core as printed by \<^verbatim>\<open>%g\<close>: below a million as its digits,
  from a million on in exponent form.
\<close>

lemma length_show_nat: "n < 10 ^ Suc k \<Longrightarrow> length (show_nat n) \<le> Suc k"
proof (induction k arbitrary: n)
  case 0
  then show ?case by (subst show_nat.simps) simp
next
  case (Suc k)
  then have "n div 10 < 10 ^ Suc k" by (simp add: less_mult_imp_div_less)
  with Suc.IH show ?case by (subst show_nat.simps) fastforce
qed

lemma numeric_credential_small:
  assumes "n < 1000000"
  shows "configStringValue g (VFloat (of_nat n)) = show_nat n"
proof -
  from assms have "length (show_nat n) \<le> 6" using length_show_nat [of n 5] by simp
  moreover from assms have "int n < 10 ^ 15" by simp
  moreover from calculation have "length (show_nat n) - 1 < 6" by linarith
  ultimately show ?thesis by (simp add: configStringValue_def float_g_def nat_g_def Let_def)
qed

lemma numeric_credential_large: "configStringValue g (VFloat 1234567) = ''1.234567e+06''"
  by code_simp

end
