(* ===== verification/Node_Identity.thy ===== *)
theory Node_Identity
  imports Node_Outbound
begin

text \<open>
  The connection identity of subscription nodes: \<^verbatim>\<open>nodeidentity/identity.go\<close>, the chain metadata of
  \<^verbatim>\<open>model/node_chain.go\<close> with its JSON decoding, and the UIDs that \<^verbatim>\<open>store/node.go\<close> gives the nodes of a
  subscription.  \<open>StableUID\<close> is shown to ignore names and everything outside the connection
  whitelist, and to separate different connections up to collisions of the digest.
\<close>

section \<open>Proxy chain metadata\<close>

record NodeChainGroup =
  ID :: string
  group_name :: string
  group_type :: string
  Outbounds :: "string list"
  Default :: string
  URL :: string
  Interval :: string
  Tolerance :: int
  IdleTimeout :: string
  InterruptExistConnections :: bool

record NodeChain =
  Detour :: string
  Identity :: string
  Groups :: "NodeChainGroup list"

definition NodeChainNodePrefix :: string where
  "NodeChainNodePrefix = ''node:''"

definition NodeChainGroupPrefix :: string where
  "NodeChainGroupPrefix = ''group:''"

definition NodeChainDirect :: string where
  "NodeChainDirect = ''direct''"

text \<open>
  \<^verbatim>\<open>strconv.FormatFloat(v, 'f', -1, 64)\<close>: the digits of the integer for an integral value below
  \<open>10 ^ 15\<close>; the digits of other values are left to the parameter \<open>ff\<close>.
\<close>

definition float_f :: "(rat \<Rightarrow> string) \<Rightarrow> rat \<Rightarrow> string" where
  "float_f ff r = (if of_int \<lfloor>r\<rfloor> = r \<and> \<bar>\<lfloor>r\<rfloor>\<bar> < 10 ^ 15 then show_int \<lfloor>r\<rfloor> else ff r)"

text \<open>
  \<^verbatim>\<open>encoding/json\<close> decoding of a generic JSON value into the fields of a Go struct.  Each decoder
  gets the value the field has already: \<^verbatim>\<open>null\<close> leaves it alone (and empties a slice), a value of
  another JSON type is an error, and the elements of an array are decoded into the elements the
  slice has already.  An object's keys arrive in byte order, because \<^verbatim>\<open>json.Marshal\<close> sorted them,
  and name a field without regard to case.  A number fits an \<^verbatim>\<open>int\<close> when its digits are those of a
  64-bit integer.
\<close>

fun decode_string :: "string \<Rightarrow> goval \<Rightarrow> string option" where
  "decode_string old VNil = Some old"
| "decode_string old (VStr s) = Some s"
| "decode_string old _ = None"

fun decode_bool :: "bool \<Rightarrow> goval \<Rightarrow> bool option" where
  "decode_bool old VNil = Some old"
| "decode_bool old (VBool b) = Some b"
| "decode_bool old _ = None"

fun decode_int :: "(rat \<Rightarrow> string) \<Rightarrow> int \<Rightarrow> goval \<Rightarrow> int option" where
  "decode_int ff old VNil = Some old"
| "decode_int ff old (VFloat r) = (case Atoi (float_f ff r) of (i, ok) \<Rightarrow> if ok then Some i else None)"
| "decode_int ff old _ = None"

fun decode_items :: "('a \<Rightarrow> goval \<Rightarrow> 'a option) \<Rightarrow> 'a \<Rightarrow> 'a list \<Rightarrow> goval list \<Rightarrow> 'a list option" where
  "decode_items f z olds [] = Some []"
| "decode_items f z olds (v # vs) =
     (case f (case olds of [] \<Rightarrow> z | x # _ \<Rightarrow> x) v of
        None \<Rightarrow> None
      | Some x \<Rightarrow> map_option ((#) x) (decode_items f z (tl olds) vs))"

fun decode_slice :: "('a \<Rightarrow> goval \<Rightarrow> 'a option) \<Rightarrow> 'a \<Rightarrow> 'a list \<Rightarrow> goval \<Rightarrow> 'a list option" where
  "decode_slice f z old VNil = Some []"
| "decode_slice f z old (VList vs) = decode_items f z old vs"
| "decode_slice f z old _ = None"

fun decode_pairs :: "('r \<Rightarrow> string \<Rightarrow> goval \<Rightarrow> 'r option) \<Rightarrow> 'r \<Rightarrow> gomap \<Rightarrow> 'r option" where
  "decode_pairs f r [] = Some r"
| "decode_pairs f r ((k, v) # m) = (case f r k v of None \<Rightarrow> None | Some r' \<Rightarrow> decode_pairs f r' m)"

fun decode_struct :: "('r \<Rightarrow> string \<Rightarrow> goval \<Rightarrow> 'r option) \<Rightarrow> 'r \<Rightarrow> goval \<Rightarrow> 'r option" where
  "decode_struct f r VNil = Some r"
| "decode_struct f r (VMap m) = decode_pairs f r (sort_key fst m)"
| "decode_struct f r _ = None"

definition group_field :: "(rat \<Rightarrow> string) \<Rightarrow> NodeChainGroup \<Rightarrow> string \<Rightarrow> goval \<Rightarrow> NodeChainGroup option" where
  "group_field ff g k v =
     (if EqualFold k ''id'' then map_option (\<lambda>s. g\<lparr>ID := s\<rparr>) (decode_string (ID g) v)
      else if EqualFold k ''name'' then map_option (\<lambda>s. g\<lparr>group_name := s\<rparr>) (decode_string (group_name g) v)
      else if EqualFold k ''type'' then map_option (\<lambda>s. g\<lparr>group_type := s\<rparr>) (decode_string (group_type g) v)
      else if EqualFold k ''outbounds''
      then map_option (\<lambda>s. g\<lparr>Outbounds := s\<rparr>) (decode_slice decode_string [] (Outbounds g) v)
      else if EqualFold k ''default'' then map_option (\<lambda>s. g\<lparr>Default := s\<rparr>) (decode_string (Default g) v)
      else if EqualFold k ''url'' then map_option (\<lambda>s. g\<lparr>URL := s\<rparr>) (decode_string (URL g) v)
      else if EqualFold k ''interval'' then map_option (\<lambda>s. g\<lparr>Interval := s\<rparr>) (decode_string (Interval g) v)
      else if EqualFold k ''tolerance'' then map_option (\<lambda>i. g\<lparr>Tolerance := i\<rparr>) (decode_int ff (Tolerance g) v)
      else if EqualFold k ''idle_timeout''
      then map_option (\<lambda>s. g\<lparr>IdleTimeout := s\<rparr>) (decode_string (IdleTimeout g) v)
      else if EqualFold k ''interrupt_exist_connections''
      then map_option (\<lambda>b. g\<lparr>InterruptExistConnections := b\<rparr>) (decode_bool (InterruptExistConnections g) v)
      else Some g)"

definition empty_group :: NodeChainGroup where
  "empty_group = \<lparr>ID = [], group_name = [], group_type = [], Outbounds = [], Default = [], URL = [],
     Interval = [], Tolerance = 0, IdleTimeout = [], InterruptExistConnections = False\<rparr>"

definition chain_field :: "(rat \<Rightarrow> string) \<Rightarrow> NodeChain \<Rightarrow> string \<Rightarrow> goval \<Rightarrow> NodeChain option" where
  "chain_field ff c k v =
     (if EqualFold k ''detour'' then map_option (\<lambda>s. c\<lparr>Detour := s\<rparr>) (decode_string (Detour c) v)
      else if EqualFold k ''identity'' then map_option (\<lambda>s. c\<lparr>Identity := s\<rparr>) (decode_string (Identity c) v)
      else if EqualFold k ''groups''
      then map_option (\<lambda>s. c\<lparr>Groups := s\<rparr>)
             (decode_slice (decode_struct (group_field ff)) empty_group (Groups c) v)
      else Some c)"

text \<open>\<open>Inr None\<close>: the node is not chained; \<open>Inl\<close>: its metadata is not usable.\<close>

definition DecodeNodeChain :: "(rat \<Rightarrow> string) \<Rightarrow> gomap \<Rightarrow> unit + NodeChain option" where
  "DecodeNodeChain ff options =
     (case map_of options NodeChainMetadataKey of
        None \<Rightarrow> Inr None
      | Some v \<Rightarrow>
          (case decode_struct (chain_field ff) \<lparr>Detour = [], Identity = [], Groups = []\<rparr> v of
             None \<Rightarrow> Inl ()
           | Some chain \<Rightarrow> if Detour chain = [] \<or> Identity chain = [] then Inl () else Inr (Some chain)))"

section \<open>Connection identity of a parsed node\<close>

text \<open>A node read from a subscription; \<open>p_config\<close> is what \<^verbatim>\<open>json.Unmarshal\<close> reads from its \<^verbatim>\<open>RawJSON\<close>.\<close>

record ParsedNode =
  p_UID :: string
  p_Name :: string
  p_Type :: string
  p_Server :: string
  p_ServerPort :: int
  p_Raw :: string
  p_config :: config_data
  p_UnsupportedReason :: string

definition nodeString :: "(rat \<Rightarrow> string) \<Rightarrow> gomap \<Rightarrow> string \<Rightarrow> string" where
  "nodeString ff m key =
     (case map_get m key of VStr s \<Rightarrow> s | VFloat r \<Rightarrow> float_f ff r | VInt i \<Rightarrow> show_int i | _ \<Rightarrow> [])"

text \<open>\<^verbatim>\<open>strconv.Atoi\<close> leaves its best effort in the result on a range error, 0 on a syntax error.\<close>

definition nodeInt :: "gomap \<Rightarrow> string \<Rightarrow> int" where
  "nodeInt m key =
     (case map_get m key of VInt i \<Rightarrow> i | VFloat r \<Rightarrow> float_int r | VStr s \<Rightarrow> fst (Atoi s) | _ \<Rightarrow> 0)"

fun firstNodeString :: "string list \<Rightarrow> string" where
  "firstNodeString [] = []"
| "firstNodeString (v # vs) = (if v \<noteq> [] then v else firstNodeString vs)"

fun firstNodeInt :: "int list \<Rightarrow> int" where
  "firstNodeInt [] = 0"
| "firstNodeInt (v # vs) = (if v \<noteq> 0 then v else firstNodeInt vs)"

definition copyNodeIdentityString :: "(rat \<Rightarrow> string) \<Rightarrow> gomap \<Rightarrow> string list \<Rightarrow> gomap \<Rightarrow> gomap" where
  "copyNodeIdentityString ff src keys dst =
     (let s = firstNodeString (map (nodeString ff src) keys)
      in if s \<noteq> [] then map_put (hd keys) (VStr s) dst else dst)"

definition copyNodeIdentityInt :: "gomap \<Rightarrow> string list \<Rightarrow> gomap \<Rightarrow> gomap" where
  "copyNodeIdentityInt src keys dst =
     (let i = firstNodeInt (map (nodeInt src) keys)
      in if i \<noteq> 0 then map_put (hd keys) (VInt i) dst else dst)"

fun copyNodeIdentityValue :: "gomap \<Rightarrow> string \<Rightarrow> string list \<Rightarrow> gomap \<Rightarrow> gomap" where
  "copyNodeIdentityValue src target [] dst = dst"
| "copyNodeIdentityValue src target (k # ks) dst =
     (if map_get src k \<noteq> VNil then map_put target (map_get src k) dst
      else copyNodeIdentityValue src target ks dst)"

definition put_string :: "string \<Rightarrow> string \<Rightarrow> gomap \<Rightarrow> gomap" where
  "put_string k s m = (if s \<noteq> [] then map_put k (VStr s) m else m)"

definition put_bool :: "string \<Rightarrow> goval \<Rightarrow> gomap \<Rightarrow> gomap" where
  "put_bool k v m = (case v of VBool b \<Rightarrow> map_put k (VBool b) m | _ \<Rightarrow> m)"

definition nested_tls_identity :: "(rat \<Rightarrow> string) \<Rightarrow> gomap \<Rightarrow> gomap \<Rightarrow> gomap" where
  "nested_tls_identity ff tlsCfg tls =
     (let t1 = put_bool ''enabled'' (map_get tlsCfg ''enabled'') tls;
          t2 = put_string ''server_name''
                 (firstNodeString (map (nodeString ff tlsCfg) [''server_name'', ''servername'', ''sni''])) t1
      in case as_map (map_get tlsCfg ''utls'') of
           None \<Rightarrow> t2
         | Some utlsCfg \<Rightarrow> put_string ''fingerprint'' (nodeString ff utlsCfg ''fingerprint'') t2)"

definition nodeTLSIdentity :: "(rat \<Rightarrow> string) \<Rightarrow> gomap \<Rightarrow> gomap" where
  "nodeTLSIdentity ff cfg =
     (let t1 = put_bool ''enabled'' (map_get cfg ''tls'') [];
          t2 = (case as_map (map_get cfg ''tls'') of None \<Rightarrow> t1 | Some tlsCfg \<Rightarrow> nested_tls_identity ff tlsCfg t1);
          t3 = put_string ''server_name''
                 (firstNodeString (map (nodeString ff cfg) [''server_name'', ''servername'', ''sni''])) t2;
          t4 = put_string ''fingerprint''
                 (firstNodeString (map (nodeString ff cfg) [''client-fingerprint'', ''fingerprint'', ''fp''])) t3
      in if has_key cfg ''alpn'' then map_put ''alpn'' (map_get cfg ''alpn'') t4 else t4)"

definition headers_host :: "(rat \<Rightarrow> string) \<Rightarrow> gomap \<Rightarrow> gomap \<Rightarrow> gomap" where
  "headers_host ff opts transport =
     (case as_map (map_get opts ''headers'') of
        None \<Rightarrow> transport
      | Some headers \<Rightarrow>
          put_string ''host'' (firstNodeString (map (nodeString ff headers) [''Host'', ''host''])) transport)"

definition nodeTransportIdentity :: "(rat \<Rightarrow> string) \<Rightarrow> gomap \<Rightarrow> gomap" where
  "nodeTransportIdentity ff cfg =
     (let t1 = (case as_map (map_get cfg ''transport'') of
                  None \<Rightarrow> []
                | Some transportCfg \<Rightarrow>
                    headers_host ff transportCfg
                      (copyNodeIdentityString ff transportCfg [''path'']
                        (copyNodeIdentityString ff transportCfg [''type''] [])));
          t2 = put_string ''type'' (nodeString ff cfg ''network'') t1;
          t3 = (case as_map (map_get cfg ''ws-opts'') of
                  None \<Rightarrow> t2
                | Some wsOpts \<Rightarrow>
                    headers_host ff wsOpts
                      (copyNodeIdentityString ff wsOpts [''path''] (map_put ''type'' (VStr ''ws'') t2)));
          t4 = (case as_map (map_get cfg ''grpc-opts'') of
                  None \<Rightarrow> t3
                | Some grpcOpts \<Rightarrow>
                    copyNodeIdentityString ff grpcOpts [''grpc-service-name'', ''serviceName'', ''service-name'']
                      (map_put ''type'' (VStr ''grpc'') t3))
      in case as_map (map_get cfg ''h2-opts'') of
           None \<Rightarrow> t4
         | Some h2Opts \<Rightarrow>
             let t5 = copyNodeIdentityString ff h2Opts [''path''] (map_put ''type'' (VStr ''h2'') t4)
             in if has_key h2Opts ''host'' then map_put ''host'' (map_get h2Opts ''host'') t5 else t5)"

definition reality_fields :: "(rat \<Rightarrow> string) \<Rightarrow> gomap \<Rightarrow> gomap \<Rightarrow> gomap" where
  "reality_fields ff src =
     copyNodeIdentityString ff src [''spider-x'', ''spider_x'', ''spx''] \<circ>
     copyNodeIdentityString ff src [''short-id'', ''short_id'', ''sid''] \<circ>
     copyNodeIdentityString ff src [''public-key'', ''public_key'', ''pbk'']"

definition nodeRealityIdentity :: "(rat \<Rightarrow> string) \<Rightarrow> gomap \<Rightarrow> gomap" where
  "nodeRealityIdentity ff cfg =
     reality_fields ff cfg
       (case as_map (map_get cfg ''reality-opts'') of None \<Rightarrow> [] | Some opts \<Rightarrow> reality_fields ff opts [])"

definition identity_strings :: "string list list" where
  "identity_strings =
     [[''uuid'', ''id''], [''password''], [''cipher'', ''method'', ''security''], [''flow''], [''encryption''],
      [''username''], [''protocol''], [''obfs''], [''obfs-param''], [''psk''], [''private-key''], [''public-key''],
      [''preshared-key''], [''local-address'', ''address'']]"

definition wireguard_identity :: "(rat \<Rightarrow> string) \<Rightarrow> gomap \<Rightarrow> gomap \<Rightarrow> gomap" where
  "wireguard_identity ff cfg =
     copyNodeIdentityString ff cfg [''pre_shared_key'', ''pre_shared_key'', ''pre-shared-key'', ''preshared-key''] \<circ>
     copyNodeIdentityString ff cfg [''public_key'', ''public_key'', ''public-key'', ''peer_public_key''] \<circ>
     copyNodeIdentityValue cfg ''peers'' [''peers''] \<circ>
     copyNodeIdentityValue cfg ''address'' [''address'', ''local_address'', ''local-address''] \<circ>
     copyNodeIdentityValue cfg ''private_key'' [''private_key'', ''private-key'']"

definition ssh_identity :: "(rat \<Rightarrow> string) \<Rightarrow> gomap \<Rightarrow> gomap \<Rightarrow> gomap" where
  "ssh_identity ff cfg identity =
     (let user = firstNodeString [nodeString ff cfg ''username'', nodeString ff cfg ''user'', ''root''];
          i1 = map_put ''username'' (VStr user) identity;
          i2 = copyNodeIdentityValue cfg ''private_key'' [''private_key'', ''private-key''] i1;
          i3 = copyNodeIdentityString ff cfg [''private_key_path'', ''private-key-path''] i2;
          i4 = copyNodeIdentityString ff cfg [''private_key_passphrase'', ''private-key-passphrase''] i3;
          i5 = copyNodeIdentityValue cfg ''host_key'' [''host-key''] i4;
          i6 = copyNodeIdentityValue cfg ''host_key_algorithms'' [''host-key-algorithms''] i5;
          i7 = copyNodeIdentityString ff cfg [''client_version'', ''client-version''] i6;
          i8 = copyNodeIdentityValue cfg ''ssh_cipher'' [''cipher''] i7;
          i9 = copyNodeIdentityValue cfg ''mac'' [''mac''] i8
      in copyNodeIdentityValue cfg ''kex_algorithm'' [''kex_algorithm''] i9)"

definition put_section :: "string \<Rightarrow> gomap \<Rightarrow> gomap \<Rightarrow> gomap" where
  "put_section k sub m = (if sub \<noteq> [] then map_put k (VMap sub) m else m)"

definition nodeIdentityFields :: "(rat \<Rightarrow> string) \<Rightarrow> gomap \<Rightarrow> ParsedNode \<Rightarrow> gomap" where
  "nodeIdentityFields ff cfg node =
     (let nodeType = firstNodeString [p_Type node, nodeString ff cfg ''type''];
          i1 = [(''type'', VStr nodeType),
                (''server'', VStr (firstNodeString [p_Server node, nodeString ff cfg ''server''])),
                (''port'', VInt (firstNodeInt [p_ServerPort node, nodeInt cfg ''server_port'', nodeInt cfg ''port'']))];
          i2 = copyNodeIdentityInt cfg [''mtu''] (fold (copyNodeIdentityString ff cfg) identity_strings i1);
          i3 = (if nodeType = ''wireguard'' \<and> map_get cfg ''peers'' \<noteq> VNil then wireguard_identity ff cfg i2 else i2);
          i4 = (if nodeType = ''ssh'' then ssh_identity ff cfg i3 else i3);
          i5 = put_section ''tls'' (nodeTLSIdentity ff cfg) i4;
          i6 = put_section ''transport'' (nodeTransportIdentity ff cfg) i5;
          i7 = put_section ''reality'' (nodeRealityIdentity ff cfg) i6
      in case DecodeNodeChain ff cfg of
           Inr (Some chain) \<Rightarrow> map_put ''chain_detour'' (VStr (Identity chain)) i7
         | _ \<Rightarrow> i7)"

text \<open>
  The parameter \<open>digest\<close> stands for the first 16 hexadecimal digits of SHA-256 over the JSON text
  of the identity fields.
\<close>

definition identity_config :: "ParsedNode \<Rightarrow> gomap" where
  "identity_config node =
     (case p_config node of
        Object cfg \<Rightarrow> cfg
      | _ \<Rightarrow> [(''type'', VStr (p_Type node)), (''server'', VStr (p_Server node)), (''server_port'', VInt (p_ServerPort node))])"

definition StableUID :: "(rat \<Rightarrow> string) \<Rightarrow> (gomap \<Rightarrow> string) \<Rightarrow> ParsedNode \<Rightarrow> string" where
  "StableUID ff digest node = digest (nodeIdentityFields ff (identity_config node) node)"

section \<open>What the identity depends on\<close>

definition connection_keys :: "string list" where
  "connection_keys = concat identity_strings @
     [''type'', ''server'', ''server_port'', ''port'', ''mtu'', ''peers'', ''private_key'', ''local_address'',
      ''public_key'', ''peer_public_key'', ''pre_shared_key'', ''pre-shared-key'', ''user'', ''private_key_path'',
      ''private-key-path'', ''private_key_passphrase'', ''private-key-passphrase'', ''host-key'',
      ''host-key-algorithms'', ''client_version'', ''client-version'', ''mac'', ''kex_algorithm'', ''tls'', ''alpn'',
      ''server_name'', ''servername'', ''sni'', ''client-fingerprint'', ''fingerprint'', ''fp'', ''transport'',
      ''network'', ''ws-opts'', ''grpc-opts'', ''h2-opts'', ''reality-opts'', ''pbk'', ''short-id'', ''short_id'',
      ''sid'', ''spider-x'', ''spider_x'', ''spx'', NodeChainMetadataKey]"

definition agree_on :: "string list \<Rightarrow> gomap \<Rightarrow> gomap \<Rightarrow> bool" where
  "agree_on ks c c' \<longleftrightarrow> list_all (\<lambda>k. map_of c k = map_of c' k) ks"

lemma agree_on_append: "agree_on (xs @ ys) c c' \<longleftrightarrow> agree_on xs c c' \<and> agree_on ys c c'"
  by (simp add: agree_on_def)

lemma agree_on_subset: "agree_on ks c c' \<Longrightarrow> list_all (\<lambda>k. k \<in> set ks) ls \<Longrightarrow> agree_on ls c c'"
  by (auto simp: agree_on_def list_all_iff)

lemmas agree_reads = agree_on_def nodeString_def nodeInt_def map_get_def has_key_def

lemma copy_string_agree:
  "agree_on ks c c' \<Longrightarrow> copyNodeIdentityString ff c ks = copyNodeIdentityString ff c' ks"
proof -
  assume a: "agree_on ks c c'"
  have "nodeString ff c k = nodeString ff c' k" if "k \<in> set ks" for k
    using a that by (simp add: agree_reads list_all_iff)
  then have "map (nodeString ff c) ks = map (nodeString ff c') ks" by simp
  then show ?thesis unfolding copyNodeIdentityString_def by presburger
qed

lemma copy_value_agree:
  "agree_on ks c c' \<Longrightarrow> copyNodeIdentityValue c t ks = copyNodeIdentityValue c' t ks"
  by (rule ext, induction ks) (simp_all add: agree_reads)

lemma fold_strings_agree:
  "agree_on (concat kss) c c' \<Longrightarrow>
   fold (copyNodeIdentityString ff c) kss d = fold (copyNodeIdentityString ff c') kss d"
proof (induction kss arbitrary: d)
  case (Cons ks kss)
  then have "copyNodeIdentityString ff c ks = copyNodeIdentityString ff c' ks" "agree_on (concat kss) c c'"
    by (simp_all add: agree_on_append copy_string_agree)
  with Cons.IH show ?case by simp
qed simp

lemma tls_agree:
  "agree_on [''tls'', ''server_name'', ''servername'', ''sni'', ''client-fingerprint'', ''fingerprint'', ''fp'', ''alpn''] c c' \<Longrightarrow>
   nodeTLSIdentity ff c = nodeTLSIdentity ff c'"
  by (simp add: nodeTLSIdentity_def agree_reads Let_def del: firstNodeString.simps cong: if_cong option.case_cong)

lemma transport_agree:
  "agree_on [''transport'', ''network'', ''ws-opts'', ''grpc-opts'', ''h2-opts''] c c' \<Longrightarrow>
   nodeTransportIdentity ff c = nodeTransportIdentity ff c'"
  by (simp add: nodeTransportIdentity_def agree_reads)

lemma reality_agree:
  assumes "agree_on ([''reality-opts''] @ concat [[''public-key'', ''public_key'', ''pbk''], [''short-id'', ''short_id'', ''sid''],
     [''spider-x'', ''spider_x'', ''spx'']]) c c'"
  shows "nodeRealityIdentity ff c = nodeRealityIdentity ff c'"
proof -
  have "reality_fields ff c d = reality_fields ff c' d" for d
    using fold_strings_agree [of "[[''public-key'', ''public_key'', ''pbk''], [''short-id'', ''short_id'', ''sid''],
     [''spider-x'', ''spider_x'', ''spx'']]" c c' ff d] assms unfolding agree_on_append
    by (simp add: reality_fields_def)
  moreover have "map_get c ''reality-opts'' = map_get c' ''reality-opts''"
    using assms unfolding agree_on_append by (simp add: agree_reads)
  ultimately show ?thesis by (simp add: nodeRealityIdentity_def)
qed

lemma wireguard_agree:
  assumes "agree_on [''private_key'', ''private-key'', ''address'', ''local_address'', ''local-address'', ''peers'',
     ''public_key'', ''public-key'', ''peer_public_key'', ''pre_shared_key'', ''pre-shared-key'', ''preshared-key''] c c'"
  shows "wireguard_identity ff c = wireguard_identity ff c'"
proof -
  note sub = agree_on_subset [OF assms]
  show ?thesis unfolding wireguard_identity_def
    by (intro arg_cong2 [where f = "(\<circ>)"] copy_string_agree copy_value_agree sub) (simp_all del: One_nat_def)
qed

lemma ssh_agree:
  assumes "agree_on [''username'', ''user'', ''private_key'', ''private-key'', ''private_key_path'', ''private-key-path'',
     ''private_key_passphrase'', ''private-key-passphrase'', ''host-key'', ''host-key-algorithms'', ''client_version'',
     ''client-version'', ''cipher'', ''mac'', ''kex_algorithm''] c c'"
  shows "ssh_identity ff c = ssh_identity ff c'"
  proof -
  note sub = agree_on_subset [OF assms]
  have "nodeString ff c ''username'' = nodeString ff c' ''username''" "nodeString ff c ''user'' = nodeString ff c' ''user''"
    using assms by (simp_all add: agree_reads)
  moreover have "copyNodeIdentityString ff c ks = copyNodeIdentityString ff c' ks"
    if "ks \<in> set [[''private_key_path'', ''private-key-path''], [''private_key_passphrase'', ''private-key-passphrase''],
      [''client_version'', ''client-version'']]" for ks
    using that by (intro copy_string_agree sub) auto
  moreover have "copyNodeIdentityValue c t ks = copyNodeIdentityValue c' t ks"
    if "ks \<in> set [[''private_key'', ''private-key''], [''host-key''], [''host-key-algorithms''], [''cipher''], [''mac''],
      [''kex_algorithm'']]" for t ks
    using that by (intro copy_value_agree sub) auto
  ultimately show ?thesis unfolding ssh_identity_def by simp
qed

lemma identity_fields_agree:
  assumes "agree_on connection_keys c c'"
    and "p_Type n = p_Type n'" "p_Server n = p_Server n'" "p_ServerPort n = p_ServerPort n'"
  shows "nodeIdentityFields ff c n = nodeIdentityFields ff c' n'"
proof -
  note sub = agree_on_subset [OF assms(1)]
  have "fold (copyNodeIdentityString ff c) identity_strings = fold (copyNodeIdentityString ff c') identity_strings"
    by (rule ext, rule fold_strings_agree, rule sub) code_simp
  moreover have "nodeTLSIdentity ff c = nodeTLSIdentity ff c'" by (rule tls_agree, rule sub) code_simp
  moreover have "nodeTransportIdentity ff c = nodeTransportIdentity ff c'" by (rule transport_agree, rule sub) code_simp
  moreover have "nodeRealityIdentity ff c = nodeRealityIdentity ff c'" by (rule reality_agree, rule sub) code_simp
  moreover have "wireguard_identity ff c = wireguard_identity ff c'" by (rule wireguard_agree, rule sub) code_simp
  moreover have "ssh_identity ff c = ssh_identity ff c'" by (rule ssh_agree, rule sub) code_simp
  moreover have "agree_on [''type'', ''server'', ''server_port'', ''port'', ''mtu'', ''peers'', NodeChainMetadataKey] c c'"
    by (rule sub) code_simp
  ultimately show ?thesis using assms(2-)
    by (simp add: nodeIdentityFields_def copyNodeIdentityInt_def DecodeNodeChain_def agree_reads Let_def del: fold_simps firstNodeString.simps firstNodeInt.simps cong: if_cong)
qed

section \<open>What the identity determines\<close>

lemma get_copy_string:
  "map_get (copyNodeIdentityString ff c ks d) k =
     (if k = hd ks \<and> firstNodeString (map (nodeString ff c) ks) \<noteq> []
      then VStr (firstNodeString (map (nodeString ff c) ks)) else map_get d k)"
  by (simp add: copyNodeIdentityString_def Let_def)

lemma get_copy_value: "k \<noteq> t \<Longrightarrow> map_get (copyNodeIdentityValue c t ks d) k = map_get d k"
  by (induction ks) auto

lemma get_put_section: "map_get (put_section t sub d) k = (if k = t \<and> sub \<noteq> [] then VMap sub else map_get d k)"
  by (simp add: put_section_def)

lemma get_fold_other:
  "k \<notin> hd ` set kss \<Longrightarrow> map_get (fold (copyNodeIdentityString ff c) kss d) k = map_get d k"
  by (induction kss arbitrary: d) (auto simp: get_copy_string)

definition string_field :: "string \<Rightarrow> goval" where
  "string_field s = (if s = [] then VNil else VStr s)"

lemma string_field_inject: "string_field s = string_field t \<longleftrightarrow> s = t"
  by (simp add: string_field_def)

lemma get_fold_strings:
  assumes "ks \<in> set kss" and "distinct (map hd kss)" and "map_get d (hd ks) = VNil"
  shows "map_get (fold (copyNodeIdentityString ff c) kss d) (hd ks) =
    string_field (firstNodeString (map (nodeString ff c) ks))"
  using assms
proof (induction kss arbitrary: d)
  case (Cons x xs)
  show ?case
  proof (cases "ks = x")
    case True
    with Cons.prems show ?thesis by (simp add: get_fold_other get_copy_string string_field_def)
  next
    case False
    with Cons.prems have "ks \<in> set xs" "hd x \<noteq> hd ks" by (auto simp: image_iff)
    with Cons show ?thesis by (simp add: get_copy_string)
  qed
qed simp

definition later_keys :: "string list" where
  "later_keys = [''mtu'', ''private_key'', ''address'', ''peers'', ''public_key'', ''pre_shared_key'', ''username'',
     ''private_key_path'', ''private_key_passphrase'', ''host_key'', ''host_key_algorithms'', ''client_version'',
     ''ssh_cipher'', ''mac'', ''kex_algorithm'', ''tls'', ''transport'', ''reality'', ''chain_detour'']"

lemma get_wireguard: "k \<notin> set later_keys \<Longrightarrow> map_get (wireguard_identity ff c d) k = map_get d k"
  by (simp add: wireguard_identity_def later_keys_def get_copy_string get_copy_value)

lemma get_ssh: "k \<notin> set later_keys \<Longrightarrow> map_get (ssh_identity ff c d) k = map_get d k"
  by (simp add: ssh_identity_def later_keys_def get_copy_string get_copy_value Let_def)

lemma get_later:
  assumes "k \<notin> set later_keys"
  shows "map_get (nodeIdentityFields ff c n) k =
    map_get (fold (copyNodeIdentityString ff c) identity_strings
       [(''type'', VStr (firstNodeString [p_Type n, nodeString ff c ''type''])),
        (''server'', VStr (firstNodeString [p_Server n, nodeString ff c ''server''])),
        (''port'', VInt (firstNodeInt [p_ServerPort n, nodeInt c ''server_port'', nodeInt c ''port'']))]) k"
proof -
  have "k \<noteq> ''mtu''" "k \<noteq> ''tls''" "k \<noteq> ''transport''" "k \<noteq> ''reality''" "k \<noteq> ''chain_detour''"
    using assms by (auto simp: later_keys_def)
  then show ?thesis unfolding nodeIdentityFields_def Let_def copyNodeIdentityInt_def
    by (simp add: get_put_section get_wireguard [OF assms] get_ssh [OF assms]
        split: sum.split option.split del: firstNodeString.simps firstNodeInt.simps fold_simps)
qed

lemma identity_fields_read:
  "map_get (nodeIdentityFields ff c n) ''type'' = VStr (firstNodeString [p_Type n, nodeString ff c ''type''])"
  "map_get (nodeIdentityFields ff c n) ''server'' = VStr (firstNodeString [p_Server n, nodeString ff c ''server''])"
  "map_get (nodeIdentityFields ff c n) ''port'' =
     VInt (firstNodeInt [p_ServerPort n, nodeInt c ''server_port'', nodeInt c ''port''])"
proof -
  have k: "\<not> k \<in> set later_keys \<and> \<not> k \<in> hd ` set identity_strings" if "k \<in> {''type'', ''server'', ''port''}" for k
    using that by (auto simp: later_keys_def identity_strings_def)
  show
    "map_get (nodeIdentityFields ff c n) ''type'' = VStr (firstNodeString [p_Type n, nodeString ff c ''type''])"
    "map_get (nodeIdentityFields ff c n) ''server'' = VStr (firstNodeString [p_Server n, nodeString ff c ''server''])"
    "map_get (nodeIdentityFields ff c n) ''port'' =
       VInt (firstNodeInt [p_ServerPort n, nodeInt c ''server_port'', nodeInt c ''port''])"
    using k by (simp_all add: get_later get_fold_other map_get_def [of "_ # _"] del: firstNodeString.simps firstNodeInt.simps)
qed

lemma identity_strings_read:
  assumes "ks \<in> set identity_strings" and "hd ks \<noteq> ''username''"
  shows "map_get (nodeIdentityFields ff c n) (hd ks) = string_field (firstNodeString (map (nodeString ff c) ks))"
proof -
  have "list_all (\<lambda>ks. hd ks = ''username'' \<or> \<not> hd ks \<in> set (later_keys @ [''type'', ''server'', ''port''])) identity_strings"
    by code_simp
  with assms have "\<not> hd ks \<in> set later_keys" "hd ks \<noteq> ''type''" "hd ks \<noteq> ''server''" "hd ks \<noteq> ''port''"
    unfolding list_all_iff by auto
  moreover have "distinct (map hd identity_strings)" by code_simp
  ultimately show ?thesis using assms(1)
    by (simp add: get_later get_fold_strings map_get_def [of "_ # _"] del: firstNodeString.simps firstNodeInt.simps)
qed

text \<open>C16. A subscription refresh cannot change a node's UID by renaming it or by editing options that
  are not part of the connection: two parsed nodes of the same type, server and port whose raw
  configurations agree on the connection keys have the same UID, whatever their names and other
  fields are.\<close>

theorem uid_ignores_cosmetics:
  assumes "p_config n = Object c" and "p_config n' = Object c'" and "agree_on connection_keys c c'"
    and "p_Type n = p_Type n'" and "p_Server n = p_Server n'" and "p_ServerPort n = p_ServerPort n'"
  shows "StableUID ff digest n = StableUID ff digest n'"
  using identity_fields_agree [OF assms(3-6)] assms(1,2) by (simp add: StableUID_def identity_config_def)

theorem uid_ignores_cosmetics_witness:
  "StableUID (\<lambda>_. []) (\<lambda>m. as_string (map_get m ''password''))
     \<lparr>p_UID = [], p_Name = ''Tokyo 1'', p_Type = ''trojan'', p_Server = ''a.example'', p_ServerPort = 443,
      p_Raw = [], p_config = Object [(''tag'', VStr ''Tokyo 1''), (''password'', VStr ''pw'')], p_UnsupportedReason = []\<rparr> =
   StableUID (\<lambda>_. []) (\<lambda>m. as_string (map_get m ''password''))
     \<lparr>p_UID = ''old'', p_Name = ''JP'', p_Type = ''trojan'', p_Server = ''a.example'', p_ServerPort = 443,
      p_Raw = [], p_config = Object [(''password'', VStr ''pw''), (''name'', VStr ''JP''), (''udp'', VBool True)], p_UnsupportedReason = []\<rparr>"
  by (rule uid_ignores_cosmetics) (simp_all, code_simp)

text \<open>Two nodes that get the same UID are the same connection, as far as the digest has no
  collision between their identity fields: they have the same protocol, server and port and the same
  value of every credential field (UUID, password, cipher, flow, PSK, keys, local address).\<close>

theorem uid_separates_connections:
  fixes digest :: "gomap \<Rightarrow> string"
  assumes "StableUID ff digest n = StableUID ff digest n'"
    and "digest (nodeIdentityFields ff (identity_config n) n) = digest (nodeIdentityFields ff (identity_config n') n') \<Longrightarrow>
      map_of (nodeIdentityFields ff (identity_config n) n) = map_of (nodeIdentityFields ff (identity_config n') n')"
  shows "firstNodeString [p_Type n, nodeString ff (identity_config n) ''type''] =
           firstNodeString [p_Type n', nodeString ff (identity_config n') ''type''] \<and>
         firstNodeString [p_Server n, nodeString ff (identity_config n) ''server''] =
           firstNodeString [p_Server n', nodeString ff (identity_config n') ''server''] \<and>
         firstNodeInt [p_ServerPort n, nodeInt (identity_config n) ''server_port'', nodeInt (identity_config n) ''port''] =
           firstNodeInt [p_ServerPort n', nodeInt (identity_config n') ''server_port'', nodeInt (identity_config n') ''port''] \<and>
         (\<forall>ks\<in>set identity_strings. hd ks \<noteq> ''username'' \<longrightarrow>
            firstNodeString (map (nodeString ff (identity_config n)) ks) =
            firstNodeString (map (nodeString ff (identity_config n')) ks))"
proof -
  define a b where "a = nodeIdentityFields ff (identity_config n) n" and "b = nodeIdentityFields ff (identity_config n') n'"
  have "map_of a = map_of b" using assms by (simp add: a_def b_def StableUID_def)
  then have eq: "map_get a k = map_get b k" for k by (simp add: map_get_def)
  have "firstNodeString (map (nodeString ff (identity_config n)) ks) =
      firstNodeString (map (nodeString ff (identity_config n')) ks)"
    if "ks \<in> set identity_strings" "hd ks \<noteq> ''username''" for ks
    using eq [of "hd ks"] that by (simp add: a_def b_def identity_strings_read string_field_inject)
  with eq [of "''type''"] eq [of "''server''"] eq [of "''port''"] show ?thesis
    unfolding a_def b_def identity_fields_read goval.inject by blast
qed

text \<open>A digest with no collision between the two nodes: it tells their passwords apart.\<close>

theorem uid_separates_connections_witness:
  "firstNodeString (map (nodeString (\<lambda>_. []) [(''password'', VStr ''pw'')]) [''password'']) =
   firstNodeString (map (nodeString (\<lambda>_. []) [(''password'', VStr ''pw''), (''tag'', VStr ''x'')]) [''password''])"
proof -
  define n where "n = \<lparr>p_UID = [], p_Name = ''a'', p_Type = ''trojan'', p_Server = ''a.example'', p_ServerPort = 443,
      p_Raw = [], p_config = Object [(''password'', VStr ''pw'')], p_UnsupportedReason = []\<rparr>"
  define n' where "n' = \<lparr>p_UID = [], p_Name = ''b'', p_Type = ''trojan'', p_Server = ''a.example'', p_ServerPort = 443,
      p_Raw = [], p_config = Object [(''password'', VStr ''pw''), (''tag'', VStr ''x'')], p_UnsupportedReason = []\<rparr>"
  have c: "identity_config n = [(''password'', VStr ''pw'')]" "identity_config n' = [(''password'', VStr ''pw''), (''tag'', VStr ''x'')]"
    by (simp_all add: n_def n'_def identity_config_def)
  have f: "nodeIdentityFields (\<lambda>_. []) (identity_config n) n = nodeIdentityFields (\<lambda>_. []) (identity_config n') n'"
    unfolding n_def n'_def by code_simp
  have "\<forall>ks\<in>set identity_strings. hd ks \<noteq> ''username'' \<longrightarrow>
      firstNodeString (map (nodeString (\<lambda>_. []) (identity_config n)) ks) =
      firstNodeString (map (nodeString (\<lambda>_. []) (identity_config n')) ks)"
    using uid_separates_connections [where ff = "\<lambda>_. []" and digest = "\<lambda>m. as_string (map_get m ''password'')" and n = n and n' = n'] f
    by (simp add: StableUID_def del: firstNodeString.simps firstNodeInt.simps)
  moreover have "[''password''] \<in> set identity_strings" by (simp add: identity_strings_def)
  ultimately have "firstNodeString (map (nodeString (\<lambda>_. []) (identity_config n)) [''password'']) =
      firstNodeString (map (nodeString (\<lambda>_. []) (identity_config n')) [''password''])"
    by fastforce
  then show ?thesis unfolding c .
qed

section \<open>UIDs in the node table\<close>

text \<open>
  The UIDs under which the nodes of one subscription are stored.  A repeated UID gets a suffix made
  of a hash of the node's name and raw text (the parameter \<open>shortNodeHash\<close>, 16 hexadecimal digits
  of SHA-256) and of its occurrence number; \<open>seen\<close> lists the base UIDs met so far.
\<close>

definition hex_digit :: "nat \<Rightarrow> char" where
  "hex_digit n = char_of (if n < 10 then 48 + n else 87 + n)"

definition shortNodeSuffix :: "nat \<Rightarrow> string" where
  "shortNodeSuffix n = map (\<lambda>i. hex_digit (n div 16 ^ i mod 16)) [3, 2, 1, 0]"

definition base_uid :: "(rat \<Rightarrow> string) \<Rightarrow> (gomap \<Rightarrow> string) \<Rightarrow> ParsedNode \<Rightarrow> string" where
  "base_uid ff digest node = (if p_UID node = [] then StableUID ff digest node else p_UID node)"

fun assign_uids :: "(string \<Rightarrow> string) \<Rightarrow> (ParsedNode \<Rightarrow> string) \<Rightarrow> string list \<Rightarrow> ParsedNode list \<Rightarrow> string list" where
  "assign_uids shortNodeHash base seen [] = []"
| "assign_uids shortNodeHash base seen (node # nodes) =
     (let b = base node; k = count_list (b # seen) b
      in (if k > 1 then b @ ''-'' @ shortNodeHash (p_Name node @ p_Raw node) @ ''-'' @ shortNodeSuffix k else b)
         # assign_uids shortNodeHash base (b # seen) nodes)"

definition stored_uids :: "(rat \<Rightarrow> string) \<Rightarrow> (gomap \<Rightarrow> string) \<Rightarrow> (string \<Rightarrow> string) \<Rightarrow> ParsedNode list \<Rightarrow> string list" where
  "stored_uids ff digest shortNodeHash nodes = assign_uids shortNodeHash (base_uid ff digest) [] nodes"

lemma hex_digit_inject: "m < 16 \<Longrightarrow> n < 16 \<Longrightarrow> hex_digit m = hex_digit n \<Longrightarrow> m = n"
proof -
  assume "m < 16" "n < 16" "hex_digit m = hex_digit n"
  moreover have "of_char (hex_digit k) = (if k < 10 then 48 + k else 87 + k)" if "k < 16" for k :: nat
    using that by (simp add: hex_digit_def)
  ultimately have "(if m < 10 then 48 + m else 87 + m) = (if n < 10 then 48 + n else 87 + n)" by metis
  then show "m = n" by (simp split: if_split_asm)
qed

lemma hex_expansion: "n < 65536 \<Longrightarrow> n = ((n div 4096 mod 16 * 16 + n div 256 mod 16) * 16 + n div 16 mod 16) * 16 + n mod 16"
  for n :: nat
proof -
  assume "n < 65536"
  then have "n div 4096 mod 16 = n div 4096" by simp
  moreover have "n div 4096 = n div 256 div 16" "n div 256 = n div 16 div 16" by (simp_all add: div_mult2_eq [symmetric])
  ultimately show ?thesis by (metis div_mult_mod_eq)
qed

lemma shortNodeSuffix_inject:
  "m < 65536 \<Longrightarrow> n < 65536 \<Longrightarrow> shortNodeSuffix m = shortNodeSuffix n \<Longrightarrow> m = n"
proof -
  assume mn: "m < 65536" "n < 65536" and "shortNodeSuffix m = shortNodeSuffix n"
  then have "m div 4096 mod 16 = n div 4096 mod 16" "m div 256 mod 16 = n div 256 mod 16"
    "m div 16 mod 16 = n div 16 mod 16" "m mod 16 = n mod 16"
    by (simp_all add: shortNodeSuffix_def hex_digit_inject)
  with hex_expansion [OF mn(1)] hex_expansion [OF mn(2)] show "m = n" by metis
qed

definition uid_form :: "string \<Rightarrow> nat \<Rightarrow> string \<Rightarrow> string" where
  "uid_form b k h = (if k > 1 then b @ ''-'' @ h @ ''-'' @ shortNodeSuffix k else b)"

lemma uid_form_inject:
  assumes "uid_form b k h = uid_form b' k' h'" and dash: "CHR ''-'' \<notin> set b" "CHR ''-'' \<notin> set b'"
    and k: "0 < k" "k < 65536" "0 < k'" "k' < 65536"
  shows "b = b' \<and> k = k'"
proof -
  have tw: "takeWhile (\<lambda>c. c \<noteq> CHR ''-'') (uid_form x j g) = x" if "CHR ''-'' \<notin> set x" for x j g
    using that by (auto simp: uid_form_def takeWhile_eq_all_conv intro!: takeWhile_append2 [THEN trans])
  have b: "b = b'" using tw [OF dash(1), of k h] tw [OF dash(2), of k' h'] assms(1) by metis
  have long: "length (shortNodeSuffix j) = 4" for j by (simp add: shortNodeSuffix_def)
  have "k = k'"
  proof (cases "k > 1 \<and> k' > 1")
    case True
    with assms(1) b have "h @ ''-'' @ shortNodeSuffix k = h' @ ''-'' @ shortNodeSuffix k'" by (simp add: uid_form_def)
    then have "(h @ ''-'') @ shortNodeSuffix k = (h' @ ''-'') @ shortNodeSuffix k'" by simp
    then have "shortNodeSuffix k = shortNodeSuffix k'" by (subst (asm) append_eq_append_conv) (simp_all add: long)
    with k show ?thesis by (simp add: shortNodeSuffix_inject)
  next
    case False
    with k assms(1) b show ?thesis by (auto simp: uid_form_def split: if_split_asm)
  qed
  with b show ?thesis by simp
qed

lemma assign_uids_form:
  "u \<in> set (assign_uids H base seen nodes) \<Longrightarrow>
   \<exists>b k h. u = uid_form b k h \<and> b \<in> base ` set nodes \<and> count_list seen b < k \<and> k \<le> length seen + length nodes"
proof (induction nodes arbitrary: seen)
  case (Cons n ns)
  show ?case
  proof (cases "u \<in> set (assign_uids H base (base n # seen) ns)")
    case True
    with Cons.IH obtain b k h where "u = uid_form b k h" "b \<in> base ` set ns"
      "count_list (base n # seen) b < k" "k \<le> length (base n # seen) + length ns"
      by blast
    then show ?thesis by (intro exI [of _ b] exI [of _ k] exI [of _ h]) (auto split: if_split_asm)
  next
    case False
    with Cons.prems have "u = uid_form (base n) (Suc (count_list seen (base n))) (H (p_Name n @ p_Raw n))"
      by (auto simp: uid_form_def Let_def)
    moreover have "count_list seen (base n) \<le> length seen" by (rule count_le_length)
    ultimately show ?thesis by fastforce
  qed
qed simp

lemma assign_uids_distinct:
  assumes "\<And>n. n \<in> set nodes \<Longrightarrow> CHR ''-'' \<notin> set (base n)" and "length seen + length nodes < 65536"
  shows "distinct (assign_uids H base seen nodes)"
  using assms
proof (induction nodes arbitrary: seen)
  case (Cons n ns)
  let ?k = "Suc (count_list seen (base n))"
  let ?u = "uid_form (base n) ?k (H (p_Name n @ p_Raw n))"
  have "?u \<notin> set (assign_uids H base (base n # seen) ns)"
  proof
    assume u: "?u \<in> set (assign_uids H base (base n # seen) ns)"
    obtain b k h where *: "?u = uid_form b k h" "b \<in> base ` set ns"
      "count_list (base n # seen) b < k" "k \<le> length (base n # seen) + length ns"
      using assign_uids_form [OF u] by metis
    have le: "count_list seen (base n) \<le> length seen" by (rule count_le_length)
    have "base n = b \<and> ?k = k"
      by (rule uid_form_inject [OF *(1)]) (use * Cons.prems le in \<open>auto simp del: count_list.simps\<close>)
    with *(3) show False by auto
  qed
  moreover have "assign_uids H base seen (n # ns) = ?u # assign_uids H base (base n # seen) ns"
    by (simp add: uid_form_def Let_def)
  ultimately show ?case using Cons.IH [of "base n # seen"] Cons.prems by simp
qed simp

text \<open>C30. The nodes of a subscription are stored under pairwise different UIDs, duplicates of one
  connection included, up to 65535 nodes: hexadecimal base UIDs hold no dash, and the occurrence
  number in the suffix tells equal base UIDs apart.\<close>

theorem stored_uids_distinct:
  assumes "\<And>n. n \<in> set nodes \<Longrightarrow> CHR ''-'' \<notin> set (base_uid ff digest n)" and "length nodes < 65536"
  shows "distinct (stored_uids ff digest shortHash nodes) \<and> length (stored_uids ff digest shortHash nodes) = length nodes"
proof -
  have "length (assign_uids H base seen ns) = length ns" for H base seen ns
    by (induction H base seen ns rule: assign_uids.induct) (simp_all add: Let_def)
  then show ?thesis using assign_uids_distinct [of nodes "base_uid ff digest" "[]"] assms by (simp add: stored_uids_def)
qed

theorem stored_uids_distinct_witness:
  "distinct (stored_uids (\<lambda>_. []) (\<lambda>_. ''ab'') (\<lambda>_. ''f0'')
     [\<lparr>p_UID = [], p_Name = ''a'', p_Type = ''trojan'', p_Server = ''s'', p_ServerPort = 1, p_Raw = [], p_config = NotAnObject, p_UnsupportedReason = []\<rparr>,
      \<lparr>p_UID = ''ab'', p_Name = ''b'', p_Type = ''trojan'', p_Server = ''s'', p_ServerPort = 1, p_Raw = [], p_config = NotAnObject, p_UnsupportedReason = []\<rparr>])
   \<and> stored_uids (\<lambda>_. []) (\<lambda>_. ''ab'') (\<lambda>_. ''f0'')
     [\<lparr>p_UID = [], p_Name = ''a'', p_Type = ''trojan'', p_Server = ''s'', p_ServerPort = 1, p_Raw = [], p_config = NotAnObject, p_UnsupportedReason = []\<rparr>,
      \<lparr>p_UID = ''ab'', p_Name = ''b'', p_Type = ''trojan'', p_Server = ''s'', p_ServerPort = 1, p_Raw = [], p_config = NotAnObject, p_UnsupportedReason = []\<rparr>] = [''ab'', ''ab-f0-0002'']"
proof (rule conjI)
  show "distinct (stored_uids (\<lambda>_. []) (\<lambda>_. ''ab'') (\<lambda>_. ''f0'')
     [\<lparr>p_UID = [], p_Name = ''a'', p_Type = ''trojan'', p_Server = ''s'', p_ServerPort = 1, p_Raw = [], p_config = NotAnObject, p_UnsupportedReason = []\<rparr>,
      \<lparr>p_UID = ''ab'', p_Name = ''b'', p_Type = ''trojan'', p_Server = ''s'', p_ServerPort = 1, p_Raw = [], p_config = NotAnObject, p_UnsupportedReason = []\<rparr>])"
    by (rule stored_uids_distinct [THEN conjunct1]) (auto simp: base_uid_def StableUID_def)
qed code_simp

end
