(* ===== verification/Chain_Filter.thy ===== *)
theory Chain_Filter
  imports Node_Identity "HOL-Library.While_Combinator"
begin

text \<open>
  \<^verbatim>\<open>filterUnavailableNodeChains\<close> of \<^verbatim>\<open>service/node_chain.go\<close>: nodes whose proxy chain refers to a node
  that is not there are excluded until nothing changes.  The loop is a \<open>while_option\<close>, so that its
  termination is a theorem; the locale \<open>availability\<close> states what the loop needs of the validity
  test and proves that it computes the greatest self-supporting set.
\<close>

section \<open>Filtering nodes whose upstream is unavailable\<close>

definition nodeHasChain :: "config_data \<Rightarrow> bool" where
  "nodeHasChain rawJSON = (case rawJSON of Object options \<Rightarrow> has_key options NodeChainMetadataKey | _ \<Rightarrow> False)"

text \<open>An unreadable document leaves the option map empty.\<close>

definition node_options :: "config_data \<Rightarrow> gomap" where
  "node_options rawJSON = (case rawJSON of Object options \<Rightarrow> options | _ \<Rightarrow> [])"

definition chain_refs :: "NodeChain \<Rightarrow> string list" where
  "chain_refs chain = Detour chain # concat (map Outbounds (Groups chain))"

definition ref_available :: "(string \<Rightarrow> int) \<Rightarrow> string list \<Rightarrow> string \<Rightarrow> bool" where
  "ref_available available groups ref =
     (if ref = NodeChainDirect then True
      else if prefix NodeChainNodePrefix ref then available (TrimPrefix ref NodeChainNodePrefix) > 0
      else if prefix NodeChainGroupPrefix ref then ref \<in> set groups
      else False)"

definition chain_valid :: "(rat \<Rightarrow> string) \<Rightarrow> (string \<Rightarrow> int) \<Rightarrow> ParsedNode \<Rightarrow> bool" where
  "chain_valid ff available node =
     (case DecodeNodeChain ff (node_options (p_config node)) of
        Inl _ \<Rightarrow> False
      | Inr None \<Rightarrow> True
      | Inr (Some chain) \<Rightarrow> list_all (ref_available available (map ID (Groups chain))) (chain_refs chain))"

text \<open>
  One pass over the nodes.  The flag of a node says that it has a reason to be excluded; excluding
  a node lowers the count of its UID at once, so the rest of the pass sees it.
\<close>

fun chain_pass :: "('n \<Rightarrow> string) \<Rightarrow> ((string \<Rightarrow> int) \<Rightarrow> 'n \<Rightarrow> bool) \<Rightarrow> (string \<Rightarrow> int) \<Rightarrow> ('n \<times> bool) list \<Rightarrow>
    (string \<Rightarrow> int) \<times> ('n \<times> bool) list \<times> bool" where
  "chain_pass uid valid available [] = (available, [], False)"
| "chain_pass uid valid available ((n, reason) # ns) =
     (if reason \<or> valid available n
      then (case chain_pass uid valid available ns of (av, rest, changed) \<Rightarrow> (av, (n, reason) # rest, changed))
      else (case chain_pass uid valid (available(uid n := available (uid n) - 1)) ns of
              (av, rest, changed) \<Rightarrow> (av, (n, True) # rest, True)))"

fun count_available :: "('n \<Rightarrow> string) \<Rightarrow> 'n list \<Rightarrow> string \<Rightarrow> int" where
  "count_available uid [] = (\<lambda>_. 0)"
| "count_available uid (n # ns) = (let av = count_available uid ns in av(uid n := av (uid n) + 1))"

definition chain_loop :: "('n \<Rightarrow> string) \<Rightarrow> ((string \<Rightarrow> int) \<Rightarrow> 'n \<Rightarrow> bool) \<Rightarrow> 'n list \<Rightarrow>
    ((string \<Rightarrow> int) \<times> ('n \<times> bool) list \<times> bool) option" where
  "chain_loop uid valid nodes =
     while_option (\<lambda>(_, _, changed). changed) (\<lambda>(available, ns, _). chain_pass uid valid available ns)
       (count_available uid nodes, map (\<lambda>n. (n, False)) nodes, True)"

record excludedSubscriptionNode =
  ex_Name :: string
  ex_Type :: string
  ex_Reason :: string

text \<open>The reason text, in UTF-8.\<close>

definition chain_excluded_reason :: string where
  "chain_excluded_reason =
     [CHR 0xE4, CHR 0xBB, CHR 0xA3, CHR 0xE7, CHR 0x90, CHR 0x86, CHR 0xE9, CHR 0x93, CHR 0xBE, CHR 0xE7,
     CHR 0x9A, CHR 0x84, CHR 0xE5, CHR 0x89, CHR 0x8D, CHR 0xE7, CHR 0xBD, CHR 0xAE, CHR 0xE8, CHR 0x8A,
     CHR 0x82, CHR 0xE7, CHR 0x82, CHR 0xB9, CHR 0xE5, CHR 0xB7, CHR 0xB2, CHR 0xE8, CHR 0xA2, CHR 0xAB,
     CHR 0xE8, CHR 0xBF, CHR 0x87, CHR 0xE6, CHR 0xBB, CHR 0xA4, CHR 0xE6, CHR 0x88, CHR 0x96, CHR 0xE4,
     CHR 0xBE, CHR 0x9D, CHR 0xE8, CHR 0xB5, CHR 0x96, CHR 0xE6, CHR 0x97, CHR 0xA0, CHR 0xE6, CHR 0x95,
     CHR 0x88, CHR 0xEF, CHR 0xBC, CHR 0x8C, CHR 0xE4, CHR 0xB8, CHR 0x8D, CHR 0xE8, CHR 0x83, CHR 0xBD,
     CHR 0xE9, CHR 0x99, CHR 0x8D, CHR 0xE7, CHR 0xBA, CHR 0xA7, CHR 0xE4, CHR 0xB8, CHR 0xBA, CHR 0xE7,
     CHR 0x9B, CHR 0xB4, CHR 0xE8, CHR 0xBF, CHR 0x9E]"

text \<open>\<open>None\<close> would be a loop that does not end.\<close>

definition filterUnavailableNodeChains :: "(rat \<Rightarrow> string) \<Rightarrow> (gomap \<Rightarrow> string) \<Rightarrow> ParsedNode list \<Rightarrow>
    (ParsedNode list \<times> excludedSubscriptionNode list) option" where
  "filterUnavailableNodeChains ff digest nodes =
     map_option (\<lambda>(_, ns, _).
         (map fst (filter (\<lambda>p. \<not> snd p) ns),
          map (\<lambda>p. \<lparr>ex_Name = p_Name (fst p), ex_Type = p_Type (fst p), ex_Reason = chain_excluded_reason\<rparr>) (filter snd ns)))
       (chain_loop (StableUID ff digest) (chain_valid ff) nodes)"

section \<open>The loop computes the greatest self-supporting set\<close>

text \<open>How often a UID occurs at the positions \<open>K\<close>, and the sets of positions that support themselves.\<close>

definition count_at :: "('n \<Rightarrow> string) \<Rightarrow> 'n list \<Rightarrow> nat set \<Rightarrow> string \<Rightarrow> int" where
  "count_at uid nodes K u = int (card {i \<in> K. i < length nodes \<and> uid (nodes ! i) = u})"

definition self_supporting :: "('n \<Rightarrow> string) \<Rightarrow> ((string \<Rightarrow> int) \<Rightarrow> 'n \<Rightarrow> bool) \<Rightarrow> 'n list \<Rightarrow> nat set \<Rightarrow> bool" where
  "self_supporting uid valid nodes K \<longleftrightarrow>
     K \<subseteq> {..<length nodes} \<and> (\<forall>i\<in>K. valid (count_at uid nodes K) (nodes ! i))"

definition open_positions :: "('n \<times> bool) list \<Rightarrow> nat set" where
  "open_positions ns = {i. i < length ns \<and> \<not> snd (ns ! i)}"

lemma count_at_mono: "K \<subseteq> L \<Longrightarrow> count_at uid nodes K u \<le> count_at uid nodes L u"
  unfolding count_at_def by (intro of_nat_mono card_mono) auto

lemma count_at_remove:
  "i \<in> K \<Longrightarrow> i < length nodes \<Longrightarrow>
   count_at uid nodes (K - {i}) = (count_at uid nodes K)(uid (nodes ! i) := count_at uid nodes K (uid (nodes ! i)) - 1)"
proof (rule ext)
  fix u
  assume i: "i \<in> K" "i < length nodes"
  let ?P = "\<lambda>K. {j \<in> K. j < length nodes \<and> uid (nodes ! j) = u}"
  have fin: "finite (?P K)" by (rule finite_subset [of _ "{..<length nodes}"]) auto
  show "count_at uid nodes (K - {i}) u =
    ((count_at uid nodes K)(uid (nodes ! i) := count_at uid nodes K (uid (nodes ! i)) - 1)) u"
  proof (cases "uid (nodes ! i) = u")
    case True
    then have "?P (K - {i}) = ?P K - {i}" "i \<in> ?P K" using i by auto
    with card.remove [OF fin, of i] have "card (?P K) = Suc (card (?P (K - {i})))" by simp
    with True show ?thesis by (simp add: count_at_def)
  next
    case False
    then have "?P (K - {i}) = ?P K" by auto
    with False show ?thesis by (simp add: count_at_def)
  qed
qed

lemma count_available_all: "count_available uid nodes = count_at uid nodes {..<length nodes}"
proof (induction nodes)
  case Nil
  then show ?case by (simp add: count_at_def fun_eq_iff)
next
  case (Cons n ns)
  have "count_at uid (n # ns) {..<length (n # ns)} u = count_at uid ns {..<length ns} u + (if uid n = u then 1 else 0)" for u
  proof -
    have "{i \<in> {..<length (n # ns)}. i < length (n # ns) \<and> uid ((n # ns) ! i) = u} =
        (if uid n = u then {0} else {}) \<union> Suc ` {i \<in> {..<length ns}. i < length ns \<and> uid (ns ! i) = u}"
      by (auto simp: image_iff less_Suc_eq_0_disj)
    moreover have "card (Suc ` {i \<in> {..<length ns}. i < length ns \<and> uid (ns ! i) = u}) = card {i \<in> {..<length ns}. i < length ns \<and> uid (ns ! i) = u}"
      by (simp add: card_image)
    ultimately show ?thesis by (auto simp: count_at_def card_insert_if image_iff)
  qed
  with Cons show ?case by (auto simp: fun_eq_iff Let_def)
qed


text \<open>
  What the loop needs of a validity test: more available nodes never make a valid node invalid.
\<close>

locale availability =
  fixes uid :: "'n \<Rightarrow> string" and valid :: "(string \<Rightarrow> int) \<Rightarrow> 'n \<Rightarrow> bool"
  assumes valid_mono: "(\<And>u. av u \<le> av' u) \<Longrightarrow> valid av n \<Longrightarrow> valid av' n"
begin

definition pass_inv :: "(string \<Rightarrow> int) \<Rightarrow> ('n \<times> bool) list \<Rightarrow> bool" where
  "pass_inv av ns \<longleftrightarrow> av = count_at uid (map fst ns) (open_positions ns) \<and>
     (\<forall>S. self_supporting uid valid (map fst ns) S \<longrightarrow> S \<subseteq> open_positions ns)"

lemma pass_nodes: "chain_pass uid valid av ns = (av', ns', ch) \<Longrightarrow> map fst ns' = map fst ns"
  by (induction uid valid av ns arbitrary: av' ns' ch rule: chain_pass.induct) (auto split: if_splits prod.splits)

lemma exclude_inv:
  assumes "pass_inv av (pre @ (n, False) # ns)" and "\<not> valid av n"
  shows "pass_inv (av(uid n := av (uid n) - 1)) (pre @ (n, True) # ns)"
proof -
  let ?i = "length pre"
  have op: "open_positions (pre @ (n, True) # ns) = open_positions (pre @ (n, False) # ns) - {?i}"
    by (auto simp: open_positions_def nth_append nth_Cons')
  have i: "?i \<in> open_positions (pre @ (n, False) # ns)" by (simp add: open_positions_def)
  have "S \<subseteq> open_positions (pre @ (n, False) # ns) - {?i}"
    if S: "self_supporting uid valid (map fst (pre @ (n, True) # ns)) S" for S
  proof -
    from S assms(1) have sub: "S \<subseteq> open_positions (pre @ (n, False) # ns)" by (simp add: pass_inv_def)
    have "?i \<notin> S"
    proof
      assume "?i \<in> S"
      with S have "valid (count_at uid (map fst (pre @ (n, True) # ns)) S) n"
        by (fastforce simp: self_supporting_def nth_append)
      then have "valid av n"
        by (rule valid_mono [rotated]) (use assms(1) count_at_mono [OF sub] in \<open>simp add: pass_inv_def\<close>)
      with assms(2) show False by simp
    qed
    with sub show ?thesis by blast
  qed
  with assms(1) i show ?thesis
    by (simp add: pass_inv_def op count_at_remove nth_append)
qed

lemma pass_inv_step:
  "chain_pass uid valid av ns = (av', ns', ch) \<Longrightarrow> pass_inv av (pre @ ns) \<Longrightarrow> pass_inv av' (pre @ ns')"
proof (induction ns arbitrary: av av' ns' ch pre)
  case (Cons p ns)
  obtain n r where p: "p = (n, r)" by (cases p)
  show ?case
  proof (cases "r \<or> valid av n")
    case True
    with Cons.prems(1) p obtain rest where "chain_pass uid valid av ns = (av', rest, ch)" "ns' = (n, r) # rest"
      by (auto split: prod.splits)
    with Cons.IH [of av av' rest ch "pre @ [(n, r)]"] Cons.prems(2) p show ?thesis by simp
  next
    case False
    with Cons.prems(1) p obtain rest c where
      "chain_pass uid valid (av(uid n := av (uid n) - 1)) ns = (av', rest, c)" "ns' = (n, True) # rest"
      by (auto split: prod.splits)
    with Cons.IH [of _ av' rest c "pre @ [(n, True)]"] exclude_inv [of av pre n ns] Cons.prems(2) p False
    show ?thesis by simp
  qed
qed simp

lemma pass_unchanged:
  "chain_pass uid valid av ns = (av', ns', False) \<Longrightarrow>
   av' = av \<and> ns' = ns \<and> (\<forall>(n, r)\<in>set ns. r \<or> valid av n)"
  by (induction uid valid av ns arbitrary: av' ns' rule: chain_pass.induct) (auto split: if_splits prod.splits)

lemma pass_open:
  "chain_pass uid valid av ns = (av', ns', ch) \<Longrightarrow>
   length (filter (\<lambda>p. \<not> snd p) ns') + (if ch then 1 else 0) \<le> length (filter (\<lambda>p. \<not> snd p) ns)"
proof (induction ns arbitrary: av av' ns' ch)
  case (Cons p ns)
  obtain n r where p: "p = (n, r)" by (cases p)
  show ?case
  proof (cases "r \<or> valid av n")
    case True
    with Cons.prems p obtain rest where rest: "chain_pass uid valid av ns = (av', rest, ch)" "ns' = (n, r) # rest"
      by (auto split: prod.splits)
    with Cons.IH [OF rest(1)] p show ?thesis by simp
  next
    case False
    with Cons.prems p obtain rest c where
      rest: "chain_pass uid valid (av(uid n := av (uid n) - 1)) ns = (av', rest, c)" "ns' = (n, True) # rest" "ch"
      by (auto split: prod.splits)
    with Cons.IH [OF rest(1)] p False show ?thesis by simp
  qed
qed simp

lemma open_positions_stable:
  assumes "pass_inv av ns" and "\<forall>(n, r)\<in>set ns. r \<or> valid av n"
  shows "self_supporting uid valid (map fst ns) (open_positions ns)"
  using assms nth_mem unfolding self_supporting_def pass_inv_def open_positions_def
  by (fastforce simp: case_prod_beta)

lemma loop_terminates: "\<exists>s. chain_loop uid valid nodes = Some s"
  unfolding chain_loop_def
proof (rule measure_while_option_Some [where P = "\<lambda>_. True" and
      f = "\<lambda>(_, ns, changed). length (filter (\<lambda>p. \<not> snd p) ns) + (if changed then 1 else 0)"])
  fix s :: "(string \<Rightarrow> int) \<times> ('n \<times> bool) list \<times> bool"
  obtain av ns ch where s: "s = (av, ns, ch)" by (metis prod.exhaust)
  obtain av' ns' ch' where "chain_pass uid valid av ns = (av', ns', ch')" by (metis prod.exhaust)
  moreover assume "case s of (_, _, changed) \<Rightarrow> changed"
  ultimately show "True \<and> (case case s of (available, ns, _) \<Rightarrow> chain_pass uid valid available ns of
      (_, ns, changed) \<Rightarrow> length (filter (\<lambda>p. \<not> snd p) ns) + (if changed then 1 else 0))
    < (case s of (_, ns, changed) \<Rightarrow> length (filter (\<lambda>p. \<not> snd p) ns) + (if changed then 1 else 0))"
    using pass_open [of av ns av' ns' ch'] s by auto
qed simp

text \<open>At the end the open positions are the greatest self-supporting set.\<close>

lemma loop_greatest:
  assumes "chain_loop uid valid nodes = Some (av, ns, ch)"
  shows "map fst ns = nodes" and "self_supporting uid valid nodes (open_positions ns)"
    and "\<And>S. self_supporting uid valid nodes S \<Longrightarrow> S \<subseteq> open_positions ns"
proof -
  let ?I = "\<lambda>(av, ns, ch). map fst ns = nodes \<and> pass_inv av ns \<and>
      (\<not> ch \<longrightarrow> (\<forall>(n, r)\<in>set ns. r \<or> valid av n))"
  have "open_positions (map (\<lambda>n. (n, False)) nodes) = {..<length nodes}" by (auto simp: open_positions_def)
  then have init: "?I (count_available uid nodes, map (\<lambda>n. (n, False)) nodes, True)"
    by (auto simp: pass_inv_def count_available_all self_supporting_def comp_def)
  have "?I (av, ns, ch)"
  proof (rule while_option_rule [OF _ assms [unfolded chain_loop_def]])
    fix s :: "(string \<Rightarrow> int) \<times> ('n \<times> bool) list \<times> bool"
    assume I: "?I s"
    obtain av ns ch where s: "s = (av, ns, ch)" by (metis prod.exhaust)
    obtain av' ns' ch' where p: "chain_pass uid valid av ns = (av', ns', ch')" by (metis prod.exhaust)
    then show "?I (case s of (available, ns, _) \<Rightarrow> chain_pass uid valid available ns)"
      using I s pass_nodes [OF p] pass_inv_step [OF p, of "[]"] pass_unchanged [of av ns av' ns'] by auto
  qed (rule init)
  moreover have "\<not> ch"
    using while_option_stop [OF assms [unfolded chain_loop_def]] by simp
  ultimately show "map fst ns = nodes" "self_supporting uid valid nodes (open_positions ns)"
    "\<And>S. self_supporting uid valid nodes S \<Longrightarrow> S \<subseteq> open_positions ns"
    using open_positions_stable by (auto simp: pass_inv_def)
qed

end

lemma ref_available_mono: "(\<And>u. av u \<le> av' u) \<Longrightarrow> ref_available av gs r \<Longrightarrow> ref_available av' gs r"
  by (fastforce simp: ref_available_def split: if_splits intro: less_le_trans)

interpretation chain_nodes: availability "StableUID ff digest" "chain_valid ff" for ff digest
proof
  fix av av' :: "string \<Rightarrow> int" and n
  assume "\<And>u. av u \<le> av' u" and "chain_valid ff av n"
  then show "chain_valid ff av' n"
    by (auto simp: chain_valid_def list_all_iff split: sum.splits option.splits intro: ref_available_mono)
qed

section \<open>Properties of the filter\<close>

lemma filter_nths: "map fst (filter (\<lambda>p. \<not> snd p) ns) = nths (map fst ns) (open_positions ns)"
proof (induction ns)
  case (Cons p ns)
  have "{j. Suc j \<in> open_positions (p # ns)} = open_positions ns" "0 \<in> open_positions (p # ns) \<longleftrightarrow> \<not> snd p"
    by (auto simp: open_positions_def)
  with Cons show ?case by (simp add: nths_Cons)
qed simp

lemma filter_result:
  obtains av ns ch where "chain_loop (StableUID ff digest) (chain_valid ff) nodes = Some (av, ns, ch)"
    and "filterUnavailableNodeChains ff digest nodes =
      Some (map fst (filter (\<lambda>p. \<not> snd p) ns), map (\<lambda>p. \<lparr>ex_Name = p_Name (fst p), ex_Type = p_Type (fst p), ex_Reason = chain_excluded_reason\<rparr>) (filter snd ns))"
    and "map fst ns = nodes"
proof -
  obtain av ns ch where l: "chain_loop (StableUID ff digest) (chain_valid ff) nodes = Some (av, ns, ch)"
    using chain_nodes.loop_terminates by (metis prod.exhaust)
  moreover from l have "map fst ns = nodes" by (rule chain_nodes.loop_greatest)
  ultimately show ?thesis by (intro that) (auto simp: filterUnavailableNodeChains_def)
qed

text \<open>C31. The filter always returns: its loop ends on every list of nodes, cyclic references included,
  the kept nodes are a subsequence of the input, and every other node is reported as excluded.\<close>

theorem chain_filter_terminates:
  "\<exists>kept excluded. filterUnavailableNodeChains ff digest nodes = Some (kept, excluded) \<and>
     subseq kept nodes \<and> length kept + length excluded = length nodes"
proof -
  obtain av ns ch where f: "filterUnavailableNodeChains ff digest nodes =
      Some (map fst (filter (\<lambda>p. \<not> snd p) ns), map (\<lambda>p. \<lparr>ex_Name = p_Name (fst p), ex_Type = p_Type (fst p), ex_Reason = chain_excluded_reason\<rparr>) (filter snd ns))"
    and ns: "map fst ns = nodes"
    by (rule filter_result)
  have "subseq (map fst (filter (\<lambda>p. \<not> snd p) ns)) nodes"
    unfolding ns [symmetric] by (intro subseq_map subseq_filter_left)
  moreover have "length (filter (\<lambda>p. \<not> snd p) ns) + length (filter snd ns) = length ns"
    using sum_length_filter_compl [of snd ns] by simp
  ultimately show ?thesis unfolding f using ns by auto
qed

text \<open>C17. The kept nodes are the largest set of nodes that support each other: the filter returns
  exactly the nodes at the union of all self-supporting sets of positions, so it drops a chained node
  only when no consistent choice could keep it.\<close>

theorem chain_filter_greatest:
  "map_option fst (filterUnavailableNodeChains ff digest nodes) =
   Some (nths nodes (\<Union> {S. self_supporting (StableUID ff digest) (chain_valid ff) nodes S}))"
proof -
  obtain av ns ch where l: "chain_loop (StableUID ff digest) (chain_valid ff) nodes = Some (av, ns, ch)"
    and f: "filterUnavailableNodeChains ff digest nodes =
      Some (map fst (filter (\<lambda>p. \<not> snd p) ns), map (\<lambda>p. \<lparr>ex_Name = p_Name (fst p), ex_Type = p_Type (fst p), ex_Reason = chain_excluded_reason\<rparr>) (filter snd ns))"
    and ns: "map fst ns = nodes"
    by (rule filter_result)
  have "\<Union> {S. self_supporting (StableUID ff digest) (chain_valid ff) nodes S} = open_positions ns"
    using chain_nodes.loop_greatest(2,3) [OF l] by blast
  with f ns show ?thesis by (simp add: filter_nths)
qed

lemma count_at_pos: "0 < count_at uid nodes K u \<Longrightarrow> \<exists>i\<in>K. i < length nodes \<and> uid (nodes ! i) = u"
  by (auto simp: count_at_def card_gt_0_iff)

lemma ref_available_count:
  assumes "ref_available (count_at uid nodes K) gs ref"
  shows "ref = NodeChainDirect \<or> (\<exists>m\<in>set (nths nodes K). ref = NodeChainNodePrefix @ uid m) \<or> ref \<in> set gs"
proof -
  have "\<exists>m\<in>set (nths nodes K). ref = NodeChainNodePrefix @ uid m"
    if p: "prefix NodeChainNodePrefix ref" and c: "0 < count_at uid nodes K (TrimPrefix ref NodeChainNodePrefix)"
  proof -
    obtain t where t: "ref = NodeChainNodePrefix @ t" using p unfolding prefix_def by blast
    with count_at_pos [OF c] show ?thesis by (auto simp: set_nths TrimPrefix_def)
  qed
  with assms show ?thesis by (auto simp: ref_available_def split: if_splits)
qed

text \<open>C3. Filtering never turns a chained node into a direct connection: a node that is kept has
  readable chain metadata, and everything its chain refers to is the direct outbound it names
  itself, a node that is kept too, or a group of the same chain.\<close>

theorem chain_filter_safe:
  assumes "filterUnavailableNodeChains ff digest nodes = Some (kept, excluded)" and "n \<in> set kept"
  shows "\<exists>chain. DecodeNodeChain ff (node_options (p_config n)) = Inr chain \<and>
    (\<forall>c. chain = Some c \<longrightarrow> (\<forall>ref\<in>set (chain_refs c).
       ref = NodeChainDirect \<or> (\<exists>m\<in>set kept. ref = NodeChainNodePrefix @ StableUID ff digest m) \<or>
       ref \<in> ID ` set (Groups c)))"
proof -
  obtain av ns ch where l: "chain_loop (StableUID ff digest) (chain_valid ff) nodes = Some (av, ns, ch)"
    and f: "filterUnavailableNodeChains ff digest nodes =
      Some (map fst (filter (\<lambda>p. \<not> snd p) ns), map (\<lambda>p. \<lparr>ex_Name = p_Name (fst p), ex_Type = p_Type (fst p), ex_Reason = chain_excluded_reason\<rparr>) (filter snd ns))"
    and ns: "map fst ns = nodes"
    by (rule filter_result)
  let ?K = "open_positions ns"
  have kept: "kept = nths nodes ?K" using f assms(1) ns by (simp add: filter_nths)
  with assms(2) obtain i where i: "i \<in> ?K" "i < length nodes" "n = nodes ! i" by (auto simp: set_nths)
  have "chain_valid ff (count_at (StableUID ff digest) nodes ?K) n"
    using chain_nodes.loop_greatest(2) [OF l] i by (simp add: self_supporting_def)
  then show ?thesis unfolding kept using ref_available_count [where nodes = nodes and K = ?K]
    by (fastforce simp: chain_valid_def list_all_iff split: sum.splits option.splits)
qed

definition sample_chained :: "ParsedNode list" where
  "sample_chained =
     [\<lparr>p_UID = [], p_Name = ''relay'', p_Type = ''trojan'', p_Server = ''r.example'', p_ServerPort = 443,
       p_Raw = [], p_config = Object [(''password'', VStr ''r'')], p_UnsupportedReason = []\<rparr>,
      \<lparr>p_UID = [], p_Name = ''exit'', p_Type = ''trojan'', p_Server = ''e.example'', p_ServerPort = 443,
       p_Raw = [], p_config = Object [(''password'', VStr ''e''),
         (''_ackwrap_chain'', VMap [(''detour'', VStr ''node:r''), (''identity'', VStr ''node:r'')])],
       p_UnsupportedReason = []\<rparr>,
      \<lparr>p_UID = [], p_Name = ''lost'', p_Type = ''trojan'', p_Server = ''l.example'', p_ServerPort = 443,
       p_Raw = [], p_config = Object [(''password'', VStr ''l''),
         (''_ackwrap_chain'', VMap [(''detour'', VStr ''node:gone''), (''identity'', VStr ''node:gone'')])],
       p_UnsupportedReason = []\<rparr>]"

definition sample_digest :: "gomap \<Rightarrow> string" where
  "sample_digest m = as_string (map_get m ''password'')"

theorem chain_filter_safe_witness:
  "\<exists>m\<in>set (take 2 sample_chained). ''node:r'' = NodeChainNodePrefix @ StableUID (\<lambda>_. []) sample_digest m"
proof -
  have f: "filterUnavailableNodeChains (\<lambda>_. []) sample_digest sample_chained =
      Some (take 2 sample_chained, [\<lparr>ex_Name = ''lost'', ex_Type = ''trojan'', ex_Reason = chain_excluded_reason\<rparr>])"
    by code_simp
  have d: "DecodeNodeChain (\<lambda>_. []) (node_options (p_config (sample_chained ! 1))) =
      Inr (Some \<lparr>Detour = ''node:r'', Identity = ''node:r'', Groups = []\<rparr>)"
    by code_simp
  have mem: "sample_chained ! 1 \<in> set (take 2 sample_chained)" by (simp add: sample_chained_def)
  show ?thesis using chain_filter_safe [OF f mem] d by (simp add: chain_refs_def NodeChainDirect_def)
qed

end
