(* ===== verification/Outbound_Tags.thy ===== *)
theory Outbound_Tags
  imports Node_Identity
begin

text \<open>
  Outbound tags of \<^verbatim>\<open>service/config_generator.go\<close>: \<^verbatim>\<open>sanitizeOutboundTag\<close> over UTF-8 runes,
  \<^verbatim>\<open>buildNodeOutboundTags\<close>, \<^verbatim>\<open>nodeUIDsToOutboundTags\<close> and \<^verbatim>\<open>appendUniqueStrings\<close>, with the shape of sanitised
  names and the distinctness of node tags.
\<close>

section \<open>Runes\<close>

text \<open>
  UTF-8 decoding as package \<^verbatim>\<open>unicode/utf8\<close> does it: the first rune of a byte sequence and its
  width, with U+FFFD and width 1 for a byte that starts no valid encoding.
\<close>

definition byte_at :: "string \<Rightarrow> nat \<Rightarrow> nat" where
  "byte_at s i = (if i < length s then of_char (s ! i) else 0)"

definition byte_between :: "nat \<Rightarrow> nat \<Rightarrow> nat \<Rightarrow> bool" where
  "byte_between lo hi b \<longleftrightarrow> lo \<le> b \<and> b \<le> hi"

definition second_byte :: "nat \<Rightarrow> nat \<Rightarrow> bool" where
  "second_byte b0 =
     byte_between (if b0 = 0xE0 then 0xA0 else if b0 = 0xF0 then 0x90 else 0x80)
       (if b0 = 0xED then 0x9F else if b0 = 0xF4 then 0x8F else 0xBF)"

definition cont_byte :: "nat \<Rightarrow> bool" where
  "cont_byte = byte_between 0x80 0xBF"

definition decode_bytes :: "nat \<Rightarrow> nat \<Rightarrow> nat \<Rightarrow> nat \<Rightarrow> nat \<times> nat" where
  "decode_bytes b0 b1 b2 b3 =
     (if b0 < 0x80 then (b0, 1)
      else if byte_between 0xC2 0xDF b0 \<and> cont_byte b1 then ((b0 - 0xC0) * 64 + (b1 - 0x80), 2)
      else if byte_between 0xE0 0xEF b0 \<and> second_byte b0 b1 \<and> cont_byte b2
      then ((b0 - 0xE0) * 4096 + (b1 - 0x80) * 64 + (b2 - 0x80), 3)
      else if byte_between 0xF0 0xF4 b0 \<and> second_byte b0 b1 \<and> cont_byte b2 \<and> cont_byte b3
      then ((b0 - 0xF0) * 262144 + (b1 - 0x80) * 4096 + (b2 - 0x80) * 64 + (b3 - 0x80), 4)
      else (0xFFFD, 1))"

definition decode_rune :: "string \<Rightarrow> nat \<times> nat" where
  "decode_rune s = decode_bytes (byte_at s 0) (byte_at s 1) (byte_at s 2) (byte_at s 3)"

lemma decode_rune_width: "0 < snd (decode_rune s)"
  by (simp add: decode_rune_def decode_bytes_def)

text \<open>The runes of a string, each with the bytes that encode it.\<close>

function runes :: "string \<Rightarrow> (nat \<times> string) list" where
  "runes s =
     (if s = [] then []
      else (case decode_rune s of (r, w) \<Rightarrow> (r, take w s) # runes (drop w s)))"
  by pat_completeness auto
termination
proof (relation "measure length", goal_cases)
  case (2 s p w)
  then have "snd (decode_rune s) = w" by (metis snd_conv)
  with 2 decode_rune_width [of s] show ?case by simp
qed simp

declare runes.simps [simp del]

definition rune_bytes :: "(nat \<times> string) list \<Rightarrow> string" where
  "rune_bytes rs = concat (map snd rs)"

text \<open>\<^verbatim>\<open>\p{Han}\<close>, the ranges of Unicode 15.\<close>

definition han_ranges :: "(nat \<times> nat) list" where
  "han_ranges =
     [(0x2E80, 0x2E99), (0x2E9B, 0x2EF3), (0x2F00, 0x2FD5), (0x3005, 0x3005), (0x3007, 0x3007), (0x3021, 0x3029),
      (0x3038, 0x303B), (0x3400, 0x4DBF), (0x4E00, 0x9FFF), (0xF900, 0xFA6D), (0xFA70, 0xFAD9), (0x16FE2, 0x16FE3),
      (0x16FF0, 0x16FF1), (0x20000, 0x2A6DF), (0x2A700, 0x2B739), (0x2B740, 0x2B81D), (0x2B820, 0x2CEA1),
      (0x2CEB0, 0x2EBE0), (0x2F800, 0x2FA1D), (0x30000, 0x3134A), (0x31350, 0x323AF)]"

definition is_han :: "nat \<Rightarrow> bool" where
  "is_han r = list_ex (\<lambda>(lo, hi). byte_between lo hi r) han_ranges"

text \<open>The complement of the character class of \<^verbatim>\<open>outboundTagUnsafePattern\<close>.\<close>

definition tag_rune :: "nat \<Rightarrow> bool" where
  "tag_rune r \<longleftrightarrow> byte_between 65 90 r \<or> byte_between 97 122 r \<or> byte_between 48 57 r \<or> r = 95 \<or> r = 46 \<or> r = 45 \<or> is_han r"

text \<open>\<^verbatim>\<open>outboundTagUnsafePattern.ReplaceAllString(value, "-")\<close>: one dash for a run of unsafe runes.\<close>

fun replace_unsafe :: "bool \<Rightarrow> (nat \<times> string) list \<Rightarrow> (nat \<times> string) list" where
  "replace_unsafe in_run [] = []"
| "replace_unsafe in_run ((r, bs) # rs) =
     (if tag_rune r then (r, bs) # replace_unsafe False rs
      else (if in_run then [] else [(45, ''-'')]) @ replace_unsafe True rs)"

definition trim_rune :: "nat \<times> string \<Rightarrow> bool" where
  "trim_rune p \<longleftrightarrow> fst p \<in> {45, 95, 46, 32}"

definition tag_runes :: "string \<Rightarrow> (nat \<times> string) list" where
  "tag_runes value =
     take 48 (rev (dropWhile trim_rune (rev (dropWhile trim_rune (replace_unsafe False (runes (TrimSpace value)))))))"

definition sanitizeOutboundTag :: "string \<Rightarrow> string" where
  "sanitizeOutboundTag value = rune_bytes (tag_runes value)"

section \<open>Tags of nodes\<close>

definition node_tag :: "Node \<Rightarrow> string" where
  "node_tag node =
     (let name = sanitizeOutboundTag (Name node); typ = sanitizeOutboundTag (node_type node);
          base = (if name \<noteq> [] then name else if typ \<noteq> [] then typ else ''node'')
      in base @ ''-'' @ UID node)"

definition buildNodeOutboundTags :: "Node list \<Rightarrow> (string \<times> string) list" where
  "buildNodeOutboundTags nodes = fold (\<lambda>node. map_put (UID node) (node_tag node)) nodes []"

definition tag_of :: "(string \<times> string) list \<Rightarrow> string \<Rightarrow> string" where
  "tag_of tags uid = (case map_of tags uid of None \<Rightarrow> [] | Some t \<Rightarrow> t)"

fun tags_from :: "string list \<Rightarrow> string list \<Rightarrow> (string \<times> string) list \<Rightarrow> string list" where
  "tags_from seen [] nodeTags = []"
| "tags_from seen (uid # uids) nodeTags =
     (let tag = tag_of nodeTags uid
      in if tag = [] \<or> tag \<in> set seen then tags_from seen uids nodeTags
         else tag # tags_from (tag # seen) uids nodeTags)"

definition nodeUIDsToOutboundTags :: "string list \<Rightarrow> (string \<times> string) list \<Rightarrow> string list" where
  "nodeUIDsToOutboundTags uids nodeTags = tags_from [] uids nodeTags"

fun appendUniqueStrings :: "string list \<Rightarrow> string list \<Rightarrow> string list" where
  "appendUniqueStrings values [] = values"
| "appendUniqueStrings values (a # additions) =
     (if a \<noteq> [] \<and> a \<notin> set values then appendUniqueStrings (values @ [a]) additions
      else appendUniqueStrings values additions)"

section \<open>Facts about tags\<close>

lemma tags_from_set: "set (tags_from seen uids tags) = tag_of tags ` set uids - {[]} - set seen"
  by (induction seen uids tags rule: tags_from.induct) (auto simp: Let_def)

lemma tags_from_distinct: "distinct (tags_from seen uids tags)"
  by (induction seen uids tags rule: tags_from.induct) (auto simp: Let_def tags_from_set)

lemma nodeUIDsToOutboundTags_set [simp]: "set (nodeUIDsToOutboundTags uids tags) = tag_of tags ` set uids - {[]}"
  by (simp add: nodeUIDsToOutboundTags_def tags_from_set)

lemma appendUniqueStrings_set [simp]: "set (appendUniqueStrings vs as) = set vs \<union> (set as - {[]})"
  by (induction vs as rule: appendUniqueStrings.induct) auto

lemma appendUniqueStrings_distinct: "distinct vs \<Longrightarrow> distinct (appendUniqueStrings vs as)"
  by (induction vs as rule: appendUniqueStrings.induct) auto

lemma replace_unsafe_runes: "p \<in> set (replace_unsafe b rs) \<Longrightarrow> tag_rune (fst p)"
  by (induction b rs rule: replace_unsafe.induct) (auto simp: tag_rune_def split: if_splits)

lemma tag_runes_allowed: "p \<in> set (tag_runes v) \<Longrightarrow> tag_rune (fst p)"
  unfolding tag_runes_def
  by (rule replace_unsafe_runes) (auto dest!: in_set_takeD set_dropWhileD)

text \<open>A decoded rune other than U+FFFD is determined by its bytes alone.\<close>

lemma byte_at_append: "i < length s \<Longrightarrow> byte_at (s @ t) i = byte_at s i"
  by (simp add: byte_at_def nth_append)

lemma byte_at_take: "i < w \<Longrightarrow> byte_at (take w s) i = byte_at s i"
  by (simp add: byte_at_def)

lemma byte_at_pos: "byte_at s i \<noteq> 0 \<Longrightarrow> i < length s"
  by (simp add: byte_at_def split: if_splits)

lemma cont_byte_pos: "cont_byte c \<Longrightarrow> 0 < c" "second_byte b c \<Longrightarrow> 0 < c"
  by (simp_all add: cont_byte_def second_byte_def byte_between_def split: if_split_asm)

lemma lead_ranges:
  "byte_between 0xC2 0xDF b \<Longrightarrow> \<not> b < 0x80 \<and> \<not> byte_between 0xE0 0xEF b \<and> \<not> byte_between 0xF0 0xF4 b"
  "byte_between 0xE0 0xEF b \<Longrightarrow> \<not> b < 0x80 \<and> \<not> byte_between 0xC2 0xDF b \<and> \<not> byte_between 0xF0 0xF4 b"
  "byte_between 0xF0 0xF4 b \<Longrightarrow> \<not> b < 0x80 \<and> \<not> byte_between 0xC2 0xDF b \<and> \<not> byte_between 0xE0 0xEF b"
  by (auto simp: byte_between_def)

lemma decode_bytes_cases:
  assumes "decode_bytes b0 b1 b2 b3 = (r, w)" and "r \<noteq> 0xFFFD"
  obtains "w = 1" and "\<And>c1 c2 c3. decode_bytes b0 c1 c2 c3 = (r, w)"
  | "w = 2" and "b1 \<noteq> 0" and "\<And>c2 c3. decode_bytes b0 b1 c2 c3 = (r, w)"
  | "w = 3" and "b1 \<noteq> 0" and "b2 \<noteq> 0" and "\<And>c3. decode_bytes b0 b1 b2 c3 = (r, w)"
  | "w = 4" and "b1 \<noteq> 0" and "b2 \<noteq> 0" and "b3 \<noteq> 0"
proof -
  note d = assms(1) [unfolded decode_bytes_def]
  consider "b0 < 0x80" | "byte_between 0xC2 0xDF b0" "cont_byte b1"
    | "byte_between 0xE0 0xEF b0" "second_byte b0 b1" "cont_byte b2"
    | "byte_between 0xF0 0xF4 b0" "second_byte b0 b1" "cont_byte b2" "cont_byte b3"
    using d assms(2) by (auto split: if_split_asm)
  then show ?thesis
  proof cases
    case 1
    with d show ?thesis by (intro that(1)) (simp_all add: decode_bytes_def)
  next
    case 2
    with d lead_ranges(1) [OF 2(1)] show ?thesis by (intro that(2)) (auto simp: decode_bytes_def cont_byte_pos)
  next
    case 3
    with d lead_ranges(2) [OF 3(1)] show ?thesis by (intro that(3)) (auto simp: decode_bytes_def cont_byte_pos)
  next
    case 4
    with d lead_ranges(3) [OF 4(1)] show ?thesis by (intro that(4)) (auto simp: cont_byte_pos)
  qed
qed

lemma decode_rune_again:
  assumes "decode_rune s = (r, w)" and "r \<noteq> 0xFFFD" and "s \<noteq> []"
  shows "decode_rune (take w s @ t) = (r, w)" and "length (take w s) = w"
proof -
  have same: "byte_at (take w s @ t) i = byte_at s i" if "i < w" "w \<le> length s" for i
    using that by (simp add: byte_at_append byte_at_take)
  note d = assms(1) [unfolded decode_rune_def]
  have "decode_rune (take w s @ t) = (r, w) \<and> w \<le> length s"
    using d assms(2)
  proof (cases rule: decode_bytes_cases)
    case 1
    with assms(3) same [of 0] show ?thesis by (simp add: decode_rune_def Suc_le_eq)
  next
    case 2
    with byte_at_pos [of s 1] same [of 0] same [of 1] show ?thesis by (simp add: decode_rune_def)
  next
    case 3
    with byte_at_pos [of s 2] same [of 0] same [of 1] same [of 2] show ?thesis by (simp add: decode_rune_def)
  next
    case 4
    with byte_at_pos [of s 3] same [of 0] same [of 1] same [of 2] same [of 3] d show ?thesis
      by (simp add: decode_rune_def)
  qed
  then show "decode_rune (take w s @ t) = (r, w)" "length (take w s) = w" by simp_all
qed

definition self_encoded :: "nat \<times> string \<Rightarrow> bool" where
  "self_encoded p \<longleftrightarrow> snd p \<noteq> [] \<and> (\<forall>t. decode_rune (snd p @ t) = (fst p, length (snd p)))"

lemma runes_encoded: "p \<in> set (runes s) \<Longrightarrow> fst p \<noteq> 0xFFFD \<Longrightarrow> self_encoded p"
proof (induction s rule: runes.induct)
  case (1 s)
  show ?case
  proof (cases "s = []")
    case False
    obtain r w where d: "decode_rune s = (r, w)" by (cases "decode_rune s")
    with False "1.prems"(1) have "p = (r, take w s) \<or> p \<in> set (runes (drop w s))"
      by (subst (asm) runes.simps) auto
    then show ?thesis
    proof
      assume p: "p = (r, take w s)"
      with "1.prems"(2) decode_rune_again [OF d _ False] decode_rune_width [of s] d False
      show ?thesis by (auto simp: self_encoded_def)
    next
      assume "p \<in> set (runes (drop w s))"
      with "1.IH" False d "1.prems"(2) show ?thesis by fastforce
    qed
  qed (use "1.prems" in \<open>simp add: runes.simps\<close>)
qed

lemma runes_rune_bytes: "list_all self_encoded rs \<Longrightarrow> runes (rune_bytes rs) = rs"
proof (induction rs)
  case Nil
  then show ?case by (simp add: rune_bytes_def runes.simps)
next
  case (Cons p rs)
  obtain r bs where p: "p = (r, bs)" by (cases p)
  with Cons.prems have "decode_rune (bs @ rune_bytes rs) = (r, length bs)" "bs \<noteq> []" by (auto simp: self_encoded_def)
  then have "runes (bs @ rune_bytes rs) = (r, bs) # runes (rune_bytes rs)"
    by (subst runes.simps) simp
  with Cons p show ?case by (simp add: rune_bytes_def)
qed

lemma replace_unsafe_encoded:
  "p \<in> set (replace_unsafe b rs) \<Longrightarrow> p = (45, ''-'') \<or> p \<in> set rs"
  by (induction b rs rule: replace_unsafe.induct) (auto split: if_splits)

lemma dash_encoded: "self_encoded (45, ''-'')"
  by (simp add: self_encoded_def decode_rune_def decode_bytes_def byte_at_def)

lemma tag_runes_encoded: "list_all self_encoded (tag_runes v)"
  unfolding list_all_iff
proof
  fix p
  assume p: "p \<in> set (tag_runes v)"
  then have "p \<in> set (replace_unsafe False (runes (TrimSpace v)))"
    unfolding tag_runes_def by (auto dest!: in_set_takeD set_dropWhileD)
  moreover have "fst p \<noteq> 0xFFFD"
    using tag_runes_allowed [OF p] by (auto simp: tag_rune_def byte_between_def is_han_def han_ranges_def)
  ultimately show "self_encoded p"
    using replace_unsafe_encoded dash_encoded runes_encoded by blast
qed

lemma hd_rev_trim: "rs \<noteq> [] \<Longrightarrow> \<not> P (hd rs) \<Longrightarrow> rev (dropWhile P (rev rs)) \<noteq> [] \<Longrightarrow> hd (rev (dropWhile P (rev rs))) = hd rs"
  by (metis append_is_Nil_conv hd_append2 rev_append rev_rev_ident takeWhile_dropWhile_id)

lemma tag_runes_head: "tag_runes v \<noteq> [] \<Longrightarrow> \<not> trim_rune (hd (tag_runes v))"
proof -
  assume ne: "tag_runes v \<noteq> []"
  define rs where "rs = dropWhile trim_rune (replace_unsafe False (runes (TrimSpace v)))"
  have t: "tag_runes v = take 48 (rev (dropWhile trim_rune (rev rs)))" by (simp add: tag_runes_def rs_def)
  with ne have "rs \<noteq> []" "rev (dropWhile trim_rune (rev rs)) \<noteq> []" by auto
  moreover have "\<not> trim_rune (hd rs)" using \<open>rs \<noteq> []\<close> by (simp add: rs_def hd_dropWhile)
  ultimately show ?thesis by (simp add: t hd_take hd_rev_trim)
qed

text \<open>Whatever a node is called, its name in a generated tag is short and plain: the sanitised
  text decodes to at most 48 runes, all of them ASCII letters, digits, \<open>_\<close>, \<open>.\<close>, \<open>-\<close> or Han characters,
  and does not start with punctuation.\<close>

theorem sanitized_tag_plain:
  "length (runes (sanitizeOutboundTag v)) \<le> 48 \<and>
   list_all (\<lambda>p. tag_rune (fst p)) (runes (sanitizeOutboundTag v)) \<and>
   list_all (\<lambda>p. \<not> trim_rune p) (take 1 (runes (sanitizeOutboundTag v)))"
proof -
  have r: "runes (sanitizeOutboundTag v) = tag_runes v"
    unfolding sanitizeOutboundTag_def by (rule runes_rune_bytes [OF tag_runes_encoded])
  have "length (tag_runes v) \<le> 48" by (simp add: tag_runes_def)
  moreover have "list_all (\<lambda>p. tag_rune (fst p)) (tag_runes v)"
    by (simp add: list_all_iff tag_runes_allowed)
  moreover have "list_all (\<lambda>p. \<not> trim_rune p) (take 1 (tag_runes v))"
    using tag_runes_head [of v] by (cases "tag_runes v") simp_all
  ultimately show ?thesis unfolding r by blast
qed

text \<open>The two shapes of a stored UID: 16 digits, or 16 digits, a hash and a four-digit suffix.\<close>

definition uid_shape :: "string \<Rightarrow> bool" where
  "uid_shape u \<longleftrightarrow> length u = 16 \<and> CHR ''-'' \<notin> set u \<or>
     length u = 38 \<and> u ! 33 = CHR ''-'' \<and> CHR ''-'' \<notin> set (drop 34 u)"

definition last_part :: "string \<Rightarrow> string" where
  "last_part s = rev (takeWhile (\<lambda>c. c \<noteq> CHR ''-'') (rev s))"

lemma last_part_append: "CHR ''-'' \<notin> set t \<Longrightarrow> last_part (s @ CHR ''-'' # t) = t"
proof -
  assume "CHR ''-'' \<notin> set t"
  then have "takeWhile (\<lambda>c. c \<noteq> CHR ''-'') (rev t @ CHR ''-'' # rev s) = rev t"
    by (subst takeWhile_append2) auto
  then show ?thesis by (simp add: last_part_def)
qed

lemma last_part_tag:
  assumes "uid_shape u"
  shows "length (last_part (b @ CHR ''-'' # u)) = (if length u = 16 then 16 else 4)"
  using assms unfolding uid_shape_def
proof (elim disjE conjE)
  assume "length u = 16" and "CHR ''-'' \<notin> set u"
  then show ?thesis by (simp add: last_part_append)
next
  assume u: "length u = 38" "u ! 33 = CHR ''-''" "CHR ''-'' \<notin> set (drop 34 u)"
  then have "u = take 33 u @ CHR ''-'' # drop 34 u" using id_take_nth_drop [of 33 u] by simp
  then have "b @ CHR ''-'' # u = (b @ CHR ''-'' # take 33 u) @ CHR ''-'' # drop 34 u" by simp
  with u last_part_append [OF u(3), of "b @ CHR ''-'' # take 33 u"] show ?thesis by simp
qed

lemma tag_uid_inject:
  assumes "uid_shape u" and "uid_shape v" and eq: "b @ CHR ''-'' # u = c @ CHR ''-'' # v"
  shows "u = v"
proof -
  have "(length u = 16) = (length v = 16)"
    using last_part_tag [OF assms(1), of b] last_part_tag [OF assms(2), of c] eq by (simp split: if_split_asm)
  then have "length u = length v" using assms(1,2) by (auto simp: uid_shape_def)
  with eq show ?thesis by (metis append_eq_append_conv length_Cons list.inject)
qed

lemma node_tag_split: "\<exists>b. node_tag n = b @ CHR ''-'' # UID n"
  by (simp add: node_tag_def Let_def)

lemma tags_built:
  "map_of (fold (\<lambda>node. map_put (UID node) (node_tag node)) ns m) u = Some t \<Longrightarrow>
   map_of m u = Some t \<or> (\<exists>n\<in>set ns. UID n = u \<and> t = node_tag n)"
  by (induction ns arbitrary: m) (fastforce split: if_split_asm)+

text \<open>Every enabled node gets its own outbound tag: the tags generated for two different stored
  UIDs are different and not empty, whatever the nodes are called, so that no group member can mean
  another node.\<close>

theorem node_tags_distinct:
  assumes "list_all (\<lambda>n. uid_shape (UID n)) nodes"
    and "map_of (buildNodeOutboundTags nodes) u = Some t" and "map_of (buildNodeOutboundTags nodes) v = Some t"
  shows "u = v \<and> t \<noteq> []"
proof -
  from assms(2) obtain m where m: "m \<in> set nodes" "UID m = u" "t = node_tag m"
    unfolding buildNodeOutboundTags_def by (auto dest!: tags_built)
  from assms(3) obtain n where n: "n \<in> set nodes" "UID n = v" "t = node_tag n"
    unfolding buildNodeOutboundTags_def by (auto dest!: tags_built)
  have s: "uid_shape u" "uid_shape v" using assms(1) m n by (auto simp: list_all_iff)
  obtain b where "t = b @ CHR ''-'' # u" using node_tag_split [of m] m by auto
  moreover obtain c where "t = c @ CHR ''-'' # v" using node_tag_split [of n] n by auto
  ultimately show ?thesis using tag_uid_inject [OF s, of b c] by simp
qed

definition sample_nodes :: "Node list" where
  "sample_nodes =
     [\<lparr>UID = ''0011223344556677'', SubscriptionID = 1, Name = ''JP 1'', node_type = ''trojan'', RawJSON = Object []\<rparr>,
      \<lparr>UID = ''0011223344556677-8899aabbccddeeff-0002'', SubscriptionID = 1, Name = ''JP/1'', node_type = ''trojan'', RawJSON = Object []\<rparr>]"

theorem node_tags_distinct_witness:
  "map_of (buildNodeOutboundTags sample_nodes) ''0011223344556677'' \<noteq>
   map_of (buildNodeOutboundTags sample_nodes) ''0011223344556677-8899aabbccddeeff-0002'' \<and>
   map_of (buildNodeOutboundTags sample_nodes) ''0011223344556677'' = Some ''JP-1-0011223344556677''"
proof -
  have t: "map_of (buildNodeOutboundTags sample_nodes) ''0011223344556677'' = Some ''JP-1-0011223344556677''"
    by code_simp
  have shape: "list_all (\<lambda>n. uid_shape (UID n)) sample_nodes" by code_simp
  show ?thesis using node_tags_distinct [OF shape t, of "''0011223344556677-8899aabbccddeeff-0002''"] t by auto
qed

end
