(* ===== verification/Chain_Apply.thy ===== *)
theory Chain_Apply
  imports Chain_Filter Outbound_Tags
begin

text \<open>
  \<^verbatim>\<open>applySubscriptionNodeChains\<close> of \<^verbatim>\<open>service/node_chain.go\<close>: the detours and chain groups of the
  generated configuration, and that a chained node never falls back to a direct connection.
\<close>

section \<open>Chains in the generated outbounds\<close>

datatype chain_error =
    ChainMetadataInvalid string
  | ChainDependencyMissing string
  | ChainNodeNotGenerated string
  | ChainGroupInvalid string

text \<open>
  \<^verbatim>\<open>byTag\<close> maps a tag to the last item with it, and the code writes through that reference.  The
  items are the outbounds followed by the endpoints; \<open>last_tagged\<close> reads and \<open>put_detour\<close> writes the
  last item with the tag, and both are \<open>None\<close> when there is none.
\<close>

fun last_tagged :: "string \<Rightarrow> goval list \<Rightarrow> gomap option" where
  "last_tagged tag [] = None"
| "last_tagged tag (x # xs) =
     (case last_tagged tag xs of
        Some m \<Rightarrow> Some m
      | None \<Rightarrow> (case x of VMap m \<Rightarrow> if as_string (map_get m ''tag'') = tag then Some m else None | _ \<Rightarrow> None))"

fun put_detour :: "string \<Rightarrow> string \<Rightarrow> goval list \<Rightarrow> goval list option" where
  "put_detour tag d [] = None"
| "put_detour tag d (x # xs) =
     (case put_detour tag d xs of
        Some xs' \<Rightarrow> Some (x # xs')
      | None \<Rightarrow>
          (case x of
             VMap m \<Rightarrow> if as_string (map_get m ''tag'') = tag then Some (VMap (map_put ''detour'' (VStr d) m) # xs) else None
           | _ \<Rightarrow> None))"

definition node_available :: "Node list \<Rightarrow> int \<Rightarrow> string \<Rightarrow> bool" where
  "node_available nodes sub uid = list_ex (\<lambda>n. SubscriptionID n = sub \<and> UID n = uid) nodes"

text \<open>A group ID that occurs twice in one chain means its last group.\<close>

definition local_group :: "NodeChain \<Rightarrow> string \<Rightarrow> NodeChainGroup option" where
  "local_group chain ref = find (\<lambda>g. ID g = ref) (rev (Groups chain))"

definition group_tag :: "int \<Rightarrow> NodeChain \<Rightarrow> string \<Rightarrow> string" where
  "group_tag sub chain ref =
     (let name = sanitizeOutboundTag (case local_group chain ref of None \<Rightarrow> [] | Some g \<Rightarrow> group_name g)
      in ''ackwrap-chain-'' @ show_int sub @ ''-'' @ name @ ''-'' @ TrimPrefix ref NodeChainGroupPrefix)"

definition resolve_chain_ref ::
  "Node list \<Rightarrow> (string \<times> string) list \<Rightarrow> Node \<Rightarrow> NodeChain \<Rightarrow> string \<Rightarrow> chain_error + string" where
  "resolve_chain_ref nodes generatedTags node chain ref =
     (let missing = Inl (ChainDependencyMissing (Name node)) in
      if ref = NodeChainDirect then Inr ''direct''
      else if prefix NodeChainNodePrefix ref
      then (let uid = TrimPrefix ref NodeChainNodePrefix; tag = tag_of generatedTags uid
            in if tag \<noteq> [] \<and> node_available nodes (SubscriptionID node) uid then Inr tag else missing)
      else if prefix NodeChainGroupPrefix ref \<and> local_group chain ref \<noteq> None
      then Inr (group_tag (SubscriptionID node) chain ref)
      else missing)"

fun res_map :: "('a \<Rightarrow> 'e + 'b) \<Rightarrow> 'a list \<Rightarrow> 'e + 'b list" where
  "res_map f [] = Inr []"
| "res_map f (x # xs) = res_bind (f x) (\<lambda>y. res_bind (res_map f xs) (\<lambda>ys. Inr (y # ys)))"

definition put_str :: "string \<Rightarrow> string \<Rightarrow> gomap \<Rightarrow> gomap" where
  "put_str k s m = (if s = [] then m else map_put k (VStr s) m)"

definition urltest_fields :: "NodeChainGroup \<Rightarrow> gomap \<Rightarrow> gomap" where
  "urltest_fields g m =
     (let m1 = put_str ''idle_timeout'' (IdleTimeout g) (put_str ''interval'' (Interval g) (put_str ''url'' (URL g) m))
      in if Tolerance g \<noteq> 0 then map_put ''tolerance'' (VInt (Tolerance g)) m1 else m1)"

definition generate_group ::
  "(string \<Rightarrow> chain_error + string) \<Rightarrow> string \<Rightarrow> NodeChainGroup \<Rightarrow> chain_error + gomap" where
  "generate_group resolve tag g =
     res_bind (res_map resolve (Outbounds g)) (\<lambda>members.
       let m1 = [(''type'', VStr (group_type g)), (''tag'', VStr tag), (''outbounds'', VStrList members)];
           m2 = (if InterruptExistConnections g then map_put ''interrupt_exist_connections'' (VBool True) m1 else m1)
       in res_bind (if group_type g = ''selector'' \<and> Default g \<noteq> []
                    then res_bind (resolve (Default g)) (\<lambda>d. Inr (map_put ''default'' (VStr d) m2))
                    else Inr m2)
            (\<lambda>m3. Inr (if group_type g = ''urltest'' then urltest_fields g m3 else m3)))"

text \<open>\<open>added\<close> are the groups appended so far, by tag.\<close>

definition add_group ::
  "Node list \<Rightarrow> (string \<times> string) list \<Rightarrow> Node \<Rightarrow> NodeChain \<Rightarrow> (string \<times> gomap) list \<Rightarrow> NodeChainGroup \<Rightarrow>
   chain_error + (string \<times> gomap) list" where
  "add_group nodes generatedTags node chain added g =
     (if group_type g \<noteq> ''selector'' \<and> group_type g \<noteq> ''urltest'' \<or> Outbounds g = []
      then Inl (ChainGroupInvalid (Name node))
      else let tag = group_tag (SubscriptionID node) chain (ID g)
           in if has_key added tag then Inr added
              else res_bind (generate_group (resolve_chain_ref nodes generatedTags node chain) tag g)
                     (\<lambda>m. Inr (added @ [(tag, m)])))"

definition chain_node ::
  "(rat \<Rightarrow> string) \<Rightarrow> Node list \<Rightarrow> (string \<times> string) list \<Rightarrow> goval list \<times> (string \<times> gomap) list \<Rightarrow> Node \<Rightarrow>
   chain_error + goval list \<times> (string \<times> gomap) list" where
  "chain_node ff nodes generatedTags state node =
     (case RawJSON node of
        NotAnObject \<Rightarrow> Inr state
      | data \<Rightarrow>
         (case DecodeNodeChain ff (node_options data) of
            Inl _ \<Rightarrow> Inl (ChainMetadataInvalid (Name node))
          | Inr None \<Rightarrow> Inr state
          | Inr (Some chain) \<Rightarrow>
             (let (items, added) = state; resolve = resolve_chain_ref nodes generatedTags node chain;
                  tag = tag_of generatedTags (UID node)
              in case last_tagged tag items of
                   None \<Rightarrow> Inl (ChainNodeNotGenerated (Name node))
                 | Some _ \<Rightarrow>
                     res_bind (resolve (Detour chain)) (\<lambda>d.
                     res_bind (res_fold (add_group nodes generatedTags node chain) added (Groups chain)) (\<lambda>added'.
                     Inr (the (put_detour tag d items), added'))))))"

definition applySubscriptionNodeChains ::
  "(rat \<Rightarrow> string) \<Rightarrow> Node list \<Rightarrow> (string \<times> string) list \<Rightarrow> goval list \<Rightarrow> goval list \<Rightarrow>
   chain_error + goval list \<times> goval list" where
  "applySubscriptionNodeChains ff nodes generatedTags outbounds endpoints =
     res_bind (res_fold (chain_node ff nodes generatedTags) (outbounds @ endpoints, []) nodes) (\<lambda>(items, added).
       Inr (take (length outbounds) items @ map (\<lambda>(_, m). VMap m) added, drop (length outbounds) items))"

section \<open>Facts about the items\<close>

lemma put_detour_none: "put_detour tag d xs = None \<longleftrightarrow> last_tagged tag xs = None"
  by (induction xs) (auto split: option.splits goval.splits)

lemma put_detour_length: "put_detour tag d xs = Some ys \<Longrightarrow> length ys = length xs"
  by (induction xs arbitrary: ys) (auto split: option.splits goval.splits if_splits)

lemma put_detour_same:
  "put_detour tag d xs = Some ys \<Longrightarrow>
   last_tagged tag ys = map_option (map_put ''detour'' (VStr d)) (last_tagged tag xs)"
proof (induction xs arbitrary: ys)
  case (Cons x xs)
  show ?case
  proof (cases "put_detour tag d xs")
    case None
    then have "last_tagged tag xs = None" by (simp add: put_detour_none)
    with None Cons.prems show ?thesis by (auto split: goval.splits if_splits)
  next
    case (Some zs)
    then obtain m where "last_tagged tag xs = Some m" using put_detour_none [of tag d xs] by fastforce
    with Some Cons show ?thesis by auto
  qed
qed simp

lemma put_detour_other:
  "put_detour tag d xs = Some ys \<Longrightarrow> t \<noteq> tag \<Longrightarrow> last_tagged t ys = last_tagged t xs"
  by (induction xs arbitrary: ys) (auto split: option.splits goval.splits if_splits)

section \<open>What a reference may resolve to\<close>

text \<open>
  The specification of a resolved reference: the direct outbound only when the chain itself names
  it, the generated tag of a node of the same subscription, or a group of the same chain.
\<close>

definition chain_target :: "Node list \<Rightarrow> (string \<times> string) list \<Rightarrow> int \<Rightarrow> NodeChain \<Rightarrow> string \<Rightarrow> string \<Rightarrow> bool" where
  "chain_target nodes tags sub c ref d \<longleftrightarrow>
     ref = NodeChainDirect \<and> d = ''direct'' \<or>
     (\<exists>n\<in>set nodes. SubscriptionID n = sub \<and> ref = NodeChainNodePrefix @ UID n \<and> d = tag_of tags (UID n) \<and> d \<noteq> []) \<or>
     (\<exists>g\<in>set (Groups c). ref = ID g \<and> d = group_tag sub c ref)"

lemma find_rev_Some: "find P (rev xs) = Some x \<Longrightarrow> x \<in> set xs \<and> P x"
  by (metis find_Some_iff nth_mem set_rev)

lemma resolve_target:
  assumes "resolve_chain_ref nodes tags node c ref = Inr d"
  shows "chain_target nodes tags (SubscriptionID node) c ref d"
proof -
  consider (direct) "ref = NodeChainDirect" "d = ''direct''"
    | (node) uid where "ref = NodeChainNodePrefix @ uid" "node_available nodes (SubscriptionID node) uid"
        "d = tag_of tags uid" "d \<noteq> []"
    | (group) g where "local_group c ref = Some g" "d = group_tag (SubscriptionID node) c ref"
    using assms by (auto simp: resolve_chain_ref_def Let_def TrimPrefix_def prefix_def split: if_split_asm)
  then show ?thesis
  proof cases
    case direct
    then show ?thesis by (simp add: chain_target_def)
  next
    case node
    then show ?thesis by (auto simp: chain_target_def node_available_def list_ex_iff)
  next
    case group
    then show ?thesis by (auto simp: chain_target_def local_group_def dest!: find_rev_Some)
  qed
qed

lemma res_map_all2: "res_map f xs = Inr ys \<Longrightarrow> list_all2 (\<lambda>x y. f x = Inr y) xs ys"
  by (induction xs arbitrary: ys) (auto simp: go_result)

lemma get_urltest_fields:
  "k \<notin> {''url'', ''interval'', ''idle_timeout'', ''tolerance''} \<Longrightarrow> map_get (urltest_fields g m) k = map_get m k"
  by (simp add: urltest_fields_def put_str_def Let_def)

definition group_item :: "Node list \<Rightarrow> (string \<times> string) list \<Rightarrow> int \<Rightarrow> NodeChain \<Rightarrow> NodeChainGroup \<Rightarrow> string \<Rightarrow> gomap \<Rightarrow> bool" where
  "group_item nodes tags sub c g tag m \<longleftrightarrow>
     map_get m ''tag'' = VStr tag \<and> map_get m ''type'' = VStr (group_type g) \<and>
     group_type g \<in> {''selector'', ''urltest''} \<and>
     (\<exists>ms. map_get m ''outbounds'' = VStrList ms \<and> ms \<noteq> [] \<and> list_all2 (chain_target nodes tags sub c) (Outbounds g) ms)"

lemma generate_group_item:
  assumes "generate_group (resolve_chain_ref nodes tags node c) tag g = Inr m"
    and "group_type g = ''selector'' \<or> group_type g = ''urltest''" and "Outbounds g \<noteq> []"
  shows "group_item nodes tags (SubscriptionID node) c g tag m"
proof -
  from assms(1) obtain ms where ms: "res_map (resolve_chain_ref nodes tags node c) (Outbounds g) = Inr ms"
    and m: "map_get m ''tag'' = VStr tag \<and> map_get m ''type'' = VStr (group_type g) \<and> map_get m ''outbounds'' = VStrList ms"
    by (auto simp: generate_group_def go_result Let_def get_urltest_fields map_get_def [of "_ # _"] split: if_split_asm)
  from res_map_all2 [OF ms] have "list_all2 (chain_target nodes tags (SubscriptionID node) c) (Outbounds g) ms"
    by (rule list_all2_mono) (rule resolve_target)
  moreover from this assms(3) have "ms \<noteq> []" by auto
  ultimately show ?thesis using m assms(2) by (auto simp: group_item_def)
qed

definition groups_sound :: "(rat \<Rightarrow> string) \<Rightarrow> Node list \<Rightarrow> (string \<times> string) list \<Rightarrow> (string \<times> gomap) list \<Rightarrow> bool" where
  "groups_sound ff nodes tags added \<longleftrightarrow>
     (\<forall>(tag, m)\<in>set added. \<exists>node\<in>set nodes. \<exists>c. DecodeNodeChain ff (node_options (RawJSON node)) = Inr (Some c) \<and>
        (\<exists>g\<in>set (Groups c). tag = group_tag (SubscriptionID node) c (ID g) \<and>
           group_item nodes tags (SubscriptionID node) c g tag m))"

lemma add_group_sound:
  assumes "add_group nodes tags node c added g = Inr added'" and "groups_sound ff nodes tags added"
    and "node \<in> set nodes" and "DecodeNodeChain ff (node_options (RawJSON node)) = Inr (Some c)" and "g \<in> set (Groups c)"
  shows "groups_sound ff nodes tags added' \<and> set added \<subseteq> set added' \<and>
    has_key added' (group_tag (SubscriptionID node) c (ID g))"
proof -
  let ?tag = "group_tag (SubscriptionID node) c (ID g)"
  have ok: "group_type g = ''selector'' \<or> group_type g = ''urltest''" "Outbounds g \<noteq> []"
    using assms(1) by (auto simp: add_group_def split: if_split_asm)
  show ?thesis
  proof (cases "has_key added ?tag")
    case True
    with assms ok show ?thesis by (auto simp: add_group_def Let_def)
  next
    case False
    with assms(1) ok obtain m where
      gen: "generate_group (resolve_chain_ref nodes tags node c) ?tag g = Inr m" and a: "added' = added @ [(?tag, m)]"
      by (auto simp: add_group_def Let_def go_result split: if_split_asm)
    from generate_group_item [OF gen ok] assms(2-) show ?thesis
      unfolding a groups_sound_def by (auto simp: has_key_iff)
  qed
qed

lemma add_groups_sound:
  assumes "res_fold (add_group nodes tags node c) added gs = Inr added'" and "groups_sound ff nodes tags added"
    and "node \<in> set nodes" and "DecodeNodeChain ff (node_options (RawJSON node)) = Inr (Some c)" and "set gs \<subseteq> set (Groups c)"
  shows "groups_sound ff nodes tags added' \<and> set added \<subseteq> set added' \<and>
    (\<forall>g\<in>set gs. has_key added' (group_tag (SubscriptionID node) c (ID g)))"
  using assms(1,2,5)
proof (induction gs arbitrary: added)
  case (Cons g gs)
  then obtain mid where mid: "add_group nodes tags node c added g = Inr mid"
      "res_fold (add_group nodes tags node c) mid gs = Inr added'"
    by (auto simp: go_result)
  from add_group_sound [OF mid(1) Cons.prems(2) assms(3,4)] Cons.prems(3)
  have m: "groups_sound ff nodes tags mid" "set added \<subseteq> set mid" "has_key mid (group_tag (SubscriptionID node) c (ID g))"
    by auto
  from Cons.IH [OF mid(2) m(1)] Cons.prems(3) m(2,3) show ?case by (auto simp: has_key_iff)
qed simp

section \<open>Chained nodes after generation\<close>

definition detour_set :: "(string \<times> string) list \<Rightarrow> Node list \<Rightarrow> Node \<Rightarrow> NodeChain \<Rightarrow> goval list \<Rightarrow> bool" where
  "detour_set tags nodes node c items \<longleftrightarrow>
     (\<exists>m d. last_tagged (tag_of tags (UID node)) items = Some m \<and> map_get m ''detour'' = VStr d \<and>
        chain_target nodes tags (SubscriptionID node) c (Detour c) d)"

definition groups_present :: "Node \<Rightarrow> NodeChain \<Rightarrow> (string \<times> gomap) list \<Rightarrow> bool" where
  "groups_present node c added \<longleftrightarrow> (\<forall>g\<in>set (Groups c). has_key added (group_tag (SubscriptionID node) c (ID g)))"

lemma chain_node_plain:
  "\<not> nodeHasChain (RawJSON node) \<Longrightarrow> chain_node ff nodes tags state node = Inr state"
  by (auto simp: nodeHasChain_def chain_node_def node_options_def DecodeNodeChain_def has_key_def
      split: config_data.splits option.splits)

lemma chain_node_chained:
  assumes "chain_node ff nodes tags (items, added) node = Inr (items', added')" and "nodeHasChain (RawJSON node)"
    and "groups_sound ff nodes tags added" and "node \<in> set nodes"
  obtains c where "DecodeNodeChain ff (node_options (RawJSON node)) = Inr (Some c)"
    and "detour_set tags nodes node c items'" and "length items' = length items"
    and "\<forall>t. t \<noteq> tag_of tags (UID node) \<longrightarrow> last_tagged t items' = last_tagged t items"
    and "groups_sound ff nodes tags added'" and "set added \<subseteq> set added'" and "groups_present node c added'"
proof -
  let ?tag = "tag_of tags (UID node)"
  obtain raw where raw: "RawJSON node = Object raw" "has_key raw NodeChainMetadataKey"
    using assms(2) by (auto simp: nodeHasChain_def split: config_data.splits)
  then obtain c where c: "DecodeNodeChain ff (node_options (RawJSON node)) = Inr (Some c)"
    using assms(1) by (auto simp: chain_node_def node_options_def DecodeNodeChain_def has_key_def split: option.splits if_split_asm)
  have r: "node_options (Object raw) = raw" by (simp add: node_options_def)
  obtain m d where m: "last_tagged ?tag items = Some m"
    and d: "resolve_chain_ref nodes tags node c (Detour c) = Inr d"
    and g: "res_fold (add_group nodes tags node c) added (Groups c) = Inr added'"
    and i: "items' = the (put_detour ?tag d items)"
    using assms(1) c raw(1) by (auto simp: chain_node_def r go_result Let_def split: option.splits)
  obtain ys where p: "put_detour ?tag d items = Some ys" using m put_detour_none [of ?tag d items] by fastforce
  with i have ys: "items' = ys" by simp
  show ?thesis
  proof (rule that [OF c])
    show "detour_set tags nodes node c items'"
      using put_detour_same [OF p] m resolve_target [OF d] by (simp add: detour_set_def ys)
    show "length items' = length items" using put_detour_length [OF p] ys by simp
    show "\<forall>t. t \<noteq> ?tag \<longrightarrow> last_tagged t items' = last_tagged t items"
      using put_detour_other [OF p] ys by simp
  qed (use add_groups_sound [OF g assms(3,4) c] in \<open>auto simp: groups_present_def\<close>)
qed

abbreviation chained :: "Node \<Rightarrow> bool" where
  "chained node \<equiv> nodeHasChain (RawJSON node)"

text \<open>
  The detour under a tag is the one of the last chained node with that tag; a connection listed by two
  subscriptions has one UID and one tag.
\<close>

definition tag_detoured :: "(rat \<Rightarrow> string) \<Rightarrow> (string \<times> string) list \<Rightarrow> Node list \<Rightarrow> Node \<Rightarrow> goval list \<Rightarrow> bool" where
  "tag_detoured ff tags nodes node items \<longleftrightarrow>
     (\<exists>n\<in>set nodes. chained n \<and> tag_of tags (UID n) = tag_of tags (UID node) \<and>
        (\<exists>c. DecodeNodeChain ff (node_options (RawJSON n)) = Inr (Some c) \<and> detour_set tags nodes n c items))"

lemma chain_nodes_sound:
  assumes "res_fold (chain_node ff nodes tags) (items, added) ns = Inr (items', added')"
    and "groups_sound ff nodes tags added" and "set ns \<subseteq> set nodes"
  shows "groups_sound ff nodes tags added' \<and> set added \<subseteq> set added' \<and> length items' = length items \<and>
    (\<forall>t. t \<notin> (\<lambda>n. tag_of tags (UID n)) ` set (filter chained ns) \<longrightarrow> last_tagged t items' = last_tagged t items) \<and>
    (\<forall>n\<in>set ns. chained n \<longrightarrow> (\<exists>c. DecodeNodeChain ff (node_options (RawJSON n)) = Inr (Some c) \<and>
       groups_present n c added') \<and> tag_detoured ff tags nodes n items')"
  using assms
proof (induction ns arbitrary: items added)
  case (Cons n ns)
  then obtain i1 a1 where s: "chain_node ff nodes tags (items, added) n = Inr (i1, a1)"
    and rest: "res_fold (chain_node ff nodes tags) (i1, a1) ns = Inr (items', added')"
    by (auto simp: go_result)
  show ?case
  proof (cases "chained n")
    case False
    with chain_node_plain s Cons rest show ?thesis by auto
  next
    case True
    have n: "n \<in> set nodes" using Cons.prems by simp
    then obtain c where c: "DecodeNodeChain ff (node_options (RawJSON n)) = Inr (Some c)"
      "detour_set tags nodes n c i1" "length i1 = length items"
      "\<forall>t. t \<noteq> tag_of tags (UID n) \<longrightarrow> last_tagged t i1 = last_tagged t items"
      "groups_sound ff nodes tags a1" "set added \<subseteq> set a1" "groups_present n c a1"
      by (rule chain_node_chained [OF s True Cons.prems(2)])
    from Cons.IH [OF rest c(5)] Cons.prems(3)
    have ih: "groups_sound ff nodes tags added'" "set a1 \<subseteq> set added'" "length items' = length i1"
      "\<And>t. t \<notin> (\<lambda>n. tag_of tags (UID n)) ` set (filter chained ns) \<Longrightarrow> last_tagged t items' = last_tagged t i1"
      "\<forall>n\<in>set ns. chained n \<longrightarrow> (\<exists>c. DecodeNodeChain ff (node_options (RawJSON n)) = Inr (Some c) \<and>
         groups_present n c added') \<and> tag_detoured ff tags nodes n items'"
      by auto
    have "tag_detoured ff tags nodes n items'"
    proof (cases "tag_of tags (UID n) \<in> (\<lambda>n. tag_of tags (UID n)) ` set (filter chained ns)")
      case True
      with ih(5) show ?thesis by (auto simp: tag_detoured_def)
    next
      case False
      with ih(4) c(2) have "detour_set tags nodes n c items'" by (simp add: detour_set_def)
      with n True c(1) show ?thesis by (auto simp: tag_detoured_def)
    qed
    moreover have "groups_present n c added'" using c(7) ih(2) by (auto simp: groups_present_def has_key_iff)
    ultimately show ?thesis using ih c True by auto
  qed
qed simp

lemma apply_chains_sound:
  assumes "applySubscriptionNodeChains ff nodes tags obs eps = Inr (obs', eps')"
  shows "\<exists>items added. obs' = take (length obs) items @ map (\<lambda>(_, m). VMap m) (added :: (string \<times> gomap) list) \<and>
    take (length obs) obs' @ eps' = items \<and> groups_sound ff nodes tags added \<and>
    (\<forall>n\<in>set nodes. chained n \<longrightarrow> (\<exists>c. DecodeNodeChain ff (node_options (RawJSON n)) = Inr (Some c) \<and>
       groups_present n c added) \<and> tag_detoured ff tags nodes n items)"
proof -
  obtain items added where f: "res_fold (chain_node ff nodes tags) (obs @ eps, []) nodes = Inr (items, added)"
    and o: "obs' = take (length obs) items @ map (\<lambda>(_, m). VMap m) added" "eps' = drop (length obs) items"
    using assms(1) by (auto simp: applySubscriptionNodeChains_def go_result)
  have s: "groups_sound ff nodes tags added" "length items = length (obs @ eps)"
    "\<forall>n\<in>set nodes. chained n \<longrightarrow> (\<exists>c. DecodeNodeChain ff (node_options (RawJSON n)) = Inr (Some c) \<and>
       groups_present n c added) \<and> tag_detoured ff tags nodes n items"
    using chain_nodes_sound [OF f] by (simp_all add: groups_sound_def)
  then have "take (length obs) obs' @ eps' = items" using o by simp
  with o s show ?thesis by blast
qed

text \<open>C4. A chained node never connects directly unless its chain says so: after generation, the last
  outbound or endpoint under the tag of a node with chain metadata has a detour.  It is the direct outbound
  only when the chain names it, and otherwise the tag of a generated node of the same subscription or
  of a group of the same chain.  The chain is that of the node, or, where several chained nodes
  share the tag because two subscriptions list the same connection, that of one of them.  Unreadable
  metadata, or a node that was not generated, is an error.\<close>

theorem chained_node_keeps_detour:
  assumes "applySubscriptionNodeChains ff nodes tags obs eps = Inr (obs', eps')"
    and "node \<in> set nodes" and "nodeHasChain (RawJSON node)"
  shows "\<exists>n\<in>set nodes. \<exists>c m d.
    nodeHasChain (RawJSON n) \<and> tag_of tags (UID n) = tag_of tags (UID node) \<and>
    (distinct (map (\<lambda>n. tag_of tags (UID n)) (filter (\<lambda>n. nodeHasChain (RawJSON n)) nodes)) \<longrightarrow> n = node) \<and>
    DecodeNodeChain ff (node_options (RawJSON n)) = Inr (Some c) \<and>
    last_tagged (tag_of tags (UID node)) (take (length obs) obs' @ eps') = Some m \<and>
    map_get m ''detour'' = VStr d \<and> chain_target nodes tags (SubscriptionID n) c (Detour c) d"
proof -
  obtain items where i: "take (length obs) obs' @ eps' = items" and t: "tag_detoured ff tags nodes node items"
    using apply_chains_sound [OF assms(1)] assms(2,3) by blast
  from t obtain n c where n: "n \<in> set nodes" "chained n" "tag_of tags (UID n) = tag_of tags (UID node)"
    and c: "DecodeNodeChain ff (node_options (RawJSON n)) = Inr (Some c)" "detour_set tags nodes n c items"
    unfolding tag_detoured_def by blast
  have "n = node" if "distinct (map (\<lambda>n. tag_of tags (UID n)) (filter chained nodes))"
    using that n assms(2,3) by (auto simp: distinct_map dest: inj_onD)
  with n c i show ?thesis unfolding detour_set_def by metis
qed

text \<open>Chain groups are complete: for every group a chained node relies on, the generated
  configuration holds a selector or URL test under that group's tag with at least one member, and all
  its members are resolved references of a chain that defines the group, none of them dangling.\<close>

theorem chain_groups_generated:
  assumes "applySubscriptionNodeChains ff nodes tags obs eps = Inr (obs', eps')"
    and "node \<in> set nodes" and "DecodeNodeChain ff (node_options (RawJSON node)) = Inr (Some c)" and "g \<in> set (Groups c)"
  shows "\<exists>m. VMap m \<in> set obs' \<and> (\<exists>n'\<in>set nodes. \<exists>c'. DecodeNodeChain ff (node_options (RawJSON n')) = Inr (Some c') \<and>
    (\<exists>g'\<in>set (Groups c'). group_item nodes tags (SubscriptionID n') c' g' (group_tag (SubscriptionID node) c (ID g)) m))"
proof -
  have "chained node" using assms(3)
    by (auto simp: nodeHasChain_def node_options_def DecodeNodeChain_def has_key_def split: config_data.splits option.splits)
  then obtain items added where o: "obs' = take (length obs) items @ map (\<lambda>(_, m). VMap m) added"
    and s: "groups_sound ff nodes tags added" and p: "groups_present node c added"
    using apply_chains_sound [OF assms(1)] assms(2,3) by (metis (no_types, lifting) Inr_inject option.inject)
  then obtain m where m: "(group_tag (SubscriptionID node) c (ID g), m) \<in> set added"
    using assms(4) by (auto simp: groups_present_def has_key_iff)
  then have "VMap m \<in> set obs'" unfolding o by force
  with s m show ?thesis unfolding groups_sound_def by blast
qed

definition sample_chain_nodes :: "Node list" where
  "sample_chain_nodes =
     [\<lparr>UID = ''r'', SubscriptionID = 7, Name = ''relay'', node_type = ''trojan'', RawJSON = Object []\<rparr>,
      \<lparr>UID = ''e'', SubscriptionID = 7, Name = ''exit'', node_type = ''trojan'',
       RawJSON = Object [(''_ackwrap_chain'', VMap [(''detour'', VStr ''group:g1''), (''identity'', VStr ''group:i''),
         (''groups'', VList [VMap [(''id'', VStr ''group:g1''), (''name'', VStr ''Hop''), (''type'', VStr ''selector''),
            (''outbounds'', VList [VStr ''node:r''])]])])]\<rparr>]"

definition sample_chain_outbounds :: "goval list" where
  "sample_chain_outbounds =
     [VMap [(''type'', VStr ''direct''), (''tag'', VStr ''direct'')],
      VMap [(''type'', VStr ''trojan''), (''tag'', VStr ''relay-r'')],
      VMap [(''type'', VStr ''trojan''), (''tag'', VStr ''exit-e'')]]"

definition sample_chain_result :: "goval list" where
  "sample_chain_result =
     [VMap [(''type'', VStr ''direct''), (''tag'', VStr ''direct'')],
      VMap [(''type'', VStr ''trojan''), (''tag'', VStr ''relay-r'')],
      VMap [(''type'', VStr ''trojan''), (''tag'', VStr ''exit-e''), (''detour'', VStr ''ackwrap-chain-7-Hop-g1'')],
      VMap [(''type'', VStr ''selector''), (''tag'', VStr ''ackwrap-chain-7-Hop-g1''), (''outbounds'', VStrList [''relay-r''])]]"

lemma sample_chain_applied:
  "applySubscriptionNodeChains (\<lambda>_. []) sample_chain_nodes (buildNodeOutboundTags sample_chain_nodes)
     sample_chain_outbounds [] = Inr (sample_chain_result, [])"
  by code_simp

theorem chained_node_keeps_detour_witness:
  "\<exists>c m d. last_tagged ''exit-e'' sample_chain_result = Some m \<and> map_get m ''detour'' = VStr d \<and>
     chain_target sample_chain_nodes (buildNodeOutboundTags sample_chain_nodes) 7 c (Detour c) d"
proof -
  have n: "sample_chain_nodes ! 1 \<in> set sample_chain_nodes" by (simp add: sample_chain_nodes_def)
  have c: "nodeHasChain (RawJSON (sample_chain_nodes ! 1))" by code_simp
  have t: "tag_of (buildNodeOutboundTags sample_chain_nodes) (UID (sample_chain_nodes ! 1)) = ''exit-e''" by code_simp
  have "distinct (map (\<lambda>n. tag_of (buildNodeOutboundTags sample_chain_nodes) (UID n))
     (filter (\<lambda>n. nodeHasChain (RawJSON n)) sample_chain_nodes))"
    and s: "SubscriptionID (sample_chain_nodes ! 1) = 7" by code_simp+
  moreover have l: "last_tagged ''exit-e'' (take (length sample_chain_outbounds) sample_chain_result @ []) =
      last_tagged ''exit-e'' sample_chain_result"
    by code_simp
  ultimately show ?thesis
    using chained_node_keeps_detour [OF sample_chain_applied n c] unfolding t l by metis
qed

text \<open>The same chained node in two subscriptions: the later chain is written, to the last outbound only,
  and the first outbound with the tag has no detour.\<close>

lemma chained_node_twice:
  "case applySubscriptionNodeChains (\<lambda>_. [])
      (sample_chain_nodes @ map (\<lambda>n. n\<lparr>SubscriptionID := 8\<rparr>) sample_chain_nodes) (buildNodeOutboundTags sample_chain_nodes)
      (sample_chain_outbounds @ tl sample_chain_outbounds) [] of
     Inr (obs, eps) \<Rightarrow>
       obs ! 2 = VMap [(''type'', VStr ''trojan''), (''tag'', VStr ''exit-e'')] \<and>
       obs ! 4 = VMap [(''type'', VStr ''trojan''), (''tag'', VStr ''exit-e''), (''detour'', VStr ''ackwrap-chain-8-Hop-g1'')]
   | Inl e \<Rightarrow> False"
  by code_simp

theorem chain_groups_generated_witness:
  "\<exists>m. VMap m \<in> set sample_chain_result \<and> map_get m ''tag'' = VStr ''ackwrap-chain-7-Hop-g1''"
proof -
  define c where "c = \<lparr>Detour = ''group:g1'', Identity = ''group:i'', Groups =
      [empty_group\<lparr>ID := ''group:g1'', group_name := ''Hop'', group_type := ''selector'', Outbounds := [''node:r'']\<rparr>]\<rparr>"
  have n: "sample_chain_nodes ! 1 \<in> set sample_chain_nodes" by (simp add: sample_chain_nodes_def)
  have d: "DecodeNodeChain (\<lambda>_. []) (node_options (RawJSON (sample_chain_nodes ! 1))) = Inr (Some c)"
    unfolding c_def by code_simp
  have g: "hd (Groups c) \<in> set (Groups c)" by (simp add: c_def)
  have t: "group_tag (SubscriptionID (sample_chain_nodes ! 1)) c (ID (hd (Groups c))) = ''ackwrap-chain-7-Hop-g1''"
    unfolding c_def by code_simp
  show ?thesis
    using chain_groups_generated [OF sample_chain_applied n d g] unfolding t group_item_def by blast
qed

end
