(* ===== verification/Outbound_Collections.thy ===== *)
theory Outbound_Collections
  imports Chain_Apply Outbound_Graph
begin

text \<open>
  \<^verbatim>\<open>generateOutbounds\<close> of \<^verbatim>\<open>service/config_generator.go\<close> with its parts: strategy groups bound to
  route rules, node groups, strategy-group outbounds, the \<open>proxy\<close> entry and the direct
  strategies.  It composes the node outbounds, the chains, the tags and the outbound graph
  checks.  The theorems show that strategy groups never hide lost proxies behind a direct
  connection, and that a required proxy path exists in what is generated.
\<close>

section \<open>Stored data\<close>

text \<open>
  The rows the generator reads.  The UIDs of the nodes a group matches come from the store's
  queries; they are a field, \<open>None\<close> when the query fails.
\<close>

record NodeGroup =
  ng_ID :: int
  ng_Name :: string
  ng_Type :: string
  ng_Tolerance :: int
  ng_Enabled :: bool
  ng_matched :: "string list option"

record RouteRule =
  rr_ID :: int
  rr_Name :: string
  rr_Enabled :: bool
  rr_RuleType :: string
  rr_Outbound :: string
  rr_SystemKey :: string
  rr_IsSystem :: bool

record ProxyCollectionWithNodes =
  pc_Name :: string
  pc_Type :: string
  pc_SourceType :: string
  pc_RouteRuleID :: int
  pc_TestURL :: string
  pc_TestInterval :: int
  pc_Tolerance :: int
  pc_Enabled :: bool
  pc_NodeUIDs :: "string list"
  pc_ReferencedGroups :: "NodeGroup list"

record ConnectivitySettings =
  TestURL :: string
  IntervalSeconds :: int

text \<open>The system names, in UTF-8.\<close>

definition SystemGlobalDirectRouteRuleName :: string where
  "SystemGlobalDirectRouteRuleName =
     [CHR 0xE5, CHR 0x85, CHR 0xA8, CHR 0xE7, CHR 0x90, CHR 0x83, CHR 0xE7, CHR 0x9B, CHR 0xB4, CHR 0xE8, CHR 0xBF, CHR 0x9E]"

definition SystemRuleGlobalDirectKey :: string where
  "SystemRuleGlobalDirectKey = ''global_direct''"

definition IsSystemProxyCollectionName :: "string \<Rightarrow> bool" where
  "IsSystemProxyCollectionName name \<longleftrightarrow> TrimSpace name = SystemGlobalDirectRouteRuleName"

definition isSupportedGroupType :: "string \<Rightarrow> bool" where
  "isSupportedGroupType groupType \<longleftrightarrow> groupType = ''selector'' \<or> groupType = ''urltest''"

definition isCollectionGroupSource :: "string \<Rightarrow> bool" where
  "isCollectionGroupSource sourceType \<longleftrightarrow> sourceType = ''node_groups'' \<or> sourceType = ''node_groups_and_nodes''"

datatype collection_error =
    DirectInURLTest
  | NoGroupReference
  | NoNodes
  | NoNodeOutbound
  | DirectFallbackRefused

datatype generate_error =
    ProxyRuleUnbound string
  | GroupTypeUnsupported string string
  | CollectionTypeUnsupported string string
  | WireGuardNodeFailed string node_error
  | NodeFailed string node_error
  | ChainFailed chain_error
  | CollectionFailed string collection_error
  | ProxyCollectionUnusable collection_error
  | ProxyPathUnusable
  | NoProxyStrategy
  | DirectTagConflict string

section \<open>Strategy groups bound to rules\<close>

definition rule_by_id :: "RouteRule list \<Rightarrow> int \<Rightarrow> RouteRule option" where
  "rule_by_id rules i = find (\<lambda>r. rr_ID r = i) (rev rules)"

datatype binding = Unbound | BoundDirect | BoundProxy int

definition collection_binding :: "RouteRule list \<Rightarrow> ProxyCollectionWithNodes \<Rightarrow> binding" where
  "collection_binding rules col =
     (let name = TrimSpace (pc_Name col) in
      if pc_RouteRuleID col \<le> 0 then Unbound
      else case rule_by_id rules (pc_RouteRuleID col) of
        None \<Rightarrow> Unbound
      | Some rule \<Rightarrow>
          if rr_Enabled rule \<and> name = SystemGlobalDirectRouteRuleName \<and> rr_SystemKey rule = SystemRuleGlobalDirectKey
          then BoundDirect
          else if rr_Enabled rule \<and> \<not> rr_IsSystem rule \<and> rr_Outbound rule = ''proxy'' \<and> TrimSpace (rr_Name rule) = name
          then BoundProxy (rr_ID rule)
          else Unbound)"

definition needs_strategy :: "RouteRule \<Rightarrow> bool" where
  "needs_strategy rule \<longleftrightarrow> rr_Enabled rule \<and> \<not> rr_IsSystem rule \<and> rr_Outbound rule = ''proxy''"

definition effectiveRouteStrategyCollections ::
  "ProxyCollectionWithNodes list \<Rightarrow> RouteRule list \<Rightarrow> bool \<Rightarrow> generate_error + ProxyCollectionWithNodes list" where
  "effectiveRouteStrategyCollections collections rules failOnMissingProxy =
     (let live = filter pc_Enabled collections;
          bound = map (collection_binding rules) live
      in case find (\<lambda>rule. needs_strategy rule \<and> BoundProxy (rr_ID rule) \<notin> set bound) rules of
           Some rule \<Rightarrow>
             if failOnMissingProxy then Inl (ProxyRuleUnbound (rr_Name rule))
             else Inr (filter (\<lambda>col. collection_binding rules col \<noteq> Unbound) live)
         | None \<Rightarrow> Inr (filter (\<lambda>col. collection_binding rules col \<noteq> Unbound) live))"

section \<open>Outbounds of strategy groups\<close>

fun builtins_from :: "string list \<Rightarrow> string list \<Rightarrow> string list" where
  "builtins_from seen [] = []"
| "builtins_from seen (v # vs) =
     (if v = ''direct'' \<and> v \<notin> set seen then v # builtins_from (v # seen) vs else builtins_from seen vs)"

definition builtinOutboundTags :: "string list \<Rightarrow> string list" where
  "builtinOutboundTags values = builtins_from [] values"

definition collectionBuiltinOutboundTags :: "ProxyCollectionWithNodes \<Rightarrow> string list" where
  "collectionBuiltinOutboundTags col =
     (let defaults = (if pc_Name col = SystemGlobalDirectRouteRuleName then [''direct''] else [])
      in defaults @ filter (\<lambda>tag. tag \<notin> set defaults) (builtinOutboundTags (pc_NodeUIDs col)))"

text \<open>The tags of the referenced groups; \<open>groupNodeUIDs\<close> is read with the zero value for a missing key.\<close>

definition group_uids :: "(int \<times> string list) list \<Rightarrow> int \<Rightarrow> string list" where
  "group_uids m i = (case map_of m i of None \<Rightarrow> [] | Some us \<Rightarrow> us)"

definition referenced_tags ::
  "ProxyCollectionWithNodes \<Rightarrow> string list \<Rightarrow> (string \<times> string) list \<Rightarrow> (int \<times> string list) list \<Rightarrow> string list" where
  "referenced_tags col validGroupTags nodeTags groupNodeUIDs =
     fold (\<lambda>g tags.
         if ng_Name g \<notin> set validGroupTags then tags
         else let t1 = appendUniqueStrings tags [ng_Name g]
              in if pc_SourceType col = ''node_groups_and_nodes''
                 then appendUniqueStrings t1 (nodeUIDsToOutboundTags (group_uids groupNodeUIDs (ng_ID g)) nodeTags)
                 else t1)
       (pc_ReferencedGroups col) []"

definition collection_members ::
  "ProxyCollectionWithNodes \<Rightarrow> string list \<Rightarrow> (string \<times> string) list \<Rightarrow> (int \<times> string list) list \<Rightarrow>
   collection_error + string list" where
  "collection_members col validGroupTags nodeTags groupNodeUIDs =
     (let builtins = collectionBuiltinOutboundTags col in
      if isCollectionGroupSource (pc_SourceType col) \<and> pc_ReferencedGroups col \<noteq> []
      then (let tags = referenced_tags col validGroupTags nodeTags groupNodeUIDs
            in if tags = [] then Inl NoGroupReference else Inr (appendUniqueStrings tags builtins))
      else if pc_NodeUIDs col = [] then Inl NoNodes
      else (let tags = nodeUIDsToOutboundTags (pc_NodeUIDs col) nodeTags
            in if tags = [] \<and> list_ex (\<lambda>uid. uid \<noteq> ''direct'') (pc_NodeUIDs col) then Inl DirectFallbackRefused
               else if tags @ builtins = [] then Inl NoNodeOutbound
               else Inr (tags @ builtins)))"

definition generateCollectionOutbound ::
  "ProxyCollectionWithNodes \<Rightarrow> string list \<Rightarrow> (string \<times> string) list \<Rightarrow> (int \<times> string list) list \<Rightarrow>
   collection_error + gomap" where
  "generateCollectionOutbound col validGroupTags nodeTags groupNodeUIDs =
     (if pc_Type col = ''urltest'' \<and> collectionBuiltinOutboundTags col \<noteq> [] then Inl DirectInURLTest
      else res_bind (collection_members col validGroupTags nodeTags groupNodeUIDs) (\<lambda>members.
        let ob = [(''type'', VStr (pc_Type col)), (''tag'', VStr (pc_Name col)), (''outbounds'', VStrList members)]
        in Inr (if pc_Type col = ''urltest''
                then ob @ [(''url'', VStr (pc_TestURL col)), (''interval'', VStr (show_int (pc_TestInterval col) @ ''s'')),
                           (''tolerance'', VInt (pc_Tolerance col))]
                else ob)))"

section \<open>All outbounds\<close>

text \<open>Node groups: enabled groups must have a supported type; a failed or empty match is skipped.\<close>

fun matched_groups :: "NodeGroup list \<Rightarrow> generate_error + (int \<times> string list) list" where
  "matched_groups [] = Inr []"
| "matched_groups (g # gs) =
     (if \<not> ng_Enabled g then matched_groups gs
      else if \<not> isSupportedGroupType (ng_Type g) then Inl (GroupTypeUnsupported (ng_Name g) (ng_Type g))
      else res_bind (matched_groups gs) (\<lambda>m.
        case ng_matched g of
          Some (u # us) \<Rightarrow> Inr (if has_key m (ng_ID g) then m else (ng_ID g, u # us) # m)
        | _ \<Rightarrow> Inr m))"

fun check_collection_types :: "ProxyCollectionWithNodes list \<Rightarrow> generate_error + unit" where
  "check_collection_types [] = Inr ()"
| "check_collection_types (col # cols) =
     (if pc_Enabled col \<and> \<not> isSupportedGroupType (pc_Type col)
      then Inl (CollectionTypeUnsupported (pc_Name col) (pc_Type col))
      else check_collection_types cols)"

text \<open>
  The outbound or endpoint of a node.  Every enabled node is used, so none is skipped; a node other
  than Hysteria that cannot be generated is left out.
\<close>

record generated =
  outbounds :: "goval list"
  endpoints :: "goval list"
  generatedNodeTags :: "(string \<times> string) list"

definition generate_node ::
  "(rat \<Rightarrow> string) \<Rightarrow> (goval \<Rightarrow> string) \<Rightarrow> string \<Rightarrow> (string \<times> string) list \<Rightarrow> generated \<Rightarrow> Node \<Rightarrow> generate_error + generated" where
  "generate_node g sprint version nodeTags s node =
     (let tag = tag_of nodeTags (UID node) in
      if node_type node = ''wireguard''
      then (case generateWireGuardEndpoint g version node tag [] of
              Inl e \<Rightarrow> Inl (WireGuardNodeFailed (Name node) e)
            | Inr endpoint \<Rightarrow>
                Inr (s\<lparr>endpoints := endpoints s @ [VMap endpoint],
                       generatedNodeTags := map_put (UID node) tag (generatedNodeTags s)\<rparr>))
      else (case generateNodeOutbound g sprint node tag [] of
              Inl e \<Rightarrow>
                if node_type node = ''hysteria'' \<or> node_type node = ''hysteria2''
                then Inl (NodeFailed (Name node) e) else Inr s
            | Inr outbound \<Rightarrow>
                Inr (s\<lparr>outbounds := outbounds s @ [VMap outbound],
                       generatedNodeTags := map_put (UID node) tag (generatedNodeTags s)\<rparr>)))"

definition group_outbound :: "ConnectivitySettings \<Rightarrow> NodeGroup \<Rightarrow> string list \<Rightarrow> gomap" where
  "group_outbound conn g tags =
     [(''tag'', VStr (ng_Name g)), (''type'', VStr (ng_Type g)), (''outbounds'', VStrList tags)] @
     (if ng_Type g = ''urltest''
      then [(''url'', VStr (TestURL conn)), (''interval'', VStr (show_int (IntervalSeconds conn) @ ''s'')),
            (''tolerance'', VInt (ng_Tolerance g))]
      else [])"

definition group_outbounds ::
  "ConnectivitySettings \<Rightarrow> (int \<times> string list) list \<Rightarrow> (string \<times> string) list \<Rightarrow> NodeGroup list \<Rightarrow> gomap list" where
  "group_outbounds conn groupNodeUIDs nodeTags groups =
     map (\<lambda>(g, tags). group_outbound conn g tags)
       (filter (\<lambda>(g, tags). tags \<noteq> [])
         (map (\<lambda>g. (g, nodeUIDsToOutboundTags (group_uids groupNodeUIDs (ng_ID g)) nodeTags)) groups))"

definition proxy_selector :: "string list \<Rightarrow> gomap" where
  "proxy_selector members = [(''tag'', VStr ''proxy''), (''type'', VStr ''selector''), (''outbounds'', VStrList members)]"

text \<open>The loop over the strategy groups.\<close>

record collected =
  col_outbounds :: "goval list"
  collectionTags :: "string list"
  hasProxyCollection :: bool

definition effective_collection :: "ConnectivitySettings \<Rightarrow> ProxyCollectionWithNodes \<Rightarrow> ProxyCollectionWithNodes" where
  "effective_collection conn col =
     (let c = col\<lparr>pc_TestURL := TestURL conn, pc_TestInterval := IntervalSeconds conn\<rparr>
      in if IsSystemProxyCollectionName (pc_Name c) then c\<lparr>pc_Type := ''selector''\<rparr> else c)"

definition collection_outbound ::
  "bool \<Rightarrow> ConnectivitySettings \<Rightarrow> string list \<Rightarrow> (string \<times> string) list \<Rightarrow> (int \<times> string list) list \<Rightarrow>
   ProxyCollectionWithNodes \<Rightarrow> generate_error + gomap" where
  "collection_outbound strictProxy conn validGroupTags nodeTags groupNodeUIDs col =
     (case generateCollectionOutbound (effective_collection conn col) validGroupTags nodeTags groupNodeUIDs of
        Inr ob \<Rightarrow> Inr ob
      | Inl e \<Rightarrow>
          if pc_Name col \<noteq> ''proxy'' then Inl (CollectionFailed (pc_Name col) e)
          else if strictProxy then Inl (ProxyCollectionUnusable e)
          else Inr (proxy_selector [''direct'']))"

definition collect_tags :: "ProxyCollectionWithNodes \<Rightarrow> gomap \<Rightarrow> string list \<Rightarrow> string list" where
  "collect_tags col ob tags =
     (if pc_Name col = ''proxy'' \<or> pc_Name col = SystemGlobalDirectRouteRuleName then tags
      else if collectionBuiltinOutboundTags col \<noteq> []
      then appendUniqueStrings tags (filter (\<lambda>t. t \<noteq> ''direct'') (outboundMemberTags (map_get ob ''outbounds'')))
      else appendUniqueStrings tags [pc_Name col])"

definition collect_step ::
  "bool \<Rightarrow> ConnectivitySettings \<Rightarrow> string list \<Rightarrow> (string \<times> string) list \<Rightarrow> (int \<times> string list) list \<Rightarrow>
   collected \<Rightarrow> ProxyCollectionWithNodes \<Rightarrow> generate_error + collected" where
  "collect_step strictProxy conn validGroupTags nodeTags groupNodeUIDs s col =
     (if \<not> pc_Enabled col then Inr s
      else res_bind (collection_outbound strictProxy conn validGroupTags nodeTags groupNodeUIDs col) (\<lambda>ob.
        Inr \<lparr>col_outbounds = col_outbounds s @ [VMap ob], collectionTags = collect_tags col ob (collectionTags s),
             hasProxyCollection = (hasProxyCollection s \<or> pc_Name col = ''proxy'')\<rparr>))"

definition proxy_entry :: "bool \<Rightarrow> goval list \<Rightarrow> collected \<Rightarrow> generate_error + goval list" where
  "proxy_entry strictProxy eps s =
     (if hasProxyCollection s
      then (if strictProxy \<and> \<not> hasUsableNonDirectOutboundPath (col_outbounds s) eps [''proxy'']
            then Inl ProxyPathUnusable else Inr (col_outbounds s))
      else if strictProxy \<and> \<not> hasUsableNonDirectOutboundPath (col_outbounds s) eps (collectionTags s)
      then Inl NoProxyStrategy
      else Inr (col_outbounds s @
        [VMap (proxy_selector (if collectionTags s = [] then [''direct''] else collectionTags s))]))"

definition item_tag :: "goval \<Rightarrow> string" where
  "item_tag item = (case item of VMap m \<Rightarrow> as_string (map_get m ''tag'') | _ \<Rightarrow> [])"

definition direct_strategy :: "RouteRule \<Rightarrow> bool" where
  "direct_strategy rule \<longleftrightarrow> rr_Enabled rule \<and> rr_Outbound rule = ''direct'' \<and> rr_RuleType rule \<noteq> ''fallback'' \<and> \<not> rr_IsSystem rule"

definition direct_selector :: "string \<Rightarrow> gomap" where
  "direct_selector tag = [(''tag'', VStr tag), (''type'', VStr ''selector''), (''outbounds'', VStrList [''direct''])]"

fun add_direct_strategies :: "string list \<Rightarrow> RouteRule list \<Rightarrow> generate_error + goval list" where
  "add_direct_strategies tags [] = Inr []"
| "add_direct_strategies tags (rule # rules) =
     (if \<not> direct_strategy rule then add_direct_strategies tags rules
      else let tag = TrimSpace (rr_Name rule)
           in if tag \<in> set tags then Inl (DirectTagConflict tag)
              else res_bind (add_direct_strategies (tag # tags) rules) (\<lambda>rest. Inr (VMap (direct_selector tag) # rest)))"

definition appendDirectStrategyOutbounds ::
  "RouteRule list \<Rightarrow> goval list \<Rightarrow> goval list \<Rightarrow> generate_error + goval list" where
  "appendDirectStrategyOutbounds rules obs eps =
     res_bind (add_direct_strategies (filter (\<lambda>t. t \<noteq> []) (map item_tag (obs @ eps))) rules) (\<lambda>extra. Inr (obs @ extra))"

definition direct_outbound :: gomap where
  "direct_outbound = [(''type'', VStr ''direct''), (''tag'', VStr ''direct'')]"

text \<open>What the generator reads from the store and the core.\<close>

record generator_input =
  in_connectivity :: ConnectivitySettings
  in_collections :: "ProxyCollectionWithNodes list"
  in_rules :: "RouteRule list"
  in_proxyMode :: string
  in_groups :: "NodeGroup list"
  in_nodes :: "Node list"
  in_version :: string

definition node_stage ::
  "(rat \<Rightarrow> string) \<Rightarrow> (rat \<Rightarrow> string) \<Rightarrow> (goval \<Rightarrow> string) \<Rightarrow> generator_input \<Rightarrow> generate_error + generated" where
  "node_stage g ff sprint i =
     res_bind (res_fold (generate_node g sprint (in_version i) (buildNodeOutboundTags (in_nodes i)))
         \<lparr>outbounds = [VMap direct_outbound], endpoints = [], generatedNodeTags = []\<rparr> (in_nodes i)) (\<lambda>s.
     case applySubscriptionNodeChains ff (in_nodes i) (generatedNodeTags s) (outbounds s) (endpoints s) of
       Inl e \<Rightarrow> Inl (ChainFailed e)
     | Inr (obs, eps) \<Rightarrow> Inr (s\<lparr>outbounds := obs, endpoints := eps\<rparr>))"

definition collection_stage ::
  "bool \<Rightarrow> generator_input \<Rightarrow> ProxyCollectionWithNodes list \<Rightarrow> (int \<times> string list) list \<Rightarrow> generated \<Rightarrow> generate_error + collected" where
  "collection_stage strictProxy i collections groupNodeUIDs s =
     (let gobs = group_outbounds (in_connectivity i) groupNodeUIDs (generatedNodeTags s) (in_groups i);
          valid = map (\<lambda>m. as_string (map_get m ''tag'')) gobs
      in res_fold (collect_step strictProxy (in_connectivity i) valid (generatedNodeTags s) groupNodeUIDs)
           \<lparr>col_outbounds = outbounds s @ map VMap gobs, collectionTags = [], hasProxyCollection = False\<rparr> collections)"

definition generateOutbounds ::
  "(rat \<Rightarrow> string) \<Rightarrow> (rat \<Rightarrow> string) \<Rightarrow> (goval \<Rightarrow> string) \<Rightarrow> bool \<Rightarrow> generator_input \<Rightarrow>
   generate_error + goval list \<times> goval list" where
  "generateOutbounds g ff sprint strictProxy i =
     res_bind (effectiveRouteStrategyCollections (in_collections i) (in_rules i) (in_proxyMode i = ''rule'')) (\<lambda>collections.
     res_bind (matched_groups (in_groups i)) (\<lambda>groupNodeUIDs.
     res_bind (check_collection_types collections) (\<lambda>_.
     res_bind (node_stage g ff sprint i) (\<lambda>s.
     res_bind (collection_stage strictProxy i collections groupNodeUIDs s) (\<lambda>c.
     res_bind (proxy_entry strictProxy (endpoints s) c) (\<lambda>obs.
     if in_proxyMode i = ''rule''
     then res_bind (appendDirectStrategyOutbounds (in_rules i) obs (endpoints s)) (\<lambda>obs'. Inr (obs', endpoints s))
     else Inr (obs, endpoints s)))))))"

section \<open>Facts about strategy groups\<close>

lemma rule_by_id_Some: "rule_by_id rules i = Some r \<Longrightarrow> r \<in> set rules \<and> rr_ID r = i"
  unfolding rule_by_id_def by (rule find_rev_Some)

lemma rule_by_id_distinct: "distinct (map rr_ID rules) \<Longrightarrow> r \<in> set rules \<Longrightarrow> rule_by_id rules (rr_ID r) = Some r"
proof -
  assume d: "distinct (map rr_ID rules)" and r: "r \<in> set rules"
  then have "find (\<lambda>x. rr_ID x = rr_ID r) (rev rules) \<noteq> None" by (auto simp: find_None_iff)
  then obtain x where x: "rule_by_id rules (rr_ID r) = Some x" by (auto simp: rule_by_id_def)
  with rule_by_id_Some [OF x] d r show ?thesis by (metis distinct_map inj_onD)
qed

lemma binding_cases:
  "collection_binding rules col = BoundProxy i \<longleftrightarrow>
     0 < pc_RouteRuleID col \<and> (\<exists>rule. rule_by_id rules (pc_RouteRuleID col) = Some rule \<and> rr_ID rule = i \<and> needs_strategy rule \<and>
       TrimSpace (rr_Name rule) = TrimSpace (pc_Name col) \<and>
       \<not> (TrimSpace (pc_Name col) = SystemGlobalDirectRouteRuleName \<and> rr_SystemKey rule = SystemRuleGlobalDirectKey))"
  "collection_binding rules col = BoundDirect \<longleftrightarrow>
     0 < pc_RouteRuleID col \<and> (\<exists>rule. rule_by_id rules (pc_RouteRuleID col) = Some rule \<and> rr_Enabled rule \<and>
       TrimSpace (pc_Name col) = SystemGlobalDirectRouteRuleName \<and> rr_SystemKey rule = SystemRuleGlobalDirectKey)"
  by (auto simp: collection_binding_def needs_strategy_def Let_def split: option.splits if_split_asm)

definition bound_to_rule :: "RouteRule list \<Rightarrow> ProxyCollectionWithNodes \<Rightarrow> bool" where
  "bound_to_rule rules col \<longleftrightarrow>
     (\<exists>rule\<in>set rules. rr_ID rule = pc_RouteRuleID col \<and> rr_Enabled rule \<and>
        (needs_strategy rule \<and> TrimSpace (rr_Name rule) = TrimSpace (pc_Name col) \<or>
         TrimSpace (pc_Name col) = SystemGlobalDirectRouteRuleName \<and> rr_SystemKey rule = SystemRuleGlobalDirectKey))"

lemma bound_collection: "collection_binding rules col \<noteq> Unbound \<Longrightarrow> bound_to_rule rules col"
  by (cases "collection_binding rules col")
    (auto simp: binding_cases bound_to_rule_def needs_strategy_def dest!: rule_by_id_Some)

text \<open>Only strategy groups bound to enabled rules are generated, and in rule mode every enabled
  proxy rule has its group: each effective group is enabled and carries the name of an enabled proxy
  rule (or of the global direct rule) it is bound to, and for every enabled user rule that sends
  traffic to the proxy there is an effective group bound to it under the rule's name, or generation
  fails.\<close>

theorem strategies_bound:
  assumes "effectiveRouteStrategyCollections collections rules failOnMissingProxy = Inr effective"
    and "distinct (map rr_ID rules)"
  shows "(\<forall>col\<in>set effective. col \<in> set collections \<and> pc_Enabled col \<and> bound_to_rule rules col) \<and>
    (failOnMissingProxy \<longrightarrow> (\<forall>rule\<in>set rules. needs_strategy rule \<longrightarrow>
       (\<exists>col\<in>set effective. pc_RouteRuleID col = rr_ID rule \<and> TrimSpace (pc_Name col) = TrimSpace (rr_Name rule))))"
proof -
  let ?live = "filter pc_Enabled collections"
  let ?missing = "\<lambda>rule. needs_strategy rule \<and> BoundProxy (rr_ID rule) \<notin> set (map (collection_binding rules) ?live)"
  have eff: "effective = filter (\<lambda>col. collection_binding rules col \<noteq> Unbound) ?live"
    and none: "failOnMissingProxy \<Longrightarrow> find ?missing rules = None"
    using assms(1) by (auto simp: effectiveRouteStrategyCollections_def Let_def split: option.splits if_split_asm)
  have "\<exists>col\<in>set effective. pc_RouteRuleID col = rr_ID rule \<and> TrimSpace (pc_Name col) = TrimSpace (rr_Name rule)"
    if "failOnMissingProxy" and rule: "rule \<in> set rules" "needs_strategy rule" for rule
  proof -
    from none [OF that(1)] rule obtain col where col: "col \<in> set ?live" "collection_binding rules col = BoundProxy (rr_ID rule)"
      by (auto simp: find_None_iff image_iff)
    then obtain r where r: "rule_by_id rules (pc_RouteRuleID col) = Some r" "rr_ID r = rr_ID rule"
        "TrimSpace (rr_Name r) = TrimSpace (pc_Name col)"
      by (auto simp: binding_cases)
    with rule_by_id_distinct [OF assms(2) rule(1)] rule_by_id_Some [OF r(1)] have "r = rule" by auto
    with r rule_by_id_Some [OF r(1)] col show ?thesis by (intro bexI [of _ col]) (auto simp: eff)
  qed
  then show ?thesis by (auto simp: eff intro: bound_collection)
qed

lemma builtins_set: "set (builtinOutboundTags vs) = set vs \<inter> {''direct''}"
proof -
  have "set (builtins_from seen vs) = set vs \<inter> {''direct''} - set seen" for seen
    by (induction seen vs rule: builtins_from.induct) auto
  then show ?thesis by (simp add: builtinOutboundTags_def)
qed

lemma collection_builtins_set:
  "set (collectionBuiltinOutboundTags col) =
     (if pc_Name col = SystemGlobalDirectRouteRuleName \<or> ''direct'' \<in> set (pc_NodeUIDs col) then {''direct''} else {})"
  by (auto simp: collectionBuiltinOutboundTags_def Let_def builtins_set)

lemma referenced_tags_set:
  "set (referenced_tags col valid nodeTags uids) \<subseteq> set valid \<union> snd ` set nodeTags"
proof -
  have tag: "tag_of nodeTags u \<in> snd ` set nodeTags" if "tag_of nodeTags u \<noteq> []" for u
    using that by (auto simp: tag_of_def split: option.splits dest: map_of_SomeD intro: rev_image_eqI)
  have "set acc \<subseteq> set valid \<union> snd ` set nodeTags \<Longrightarrow>
    set (fold (\<lambda>g tags.
         if ng_Name g \<notin> set valid then tags
         else let t1 = appendUniqueStrings tags [ng_Name g]
              in if pc_SourceType col = ''node_groups_and_nodes''
                 then appendUniqueStrings t1 (nodeUIDsToOutboundTags (group_uids uids (ng_ID g)) nodeTags)
                 else t1) gs acc) \<subseteq> set valid \<union> snd ` set nodeTags" for gs acc
  proof (induction gs arbitrary: acc)
    case (Cons g gs)
    show ?case unfolding fold_simps comp_apply
      by (rule Cons.IH) (use Cons.prems tag in \<open>auto simp: Let_def\<close>)
  qed simp
  from this [of "[]"] show ?thesis by (simp add: referenced_tags_def)
qed

text \<open>C15. A strategy group never hides lost proxies behind a direct connection: its outbound lists at
  least one member, each a generated node, a generated node group or \<open>direct\<close>.  Unless a node group or
  a node is itself called \<open>direct\<close>, that member is there only when the group was configured with it (or
  is the global direct group) and never in a URL test, and it is the only member only when no other
  node was configured.\<close>

theorem collection_members_sound:
  assumes "generateCollectionOutbound col validGroupTags nodeTags groupNodeUIDs = Inr ob"
  shows "\<exists>ms. map_get ob ''outbounds'' = VStrList ms \<and> ms \<noteq> [] \<and> map_get ob ''tag'' = VStr (pc_Name col) \<and>
    set ms \<subseteq> set validGroupTags \<union> snd ` set nodeTags \<union> {''direct''} \<and>
    (''direct'' \<in> set ms \<longrightarrow>
       ''direct'' \<in> set validGroupTags \<union> snd ` set nodeTags \<or>
       pc_Type col \<noteq> ''urltest'' \<and> (pc_Name col = SystemGlobalDirectRouteRuleName \<or> ''direct'' \<in> set (pc_NodeUIDs col))) \<and>
    (set ms = {''direct''} \<longrightarrow>
       ''direct'' \<in> set validGroupTags \<union> snd ` set nodeTags \<or>
       set (pc_NodeUIDs col) = {''direct''} \<and> \<not> (isCollectionGroupSource (pc_SourceType col) \<and> pc_ReferencedGroups col \<noteq> []))"
proof -
  from assms(1) obtain ms where url: "\<not> (pc_Type col = ''urltest'' \<and> collectionBuiltinOutboundTags col \<noteq> [])"
    and ms: "collection_members col validGroupTags nodeTags groupNodeUIDs = Inr ms"
    and ob: "map_get ob ''outbounds'' = VStrList ms" "map_get ob ''tag'' = VStr (pc_Name col)"
    by (auto simp: generateCollectionOutbound_def go_result Let_def map_get_def [of "_ # _"] split: if_split_asm)
  let ?b = "set (collectionBuiltinOutboundTags col)"
  let ?grouped = "isCollectionGroupSource (pc_SourceType col) \<and> pc_ReferencedGroups col \<noteq> []"
  have tag: "tag_of nodeTags u \<in> snd ` set nodeTags" if "tag_of nodeTags u \<noteq> []" for u
    using that by (auto simp: tag_of_def split: option.splits dest: map_of_SomeD intro: rev_image_eqI)
  obtain proxies where p: "set ms = set proxies \<union> ?b" "ms \<noteq> []" "set proxies \<subseteq> set validGroupTags \<union> snd ` set nodeTags"
    and empty: "proxies = [] \<Longrightarrow> \<not> ?grouped \<and> set (pc_NodeUIDs col) = {''direct''}"
  proof (cases ?grouped)
    case True
    let ?r = "referenced_tags col validGroupTags nodeTags groupNodeUIDs"
    from True ms have ne: "?r \<noteq> []" and eq: "ms = appendUniqueStrings ?r (collectionBuiltinOutboundTags col)"
      by (auto simp: collection_members_def Let_def split: if_split_asm)
    have "set ms = set ?r \<union> ?b" unfolding eq by (auto simp: collection_builtins_set)
    moreover from this ne have "ms \<noteq> []" by auto
    ultimately show ?thesis using that [of ?r] referenced_tags_set ne by blast
  next
    case False
    let ?r = "nodeUIDsToOutboundTags (pc_NodeUIDs col) nodeTags"
    from False ms have eq: "ms = ?r @ collectionBuiltinOutboundTags col" "ms \<noteq> []" and ne: "pc_NodeUIDs col \<noteq> []"
      and direct: "?r = [] \<Longrightarrow> \<forall>u\<in>set (pc_NodeUIDs col). u = ''direct''"
      unfolding collection_members_def Let_def by (auto simp: list_ex_iff split: if_split_asm)
    have "set ?r \<subseteq> snd ` set nodeTags" using tag by auto
    moreover have "set (pc_NodeUIDs col) = {''direct''}" if "?r = []"
      using direct [OF that] ne by (cases "pc_NodeUIDs col") auto
    ultimately show ?thesis using that [of ?r] eq False by auto
  qed
  have b: "?b \<subseteq> {''direct''}"
    and bd: "''direct'' \<in> ?b \<Longrightarrow> pc_Name col = SystemGlobalDirectRouteRuleName \<or> ''direct'' \<in> set (pc_NodeUIDs col)"
    by (simp_all add: collection_builtins_set split: if_split_asm)
  let ?named = "''direct'' \<in> set validGroupTags \<union> snd ` set nodeTags"
  have d: "?named \<or> ''direct'' \<in> ?b" if "''direct'' \<in> set ms" using that p(1,3) by blast
  have "set ms \<subseteq> set validGroupTags \<union> snd ` set nodeTags \<union> {''direct''}" using p(1,3) b by blast
  moreover have "?named \<or> pc_Type col \<noteq> ''urltest'' \<and> (pc_Name col = SystemGlobalDirectRouteRuleName \<or> ''direct'' \<in> set (pc_NodeUIDs col))"
    if "''direct'' \<in> set ms"
    using d [OF that] bd url by fastforce
  moreover have "?named \<or> proxies = []" if "set ms = {''direct''}"
    using p(1,3) that by (cases proxies) auto
  ultimately show ?thesis using ob p(2) empty by blast
qed

section \<open>The proxy entry is usable\<close>

lemma last_tagged_append:
  "last_tagged t (xs @ ys) = (case last_tagged t ys of Some m \<Rightarrow> Some m | None \<Rightarrow> last_tagged t xs)"
  by (induction xs) (auto split: option.splits)

lemma last_tagged_None: "t \<noteq> [] \<Longrightarrow> last_tagged t xs = None \<longleftrightarrow> t \<notin> item_tag ` set xs"
  by (induction xs) (auto simp: item_tag_def split: option.splits goval.splits)

lemma as_string_eq: "t \<noteq> [] \<Longrightarrow> as_string v = t \<longleftrightarrow> v = VStr t"
  by (cases v) auto

lemma index_lookup:
  "map_of (index_by_tag False m items) t =
     (if t = [] then map_of m t else case last_tagged t items of Some ob \<Rightarrow> Some ob | None \<Rightarrow> map_of m t)"
proof (induction items arbitrary: m)
  case (Cons x items)
  show ?case
  proof (cases "\<exists>ob tag. x = VMap ob \<and> map_of ob ''tag'' = Some (VStr tag)")
    case True
    then obtain ob tag where x: "x = VMap ob" and tag: "map_of ob ''tag'' = Some (VStr tag)" by blast
    then have "as_string (map_get ob ''tag'') = tag" by (simp add: map_get_def)
    with x tag show ?thesis by (simp add: Cons.IH split: option.splits)
  next
    case False
    then have "index_by_tag False m (x # items) = index_by_tag False m items"
      by (cases x) (auto split: option.splits goval.splits)
    moreover have "last_tagged t (x # items) = last_tagged t items" if "t \<noteq> []"
    proof (cases x)
      case (VMap ob)
      with False have "map_get ob ''tag'' \<noteq> VStr t" for t
        using map_get_Some [of ob "''tag''" "VStr t"] by auto
      then have "as_string (map_get ob ''tag'') = []" by (cases "map_get ob ''tag''") auto
      with VMap that show ?thesis by (simp split: option.splits)
    qed (simp_all split: option.splits)
    ultimately show ?thesis by (simp add: Cons.IH)
  qed
qed simp

lemma named_lookup: "map_of (named_tags obs eps) t = (if t = [] then None else last_tagged t (obs @ eps))"
  by (simp add: index_lookup split: option.splits)

lemma proxy_path_mono:
  assumes "\<And>t ob. map_of m t = Some ob \<Longrightarrow> map_of m' t = Some ob" and "proxy_path m ts"
  shows "proxy_path m' ts"
proof -
  have at: "members_at m' t = members_at m t" "node_ok m' t" if "node_ok m t" for t
    using that assms(1) by (auto simp: node_ok_def members_at_def split: option.split_asm)
  have leaf: "proxy_leaf m' t" if "proxy_leaf m t" for t
    using that at [of t] assms(1) by (auto simp: proxy_leaf_def split: option.split_asm)
  show ?thesis using assms(2) by (induction ts rule: induct_list012) (auto simp: at leaf)
qed

text \<open>Inserting items with new tags after the outbounds keeps every usable path.\<close>

lemma insert_items_lookup:
  assumes "item_tag ` set extra \<inter> item_tag ` set (obs @ eps) \<subseteq> {[]}" and "map_of (named_tags obs eps) t = Some ob"
  shows "map_of (named_tags (obs @ extra) eps) t = Some ob"
proof -
  from assms(2) have t: "t \<noteq> []" and l: "last_tagged t (obs @ eps) = Some ob" by (auto simp: named_lookup split: if_split_asm)
  then have "t \<in> item_tag ` set (obs @ eps)" using last_tagged_None [OF t, of "obs @ eps"] by auto
  with assms(1) t have "last_tagged t extra = None" by (auto simp: last_tagged_None [OF t])
  with l t show ?thesis by (simp add: named_lookup last_tagged_append split: option.split_asm)
qed

lemma insert_items_usable:
  assumes "item_tag ` set extra \<inter> item_tag ` set (obs @ eps) \<subseteq> {[]}" and "hasUsableNonDirectOutboundPath obs eps roots"
  shows "hasUsableNonDirectOutboundPath (obs @ extra) eps roots"
  using assms(2) proxy_path_mono [OF insert_items_lookup [OF assms(1)]] unfolding usable_iff by blast

lemma direct_strategies_tags:
  "add_direct_strategies tags rules = Inr extra \<Longrightarrow> item_tag ` set extra \<inter> set tags = {}"
  by (induction tags rules arbitrary: extra rule: add_direct_strategies.induct)
    (fastforce simp: go_result Let_def item_tag_def direct_selector_def map_get_def split: if_split_asm)+

lemma append_direct_usable:
  assumes "appendDirectStrategyOutbounds rules obs eps = Inr obs'" and "hasUsableNonDirectOutboundPath obs eps roots"
  shows "hasUsableNonDirectOutboundPath obs' eps roots \<and> prefix obs obs'"
proof -
  obtain extra where e: "add_direct_strategies (filter (\<lambda>t. t \<noteq> []) (map item_tag (obs @ eps))) rules = Inr extra"
    and o: "obs' = obs @ extra"
    using assms(1) by (auto simp: appendDirectStrategyOutbounds_def go_result)
  from direct_strategies_tags [OF e] have "item_tag ` set extra \<inter> item_tag ` set (obs @ eps) \<subseteq> {[]}" by auto
  with insert_items_usable [OF _ assms(2)] show ?thesis by (simp add: o)
qed

lemma item_tag_proxy: "item_tag (VMap (proxy_selector ms)) = ''proxy''"
  by (simp add: item_tag_def proxy_selector_def map_get_def)

lemma proxy_entry_usable:
  assumes "proxy_entry True eps s = Inr obs" and "length (filter (\<lambda>x. item_tag x = ''proxy'') (obs @ eps)) \<le> 1"
  shows "hasUsableNonDirectOutboundPath obs eps [''proxy'']"
proof (cases "hasProxyCollection s")
  case True
  with assms(1) show ?thesis by (auto simp: proxy_entry_def split: if_split_asm)
next
  case False
  define ms where "ms = collectionTags s"
  from False assms(1) have u: "hasUsableNonDirectOutboundPath (col_outbounds s) eps ms"
    and o: "obs = col_outbounds s @ [VMap (proxy_selector (if ms = [] then [''direct''] else ms))]"
    by (auto simp: proxy_entry_def ms_def split: if_split_asm)
  from u have "ms \<noteq> []" by (auto simp: hasUsableNonDirectOutboundPath_def)
  with o have o: "obs = col_outbounds s @ [VMap (proxy_selector ms)]" by simp
  with assms(2) have none: "''proxy'' \<notin> item_tag ` set (col_outbounds s @ eps)"
    by (auto simp: item_tag_proxy filter_empty_conv)
  then have new: "item_tag ` set [VMap (proxy_selector ms)] \<inter> item_tag ` set (col_outbounds s @ eps) \<subseteq> {[]}"
    by (auto simp: item_tag_proxy)
  from insert_items_usable [OF new u] o obtain r ts where r: "r \<in> set ms" "proxy_path (named_tags obs eps) (r # ts)"
    by (auto simp: usable_iff)
  have "map_of (named_tags obs eps) ''proxy'' = Some (proxy_selector ms)"
    using none last_tagged_None [of "''proxy''" eps]
    by (simp add: named_lookup o last_tagged_append image_Un) (simp add: proxy_selector_def map_get_def)
  then have "node_ok (named_tags obs eps) ''proxy''" "members_at (named_tags obs eps) ''proxy'' = ms"
    by (simp_all add: node_ok_def refused_tag_def members_at_def outbound_members_def outbound_type_def proxy_selector_def map_get_def)
  with r have "proxy_path (named_tags obs eps) (''proxy'' # r # ts)" by simp
  then show ?thesis unfolding usable_iff by (intro bexI [of _ "''proxy''"] exI [of _ "r # ts"]) auto
qed

text \<open>C2. When DNS or routing needs the proxy, a generated configuration really has one: if the
  generator is called with the usable-proxy requirement and succeeds, and at most one outbound or
  endpoint has the tag \<open>proxy\<close>, that tag starts a path of group members that ends in a proxy outbound
  or endpoint, whether the user created that group or the generator did.  A node group
  called \<open>proxy\<close> breaks the condition; the core itself refuses a tag that is used twice.\<close>

theorem strict_proxy_usable:
  assumes "generateOutbounds g ff sprint True i = Inr (obs, eps)"
    and "length (filter (\<lambda>x. item_tag x = ''proxy'') (obs @ eps)) \<le> 1"
  shows "\<exists>ts. proxy_path (named_tags obs eps) (''proxy'' # ts)"
proof -
  from assms(1) obtain c obs1 where entry: "proxy_entry True eps c = Inr obs1"
    and fin: "obs = obs1 \<or> appendDirectStrategyOutbounds (in_rules i) obs1 eps = Inr obs"
    by (auto simp: generateOutbounds_def go_result split: if_split_asm)
  have pre: "prefix obs1 obs" using fin by (auto simp: appendDirectStrategyOutbounds_def go_result)
  then have "length (filter (\<lambda>x. item_tag x = ''proxy'') (obs1 @ eps)) \<le> 1"
    using assms(2) by (auto elim!: prefixE)
  from proxy_entry_usable [OF entry this] have "hasUsableNonDirectOutboundPath obs1 eps [''proxy'']" .
  with fin append_direct_usable have "hasUsableNonDirectOutboundPath obs eps [''proxy'']" by blast
  then show ?thesis by (simp add: usable_iff)
qed

section \<open>A sample generation\<close>

definition sample_rule :: RouteRule where
  "sample_rule = \<lparr>rr_ID = 4, rr_Name = ''Video'', rr_Enabled = True, rr_RuleType = ''domain'', rr_Outbound = ''proxy'',
     rr_SystemKey = [], rr_IsSystem = False\<rparr>"

definition sample_group :: NodeGroup where
  "sample_group = \<lparr>ng_ID = 2, ng_Name = ''JP'', ng_Type = ''urltest'', ng_Tolerance = 50, ng_Enabled = True,
     ng_matched = Some [''0011223344556677'']\<rparr>"

definition sample_collection :: ProxyCollectionWithNodes where
  "sample_collection = \<lparr>pc_Name = ''Video'', pc_Type = ''selector'', pc_SourceType = ''node_groups'', pc_RouteRuleID = 4,
     pc_TestURL = [], pc_TestInterval = 0, pc_Tolerance = 0, pc_Enabled = True, pc_NodeUIDs = [''direct''],
     pc_ReferencedGroups = [sample_group]\<rparr>"

definition sample_input :: generator_input where
  "sample_input = \<lparr>in_connectivity = \<lparr>TestURL = ''http://t'', IntervalSeconds = 300\<rparr>, in_collections = [sample_collection],
     in_rules = [sample_rule], in_proxyMode = ''rule'', in_groups = [sample_group],
     in_nodes = [\<lparr>UID = ''0011223344556677'', SubscriptionID = 1, Name = ''JP 1'', node_type = ''shadowsocks'',
       RawJSON = Object [(''type'', VStr ''shadowsocks''), (''server'', VStr ''s.example''), (''server_port'', VFloat 443),
         (''method'', VStr ''aes-128-gcm''), (''password'', VStr ''p'')]\<rparr>],
     in_version = ''1.14.2''\<rparr>"

definition sample_generated :: "goval list" where
  "sample_generated = (case generateOutbounds (\<lambda>_. []) (\<lambda>_. []) (\<lambda>_. []) True sample_input of Inr (obs, _) \<Rightarrow> obs | _ \<Rightarrow> [])"

lemma sample_generation:
  "generateOutbounds (\<lambda>_. []) (\<lambda>_. []) (\<lambda>_. []) True sample_input = Inr (sample_generated, [])"
  by code_simp

theorem strict_proxy_usable_witness:
  "\<exists>ts. proxy_path (named_tags sample_generated []) (''proxy'' # ts)"
  by (rule strict_proxy_usable [OF sample_generation]) code_simp

theorem strategies_bound_witness:
  "effectiveRouteStrategyCollections [sample_collection] [sample_rule] True = Inr [sample_collection] \<and>
   bound_to_rule [sample_rule] sample_collection"
proof -
  have e: "effectiveRouteStrategyCollections [sample_collection] [sample_rule] True = Inr [sample_collection]" by code_simp
  with strategies_bound [OF e] show ?thesis by simp
qed

text \<open>A node group called \<open>proxy\<close>: the requirement is met by the group, but the generated selector has
  the same tag and only itself as a member.\<close>

lemma node_group_called_proxy:
  "let group = sample_group\<lparr>ng_Name := ''proxy''\<rparr> in
   case generateOutbounds (\<lambda>_. []) (\<lambda>_. []) (\<lambda>_. []) True
      (sample_input\<lparr>in_groups := [group], in_collections := [sample_collection\<lparr>pc_ReferencedGroups := [group]\<rparr>]\<rparr>) of
     Inr (obs, eps) \<Rightarrow>
       last_tagged ''proxy'' (obs @ eps) = Some (proxy_selector [''proxy'']) \<and> \<not> hasUsableNonDirectOutboundPath obs eps [''proxy'']
   | Inl e \<Rightarrow> False"
  by code_simp

text \<open>A node group called \<open>direct\<close> is listed in a URL test.\<close>

lemma node_group_called_direct:
  "let group = sample_group\<lparr>ng_Name := ''direct''\<rparr> in
   case generateCollectionOutbound (sample_collection\<lparr>pc_Type := ''urltest'', pc_NodeUIDs := [], pc_ReferencedGroups := [group]\<rparr>)
      [''direct''] [] [] of
     Inr ob \<Rightarrow> map_get ob ''outbounds'' = VStrList [''direct''] | Inl e \<Rightarrow> False"
  by code_simp

theorem collection_members_sound_witness:
  "\<exists>ob ms. generateCollectionOutbound sample_collection [''JP''] [] [] = Inr ob \<and>
     map_get ob ''outbounds'' = VStrList ms \<and> ms \<noteq> [] \<and> set ms \<noteq> {''direct''}"
proof -
  let ?ob = "[(''type'', VStr ''selector''), (''tag'', VStr ''Video''), (''outbounds'', VStrList [''JP'', ''direct''])]"
  have c: "generateCollectionOutbound sample_collection [''JP''] [] [] = Inr ?ob" by code_simp
  have g: "isCollectionGroupSource (pc_SourceType sample_collection)" "pc_ReferencedGroups sample_collection \<noteq> []" by code_simp+
  have d: "''direct'' \<notin> set [''JP'']" "''direct'' \<notin> snd ` set ([] :: (string \<times> string) list)" by simp_all
  from collection_members_sound [OF c] d g c show ?thesis by blast
qed

end
