(* ===== verification/Dns_Section.thy ===== *)
theory Dns_Section
  imports Outbound_Collections Config_Migration
begin

text \<open>
  The DNS section of a configuration, \<open>generateDNSFromDatabase\<close> of \<^verbatim>\<open>service/config_generator.go\<close> with its
  helpers there and in \<^verbatim>\<open>service/dns.go\<close>, \<^verbatim>\<open>service/device_policy.go\<close>, \<^verbatim>\<open>service/device_identity.go\<close> and
  \<^verbatim>\<open>service/node_bypass.go\<close>: servers with their addresses and resolvers, the final server behind the
  proxy, fixed hosts, device servers and rules.  The theorems show that the section refers only to its
  own servers, that resolvers are grounded, and that unmatched queries use the proxy when there is one.
\<close>

section \<open>Stored data\<close>

text \<open>
  The rows the generator reads.  Stored JSON is represented by what \<^verbatim>\<open>encoding/json\<close> makes of it:
  invalid, or an object.
\<close>

datatype stored_json = BadJSON | JSONObject gomap

record DNSServer =
  ds_Tag :: string
  ds_Enabled :: bool
  ds_ServerType :: string
  ds_Address :: string
  ds_AddressResolver :: string
  ds_AddressStrategy :: string
  ds_Strategy :: string
  ds_Detour :: string
  ds_ClientSubnet :: string
  ds_Options :: stored_json

record DNSHost =
  dh_ID :: int
  dh_Domain :: string
  dh_Addresses :: "string list"
  dh_Enabled :: bool
  dh_Comment :: string

record DNSRule =
  dr_ID :: int
  dr_Enabled :: bool
  dr_Conditions :: stored_json
  dr_Server :: string
  dr_DisableCache :: bool
  dr_RewriteTTL :: int
  dr_ClientSubnet :: string

record DNSGlobalSettings =
  gs_Enabled :: bool
  gs_Final :: string
  gs_ProxyFinal :: string
  gs_Strategy :: string
  gs_DisableCache :: bool
  gs_DisableExpire :: bool
  gs_IndependentCache :: bool
  gs_ReverseMapping :: bool
  gs_CacheCapacity :: int
  gs_ClientSubnet :: string
  gs_FakeIPEnabled :: bool
  gs_FakeIPInet4Range :: string
  gs_FakeIPInet6Range :: string

record device_rule =
  dev_ID :: int
  dev_Values :: "string list"
  dev_DirectDomains :: "string list"

text \<open>
  The library functions on addresses: \<open>url_parse\<close> gives scheme, host name, port and escaped path of
  an address that \<^verbatim>\<open>url.Parse\<close> accepts, \<open>is_ip\<close> whether \<^verbatim>\<open>net.ParseIP\<close> does, \<open>canon_addr\<close> the
  canonical text of an address without zone, unmapped, and \<open>canon_mac\<close> that of a six-byte MAC.
\<close>

record net_env =
  url_parse :: "string \<Rightarrow> (string \<times> string \<times> string \<times> string) option"
  is_ip :: "string \<Rightarrow> bool"
  canon_addr :: "string \<Rightarrow> string option"
  canon_mac :: "string \<Rightarrow> string option"

datatype dns_error =
    HostInvalid int
  | DetourBlanks string
  | DetourBlocks string
  | OptionsInvalid string
  | OptionsProtected string
  | ConditionsInvalid int
  | NoRemoteServer
  | ProxyFinalMissing string
  | DeviceTemplateMissing
  | DeviceUnbound int
  | DeviceTagReserved string
  | BindingFailed generate_error

section \<open>Server addresses\<close>

definition isRemoteDNSServerType :: "string \<Rightarrow> bool" where
  "isRemoteDNSServerType t \<longleftrightarrow> t \<in> set [''udp'', ''tcp'', ''tls'', ''https'', ''quic'', ''h3'']"

definition isStrategyDNSRemoteType :: "string \<Rightarrow> bool" where
  "isStrategyDNSRemoteType t \<longleftrightarrow> t \<in> set [''udp'', ''tcp'', ''tls'', ''https'', ''quic'', ''h3'']"

text \<open>\<^verbatim>\<open>net.SplitHostPort\<close>.\<close>

definition SplitHostPort :: "string \<Rightarrow> (string \<times> string) option" where
  "SplitHostPort s =
     (if CHR '':'' \<notin> set s then None
      else
        let port = rev (takeWhile (\<lambda>c. c \<noteq> CHR '':'') (rev s));
            before = take (length s - length port - 1) s
        in if prefix ''['' s then
             (let host = takeWhile (\<lambda>c. c \<noteq> CHR '']'') (tl s)
              in if before = CHR ''['' # host @ '']'' \<and> CHR ''['' \<notin> set host \<and> CHR ''['' \<notin> set port \<and> CHR '']'' \<notin> set port
                 then Some (host, port) else None)
           else if CHR '':'' \<in> set before \<or> CHR ''['' \<in> set s \<or> CHR '']'' \<in> set s then None
           else Some (before, port))"

definition trim_brackets :: "string \<Rightarrow> string" where
  "trim_brackets s =
     (let b = (\<lambda>c. c = CHR ''['' \<or> c = CHR '']'') in rev (dropWhile b (rev (dropWhile b s))))"

definition put_port :: "string \<Rightarrow> gomap \<Rightarrow> gomap" where
  "put_port portValue server =
     (case ParseUint portValue 16 of None \<Rightarrow> server | Some p \<Rightarrow> map_put ''server_port'' (VInt (int p)) server)"

text \<open>The server map with its address, and whether the address is a domain name.\<close>

definition applyDNSServerAddress :: "net_env \<Rightarrow> string \<Rightarrow> string \<Rightarrow> gomap \<Rightarrow> gomap \<times> bool" where
  "applyDNSServerAddress env serverType address0 server =
     (let address = TrimSpace address0 in
      if address = [] \<or> \<not> isRemoteDNSServerType serverType then (server, False)
      else
        let (host, server1) =
              (case (case url_parse env address of
                       Some (scheme, hostname, port, path) \<Rightarrow>
                         if scheme \<noteq> [] \<and> hostname \<noteq> [] then Some (hostname, port, path) else None
                     | None \<Rightarrow> None) of
                 Some (hostname, port, path) \<Rightarrow>
                   let s1 = (if port \<noteq> [] then put_port port server else server)
                   in (hostname,
                       if (serverType = ''https'' \<or> serverType = ''h3'') \<and> path \<noteq> [] \<and> path \<noteq> ''/''
                       then map_put ''path'' (VStr path) s1 else s1)
               | None \<Rightarrow>
                   (case SplitHostPort address of
                      Some (h, port) \<Rightarrow> (h, put_port port server)
                    | None \<Rightarrow> (address, server)));
            h = trim_brackets host
        in (map_put ''server'' (VStr h) server1, \<not> is_ip env h))"

section \<open>Bootstrap servers and tags\<close>

text \<open>A server that can resolve other servers: enabled, direct, and local or with an IP address.\<close>

definition safe_bootstrap :: "net_env \<Rightarrow> string \<Rightarrow> DNSServer list \<Rightarrow> bool option" where
  "safe_bootstrap env tag servers =
     Option.bind
       (find (\<lambda>s. ds_Enabled s \<and> ds_Tag s = tag \<and> (ds_Detour s = [] \<or> ds_Detour s = ''direct'') \<and>
                  (ds_ServerType s = ''local'' \<or>
                   isRemoteDNSServerType (ds_ServerType s) \<and>
                   \<not> snd (applyDNSServerAddress env (ds_ServerType s) (ds_Address s) []))) servers)
       (\<lambda>s. Some (ds_ServerType s = ''local'' \<or>
                  has_key (fst (applyDNSServerAddress env (ds_ServerType s) (ds_Address s) [])) ''server''))"

definition isSafeDNSBootstrapTag :: "net_env \<Rightarrow> string \<Rightarrow> DNSServer list \<Rightarrow> bool" where
  "isSafeDNSBootstrapTag env tag servers \<longleftrightarrow> tag \<noteq> [] \<and> safe_bootstrap env tag servers = Some True"

definition selectDNSBootstrapTag :: "net_env \<Rightarrow> DNSServer list \<Rightarrow> string" where
  "selectDNSBootstrapTag env servers =
     (case find (\<lambda>s. isSafeDNSBootstrapTag env (ds_Tag s) servers) servers of None \<Rightarrow> [] | Some s \<Rightarrow> ds_Tag s)"

definition enabledDNSServerTags :: "DNSServer list \<Rightarrow> bool \<Rightarrow> string list" where
  "enabledDNSServerTags servers fakeIPEnabled =
     map ds_Tag (filter (\<lambda>s. ds_Enabled s \<and> ds_Tag s \<noteq> [] \<and> ds_ServerType s \<noteq> ''fakeip'') servers) @
     (if fakeIPEnabled then [''fakeip''] else [])"

definition numbered_tag :: "string \<Rightarrow> nat \<Rightarrow> string" where
  "numbered_tag base i = base @ ''-'' @ show_nat i"

lemma numbered_tag_inject [simp]: "numbered_tag base i = numbered_tag base j \<longleftrightarrow> i = j"
  by (simp add: numbered_tag_def)

text \<open>The loop over the numbers, which ends because each try uses up a tag that is taken.\<close>

function unique_from :: "string \<Rightarrow> string list \<Rightarrow> nat \<Rightarrow> string" where
  "unique_from base tags i =
     (if numbered_tag base i \<in> set tags then unique_from base tags (Suc i) else numbered_tag base i)"
  by auto

termination
proof (relation "measure (\<lambda>(base, tags, i). card (set tags \<inter> numbered_tag base ` {i..}))")
  fix base tags i
  assume t: "numbered_tag base i \<in> set tags"
  have "set tags \<inter> numbered_tag base ` {Suc i..} \<subset> set tags \<inter> numbered_tag base ` {i..}"
  proof
    show "set tags \<inter> numbered_tag base ` {Suc i..} \<subseteq> set tags \<inter> numbered_tag base ` {i..}" by auto
    have "numbered_tag base i \<in> set tags \<inter> numbered_tag base ` {i..}" using t by auto
    moreover have "numbered_tag base i \<notin> numbered_tag base ` {Suc i..}" by auto
    ultimately show "set tags \<inter> numbered_tag base ` {Suc i..} \<noteq> set tags \<inter> numbered_tag base ` {i..}" by blast
  qed
  then show "((base, tags, Suc i), base, tags, i) \<in> measure (\<lambda>(base, tags, i). card (set tags \<inter> numbered_tag base ` {i..}))"
    by (simp add: psubset_card_mono)
qed simp

declare unique_from.simps [simp del]

definition uniqueDNSServerTag :: "string \<Rightarrow> string list \<Rightarrow> string" where
  "uniqueDNSServerTag base tags = (if base \<notin> set tags then base else unique_from base tags 2)"

section \<open>Hosts\<close>

definition validDNSHostDomain :: "string \<Rightarrow> bool" where
  "validDNSHostDomain domain \<longleftrightarrow>
     domain \<noteq> [] \<and> length domain \<le> 253 \<and>
     list_all (\<lambda>label. label \<noteq> [] \<and> length label \<le> 63 \<and> hd label \<noteq> CHR ''-'' \<and> last label \<noteq> CHR ''-'' \<and>
       list_all (\<lambda>c. CHR ''a'' \<le> c \<and> c \<le> CHR ''z'' \<or> is_digit c \<or> c = CHR ''-'') label) (split_char (CHR ''.'') domain)"

fun canon_addrs :: "net_env \<Rightarrow> string list \<Rightarrow> string list \<Rightarrow> string list option" where
  "canon_addrs env seen [] = Some seen"
| "canon_addrs env seen (v # vs) =
     (case canon_addr env (TrimSpace v) of
        None \<Rightarrow> None
      | Some a \<Rightarrow> canon_addrs env (if a \<in> set seen then seen else seen @ [a]) vs)"

definition normalizeDNSHostRequest :: "net_env \<Rightarrow> DNSHost \<Rightarrow> (string \<times> string list) option" where
  "normalizeDNSHostRequest env host =
     (let domain = TrimSuffix (ToLower (TrimSpace (dh_Domain host))) ''.'' in
      if \<not> validDNSHostDomain domain \<or> dh_Addresses host = [] \<or> 16 < length (dh_Addresses host) then None
      else case canon_addrs env [] (dh_Addresses host) of
        None \<Rightarrow> None
      | Some addresses \<Rightarrow>
          if 200 < length (runes (TrimSpace (dh_Comment host))) then None else Some (domain, addresses))"

fun dns_hosts :: "net_env \<Rightarrow> DNSHost list \<Rightarrow> dns_error + (string \<times> string list) list" where
  "dns_hosts env [] = Inr []"
| "dns_hosts env (host # hosts) =
     (if \<not> dh_Enabled host then dns_hosts env hosts
      else case normalizeDNSHostRequest env host of
        None \<Rightarrow> Inl (HostInvalid (dh_ID host))
      | Some entry \<Rightarrow> res_bind (dns_hosts env hosts) (\<lambda>rest. Inr (entry # rest)))"

definition host_predefined :: "(string \<times> string list) list \<Rightarrow> gomap" where
  "host_predefined entries =
     foldl (\<lambda>m (domain, addresses).
       map_put domain (if length addresses = 1 then VStr (hd addresses) else VStrList addresses) m) [] entries"

section \<open>One server\<close>

definition validateDNSServerDetour :: "string \<Rightarrow> dns_error option" where
  "validateDNSServerDetour detour =
     (if detour \<noteq> TrimSpace detour then Some (DetourBlanks detour)
      else if detour = ''block'' \<or> detour = ''reject'' then Some (DetourBlocks detour)
      else None)"

definition protected_keys :: "string list" where
  "protected_keys =
     [''tag'', ''type'', ''server'', ''server_port'', ''path'', ''detour'', ''domain_resolver'', ''domain_strategy'',
      ''strategy'', ''client_subnet'', ''address_resolver'', ''address_strategy'']"

definition validateDNSServerOptions :: "gomap \<Rightarrow> dns_error option" where
  "validateDNSServerOptions options =
     map_option (\<lambda>(k, v). OptionsProtected k) (find (\<lambda>(k, v). k \<in> set protected_keys) options)"

definition put_nonempty :: "string \<Rightarrow> string \<Rightarrow> gomap \<Rightarrow> gomap" where
  "put_nonempty k v m = (if v \<noteq> [] then map_put k (VStr v) m else m)"

definition merge_options :: "gomap \<Rightarrow> gomap \<Rightarrow> gomap" where
  "merge_options options server = foldl (\<lambda>m (k, v). map_put k v m) server options"

definition server_resolver :: "net_env \<Rightarrow> DNSServer list \<Rightarrow> string \<Rightarrow> DNSServer \<Rightarrow> string" where
  "server_resolver env servers bootstrapTag srv =
     (if ds_AddressResolver srv = ds_Tag srv \<or> \<not> isSafeDNSBootstrapTag env (ds_AddressResolver srv) servers
      then bootstrapTag else ds_AddressResolver srv)"

text \<open>The fields of a server, before its options.\<close>

definition server_fields :: "net_env \<Rightarrow> DNSServer list \<Rightarrow> string \<Rightarrow> DNSServer \<Rightarrow> gomap" where
  "server_fields env servers bootstrapTag srv =
     (let (server1, serverIsDomain) =
            applyDNSServerAddress env (ds_ServerType srv) (ds_Address srv)
              [(''tag'', VStr (ds_Tag srv)), (''type'', VStr (ds_ServerType srv))];
          resolver = server_resolver env servers bootstrapTag srv;
          server2 = (if serverIsDomain \<and> resolver \<noteq> [] \<and> resolver \<noteq> ds_Tag srv
                     then map_put ''domain_resolver'' (VStr resolver) server1 else server1);
          server3 = (if serverIsDomain then put_nonempty ''domain_strategy'' (ds_AddressStrategy srv) server2 else server2);
          server4 = put_nonempty ''strategy'' (ds_Strategy srv) server3;
          server5 = (if ds_Detour srv \<noteq> ''direct'' then put_nonempty ''detour'' (ds_Detour srv) server4 else server4)
      in put_nonempty ''client_subnet'' (ds_ClientSubnet srv) server5)"

definition dns_server :: "net_env \<Rightarrow> DNSServer list \<Rightarrow> string \<Rightarrow> DNSServer \<Rightarrow> dns_error + gomap" where
  "dns_server env servers bootstrapTag srv =
     (case validateDNSServerDetour (ds_Detour srv) of
        Some e \<Rightarrow> Inl e
      | None \<Rightarrow>
          (case ds_Options srv of
             BadJSON \<Rightarrow> Inl (OptionsInvalid (ds_Tag srv))
           | JSONObject options \<Rightarrow>
               (case validateDNSServerOptions options of
                  Some e \<Rightarrow> Inl e
                | None \<Rightarrow>
                    Inr (map_del ''address_strategy'' (map_del ''address_resolver''
                      (merge_options options (server_fields env servers bootstrapTag srv)))))))"

fun dns_servers :: "net_env \<Rightarrow> DNSServer list \<Rightarrow> string \<Rightarrow> DNSServer list \<Rightarrow> dns_error + gomap list" where
  "dns_servers env all bootstrapTag [] = Inr []"
| "dns_servers env all bootstrapTag (srv # srvs) =
     (if \<not> ds_Enabled srv \<or> ds_ServerType srv = ''fakeip'' then dns_servers env all bootstrapTag srvs
      else res_bind (dns_server env all bootstrapTag srv) (\<lambda>s.
           res_bind (dns_servers env all bootstrapTag srvs) (\<lambda>rest. Inr (s # rest))))"

section \<open>The final server behind the proxy\<close>

definition strategyDNSFallbackServerTag :: "string \<Rightarrow> gomap list \<Rightarrow> string" where
  "strategyDNSFallbackServerTag preferred servers =
     (case find (\<lambda>s. map_get s ''tag'' = VStr preferred) servers of
        Some s \<Rightarrow>
          if isStrategyDNSRemoteType (as_string (map_get s ''type'')) then preferred
          else (case find (\<lambda>s. as_string (map_get s ''tag'') \<noteq> [] \<and> isStrategyDNSRemoteType (as_string (map_get s ''type''))) servers of
                  None \<Rightarrow> [] | Some t \<Rightarrow> as_string (map_get t ''tag''))
      | None \<Rightarrow>
          (case find (\<lambda>s. as_string (map_get s ''tag'') \<noteq> [] \<and> isStrategyDNSRemoteType (as_string (map_get s ''type''))) servers of
             None \<Rightarrow> [] | Some t \<Rightarrow> as_string (map_get t ''tag'')))"

definition generateProxyDNSFinal :: "string \<Rightarrow> gomap list \<Rightarrow> string list \<Rightarrow> dns_error + gomap option \<times> string" where
  "generateProxyDNSFinal preferred servers tags =
     (if preferred = [] then Inl NoRemoteServer
      else case find (\<lambda>s. map_get s ''tag'' = VStr preferred) servers of
        None \<Rightarrow> Inl (ProxyFinalMissing preferred)
      | Some server \<Rightarrow>
          if \<not> isStrategyDNSRemoteType (as_string (map_get server ''type'')) then Inl (ProxyFinalMissing preferred)
          else if map_get server ''detour'' = VStr ''proxy'' then Inr (None, preferred)
          else let tag = uniqueDNSServerTag ''ackwrap-proxy-dns'' tags
               in Inr (Some (map_put ''detour'' (VStr ''proxy'') (map_put ''tag'' (VStr tag) server)), tag))"

text \<open>The strategy groups that take over the traffic of a rule, by rule.\<close>

definition routeRuleOutboundOverrides ::
  "ProxyCollectionWithNodes list \<Rightarrow> RouteRule list \<Rightarrow> generate_error + (int \<times> string) list" where
  "routeRuleOutboundOverrides collections rules =
     res_bind (effectiveRouteStrategyCollections collections rules False) (\<lambda>cols.
       Inr (foldl (\<lambda>m col. map_put (pc_RouteRuleID col) (pc_Name col) m) [] (filter (\<lambda>col. 0 < pc_RouteRuleID col) cols)))"

definition rule_leaves_proxy :: "(int \<times> string) list \<Rightarrow> RouteRule \<Rightarrow> bool" where
  "rule_leaves_proxy overrides rule \<longleftrightarrow>
     rr_Enabled rule \<and> rr_Outbound rule \<notin> set [''block'', ''reject'', ''bypass''] \<and>
     (let outbound = (case map_of overrides (rr_ID rule) of
                        Some o' \<Rightarrow> if rr_Outbound rule = ''proxy'' then o' else rr_Outbound rule
                      | None \<Rightarrow> rr_Outbound rule)
      in outbound \<noteq> [] \<and> outbound \<noteq> ''direct'')"

definition dnsNeedsProxyFinal ::
  "string \<Rightarrow> ProxyCollectionWithNodes list \<Rightarrow> RouteRule list \<Rightarrow> generate_error + bool" where
  "dnsNeedsProxyFinal mode collections rules =
     (if mode = ''global'' then Inr True
      else if mode = ''rule'' then
        res_bind (routeRuleOutboundOverrides collections rules) (\<lambda>ov. Inr (list_ex (rule_leaves_proxy ov) rules))
      else Inr False)"

section \<open>Rules\<close>

definition generatedGeoRuleSetTag :: "string \<Rightarrow> string \<Rightarrow> string" where
  "generatedGeoRuleSetTag ruleType0 value0 =
     (let ruleType = ToLower (TrimSpace ruleType0); v = ToLower (TrimSpace value0)
      in if v = [] then [] else if prefix (ruleType @ ''-'') v then v else ruleType @ ''-'' @ v)"

definition nonempty_uniq :: "string list \<Rightarrow> string list" where
  "nonempty_uniq ts = uniq_from [] (filter (\<lambda>t. t \<noteq> []) ts)"

definition generatedGeoRuleSetTags :: "string \<Rightarrow> string list \<Rightarrow> string list" where
  "generatedGeoRuleSetTags ruleType values = nonempty_uniq (map (generatedGeoRuleSetTag ruleType) values)"

fun dnsRuleStringConditions :: "gomap \<Rightarrow> string \<Rightarrow> string list" where
  "dnsRuleStringConditions conditions key =
     (case map_get conditions key of
        VStr v \<Rightarrow> if v = [] then [] else [v]
      | VList items \<Rightarrow> filter (\<lambda>v. v \<noteq> []) (string_members items)
      | VStrList vs \<Rightarrow> vs
      | _ \<Rightarrow> [])"

definition normalizeDNSRuleConditions :: "gomap \<Rightarrow> gomap" where
  "normalizeDNSRuleConditions conditions =
     (let geositeValues = dnsRuleStringConditions conditions ''geosite'' in
      if \<not> has_key conditions ''geosite'' then conditions
      else let rest = map_del ''geosite'' conditions in
        if geositeValues = [] then rest
        else let combined = nonempty_uniq (dnsRuleStringConditions rest ''rule_set'' @ generatedGeoRuleSetTags ''geosite'' geositeValues)
             in if combined \<noteq> [] then map_put ''rule_set'' (VStrList combined) rest else rest)"

definition dnsRuleMap :: "gomap \<Rightarrow> DNSRule \<Rightarrow> gomap" where
  "dnsRuleMap conditions rule =
     (let m1 = merge_options conditions [(''server'', VStr (dr_Server rule))];
          m2 = (if dr_DisableCache rule then map_put ''disable_cache'' (VBool True) m1 else m1);
          m3 = (if 0 < dr_RewriteTTL rule then map_put ''rewrite_ttl'' (VInt (dr_RewriteTTL rule)) m2 else m2)
      in put_nonempty ''client_subnet'' (dr_ClientSubnet rule) m3)"

definition conditions_of :: "DNSRule \<Rightarrow> gomap" where
  "conditions_of rule = (case dr_Conditions rule of BadJSON \<Rightarrow> [] | JSONObject c \<Rightarrow> c)"

definition validateEnabledDNSRuleConditions :: "DNSRule list \<Rightarrow> dns_error option" where
  "validateEnabledDNSRuleConditions rules =
     map_option (\<lambda>r. ConditionsInvalid (dr_ID r)) (find (\<lambda>r. dr_Enabled r \<and> dr_Conditions r = BadJSON) rules)"

definition address_query :: "goval" where
  "address_query = VStrList [''A'', ''AAAA'']"

definition nodeServerDNSRules :: "string list \<Rightarrow> string list \<Rightarrow> string \<Rightarrow> string \<Rightarrow> gomap list" where
  "nodeServerDNSRules domains hostDomains hostsTag bootstrapTag =
     (let overridden = filter (\<lambda>d. d \<in> set hostDomains) domains
      in (if overridden \<noteq> [] \<and> hostsTag \<noteq> []
          then [[(''domain'', VStrList overridden), (''query_type'', address_query), (''server'', VStr hostsTag)]] else []) @
         (if domains \<noteq> []
          then [[(''domain'', VStrList domains), (''query_type'', address_query), (''server'', VStr bootstrapTag)]] else []))"

definition explicit_rule :: "string list \<Rightarrow> string list \<Rightarrow> DNSRule \<Rightarrow> gomap option" where
  "explicit_rule fakeIPServerTags serverTags rule =
     (let conditions = normalizeDNSRuleConditions (conditions_of rule)
      in if \<not> dr_Enabled rule \<or> dr_Server rule \<in> set fakeIPServerTags \<or> dr_Server rule \<notin> set serverTags \<or>
            has_key conditions ''outbound'' \<or> conditions = []
         then None else Some (dnsRuleMap conditions rule))"

section \<open>Device DNS\<close>

definition deviceMACInbounds :: "string list" where
  "deviceMACInbounds = [''ackwrap-device-mac-in'', ''ackwrap-device-mac-dns-in'']"

fun splitDeviceSources :: "net_env \<Rightarrow> string list \<Rightarrow> string list \<times> string list" where
  "splitDeviceSources env [] = ([], [])"
| "splitDeviceSources env (v # vs) =
     (case splitDeviceSources env vs of (cidrs, macs) \<Rightarrow>
       (case canon_mac env v of Some m \<Rightarrow> (cidrs, m # macs) | None \<Rightarrow> (v # cidrs, macs)))"

definition deviceSourceRule :: "net_env \<Rightarrow> string list \<Rightarrow> gomap \<Rightarrow> gomap" where
  "deviceSourceRule env values conditions =
     (case splitDeviceSources env values of (cidrs, macs) \<Rightarrow>
        if macs = [] then map_put ''source_ip_cidr'' (VStrList cidrs) conditions
        else
          let mac_identity = [(''inbound'', VStrList deviceMACInbounds), (''source_mac_address'', VStrList macs)];
              identity = (if cidrs \<noteq> []
                          then [(''type'', VStr ''logical''), (''mode'', VStr ''or''),
                                (''rules'', VMapList [[(''source_ip_cidr'', VStrList cidrs)], mac_identity])]
                          else mac_identity);
              is_action = (\<lambda>(k, v). k \<in> set [''action'', ''outbound'', ''server'']);
              match = filter (\<lambda>e. \<not> is_action e) conditions;
              action = [(''type'', VStr ''logical''), (''mode'', VStr ''and'')] @ filter is_action conditions
          in action @ [(''rules'', VMapList (identity # (if match \<noteq> [] then [match] else [])))])"

definition deviceDNSServerTag :: "int \<Rightarrow> string" where
  "deviceDNSServerTag i = ''ackwrap-device-dns-'' @ show_int i"

definition deviceDirectDNSServerTag :: "int \<Rightarrow> string" where
  "deviceDirectDNSServerTag i = ''ackwrap-device-direct-dns-'' @ show_int i"

text \<open>One device: its servers and its rules, the direct domains first.\<close>

definition device_dns ::
  "net_env \<Rightarrow> gomap \<Rightarrow> gomap \<Rightarrow> (int \<times> string) list \<Rightarrow> string list \<Rightarrow> device_rule \<Rightarrow> dns_error + gomap list \<times> gomap list" where
  "device_dns env template directTemplate overrides tags device =
     (let outbound = (case map_of overrides (dev_ID device) of None \<Rightarrow> [] | Some n \<Rightarrow> n);
          tag = deviceDNSServerTag (dev_ID device);
          directTag = deviceDirectDNSServerTag (dev_ID device);
          clone = map_put ''detour'' (VStr outbound) (map_put ''tag'' (VStr tag) template);
          rule = deviceSourceRule env (dev_Values device) [(''server'', VStr tag)]
      in if outbound = [] then Inl (DeviceUnbound (dev_ID device))
         else if tag \<in> set tags then Inl (DeviceTagReserved tag)
         else if dev_DirectDomains device = [] then Inr ([clone], [rule])
         else if directTag \<in> set (tag # tags) then Inl (DeviceTagReserved directTag)
         else Inr ([clone, map_del ''detour'' (map_put ''tag'' (VStr directTag) directTemplate)],
                   [deviceSourceRule env (dev_Values device)
                      [(''domain_suffix'', VStrList (dev_DirectDomains device)), (''server'', VStr directTag)], rule]))"

definition server_tags :: "gomap list \<Rightarrow> string list" where
  "server_tags servers = map (\<lambda>s. as_string (map_get s ''tag'')) servers"

fun devices_dns ::
  "net_env \<Rightarrow> gomap \<Rightarrow> gomap \<Rightarrow> (int \<times> string) list \<Rightarrow> string list \<Rightarrow> device_rule list \<Rightarrow> dns_error + gomap list \<times> gomap list" where
  "devices_dns env template directTemplate overrides tags [] = Inr ([], [])"
| "devices_dns env template directTemplate overrides tags (d # ds) =
     res_bind (device_dns env template directTemplate overrides tags d) (\<lambda>(ss, rs).
     res_bind (devices_dns env template directTemplate overrides (tags @ server_tags ss) ds) (\<lambda>(ss', rs').
       Inr (ss @ ss', rs @ rs')))"

definition deviceRuleCIDRs :: "device_rule list \<Rightarrow> string list" where
  "deviceRuleCIDRs devices = foldl (\<lambda>cidrs d. appendUniqueStrings cidrs (dev_Values d)) [] devices"

definition appendDeviceDNS ::
  "net_env \<Rightarrow> device_rule list \<Rightarrow> generate_error + (int \<times> string) list \<Rightarrow> gomap list \<Rightarrow> string list \<Rightarrow> string \<Rightarrow> string \<Rightarrow>
   dns_error + gomap list \<times> gomap list" where
  "appendDeviceDNS env devices bindings servers tags templateTag directTemplateTag =
     (if devices = [] then Inr (servers, [])
      else case bindings of
        Inl e \<Rightarrow> Inl (BindingFailed e)
      | Inr overrides \<Rightarrow>
          (case find (\<lambda>s. map_get s ''tag'' = VStr templateTag) servers of
             None \<Rightarrow> Inl DeviceTemplateMissing
           | Some template \<Rightarrow>
               let directTemplate =
                     (case find (\<lambda>s. map_get s ''tag'' = VStr directTemplateTag \<and>
                                     isStrategyDNSRemoteType (as_string (map_get s ''type''))) (rev servers) of
                        None \<Rightarrow> template | Some s \<Rightarrow> s)
               in res_bind (devices_dns env template directTemplate overrides tags devices) (\<lambda>(ss, rs).
                    let macs = snd (splitDeviceSources env (deviceRuleCIDRs devices))
                    in Inr (servers @ ss,
                            rs @ (if macs \<noteq> [] then [[(''inbound'', VStrList deviceMACInbounds), (''action'', VStr ''reject'')]] else [])))))"

section \<open>The DNS section\<close>

text \<open>Everything the section is generated from; \<open>di_devices\<close> are the enabled device rules,
  \<open>di_node_domains\<close> the domain names of the node servers, \<open>di_version\<close> the core's version.\<close>

record dns_input =
  di_settings :: "DNSGlobalSettings option"
  di_servers :: "DNSServer list"
  di_hosts :: "DNSHost list"
  di_rules :: "DNSRule list"
  di_mode :: string
  di_route_rules :: "RouteRule list"
  di_collections :: "ProxyCollectionWithNodes list"
  di_devices :: "device_rule list"
  di_node_domains :: "string list"
  di_version :: string

definition default_settings :: DNSGlobalSettings where
  "default_settings =
     \<lparr>gs_Enabled = True, gs_Final = ''dns_proxy'', gs_ProxyFinal = [], gs_Strategy = ''prefer_ipv4'', gs_DisableCache = False,
      gs_DisableExpire = False, gs_IndependentCache = False, gs_ReverseMapping = False, gs_CacheCapacity = 4096,
      gs_ClientSubnet = [], gs_FakeIPEnabled = False, gs_FakeIPInet4Range = ''198.18.0.1/16'', gs_FakeIPInet6Range = ''fc00::/18''\<rparr>"

definition applyDNSMode :: "DNSGlobalSettings \<Rightarrow> DNSGlobalSettings" where
  "applyDNSMode s = (if \<not> gs_FakeIPEnabled s then s\<lparr>gs_ReverseMapping := True\<rparr> else s)"

definition effectiveDNSGlobalSettings :: "dns_input \<Rightarrow> DNSGlobalSettings" where
  "effectiveDNSGlobalSettings inp = (case di_settings inp of None \<Rightarrow> default_settings | Some s \<Rightarrow> applyDNSMode s)"

text \<open>The servers before the device servers, and the state the rest of the generator reads.\<close>

record dns_stage =
  st_servers :: "gomap list"
  st_tags :: "string list"
  st_fakeip :: "string list"
  st_bootstrap :: string
  st_hosts :: "(string \<times> string list) list"
  st_hosts_tag :: string
  st_proxy_final :: "string option"

definition fakeip_tags :: "DNSServer list \<Rightarrow> string list" where
  "fakeip_tags servers = ''fakeip'' # map ds_Tag (filter (\<lambda>s. ds_ServerType s = ''fakeip'') servers)"

definition configured_stage :: "net_env \<Rightarrow> dns_input \<Rightarrow> dns_error + dns_stage" where
  "configured_stage env inp =
     res_bind (dns_hosts env (di_hosts inp)) (\<lambda>hosts.
       let settings = effectiveDNSGlobalSettings inp;
           tags0 = enabledDNSServerTags (di_servers inp) (gs_Enabled settings);
           selected = selectDNSBootstrapTag env (di_servers inp);
           bootstrap = (if selected = [] then uniqueDNSServerTag ''ackwrap-bootstrap-local'' tags0 else selected);
           tags1 = (if selected = [] then bootstrap # tags0 else tags0);
           hostsTag = (if hosts \<noteq> [] then uniqueDNSServerTag ''ackwrap-hosts'' tags1 else []);
           tags2 = (if hosts \<noteq> [] then hostsTag # tags1 else tags1)
       in res_bind (dns_servers env (di_servers inp) bootstrap (di_servers inp)) (\<lambda>servers.
            Inr \<lparr>st_servers = servers @
                   (if selected = [] then [[(''tag'', VStr bootstrap), (''type'', VStr ''local'')]] else []) @
                   (if hosts \<noteq> [] then [[(''tag'', VStr hostsTag), (''type'', VStr ''hosts''), (''predefined'', VMap (host_predefined hosts))]] else []),
                 st_tags = tags2, st_fakeip = fakeip_tags (di_servers inp), st_bootstrap = bootstrap,
                 st_hosts = hosts, st_hosts_tag = hostsTag, st_proxy_final = None\<rparr>))"

definition add_proxy_final :: "DNSGlobalSettings \<Rightarrow> dns_stage \<Rightarrow> dns_error + dns_stage" where
  "add_proxy_final settings st =
     (let wanted = TrimSpace (gs_ProxyFinal settings);
          preferred = (if wanted = [] then strategyDNSFallbackServerTag (gs_Final settings) (st_servers st) else wanted)
      in res_bind (generateProxyDNSFinal preferred (st_servers st) (st_tags st)) (\<lambda>(extra, final).
           Inr (case extra of
                  None \<Rightarrow> st\<lparr>st_proxy_final := Some final\<rparr>
                | Some server \<Rightarrow> st\<lparr>st_servers := st_servers st @ [server], st_tags := final # st_tags st, st_proxy_final := Some final\<rparr>)))"

definition add_fakeip :: "DNSGlobalSettings \<Rightarrow> dns_stage \<Rightarrow> dns_stage" where
  "add_fakeip settings st =
     (if gs_Enabled settings
      then st\<lparr>st_servers := st_servers st @
             [put_nonempty ''inet6_range'' (gs_FakeIPInet6Range settings)
                (put_nonempty ''inet4_range'' (gs_FakeIPInet4Range settings) [(''tag'', VStr ''fakeip''), (''type'', VStr ''fakeip'')])]\<rparr>
      else st)"

definition server_stage :: "net_env \<Rightarrow> dns_input \<Rightarrow> dns_error + dns_stage" where
  "server_stage env inp =
     res_bind (configured_stage env inp) (\<lambda>st.
     case validateEnabledDNSRuleConditions (di_rules inp) of
       Some e \<Rightarrow> Inl e
     | None \<Rightarrow>
         (case dnsNeedsProxyFinal (di_mode inp) (di_collections inp) (di_route_rules inp) of
            Inl e \<Rightarrow> Inl (BindingFailed e)
          | Inr required \<Rightarrow>
              res_bind (if required then add_proxy_final (effectiveDNSGlobalSettings inp) st else Inr st) (\<lambda>st'.
                Inr (add_fakeip (effectiveDNSGlobalSettings inp) st'))))"

definition dns_rules :: "dns_input \<Rightarrow> dns_stage \<Rightarrow> gomap list \<Rightarrow> string list \<Rightarrow> gomap list" where
  "dns_rules inp st deviceRules tags =
     deviceRules @
     nodeServerDNSRules (di_node_domains inp) (map fst (st_hosts st)) (st_hosts_tag st) (st_bootstrap st) @
     (if st_hosts_tag st \<noteq> []
      then [[(''domain'', VStrList (map fst (st_hosts st))), (''query_type'', address_query), (''server'', VStr (st_hosts_tag st))]] else []) @
     List.map_filter (explicit_rule (st_fakeip st) tags) (di_rules inp) @
     (if gs_FakeIPEnabled (effectiveDNSGlobalSettings inp)
      then [[(''query_type'', address_query), (''server'', VStr ''fakeip'')]] else [])"

definition final_server :: "DNSGlobalSettings \<Rightarrow> dns_stage \<Rightarrow> gomap list \<Rightarrow> string list \<Rightarrow> string" where
  "final_server settings st servers tags =
     (let wanted = (case st_proxy_final st of Some t \<Rightarrow> t | None \<Rightarrow> gs_Final settings)
      in if wanted \<in> set (st_fakeip st) \<or> wanted \<notin> set tags then as_string (map_get (hd servers) ''tag'') else wanted)"

definition matches_domains :: "gomap \<Rightarrow> bool" where
  "matches_domains rule \<longleftrightarrow> has_key rule ''domain_suffix'' \<or> map_get rule ''type'' = VStr ''logical''"

definition generateDNSFromDatabase :: "net_env \<Rightarrow> dns_input \<Rightarrow> dns_error + gomap option" where
  "generateDNSFromDatabase env inp =
     res_bind (server_stage env inp) (\<lambda>st.
     let settings = effectiveDNSGlobalSettings inp in
     res_bind (appendDeviceDNS env (if di_mode inp = ''rule'' then di_devices inp else [])
                 (routeRuleOutboundOverrides (di_collections inp) (di_route_rules inp))
                 (st_servers st) (st_tags st) (case st_proxy_final st of None \<Rightarrow> [] | Some t \<Rightarrow> t) (gs_Final settings)) (\<lambda>(servers, deviceRules).
       if servers = [] then Inr None
       else
         let tags = st_tags st @ server_tags (drop (length (st_servers st)) servers);
             dns0 = [(''servers'', VMapList servers), (''rules'', VMapList (dns_rules inp st deviceRules tags)),
                     (''final'', VStr (final_server settings st servers tags)), (''strategy'', VStr (gs_Strategy settings)),
                     (''disable_cache'', VBool (gs_DisableCache settings)), (''disable_expire'', VBool (gs_DisableExpire settings)),
                     (''reverse_mapping'', VBool (gs_ReverseMapping settings \<or> di_node_domains inp \<noteq> [] \<or> list_ex matches_domains deviceRules))];
             dns1 = (if singboxSupportsDNSIndependentCache (di_version inp)
                     then map_put ''independent_cache'' (VBool (gs_IndependentCache settings \<or> deviceRules \<noteq> [])) dns0 else dns0);
             dns2 = (if 0 < gs_CacheCapacity settings then map_put ''cache_capacity'' (VInt (gs_CacheCapacity settings)) dns1 else dns1)
         in Inr (Some (put_nonempty ''client_subnet'' (gs_ClientSubnet settings) dns2))))"

section \<open>Facts about one server\<close>

lemma map_of_put_nonempty: "map_of (put_nonempty k v m) k' = (if k' = k \<and> v \<noteq> [] then Some (VStr v) else map_of m k')"
  by (simp add: put_nonempty_def)

lemma map_of_merge: "k \<notin> fst ` set options \<Longrightarrow> map_of (merge_options options m) k = map_of m k"
  unfolding merge_options_def by (induction options arbitrary: m) auto

lemma map_of_put_port: "k \<noteq> ''server_port'' \<Longrightarrow> map_of (put_port v m) k = map_of m k"
  by (simp add: put_port_def split: option.split)

lemma address_keeps:
  assumes "applyDNSServerAddress env t a m = (m', d)" and "k \<notin> set [''server'', ''server_port'', ''path'']"
  shows "map_of m' k = map_of m k"
proof -
  have k: "k \<noteq> ''server''" "k \<noteq> ''server_port''" "k \<noteq> ''path''" using assms(2) by auto
  show ?thesis using assms(1) k unfolding applyDNSServerAddress_def Let_def
    by (auto simp: map_of_put_port split: if_split_asm option.split_asm prod.split_asm)
qed

lemma options_unprotected:
  "validateDNSServerOptions options = None \<Longrightarrow> k \<in> set protected_keys \<Longrightarrow> k \<notin> fst ` set options"
  by (auto simp: validateDNSServerOptions_def find_None_iff)

lemma address_domain: "snd (applyDNSServerAddress env t a m) = snd (applyDNSServerAddress env t a m')"
  unfolding applyDNSServerAddress_def Let_def by (auto split: option.split prod.split)

lemma server_fields_of:
  assumes "k \<notin> set [''server'', ''server_port'', ''path'']"
  shows "map_of (server_fields env all boot srv) k =
    (let d = snd (applyDNSServerAddress env (ds_ServerType srv) (ds_Address srv) []); r = server_resolver env all boot srv
     in if k = ''client_subnet'' \<and> ds_ClientSubnet srv \<noteq> [] then Some (VStr (ds_ClientSubnet srv))
        else if k = ''detour'' \<and> ds_Detour srv \<noteq> ''direct'' \<and> ds_Detour srv \<noteq> [] then Some (VStr (ds_Detour srv))
        else if k = ''strategy'' \<and> ds_Strategy srv \<noteq> [] then Some (VStr (ds_Strategy srv))
        else if k = ''domain_strategy'' \<and> d \<and> ds_AddressStrategy srv \<noteq> [] then Some (VStr (ds_AddressStrategy srv))
        else if k = ''domain_resolver'' \<and> d \<and> r \<noteq> [] \<and> r \<noteq> ds_Tag srv then Some (VStr r)
        else map_of [(''tag'', VStr (ds_Tag srv)), (''type'', VStr (ds_ServerType srv))] k)"
proof -
  obtain m1 d where a: "applyDNSServerAddress env (ds_ServerType srv) (ds_Address srv)
      [(''tag'', VStr (ds_Tag srv)), (''type'', VStr (ds_ServerType srv))] = (m1, d)" by fastforce
  have d: "snd (applyDNSServerAddress env (ds_ServerType srv) (ds_Address srv) []) = d"
    using address_domain [of env "ds_ServerType srv" "ds_Address srv" "[]"] a by (metis snd_conv)
  have k: "map_of m1 k = map_of [(''tag'', VStr (ds_Tag srv)), (''type'', VStr (ds_ServerType srv))] k"
    by (rule address_keeps [OF a assms])
  show ?thesis unfolding server_fields_def Let_def a prod.case d using k
    by (cases "k = ''detour''") (simp_all add: map_of_put_nonempty del: map_of.simps)
qed

text \<open>The controlled fields of a generated server.\<close>

lemma dns_server_map:
  assumes "dns_server env all boot srv = Inr m" and "k \<in> set protected_keys" and "k \<notin> set [''address_strategy'', ''address_resolver'']"
  shows "map_of m k = map_of (server_fields env all boot srv) k"
proof -
  from assms(1) obtain options where o: "validateDNSServerOptions options = None"
    and m: "m = map_del ''address_strategy'' (map_del ''address_resolver'' (merge_options options (server_fields env all boot srv)))"
    by (auto simp: dns_server_def split: option.split_asm stored_json.split_asm)
  from map_of_merge [OF options_unprotected [OF o assms(2)]] assms(3) show ?thesis by (simp add: m)
qed

lemma dns_server_fields:
  assumes "dns_server env all boot srv = Inr m"
  shows "map_of m ''tag'' = Some (VStr (ds_Tag srv))" and "map_of m ''type'' = Some (VStr (ds_ServerType srv))"
    and "map_of m ''detour'' = (if ds_Detour srv \<noteq> ''direct'' \<and> ds_Detour srv \<noteq> [] then Some (VStr (ds_Detour srv)) else None)"
    and "map_of m ''domain_resolver'' =
      (if snd (applyDNSServerAddress env (ds_ServerType srv) (ds_Address srv) []) \<and> server_resolver env all boot srv \<noteq> [] \<and>
          server_resolver env all boot srv \<noteq> ds_Tag srv
       then Some (VStr (server_resolver env all boot srv)) else None)"
  by (subst dns_server_map [OF assms], simp add: protected_keys_def, simp, subst server_fields_of, simp, simp add: Let_def)+

section \<open>Tags\<close>

lemma unique_from_fresh: "unique_from base tags i \<notin> set tags \<and> prefix base (unique_from base tags i)"
  by (induction base tags i rule: unique_from.induct) (subst unique_from.simps, simp, simp add: numbered_tag_def unique_from.simps)

lemma uniqueDNSServerTag_fresh: "uniqueDNSServerTag base tags \<notin> set tags" "prefix base (uniqueDNSServerTag base tags)"
  using unique_from_fresh [of base tags 2] by (simp_all add: uniqueDNSServerTag_def)

lemma server_tags_append [simp]: "server_tags (a @ b) = server_tags a @ server_tags b"
  by (simp add: server_tags_def)

lemma server_tags_mem: "t \<in> set (server_tags servers) \<longleftrightarrow> (\<exists>s\<in>set servers. as_string (map_get s ''tag'') = t)"
  by (auto simp: server_tags_def)

text \<open>The generated servers are those of the enabled rows, in order.\<close>

definition real_servers :: "DNSServer list \<Rightarrow> DNSServer list" where
  "real_servers = filter (\<lambda>s. ds_Enabled s \<and> ds_ServerType s \<noteq> ''fakeip'')"

lemma dns_servers_all2:
  "dns_servers env all boot rows = Inr ms \<Longrightarrow> list_all2 (\<lambda>srv m. dns_server env all boot srv = Inr m) (real_servers rows) ms"
  by (induction rows arbitrary: ms) (auto simp: real_servers_def go_result split: if_split_asm)

lemma dns_servers_tags:
  assumes "dns_servers env all boot rows = Inr ms"
  shows "server_tags ms = map ds_Tag (real_servers rows)"
  using dns_servers_all2 [OF assms]
  by (induction rule: list_all2_induct) (auto simp: server_tags_def map_get_def dns_server_fields)

lemma dns_servers_mem:
  assumes "dns_servers env all boot rows = Inr ms"
  shows "m \<in> set ms \<Longrightarrow> \<exists>srv\<in>set (real_servers rows). dns_server env all boot srv = Inr m"
    and "srv \<in> set (real_servers rows) \<Longrightarrow> \<exists>m\<in>set ms. dns_server env all boot srv = Inr m"
  using dns_servers_all2 [OF assms]
  by (auto simp: list_all2_conv_all_nth in_set_conv_nth) (metis nth_mem)+

text \<open>What every stage keeps: the tags known are tags of servers, once the FakeIP server is added.\<close>

definition stage_ok :: "dns_input \<Rightarrow> dns_stage \<Rightarrow> bool" where
  "stage_ok inp st \<longleftrightarrow>
     st_fakeip st = fakeip_tags (di_servers inp) \<and>
     set (st_tags st) \<subseteq> insert ''fakeip'' (set (server_tags (st_servers st))) \<and>
     (\<forall>srv\<in>set (real_servers (di_servers inp)). ds_Tag srv \<noteq> [] \<longrightarrow> ds_Tag srv \<in> set (st_tags st)) \<and>
     st_bootstrap st \<in> set (server_tags (st_servers st)) \<and>
     (st_hosts_tag st \<noteq> [] \<longrightarrow> st_hosts_tag st \<in> set (server_tags (st_servers st)))"

lemma bootstrap_row:
  assumes "isSafeDNSBootstrapTag env tag rows"
  obtains srv where "srv \<in> set (real_servers rows)" "ds_Tag srv = tag" "ds_Detour srv = [] \<or> ds_Detour srv = ''direct''"
    "\<not> snd (applyDNSServerAddress env (ds_ServerType srv) (ds_Address srv) [])"
proof -
  from assms obtain srv where f: "find (\<lambda>s. ds_Enabled s \<and> ds_Tag s = tag \<and> (ds_Detour s = [] \<or> ds_Detour s = ''direct'') \<and>
                  (ds_ServerType s = ''local'' \<or> isRemoteDNSServerType (ds_ServerType s) \<and>
                   \<not> snd (applyDNSServerAddress env (ds_ServerType s) (ds_Address s) []))) rows = Some srv"
    by (auto simp: isSafeDNSBootstrapTag_def safe_bootstrap_def bind_eq_Some_conv)
  then have srv: "srv \<in> set rows" "ds_Enabled srv" "ds_Tag srv = tag" "ds_Detour srv = [] \<or> ds_Detour srv = ''direct''"
    and k: "ds_ServerType srv = ''local'' \<or> isRemoteDNSServerType (ds_ServerType srv) \<and>
      \<not> snd (applyDNSServerAddress env (ds_ServerType srv) (ds_Address srv) [])"
    by (auto simp: find_Some_iff in_set_conv_nth)
  have t: "\<not> isRemoteDNSServerType ''local''" "\<not> isRemoteDNSServerType ''fakeip''" by code_simp+
  with k have "ds_ServerType srv \<noteq> ''fakeip''" by auto
  moreover have "\<not> snd (applyDNSServerAddress env (ds_ServerType srv) (ds_Address srv) [])"
    using k t by (auto simp: applyDNSServerAddress_def)
  ultimately show ?thesis using that [of srv] srv by (auto simp: real_servers_def)
qed

lemma selected_bootstrap: "selectDNSBootstrapTag env rows \<noteq> [] \<Longrightarrow> isSafeDNSBootstrapTag env (selectDNSBootstrapTag env rows) rows"
proof (cases "find (\<lambda>s. isSafeDNSBootstrapTag env (ds_Tag s) rows) rows")
  case (Some s)
  then have "isSafeDNSBootstrapTag env (ds_Tag s) rows" by (auto simp: find_Some_iff)
  with Some show ?thesis by (simp add: selectDNSBootstrapTag_def)
qed (simp add: selectDNSBootstrapTag_def)

lemma enabled_tags:
  "set (enabledDNSServerTags rows b) \<subseteq> insert ''fakeip'' (ds_Tag ` set (real_servers rows))"
  "srv \<in> set (real_servers rows) \<Longrightarrow> ds_Tag srv \<noteq> [] \<Longrightarrow> ds_Tag srv \<in> set (enabledDNSServerTags rows b)"
  by (auto simp: enabledDNSServerTags_def real_servers_def)

lemma configured_ok:
  assumes "configured_stage env inp = Inr st"
  shows "stage_ok inp st" and "st_proxy_final st = None"
    and "\<exists>ms extra. dns_servers env (di_servers inp) (st_bootstrap st) (di_servers inp) = Inr ms \<and> st_servers st = ms @ extra \<and>
      list_all (\<lambda>m. map_of m ''detour'' = None \<and> map_of m ''domain_resolver'' = None) extra \<and>
      (\<forall>m\<in>set extra. \<not> isStrategyDNSRemoteType (as_string (map_get m ''type''))) \<and>
      (isSafeDNSBootstrapTag env (st_bootstrap st) (di_servers inp) \<or> (\<exists>b\<in>set extra. map_of b ''tag'' = Some (VStr (st_bootstrap st))))"
proof -
  from assms obtain hosts where h: "dns_hosts env (di_hosts inp) = Inr hosts" by (auto simp: configured_stage_def go_result)
  define tags0 selected where "tags0 = enabledDNSServerTags (di_servers inp) (gs_Enabled (effectiveDNSGlobalSettings inp))"
    and "selected = selectDNSBootstrapTag env (di_servers inp)"
  define boot where "boot = (if selected = [] then uniqueDNSServerTag ''ackwrap-bootstrap-local'' tags0 else selected)"
  define tags1 where "tags1 = (if selected = [] then boot # tags0 else tags0)"
  define hostsTag where "hostsTag = (if hosts \<noteq> [] then uniqueDNSServerTag ''ackwrap-hosts'' tags1 else [])"
  define extra where "extra = (if selected = [] then [[(''tag'', VStr boot), (''type'', VStr ''local'')]] else []) @
    (if hosts \<noteq> [] then [[(''tag'', VStr hostsTag), (''type'', VStr ''hosts''), (''predefined'', VMap (host_predefined hosts))]] else [])"
  from assms obtain ms where ms: "dns_servers env (di_servers inp) boot (di_servers inp) = Inr ms"
    and st: "st = \<lparr>st_servers = ms @ extra, st_tags = (if hosts \<noteq> [] then hostsTag # tags1 else tags1),
       st_fakeip = fakeip_tags (di_servers inp), st_bootstrap = boot, st_hosts = hosts, st_hosts_tag = hostsTag, st_proxy_final = None\<rparr>"
    unfolding configured_stage_def h Let_def res_bind_simps
      tags0_def [symmetric] selected_def [symmetric] boot_def [symmetric] tags1_def [symmetric] hostsTag_def [symmetric] extra_def [symmetric]
    by (auto simp: go_result)
  have tags: "server_tags ms = map ds_Tag (real_servers (di_servers inp))" by (rule dns_servers_tags [OF ms])
  have nr: "\<not> isStrategyDNSRemoteType ''local''" "\<not> isStrategyDNSRemoteType ''hosts''" by code_simp+
  have b: "selected \<noteq> [] \<Longrightarrow> selected \<in> ds_Tag ` set (real_servers (di_servers inp))"
    using selected_bootstrap [of env "di_servers inp"] unfolding selected_def [symmetric] by (metis bootstrap_row imageI)
  have e: "set (server_tags extra) = (if selected = [] then {boot} else {}) \<union> (if hosts \<noteq> [] then {hostsTag} else {})"
    by (simp add: extra_def server_tags_def map_get_def)
  show "stage_ok inp st" using e b enabled_tags [where rows = "di_servers inp" and b = "gs_Enabled (effectiveDNSGlobalSettings inp)"]
    by (auto simp: stage_ok_def st tags tags1_def tags0_def boot_def hostsTag_def)
  show "st_proxy_final st = None" by (simp add: st)
  have "list_all (\<lambda>m. map_of m ''detour'' = None \<and> map_of m ''domain_resolver'' = None) extra \<and>
      (\<forall>m\<in>set extra. \<not> isStrategyDNSRemoteType (as_string (map_get m ''type''))) \<and>
      (isSafeDNSBootstrapTag env boot (di_servers inp) \<or> (\<exists>b\<in>set extra. map_of b ''tag'' = Some (VStr boot)))"
    using nr e selected_bootstrap [of env "di_servers inp"] by (auto simp: extra_def map_get_def boot_def selected_def)
  with ms show "\<exists>ms extra. dns_servers env (di_servers inp) (st_bootstrap st) (di_servers inp) = Inr ms \<and> st_servers st = ms @ extra \<and>
      list_all (\<lambda>m. map_of m ''detour'' = None \<and> map_of m ''domain_resolver'' = None) extra \<and>
      (\<forall>m\<in>set extra. \<not> isStrategyDNSRemoteType (as_string (map_get m ''type''))) \<and>
      (isSafeDNSBootstrapTag env (st_bootstrap st) (di_servers inp) \<or> (\<exists>b\<in>set extra. map_of b ''tag'' = Some (VStr (st_bootstrap st))))"
    by (auto simp: st)
qed

section \<open>Resolvers\<close>

text \<open>A resolver is grounded when a server of that tag needs no resolver and no detour itself.\<close>

definition grounded :: "gomap list \<Rightarrow> goval \<Rightarrow> bool" where
  "grounded servers r \<longleftrightarrow>
     (\<exists>b\<in>set servers. map_of b ''tag'' = Some r \<and> map_of b ''detour'' = None \<and> map_of b ''domain_resolver'' = None)"

definition all_grounded :: "gomap list \<Rightarrow> bool" where
  "all_grounded servers \<longleftrightarrow> (\<forall>s\<in>set servers. pred_option (grounded servers) (map_of s ''domain_resolver''))"

lemma grounded_mono: "grounded servers r \<Longrightarrow> set servers \<subseteq> set servers' \<Longrightarrow> grounded servers' r"
  by (auto simp: grounded_def)

lemma all_grounded_extend:
  assumes "all_grounded servers"
    and "\<And>m. m \<in> set added \<Longrightarrow> map_of m ''domain_resolver'' = None \<or> (\<exists>s\<in>set servers. map_of m ''domain_resolver'' = map_of s ''domain_resolver'')"
  shows "all_grounded (servers @ added)"
proof -
  have old: "pred_option (grounded (servers @ added)) (map_of s ''domain_resolver'')" if "s \<in> set servers" for s
    using assms(1) that grounded_mono [of servers _ "servers @ added"] by (auto simp: all_grounded_def elim!: option.pred_mono_strong)
  show ?thesis unfolding all_grounded_def
  proof
    fix s assume "s \<in> set (servers @ added)"
    then show "pred_option (grounded (servers @ added)) (map_of s ''domain_resolver'')"
      using old assms(2) by (metis Un_iff option.pred_inject(1) set_append)
  qed
qed

lemma safe_grounded:
  assumes "dns_servers env rows boot rows = Inr ms" and "isSafeDNSBootstrapTag env tag rows"
  shows "grounded ms (VStr tag)"
proof -
  from assms(2) obtain srv where srv: "srv \<in> set (real_servers rows)" "ds_Tag srv = tag"
    "ds_Detour srv = [] \<or> ds_Detour srv = ''direct''" "\<not> snd (applyDNSServerAddress env (ds_ServerType srv) (ds_Address srv) [])"
    by (rule bootstrap_row)
  from dns_servers_mem(2) [OF assms(1) srv(1)] obtain m where "m \<in> set ms" "dns_server env rows boot srv = Inr m" by blast
  with dns_server_fields [OF this(2)] srv show ?thesis by (auto simp: grounded_def intro!: bexI [of _ m])
qed

lemma configured_grounded:
  assumes "configured_stage env inp = Inr st"
  shows "all_grounded (st_servers st)"
proof -
  from configured_ok(3) [OF assms] obtain ms extra where
    ms: "dns_servers env (di_servers inp) (st_bootstrap st) (di_servers inp) = Inr ms" and st: "st_servers st = ms @ extra"
    and ex: "list_all (\<lambda>m. map_of m ''detour'' = None \<and> map_of m ''domain_resolver'' = None) extra"
    and b: "isSafeDNSBootstrapTag env (st_bootstrap st) (di_servers inp) \<or> (\<exists>b\<in>set extra. map_of b ''tag'' = Some (VStr (st_bootstrap st)))" by blast
  have boot: "grounded (ms @ extra) (VStr (st_bootstrap st))"
    using b
  proof
    assume "isSafeDNSBootstrapTag env (st_bootstrap st) (di_servers inp)"
    from grounded_mono [OF safe_grounded [OF ms this]] show ?thesis by simp
  next
    assume "\<exists>b\<in>set extra. map_of b ''tag'' = Some (VStr (st_bootstrap st))"
    with ex show ?thesis by (auto simp: grounded_def list_all_iff)
  qed
  have "pred_option (grounded (ms @ extra)) (map_of m ''domain_resolver'')" if m: "m \<in> set ms" for m
  proof -
    from dns_servers_mem(1) [OF ms m] obtain srv where d: "dns_server env (di_servers inp) (st_bootstrap st) srv = Inr m" by blast
    have "grounded (ms @ extra) (VStr (server_resolver env (di_servers inp) (st_bootstrap st) srv))"
      using boot safe_grounded [OF ms, THEN grounded_mono, of _ "ms @ extra"] by (simp add: server_resolver_def)
    then show ?thesis using dns_server_fields(4) [OF d] by simp
  qed
  with ex show ?thesis by (auto simp: all_grounded_def st list_all_iff)
qed

section \<open>The later stages\<close>

definition remote_proxied :: "gomap \<Rightarrow> string \<Rightarrow> bool" where
  "remote_proxied s tag \<longleftrightarrow>
     map_get s ''tag'' = VStr tag \<and> map_get s ''detour'' = VStr ''proxy'' \<and> isStrategyDNSRemoteType (as_string (map_get s ''type''))"

definition fakeip_tags_separate :: "DNSServer list \<Rightarrow> bool" where
  "fakeip_tags_separate rows \<longleftrightarrow>
     list_all (\<lambda>t. \<not> prefix ''ackwrap-proxy-dns'' t) (fakeip_tags rows) \<and>
     list_all (\<lambda>s. ds_Tag s \<notin> set (fakeip_tags rows)) (real_servers rows)"

lemma proxy_final_cases:
  assumes "generateProxyDNSFinal preferred servers tags = Inr (extra, final)"
  obtains (existing) s where "extra = None" "final = preferred" "preferred \<noteq> []" "s \<in> set servers" "remote_proxied s final"
  | (cloned) s c where "extra = Some c" "s \<in> set servers" "final = uniqueDNSServerTag ''ackwrap-proxy-dns'' tags" "remote_proxied c final"
      "map_of c ''domain_resolver'' = map_of s ''domain_resolver''"
proof -
  from assms obtain s where f: "find (\<lambda>s. map_get s ''tag'' = VStr preferred) servers = Some s" and p: "preferred \<noteq> []"
    and t: "isStrategyDNSRemoteType (as_string (map_get s ''type''))"
    by (auto simp: generateProxyDNSFinal_def split: if_split_asm option.split_asm)
  have s: "s \<in> set servers" "map_get s ''tag'' = VStr preferred" using f by (auto simp: find_Some_iff in_set_conv_nth)
  show ?thesis
  proof (cases "map_get s ''detour'' = VStr ''proxy''")
    case True
    with assms f p t s show ?thesis by (intro existing [of s]) (auto simp: generateProxyDNSFinal_def remote_proxied_def)
  next
    case False
    let ?c = "map_put ''detour'' (VStr ''proxy'') (map_put ''tag'' (VStr final) s)"
    from False assms f p t have "extra = Some ?c" "final = uniqueDNSServerTag ''ackwrap-proxy-dns'' tags"
      by (auto simp: generateProxyDNSFinal_def Let_def)
    with t s show ?thesis by (intro cloned [of ?c s]) (auto simp: remote_proxied_def)
  qed
qed

lemma remote_row:
  assumes "configured_stage env inp = Inr st" and "s \<in> set (st_servers st)" and "remote_proxied s tag"
  shows "\<exists>srv\<in>set (real_servers (di_servers inp)). ds_Tag srv = tag"
proof -
  from configured_ok(3) [OF assms(1)] assms(2,3) obtain ms
    where ms: "dns_servers env (di_servers inp) (st_bootstrap st) (di_servers inp) = Inr ms" "s \<in> set ms"
    by (auto simp: remote_proxied_def)
  from dns_servers_mem(1) [OF this] obtain srv where "srv \<in> set (real_servers (di_servers inp))"
    "dns_server env (di_servers inp) (st_bootstrap st) srv = Inr s" by blast
  with dns_server_fields(1) [OF this(2)] assms(3) show ?thesis by (auto simp: remote_proxied_def map_get_def)
qed

lemma add_proxy_final_ok:
  assumes "configured_stage env inp = Inr st" and "add_proxy_final settings st = Inr st'"
  shows "stage_ok inp st'" "all_grounded (st_servers st')"
    and "\<exists>final s. st_proxy_final st' = Some final \<and> s \<in> set (st_servers st') \<and> remote_proxied s final \<and> final \<in> set (st_tags st') \<and>
      (fakeip_tags_separate (di_servers inp) \<longrightarrow> final \<notin> set (st_fakeip st'))"
proof -
  note ok = configured_ok(1) [OF assms(1)]
  obtain extra final preferred where g: "generateProxyDNSFinal preferred (st_servers st) (st_tags st) = Inr (extra, final)"
    and st': "st' = (case extra of None \<Rightarrow> st\<lparr>st_proxy_final := Some final\<rparr>
      | Some server \<Rightarrow> st\<lparr>st_servers := st_servers st @ [server], st_tags := final # st_tags st, st_proxy_final := Some final\<rparr>)"
    using assms(2) by (auto simp: add_proxy_final_def Let_def go_result)
  have fk: "st_fakeip st = fakeip_tags (di_servers inp)" using ok by (simp add: stage_ok_def)
  from g have "stage_ok inp st' \<and> all_grounded (st_servers st') \<and>
    (\<exists>final s. st_proxy_final st' = Some final \<and> s \<in> set (st_servers st') \<and> remote_proxied s final \<and> final \<in> set (st_tags st') \<and>
      (fakeip_tags_separate (di_servers inp) \<longrightarrow> final \<notin> set (st_fakeip st')))"
  proof (cases rule: proxy_final_cases)
    case (existing s)
    obtain srv where srv: "srv \<in> set (real_servers (di_servers inp))" "ds_Tag srv = final"
      using remote_row [OF assms(1) existing(4,5)] by blast
    then have "final \<in> set (st_tags st)" using ok existing(2,3) by (auto simp: stage_ok_def)
    then show ?thesis using existing ok configured_grounded [OF assms(1)] srv fk
      by (auto simp: st' stage_ok_def fakeip_tags_separate_def list_all_iff)
  next
    case (cloned s c)
    have "final \<notin> set (st_fakeip st)" if "fakeip_tags_separate (di_servers inp)"
      using that fk uniqueDNSServerTag_fresh(2) [of "''ackwrap-proxy-dns''" "st_tags st"] cloned(3)
      by (auto simp: fakeip_tags_separate_def list_all_iff)
    moreover have "all_grounded (st_servers st @ [c])"
      using cloned(2,5) by (intro all_grounded_extend configured_grounded [OF assms(1)]) auto
    moreover have "final \<in> set (server_tags [c])" using cloned(4) by (simp add: remote_proxied_def server_tags_def)
    ultimately show ?thesis using cloned ok by (auto simp: st' stage_ok_def)
  qed
  then show "stage_ok inp st'" "all_grounded (st_servers st')"
    "\<exists>final s. st_proxy_final st' = Some final \<and> s \<in> set (st_servers st') \<and> remote_proxied s final \<and> final \<in> set (st_tags st') \<and>
      (fakeip_tags_separate (di_servers inp) \<longrightarrow> final \<notin> set (st_fakeip st'))"
    by blast+
qed

definition staged :: "dns_input \<Rightarrow> dns_stage \<Rightarrow> bool" where
  "staged inp st \<longleftrightarrow>
     stage_ok inp st \<and> all_grounded (st_servers st) \<and>
     (gs_Enabled (effectiveDNSGlobalSettings inp) \<longrightarrow> ''fakeip'' \<in> set (server_tags (st_servers st)))"

lemma server_stage_ok:
  assumes "server_stage env inp = Inr st"
  shows "staged inp st"
    and "dnsNeedsProxyFinal (di_mode inp) (di_collections inp) (di_route_rules inp) = Inr True \<Longrightarrow>
      \<exists>final s. st_proxy_final st = Some final \<and> s \<in> set (st_servers st) \<and> remote_proxied s final \<and> final \<in> set (st_tags st) \<and>
      (fakeip_tags_separate (di_servers inp) \<longrightarrow> final \<notin> set (st_fakeip st))"
proof -
  let ?set = "effectiveDNSGlobalSettings inp"
  from assms obtain st0 required st1 where s0: "configured_stage env inp = Inr st0"
    and r: "dnsNeedsProxyFinal (di_mode inp) (di_collections inp) (di_route_rules inp) = Inr required"
    and s1: "(if required then add_proxy_final ?set st0 else Inr st0) = Inr st1" and st: "st = add_fakeip ?set st1"
    by (auto simp: server_stage_def go_result split: option.split_asm sum.split_asm)
  have 1: "stage_ok inp st1 \<and> all_grounded (st_servers st1)"
    using s1 add_proxy_final_ok [OF s0] configured_ok(1) [OF s0] configured_grounded [OF s0] by (auto split: if_split_asm)
  define fk where "fk = put_nonempty ''inet6_range'' (gs_FakeIPInet6Range ?set)
    (put_nonempty ''inet4_range'' (gs_FakeIPInet4Range ?set) [(''tag'', VStr ''fakeip''), (''type'', VStr ''fakeip'')])"
  have fk: "map_of fk ''domain_resolver'' = None" "map_of fk ''tag'' = Some (VStr ''fakeip'')"
    by (simp_all add: fk_def map_of_put_nonempty)
  have st2: "st = (if gs_Enabled ?set then st1\<lparr>st_servers := st_servers st1 @ [fk]\<rparr> else st1)"
    by (simp add: st add_fakeip_def fk_def)
  have "all_grounded (st_servers st1 @ [fk])" using 1 fk(1) by (intro all_grounded_extend) auto
  then show "staged inp st" using 1 fk(2) by (auto simp: staged_def stage_ok_def st2 server_tags_def map_get_def)
  assume "dnsNeedsProxyFinal (di_mode inp) (di_collections inp) (di_route_rules inp) = Inr True"
  with r s1 have "add_proxy_final ?set st0 = Inr st1" by simp
  from add_proxy_final_ok(3) [OF s0 this] show "\<exists>final s. st_proxy_final st = Some final \<and> s \<in> set (st_servers st) \<and> remote_proxied s final \<and> final \<in> set (st_tags st) \<and>
      (fakeip_tags_separate (di_servers inp) \<longrightarrow> final \<notin> set (st_fakeip st))"
    by (auto simp: st2)
qed

section \<open>Devices\<close>

lemma find_mem: "find P xs = Some x \<Longrightarrow> x \<in> set xs"
  by (auto simp: find_Some_iff in_set_conv_nth)

text \<open>The server a rule names, if any, is one of these tags.\<close>

definition rule_served :: "string list \<Rightarrow> gomap \<Rightarrow> bool" where
  "rule_served tags rule \<longleftrightarrow> pred_option (\<lambda>v. v \<in> VStr ` set tags) (map_of rule ''server'')"

lemma rule_served_mono: "rule_served tags rule \<Longrightarrow> set tags \<subseteq> set tags' \<Longrightarrow> rule_served tags' rule"
  by (auto simp: rule_served_def elim!: option.pred_mono_strong)

lemma deviceSourceRule_server:
  "map_of (deviceSourceRule env values [(''server'', v)]) ''server'' = Some v"
  "map_of (deviceSourceRule env values [(''domain_suffix'', d), (''server'', v)]) ''server'' = Some v"
  by (cases "splitDeviceSources env values"; simp add: deviceSourceRule_def Let_def)+

lemma device_dns_ok:
  assumes "device_dns env template directTemplate overrides tags device = Inr (ss, rs)"
  shows "list_all (rule_served (server_tags ss)) rs"
    and "list_all (\<lambda>m. map_of m ''domain_resolver'' \<in> {map_of template ''domain_resolver'', map_of directTemplate ''domain_resolver''}) ss"
  using assms
  by (auto simp: device_dns_def Let_def rule_served_def deviceSourceRule_server server_tags_def split: if_split_asm)

lemma devices_dns_ok:
  assumes "devices_dns env template directTemplate overrides tags devices = Inr (ss, rs)"
  shows "list_all (rule_served (server_tags ss)) rs"
    and "list_all (\<lambda>m. map_of m ''domain_resolver'' \<in> {map_of template ''domain_resolver'', map_of directTemplate ''domain_resolver''}) ss"
proof -
  from assms have "list_all (rule_served (server_tags ss)) rs \<and>
    list_all (\<lambda>m. map_of m ''domain_resolver'' \<in> {map_of template ''domain_resolver'', map_of directTemplate ''domain_resolver''}) ss"
  proof (induction devices arbitrary: tags ss rs)
    case (Cons d ds)
    then obtain s1 r1 s2 r2 where d: "device_dns env template directTemplate overrides tags d = Inr (s1, r1)"
      and ds: "devices_dns env template directTemplate overrides (tags @ server_tags s1) ds = Inr (s2, r2)"
      and e: "ss = s1 @ s2" "rs = r1 @ r2"
      by (auto simp: go_result)
    have "list_all (rule_served (server_tags ss)) r1" "list_all (rule_served (server_tags ss)) r2"
      using device_dns_ok(1) [OF d] Cons.IH [OF ds] by (auto simp: e list_all_iff intro: rule_served_mono)
    with device_dns_ok(2) [OF d] Cons.IH [OF ds] show ?case by (simp add: e)
  qed simp
  then show "list_all (rule_served (server_tags ss)) rs"
    "list_all (\<lambda>m. map_of m ''domain_resolver'' \<in> {map_of template ''domain_resolver'', map_of directTemplate ''domain_resolver''}) ss"
    by blast+
qed

lemma appendDeviceDNS_ok:
  assumes "appendDeviceDNS env devices bindings servers tags t1 t2 = Inr (servers', rules)" and "all_grounded servers"
  shows "prefix servers servers'" and "all_grounded servers'" and "list_all (rule_served (server_tags servers')) rules"
proof -
  from assms(1) have "prefix servers servers' \<and> all_grounded servers' \<and> list_all (rule_served (server_tags servers')) rules"
  proof (cases "devices = []")
    case True
    with assms show ?thesis by (simp add: appendDeviceDNS_def)
  next
    case False
    from assms(1) False obtain overrides template where "bindings = Inr overrides"
      and t: "find (\<lambda>s. map_get s ''tag'' = VStr t1) servers = Some template"
      by (auto simp: appendDeviceDNS_def split: sum.split_asm option.split_asm)
    define direct where "direct = (case find (\<lambda>s. map_get s ''tag'' = VStr t2 \<and> isStrategyDNSRemoteType (as_string (map_get s ''type''))) (rev servers) of
                        None \<Rightarrow> template | Some s \<Rightarrow> s)"
    from assms(1) False t \<open>bindings = Inr overrides\<close> obtain ss rs where d: "devices_dns env template direct overrides tags devices = Inr (ss, rs)"
      and e: "servers' = servers @ ss" "\<exists>x. rules = rs @ x \<and> (\<forall>r\<in>set x. map_of r ''server'' = None)"
      by (auto simp: appendDeviceDNS_def Let_def go_result direct_def [symmetric])
    have m: "template \<in> set servers" "direct \<in> set servers"
      using find_mem [OF t] find_mem [of _ "rev servers"] by (auto simp: direct_def split: option.split)
    have "all_grounded (servers @ ss)" using devices_dns_ok(2) [OF d] m
      by (intro all_grounded_extend [OF assms(2)]) (auto simp: list_all_iff)
    moreover have "list_all (rule_served (server_tags (servers @ ss))) rules"
    proof -
      obtain x where x: "rules = rs @ x" "\<forall>r\<in>set x. map_of r ''server'' = None" using e(2) by blast
      have "rule_served (server_tags (servers @ ss)) r" if "r \<in> set rs" for r
        using rule_served_mono [of "server_tags ss" r "server_tags (servers @ ss)"] devices_dns_ok(1) [OF d] that by (simp add: list_all_iff)
      moreover have "rule_served (server_tags (servers @ ss)) r" if "r \<in> set x" for r
        using x(2) that by (simp add: rule_served_def)
      ultimately show ?thesis unfolding x(1) list_all_iff by (metis Un_iff set_append)
    qed
    ultimately show ?thesis by (simp add: e(1))
  qed
  then show "prefix servers servers'" "all_grounded servers'" "list_all (rule_served (server_tags servers')) rules" by blast+
qed

section \<open>Properties of the section\<close>

lemma generateDNS_parts:
  assumes "generateDNSFromDatabase env inp = Inr (Some dns)"
  obtains st servers deviceRules tags where "server_stage env inp = Inr st" "prefix (st_servers st) servers" "servers \<noteq> []"
    "all_grounded servers" "list_all (rule_served (server_tags servers)) deviceRules"
    "tags = st_tags st @ server_tags (drop (length (st_servers st)) servers)"
    "map_of dns ''servers'' = Some (VMapList servers)"
    "map_of dns ''rules'' = Some (VMapList (dns_rules inp st deviceRules tags))"
    "map_of dns ''final'' = Some (VStr (final_server (effectiveDNSGlobalSettings inp) st servers tags))"
proof -
  from assms obtain st servers deviceRules where st: "server_stage env inp = Inr st"
    and a: "appendDeviceDNS env (if di_mode inp = ''rule'' then di_devices inp else [])
                 (routeRuleOutboundOverrides (di_collections inp) (di_route_rules inp))
                 (st_servers st) (st_tags st) (case st_proxy_final st of None \<Rightarrow> [] | Some t \<Rightarrow> t) (gs_Final (effectiveDNSGlobalSettings inp)) = Inr (servers, deviceRules)"
    and ne: "servers \<noteq> []"
    by (auto simp: generateDNSFromDatabase_def Let_def go_result split: if_split_asm)
  have g: "all_grounded (st_servers st)" using server_stage_ok(1) [OF st] by (simp add: staged_def)
  show ?thesis
    by (rule that [OF st appendDeviceDNS_ok(1) [OF a g] ne appendDeviceDNS_ok(2,3) [OF a g] refl])
      (use assms ne in \<open>auto simp: generateDNSFromDatabase_def Let_def st a map_of_put_nonempty\<close>)
qed

lemma final_proxied:
  assumes "generateDNSFromDatabase env inp = Inr (Some dns)"
    and "dnsNeedsProxyFinal (di_mode inp) (di_collections inp) (di_route_rules inp) = Inr True"
    and "fakeip_tags_separate (di_servers inp)"
  shows "\<exists>servers s final. map_of dns ''servers'' = Some (VMapList servers) \<and> s \<in> set servers \<and>
           map_of dns ''final'' = Some (VStr final) \<and> map_get s ''tag'' = VStr final \<and>
           map_get s ''detour'' = VStr ''proxy'' \<and> isStrategyDNSRemoteType (as_string (map_get s ''type''))"
  using assms(1)
proof (rule generateDNS_parts)
  fix st servers deviceRules tags
  assume st: "server_stage env inp = Inr st" and p: "prefix (st_servers st) servers"
    and t: "tags = st_tags st @ server_tags (drop (length (st_servers st)) servers)"
    and d: "map_of dns ''servers'' = Some (VMapList servers)"
      "map_of dns ''final'' = Some (VStr (final_server (effectiveDNSGlobalSettings inp) st servers tags))"
  from server_stage_ok(2) [OF st assms(2)] assms(3) obtain final s where
    f: "st_proxy_final st = Some final" "s \<in> set (st_servers st)" "remote_proxied s final" "final \<in> set (st_tags st)" "final \<notin> set (st_fakeip st)"
    by blast
  then have "final_server (effectiveDNSGlobalSettings inp) st servers tags = final" by (simp add: final_server_def t)
  moreover have "s \<in> set servers" using f(2) p by (auto dest: set_mono_prefix)
  ultimately show ?thesis using d f(3) by (auto simp: remote_proxied_def)
qed

text \<open>When traffic may leave through a proxy, queries that match no rule go to a remote DNS server
  through the proxy: the final server of a generated section is one of its servers, of a remote type
  and with the detour \<open>proxy\<close>.  (Tags of stored FakeIP servers must not collide with the others.)\<close>

theorem dns_final_proxied:
  assumes "generateDNSFromDatabase env inp = Inr (Some dns)"
    and "dnsNeedsProxyFinal (di_mode inp) (di_collections inp) (di_route_rules inp) = Inr True"
    and "fakeip_tags_separate (di_servers inp)"
  shows "\<exists>servers s final. map_of dns ''servers'' = Some (VMapList servers) \<and> s \<in> set servers \<and>
           map_of dns ''final'' = Some (VStr final) \<and> map_get s ''tag'' = VStr final \<and>
           map_get s ''detour'' = VStr ''proxy'' \<and> isStrategyDNSRemoteType (as_string (map_get s ''type''))"
  using assms by (rule final_proxied)

definition sample_env :: net_env where
  "sample_env = \<lparr>url_parse = (\<lambda>_. None), is_ip = (\<lambda>a. a = ''9.9.9.9''), canon_addr = Some, canon_mac = (\<lambda>_. None)\<rparr>"

definition sample_row :: "string \<Rightarrow> string \<Rightarrow> string \<Rightarrow> DNSServer" where
  "sample_row tag kind address =
     \<lparr>ds_Tag = tag, ds_Enabled = True, ds_ServerType = kind, ds_Address = address, ds_AddressResolver = [],
      ds_AddressStrategy = [], ds_Strategy = [], ds_Detour = [], ds_ClientSubnet = [], ds_Options = JSONObject []\<rparr>"

definition sample_dns_input :: dns_input where
  "sample_dns_input =
     \<lparr>di_settings = Some (default_settings\<lparr>gs_FakeIPEnabled := True, gs_CacheCapacity := 0\<rparr>),
      di_servers = [sample_row ''dns_ip'' ''udp'' ''9.9.9.9:53'', sample_row ''dns_name'' ''https'' ''dns.example''],
      di_hosts = [],
      di_rules = [\<lparr>dr_ID = 1, dr_Enabled = True, dr_Conditions = JSONObject [(''domain'', VStr ''lan'')], dr_Server = ''dns_ip'',
                   dr_DisableCache = False, dr_RewriteTTL = 0, dr_ClientSubnet = []\<rparr>],
      di_mode = ''global'', di_route_rules = [], di_collections = [], di_devices = [], di_node_domains = [], di_version = ''1.14.0''\<rparr>"

lemma sample_generates: "\<exists>dns. generateDNSFromDatabase sample_env sample_dns_input = Inr (Some dns)"
proof -
  have "case generateDNSFromDatabase sample_env sample_dns_input of Inr (Some dns) \<Rightarrow> True | _ \<Rightarrow> False" by code_simp
  then show ?thesis by (auto split: sum.split_asm option.split_asm)
qed

theorem dns_final_proxied_witness:
  "\<exists>dns servers s final. generateDNSFromDatabase sample_env sample_dns_input = Inr (Some dns) \<and>
     map_of dns ''servers'' = Some (VMapList servers) \<and> s \<in> set servers \<and> map_of dns ''final'' = Some (VStr final) \<and>
     map_get s ''tag'' = VStr final \<and> map_get s ''detour'' = VStr ''proxy''"
proof -
  obtain dns where d: "generateDNSFromDatabase sample_env sample_dns_input = Inr (Some dns)" using sample_generates by blast
  have n: "dnsNeedsProxyFinal (di_mode sample_dns_input) (di_collections sample_dns_input) (di_route_rules sample_dns_input) = Inr True"
    "fakeip_tags_separate (di_servers sample_dns_input)" by code_simp+
  from dns_final_proxied [OF d n] d show ?thesis by blast
qed

text \<open>The condition text of an enabled rule does not name a server.\<close>

definition plain_conditions :: "DNSRule list \<Rightarrow> bool" where
  "plain_conditions rules \<longleftrightarrow> list_all (\<lambda>r. \<not> has_key (conditions_of r) ''server'') rules"

lemma has_key_map_of: "has_key m k \<longleftrightarrow> map_of m k \<noteq> None"
  by (simp add: has_key_iff map_of_eq_None_iff)

lemma normalized_no_server: "\<not> has_key c ''server'' \<Longrightarrow> \<not> has_key (normalizeDNSRuleConditions c) ''server''"
  by (simp add: normalizeDNSRuleConditions_def Let_def)

lemma explicit_rule_served:
  assumes "explicit_rule fk tags rule = Some m" and "\<not> has_key (conditions_of rule) ''server''"
  shows "rule_served tags m"
proof -
  let ?c = "normalizeDNSRuleConditions (conditions_of rule)"
  have "''server'' \<notin> fst ` set ?c" using normalized_no_server [OF assms(2)] by (simp add: has_key_iff)
  from map_of_merge [OF this] have "map_of (dnsRuleMap ?c rule) ''server'' = Some (VStr (dr_Server rule))"
    by (simp add: dnsRuleMap_def Let_def map_of_put_nonempty)
  with assms(1) show ?thesis by (auto simp: explicit_rule_def Let_def rule_served_def split: if_split_asm)
qed

lemma map_filter_mem: "y \<in> set (List.map_filter f xs) \<Longrightarrow> \<exists>x\<in>set xs. f x = Some y"
  by (auto simp: List.map_filter_def)

lemma dns_rules_served:
  assumes "stage_ok inp st" and "plain_conditions (di_rules inp)" and "list_all (rule_served known) deviceRules"
    and "set tags \<subseteq> set known" and "set (server_tags (st_servers st)) \<subseteq> set known" and "''fakeip'' \<in> set known"
  shows "list_all (rule_served known) (dns_rules inp st deviceRules tags)"
proof -
  have b: "st_bootstrap st \<in> set known" "st_hosts_tag st \<noteq> [] \<Longrightarrow> st_hosts_tag st \<in> set known"
    using assms(1,5) by (auto simp: stage_ok_def)
  have "rule_served known m" if "m \<in> set (List.map_filter (explicit_rule (st_fakeip st) tags) (di_rules inp))" for m
    using map_filter_mem [OF that] assms(2,4) explicit_rule_served rule_served_mono
    by (fastforce simp: plain_conditions_def list_all_iff)
  then show ?thesis using assms(3,6) b
    by (auto simp: dns_rules_def nodeServerDNSRules_def Let_def list_all_iff rule_served_def address_query_def)
qed

text \<open>C39. A generated section is closed: every rule that names a server names one of its servers, and so
  does the final server, when DNS is enabled and no stored condition overrides the server of its rule.\<close>

theorem dns_references_closed:
  assumes "generateDNSFromDatabase env inp = Inr (Some dns)" and "gs_Enabled (effectiveDNSGlobalSettings inp)"
    and "plain_conditions (di_rules inp)"
  shows "\<exists>servers rules final. map_of dns ''servers'' = Some (VMapList servers) \<and> map_of dns ''rules'' = Some (VMapList rules) \<and>
           map_of dns ''final'' = Some (VStr final) \<and> final \<in> set (server_tags servers) \<and>
           list_all (\<lambda>r. pred_option (\<lambda>v. v \<in> VStr ` set (server_tags servers)) (map_of r ''server'')) rules"
  using assms(1)
proof (rule generateDNS_parts)
  fix st servers deviceRules tags
  assume st: "server_stage env inp = Inr st" and p: "prefix (st_servers st) servers" and ne: "servers \<noteq> []"
    and dr: "list_all (rule_served (server_tags servers)) deviceRules"
    and t: "tags = st_tags st @ server_tags (drop (length (st_servers st)) servers)"
    and d: "map_of dns ''servers'' = Some (VMapList servers)" "map_of dns ''rules'' = Some (VMapList (dns_rules inp st deviceRules tags))"
      "map_of dns ''final'' = Some (VStr (final_server (effectiveDNSGlobalSettings inp) st servers tags))"
  from server_stage_ok(1) [OF st] have sg: "stage_ok inp st" "''fakeip'' \<in> set (server_tags (st_servers st))"
    using assms(2) by (simp_all add: staged_def)
  from p obtain ss where ss: "servers = st_servers st @ ss" by (auto simp: prefix_def)
  have known: "set tags \<subseteq> set (server_tags servers)" "set (server_tags (st_servers st)) \<subseteq> set (server_tags servers)"
    using sg by (auto simp: t ss stage_ok_def)
  have "as_string (map_get (hd servers) ''tag'') \<in> set (server_tags servers)" using ne by (simp add: server_tags_mem) auto
  then have "final_server (effectiveDNSGlobalSettings inp) st servers tags \<in> set (server_tags servers)"
    using known(1) by (auto simp: final_server_def Let_def)
  moreover have "list_all (rule_served (server_tags servers)) (dns_rules inp st deviceRules tags)"
    by (rule dns_rules_served [OF sg(1) assms(3) dr known]) (use sg(2) known(2) in blast)
  ultimately show ?thesis using d unfolding rule_served_def by blast
qed

theorem dns_references_closed_witness:
  "\<exists>dns servers final. generateDNSFromDatabase sample_env sample_dns_input = Inr (Some dns) \<and>
     map_of dns ''servers'' = Some (VMapList servers) \<and> map_of dns ''final'' = Some (VStr final) \<and> final \<in> set (server_tags servers)"
proof -
  obtain dns where d: "generateDNSFromDatabase sample_env sample_dns_input = Inr (Some dns)" using sample_generates by blast
  have n: "gs_Enabled (effectiveDNSGlobalSettings sample_dns_input)" "plain_conditions (di_rules sample_dns_input)" by code_simp+
  from dns_references_closed [OF d n] d show ?thesis by blast
qed

text \<open>Without that, the condition text decides: a rule stored for an ordinary server answers from FakeIP,
  although rules that name the FakeIP server are dropped.\<close>

lemma condition_overrides_server:
  "\<exists>rule m. explicit_rule [''fakeip''] [''dns'', ''fakeip''] rule = Some m \<and> dr_Server rule = ''dns'' \<and>
     map_of m ''server'' = Some (VStr ''fakeip'')"
proof -
  let ?r = "\<lparr>dr_ID = 1, dr_Enabled = True, dr_Conditions = JSONObject [(''domain'', VStr ''a''), (''server'', VStr ''fakeip'')],
    dr_Server = ''dns'', dr_DisableCache = False, dr_RewriteTTL = 0, dr_ClientSubnet = []\<rparr>"
  have "explicit_rule [''fakeip''] [''dns'', ''fakeip''] ?r = Some (dnsRuleMap (normalizeDNSRuleConditions (conditions_of ?r)) ?r)"
    "map_of (dnsRuleMap (normalizeDNSRuleConditions (conditions_of ?r)) ?r) ''server'' = Some (VStr ''fakeip'')"
    by code_simp+
  then show ?thesis by (intro exI [of _ ?r]) simp
qed

text \<open>A server that is reached by name has a resolver; a server derived from it keeps both.\<close>

definition named_resolved :: "net_env \<Rightarrow> gomap list \<Rightarrow> bool" where
  "named_resolved env servers \<longleftrightarrow>
     (\<forall>s\<in>set servers. \<forall>host. map_of s ''server'' = Some (VStr host) \<longrightarrow> \<not> is_ip env host \<longrightarrow> map_of s ''domain_resolver'' \<noteq> None)"

definition derived :: "gomap list \<Rightarrow> gomap \<Rightarrow> bool" where
  "derived servers m \<longleftrightarrow>
     map_of m ''server'' = None \<or>
     (\<exists>s\<in>set servers. map_of m ''server'' = map_of s ''server'' \<and> map_of m ''domain_resolver'' = map_of s ''domain_resolver'')"

lemma named_resolved_extend:
  assumes "named_resolved env servers" and "list_all (derived servers) added"
  shows "named_resolved env (servers @ added)"
proof -
  have "named_resolved env added"
    unfolding named_resolved_def
  proof (intro ballI allI impI)
    fix m host
    assume m: "m \<in> set added" "map_of m ''server'' = Some (VStr host)" "\<not> is_ip env host"
    with assms(2) obtain s where "s \<in> set servers" "map_of s ''server'' = Some (VStr host)"
      "map_of m ''domain_resolver'' = map_of s ''domain_resolver''" by (force simp: derived_def list_all_iff)
    with assms(1) m(3) show "map_of m ''domain_resolver'' \<noteq> None" by (simp add: named_resolved_def)
  qed
  with assms(1) show ?thesis by (auto simp: named_resolved_def)
qed

lemma address_server:
  assumes "applyDNSServerAddress env t a m = (m', d)" and "map_of m ''server'' = None" and "map_of m' ''server'' = Some (VStr host)"
  shows "d \<longleftrightarrow> \<not> is_ip env host"
  using assms unfolding applyDNSServerAddress_def Let_def by (auto split: if_split_asm prod.split_asm)

lemma server_fields_server:
  "map_of (server_fields env all boot srv) ''server'' =
     map_of (fst (applyDNSServerAddress env (ds_ServerType srv) (ds_Address srv)
       [(''tag'', VStr (ds_Tag srv)), (''type'', VStr (ds_ServerType srv))])) ''server''"
  by (simp add: server_fields_def Let_def map_of_put_nonempty split: prod.split)

lemma bootstrap_differs:
  assumes d: "distinct (map ds_Tag rows)" and srv: "srv \<in> set rows"
    and name: "snd (applyDNSServerAddress env (ds_ServerType srv) (ds_Address srv) [])"
  shows "\<not> isSafeDNSBootstrapTag env (ds_Tag srv) rows"
proof
  assume "isSafeDNSBootstrapTag env (ds_Tag srv) rows"
  then obtain b where b: "b \<in> set (real_servers rows)" "ds_Tag b = ds_Tag srv"
    "\<not> snd (applyDNSServerAddress env (ds_ServerType b) (ds_Address b) [])" by (rule bootstrap_row)
  then have "b = srv" using d srv by (auto simp: real_servers_def distinct_map dest: inj_onD)
  with b name show False by simp
qed

lemma configured_named:
  assumes "configured_stage env inp = Inr st" and d: "distinct (map ds_Tag (di_servers inp))"
  shows "named_resolved env (st_servers st)"
proof -
  let ?rows = "di_servers inp"
  from assms(1) obtain hosts where h: "dns_hosts env (di_hosts inp) = Inr hosts" by (auto simp: configured_stage_def go_result)
  define tags0 selected where "tags0 = enabledDNSServerTags ?rows (gs_Enabled (effectiveDNSGlobalSettings inp))"
    and "selected = selectDNSBootstrapTag env ?rows"
  define boot where "boot = (if selected = [] then uniqueDNSServerTag ''ackwrap-bootstrap-local'' tags0 else selected)"
  from assms(1) obtain ms where ms: "dns_servers env ?rows boot ?rows = Inr ms"
    and "\<exists>t. st_servers st = ms @ (if selected = [] then [[(''tag'', VStr boot), (''type'', VStr ''local'')]] else []) @
      (if hosts \<noteq> [] then [[(''tag'', VStr t), (''type'', VStr ''hosts''), (''predefined'', VMap (host_predefined hosts))]] else [])"
    unfolding configured_stage_def h Let_def res_bind_simps tags0_def [symmetric] selected_def [symmetric] boot_def [symmetric]
    by (auto simp: go_result)
  then obtain extra where st: "st_servers st = ms @ extra" and ex: "\<forall>m\<in>set extra. map_of m ''server'' = None" by fastforce
  have boot: "boot \<noteq> ds_Tag srv \<and> boot \<noteq> []"
    if s: "srv \<in> set (real_servers ?rows)" "snd (applyDNSServerAddress env (ds_ServerType srv) (ds_Address srv) [])" for srv
  proof (cases "selected = []")
    case True
    then have "boot \<notin> set tags0" "boot \<noteq> []"
      using uniqueDNSServerTag_fresh [of "''ackwrap-bootstrap-local''" tags0] by (auto simp: boot_def)
    then show ?thesis using enabled_tags(2) [OF s(1)] by (auto simp: tags0_def)
  next
    case False
    then have "isSafeDNSBootstrapTag env boot ?rows" using selected_bootstrap [of env ?rows] by (simp add: boot_def selected_def)
    with bootstrap_differs [OF d _ s(2)] s(1) show ?thesis by (auto simp: real_servers_def isSafeDNSBootstrapTag_def)
  qed
  have "map_of m ''domain_resolver'' \<noteq> None"
    if m: "m \<in> set ms" "map_of m ''server'' = Some (VStr host)" "\<not> is_ip env host" for m host
  proof -
    from dns_servers_mem(1) [OF ms m(1)] obtain srv where srv: "srv \<in> set (real_servers ?rows)"
      and g: "dns_server env ?rows boot srv = Inr m" by blast
    have "map_of (server_fields env ?rows boot srv) ''server'' = Some (VStr host)"
      using m(2) by (subst (asm) dns_server_map [OF g]) (simp_all add: protected_keys_def)
    then have name: "snd (applyDNSServerAddress env (ds_ServerType srv) (ds_Address srv) [])"
      using address_server [of env "ds_ServerType srv" "ds_Address srv" "[(''tag'', VStr (ds_Tag srv)), (''type'', VStr (ds_ServerType srv))]",
          OF prod.collapse [symmetric], of host] m(3)
        address_domain [of env "ds_ServerType srv" "ds_Address srv" "[]" "[(''tag'', VStr (ds_Tag srv)), (''type'', VStr (ds_ServerType srv))]"]
      by (simp add: server_fields_server)
    have "server_resolver env ?rows boot srv \<noteq> []" "server_resolver env ?rows boot srv \<noteq> ds_Tag srv"
      using boot [OF srv name] by (auto simp: server_resolver_def isSafeDNSBootstrapTag_def)
    with dns_server_fields(4) [OF g] name show ?thesis by simp
  qed
  with ex show ?thesis by (auto simp: named_resolved_def st)
qed

lemma proxy_final_derived:
  assumes "add_proxy_final settings st = Inr st'"
  shows "\<exists>added. st_servers st' = st_servers st @ added \<and> list_all (derived (st_servers st)) added"
proof -
  obtain preferred extra final where g: "generateProxyDNSFinal preferred (st_servers st) (st_tags st) = Inr (extra, final)"
    and st': "st' = (case extra of None \<Rightarrow> st\<lparr>st_proxy_final := Some final\<rparr>
      | Some server \<Rightarrow> st\<lparr>st_servers := st_servers st @ [server], st_tags := final # st_tags st, st_proxy_final := Some final\<rparr>)"
    using assms by (auto simp: add_proxy_final_def Let_def go_result)
  have "pred_option (derived (st_servers st)) extra"
    using g by (auto simp: generateProxyDNSFinal_def derived_def Let_def dest!: find_mem split: if_split_asm option.split_asm)
  then show ?thesis by (cases extra) (auto simp: st')
qed

lemma devices_derived:
  assumes "devices_dns env template directTemplate overrides tags devices = Inr (ss, rs)"
    and "template \<in> set servers" "directTemplate \<in> set servers"
  shows "list_all (derived servers) ss"
  using assms
proof (induction devices arbitrary: tags ss rs)
  case (Cons d ds)
  then obtain s1 r1 s2 r2 where d: "device_dns env template directTemplate overrides tags d = Inr (s1, r1)"
    and ds: "devices_dns env template directTemplate overrides (tags @ server_tags s1) ds = Inr (s2, r2)"
    and e: "ss = s1 @ s2" by (auto simp: go_result)
  have "list_all (derived servers) s1" using d Cons.prems(2,3) by (auto simp: device_dns_def derived_def Let_def split: if_split_asm)
  with Cons.IH [OF ds Cons.prems(2,3)] show ?case by (simp add: e)
qed simp

lemma appendDevice_derived:
  assumes "appendDeviceDNS env devices bindings servers tags t1 t2 = Inr (servers', rules)"
  shows "\<exists>added. servers' = servers @ added \<and> list_all (derived servers) added"
proof (cases "devices = []")
  case True
  with assms show ?thesis by (simp add: appendDeviceDNS_def)
next
  case False
  from assms False obtain overrides template where b: "bindings = Inr overrides"
    and t: "find (\<lambda>s. map_get s ''tag'' = VStr t1) servers = Some template"
    by (auto simp: appendDeviceDNS_def split: sum.split_asm option.split_asm)
  define direct where "direct = (case find (\<lambda>s. map_get s ''tag'' = VStr t2 \<and> isStrategyDNSRemoteType (as_string (map_get s ''type''))) (rev servers) of
                        None \<Rightarrow> template | Some s \<Rightarrow> s)"
  from assms False t b obtain ss rs where d: "devices_dns env template direct overrides tags devices = Inr (ss, rs)" and e: "servers' = servers @ ss"
    by (auto simp: appendDeviceDNS_def Let_def go_result direct_def [symmetric])
  have "template \<in> set servers" "direct \<in> set servers"
    using find_mem [OF t] find_mem [of _ "rev servers"] by (auto simp: direct_def split: option.split)
  with devices_derived [OF d] e show ?thesis by blast
qed

lemma section_named:
  assumes "generateDNSFromDatabase env inp = Inr (Some dns)" and "distinct (map ds_Tag (di_servers inp))"
    and "map_of dns ''servers'' = Some (VMapList servers)"
  shows "named_resolved env servers"
proof -
  let ?set = "effectiveDNSGlobalSettings inp"
  from assms(1) obtain st servers' deviceRules where stage: "server_stage env inp = Inr st"
    and a: "appendDeviceDNS env (if di_mode inp = ''rule'' then di_devices inp else [])
                 (routeRuleOutboundOverrides (di_collections inp) (di_route_rules inp))
                 (st_servers st) (st_tags st) (case st_proxy_final st of None \<Rightarrow> [] | Some t \<Rightarrow> t) (gs_Final ?set) = Inr (servers', deviceRules)"
    and ne: "servers' \<noteq> []"
    by (auto simp: generateDNSFromDatabase_def Let_def go_result split: if_split_asm)
  have s: "servers' = servers"
    using assms(1,3) ne by (auto simp: generateDNSFromDatabase_def Let_def stage a map_of_put_nonempty split: if_split_asm)
  from stage obtain st0 required st1 where s0: "configured_stage env inp = Inr st0"
    and s1: "(if required then add_proxy_final ?set st0 else Inr st0) = Inr st1" and st: "st = add_fakeip ?set st1"
    by (auto simp: server_stage_def go_result split: option.split_asm sum.split_asm)
  have "named_resolved env (st_servers st1)"
    using s1 proxy_final_derived [of ?set st0 st1] configured_named [OF s0 assms(2)] named_resolved_extend by (auto split: if_split_asm)
  then have "named_resolved env (st_servers st)"
    by (auto simp: st add_fakeip_def derived_def map_of_put_nonempty intro!: named_resolved_extend)
  with appendDevice_derived [OF a] named_resolved_extend show ?thesis by (auto simp: s)
qed

text \<open>C40. Name resolution of the servers is grounded: with unique server tags, as the database keeps
  them, every server of the section that is reached by name (its address is not an IP address) has a
  resolver; and every resolver named in the section is a server of it that has neither a detour nor a
  resolver of its own, so there is no cycle and no proxy needed to find a server.\<close>

theorem dns_resolvers_grounded:
  assumes "generateDNSFromDatabase env inp = Inr (Some dns)"
  shows "\<exists>servers. map_of dns ''servers'' = Some (VMapList servers) \<and>
           (distinct (map ds_Tag (di_servers inp)) \<longrightarrow>
             (\<forall>s\<in>set servers. \<forall>host. map_of s ''server'' = Some (VStr host) \<longrightarrow> \<not> is_ip env host \<longrightarrow>
               (\<exists>r. map_of s ''domain_resolver'' = Some r))) \<and>
           (\<forall>s\<in>set servers. \<forall>r. map_of s ''domain_resolver'' = Some r \<longrightarrow>
             (\<exists>b\<in>set servers. map_of b ''tag'' = Some r \<and> map_of b ''detour'' = None \<and> map_of b ''domain_resolver'' = None))"
  using assms
proof (rule generateDNS_parts)
  fix servers
  assume s: "map_of dns ''servers'' = Some (VMapList servers)" and g: "all_grounded servers"
  have "named_resolved env servers" if "distinct (map ds_Tag (di_servers inp))" by (rule section_named [OF assms that s])
  with s g show ?thesis by (auto simp: all_grounded_def grounded_def [abs_def] named_resolved_def)
qed

theorem dns_resolvers_grounded_witness:
  "\<exists>dns servers. generateDNSFromDatabase sample_env sample_dns_input = Inr (Some dns) \<and>
     map_of dns ''servers'' = Some (VMapList servers) \<and>
     (\<forall>s\<in>set servers. map_of s ''server'' = Some (VStr ''dns.example'') \<longrightarrow>
       (\<exists>r. \<exists>b\<in>set servers. map_of s ''domain_resolver'' = Some r \<and> map_of b ''tag'' = Some r \<and> map_of b ''detour'' = None))"
proof -
  obtain dns where d: "generateDNSFromDatabase sample_env sample_dns_input = Inr (Some dns)" using sample_generates by blast
  have "distinct (map ds_Tag (di_servers sample_dns_input))" "\<not> is_ip sample_env ''dns.example''" by code_simp+
  with dns_resolvers_grounded [OF d] d show ?thesis by meson
qed

section \<open>Together with the outbounds\<close>

definition dnsRequiresUsableProxy :: "dns_input \<Rightarrow> generate_error + bool" where
  "dnsRequiresUsableProxy inp =
     res_bind (dnsNeedsProxyFinal (di_mode inp) (di_collections inp) (di_route_rules inp)) (\<lambda>required.
       if required then Inr True
       else Inr (case di_settings inp of
                   None \<Rightarrow> False
                 | Some s \<Rightarrow> gs_Enabled s \<and> list_ex (\<lambda>srv. ds_Enabled srv \<and> ds_Detour srv = ''proxy'') (di_servers inp)))"

datatype assembly_error =
    ProxyCheckFailed generate_error
  | OutboundsFailed generate_error
  | DNSFailed dns_error
  | DetourFailed dns_detour_error

text \<open>
  The steps of a generation that concern outbounds and DNS, in order: the outbounds are generated, with
  a usable proxy if DNS needs one, then the DNS section if DNS is enabled, whose detours are checked
  against the outbounds.  Both read the same mode, route rules and strategy groups.
\<close>

definition dns_input_for :: "generator_input \<Rightarrow> dns_input \<Rightarrow> dns_input" where
  "dns_input_for i inp = inp\<lparr>di_mode := in_proxyMode i, di_route_rules := in_rules i, di_collections := in_collections i\<rparr>"

definition generate_outbounds_and_dns ::
  "(rat \<Rightarrow> string) \<Rightarrow> (rat \<Rightarrow> string) \<Rightarrow> (goval \<Rightarrow> string) \<Rightarrow> net_env \<Rightarrow> generator_input \<Rightarrow> dns_input \<Rightarrow>
   assembly_error + goval list \<times> goval list \<times> gomap option" where
  "generate_outbounds_and_dns g ff sprint env i inp0 =
     (let inp = dns_input_for i inp0 in
      case dnsRequiresUsableProxy inp of
        Inl e \<Rightarrow> Inl (ProxyCheckFailed e)
      | Inr requireUsableProxy \<Rightarrow>
          (case generateOutbounds g ff sprint requireUsableProxy i of
             Inl e \<Rightarrow> Inl (OutboundsFailed e)
           | Inr (obs, eps) \<Rightarrow>
               if (case di_settings inp of None \<Rightarrow> True | Some s \<Rightarrow> \<not> gs_Enabled s) then Inr (obs, eps, None)
               else case generateDNSFromDatabase env inp of
                 Inl e \<Rightarrow> Inl (DNSFailed e)
               | Inr None \<Rightarrow> Inr (obs, eps, None)
               | Inr (Some dns) \<Rightarrow>
                   (case validateDNSDetourPaths dns obs eps of
                      Some e \<Rightarrow> Inl (DetourFailed e)
                    | None \<Rightarrow> Inr (obs, eps, Some dns))))"

lemma assembled_dns:
  assumes "generate_outbounds_and_dns g ff sprint env i inp = Inr (obs, eps, Some dns)"
  shows "generateDNSFromDatabase env (dns_input_for i inp) = Inr (Some dns)" and "validateDNSDetourPaths dns obs eps = None"
  using assms
  by (auto simp: generate_outbounds_and_dns_def Let_def split: sum.split_asm option.split_asm if_split_asm prod.split_asm)

end
