(* ===== verification/Config_Reconcile.thy ===== *)
theory Config_Reconcile
  imports Go_Base "HOL-Library.Multiset"
begin

text \<open>
  The reconcile service of \<^verbatim>\<open>service/config_reconcile.go\<close>: triggers, the debounce timer, its callbacks
  and the mutex around a run, as a step relation over the service's state.  The theorems show that the
  service comes to rest with nothing lost, that runs never overlap, and that triggers are
  coalesced.
\<close>

section \<open>State\<close>

text \<open>What \<^verbatim>\<open>generator.ReconcileCurrent\<close> returns: an error, a configuration that does not validate, or a valid one.\<close>

datatype reconcile_outcome = GeneratorError string | ConfigInvalid string | ConfigValid

datatype reconcile_event = Started string | Succeeded string | Failed string string

text \<open>
  The fields of \<^verbatim>\<open>ConfigReconcileService\<close>, with what the runtime holds for it: the timers that are
  still armed, the number of timer callbacks that have started and wait for \<^verbatim>\<open>mu\<close>, the joined
  reasons of those that have left \<^verbatim>\<open>mu\<close> and wait for \<^verbatim>\<open>runMu\<close>, the one that holds it, and what was
  broadcast.  \<open>stale\<close> is set by an accepted trigger and cleared when a run starts: the
  generated configuration may miss a change.  \<open>triggers\<close> counts the accepted triggers, and
  \<open>close_done\<close> says that a call of \<^verbatim>\<open>Close\<close> has returned.
\<close>

record reconcile_state =
  realtime :: bool
  reasons :: "string list"
  timer :: "nat option"
  is_closed :: bool
  armed :: "nat list"
  next_timer :: nat
  callbacks :: nat
  waiting :: "string list"
  running :: "string option"
  events :: "reconcile_event list"
  stale :: bool
  triggers :: nat
  close_done :: bool

definition newConfigReconcileService :: "bool \<Rightarrow> reconcile_state" where
  "newConfigReconcileService rt =
     \<lparr>realtime = rt, reasons = [], timer = None, is_closed = False, armed = [], next_timer = 0, callbacks = 0,
      waiting = [], running = None, events = [], stale = False, triggers = 0,
      close_done = False\<rparr>"

section \<open>Operations\<close>

text \<open>\<^verbatim>\<open>timer.Stop\<close>: a timer that has fired already is not armed any more, and its callback goes on.\<close>

definition stop_timer :: "reconcile_state \<Rightarrow> reconcile_state" where
  "stop_timer s = (case timer s of None \<Rightarrow> s | Some t \<Rightarrow> s\<lparr>armed := removeAll t (armed s)\<rparr>)"

definition Trigger :: "string \<Rightarrow> reconcile_state \<Rightarrow> reconcile_state" where
  "Trigger reason s =
     (if is_closed s then s
      else let r = (if reason = [] then ''data.changed'' else reason);
               s1 = stop_timer (s\<lparr>reasons := List.insert r (reasons s)\<rparr>);
               t = next_timer s1
           in s1\<lparr>armed := t # armed s1, timer := Some t, next_timer := Suc t, stale := True, triggers := Suc (triggers s1)\<rparr>)"

definition fire :: "nat \<Rightarrow> reconcile_state \<Rightarrow> reconcile_state" where
  "fire t s = s\<lparr>armed := removeAll t (armed s), callbacks := Suc (callbacks s)\<rparr>"

text \<open>The part of \<^verbatim>\<open>runPending\<close> under \<^verbatim>\<open>mu\<close>, and the call of \<^verbatim>\<open>reconcile\<close> up to \<^verbatim>\<open>runMu.Lock\<close>.\<close>

definition runPending :: "reconcile_state \<Rightarrow> reconcile_state" where
  "runPending s =
     (let s1 = s\<lparr>callbacks := callbacks s - 1\<rparr>
      in if is_closed s then s1
         else s1\<lparr>waiting := waiting s @ [join_with '','' (sort (reasons s))], reasons := [], timer := None\<rparr>)"

definition broadcast :: "reconcile_event \<Rightarrow> reconcile_state \<Rightarrow> reconcile_state" where
  "broadcast e s = (if realtime s then s\<lparr>events := events s @ [e]\<rparr> else s)"

definition reconcile_start :: "string \<Rightarrow> reconcile_state \<Rightarrow> reconcile_state" where
  "reconcile_start reason s =
     broadcast (Started reason) (s\<lparr>waiting := remove1 reason (waiting s), running := Some reason, stale := False\<rparr>)"

text \<open>The prefixes of the two error texts, in UTF-8: that reconciling failed, and that the check failed.\<close>

definition reconcile_failed_text :: string where
  "reconcile_failed_text = [CHR 0xE9, CHR 0x85, CHR 0x8D, CHR 0xE7, CHR 0xBD, CHR 0xAE, CHR 0xE5, CHR 0x8D, CHR 0x8F, CHR 0xE8, CHR 0xB0, CHR 0x83, CHR 0xE5, CHR 0xA4, CHR 0xB1, CHR 0xE8, CHR 0xB4, CHR 0xA5] @ '': ''"

definition check_failed_text :: string where
  "check_failed_text = [CHR 0xE9, CHR 0x85, CHR 0x8D, CHR 0xE7, CHR 0xBD, CHR 0xAE, CHR 0xE6, CHR 0xA0, CHR 0xA1, CHR 0xE9, CHR 0xAA, CHR 0x8C, CHR 0xE5, CHR 0xA4, CHR 0xB1, CHR 0xE8, CHR 0xB4, CHR 0xA5] @ '': ''"

definition reconcile_end :: "string \<Rightarrow> reconcile_outcome \<Rightarrow> reconcile_state \<Rightarrow> reconcile_state" where
  "reconcile_end reason outcome s =
     (broadcast (case outcome of
          GeneratorError e \<Rightarrow> Failed reason (reconcile_failed_text @ e)
        | ConfigInvalid e \<Rightarrow> Failed reason (check_failed_text @ e)
        | ConfigValid \<Rightarrow> Succeeded reason) s)\<lparr>running := None\<rparr>"

definition Close :: "reconcile_state \<Rightarrow> reconcile_state" where
  "Close s = stop_timer (s\<lparr>is_closed := True\<rparr>)"

text \<open>The end of \<^verbatim>\<open>Close\<close>, once it got \<^verbatim>\<open>runMu\<close>.\<close>

definition Close_return :: "reconcile_state \<Rightarrow> reconcile_state" where
  "Close_return s = s\<lparr>close_done := True\<rparr>"

text \<open>
  The steps the service takes by itself: an armed timer fires, a callback takes the pending
  reasons, a waiting callback gets \<^verbatim>\<open>runMu\<close>, a run ends.  The environment triggers and closes.
\<close>

inductive internal_step :: "reconcile_state \<Rightarrow> reconcile_state \<Rightarrow> bool" where
  timer_fires: "t \<in> set (armed s) \<Longrightarrow> internal_step s (fire t s)"
| callback_runs: "0 < callbacks s \<Longrightarrow> internal_step s (runPending s)"
| run_starts: "running s = None \<Longrightarrow> r \<in> set (waiting s) \<Longrightarrow> internal_step s (reconcile_start r s)"
| run_ends: "running s = Some r \<Longrightarrow> internal_step s (reconcile_end r outcome s)"

inductive step :: "reconcile_state \<Rightarrow> reconcile_state \<Rightarrow> bool" where
  internal: "internal_step s s' \<Longrightarrow> step s s'"
| trigger: "step s (Trigger reason s)"
| close: "step s (Close s)"
| close_returns: "is_closed s \<Longrightarrow> running s = None \<Longrightarrow> step s (Close_return s)"

inductive reachable :: "reconcile_state \<Rightarrow> bool" where
  init: "reachable (newConfigReconcileService rt)"
| step: "reachable s \<Longrightarrow> step s s' \<Longrightarrow> reachable s'"

inductive_cases internal_stepE: "internal_step s s'"
inductive_cases stepE: "step s s'"

lemmas reconcile_ops = stop_timer_def Trigger_def fire_def runPending_def broadcast_def reconcile_start_def
  reconcile_end_def Close_def Close_return_def

section \<open>Invariants\<close>

text \<open>Nothing is lost: a pending reason has a timer or a callback, and a stale configuration has a pending run.\<close>

definition no_lost_reason :: "reconcile_state \<Rightarrow> bool" where
  "no_lost_reason s \<longleftrightarrow>
     (is_closed s \<or> reasons s = [] \<or> armed s \<noteq> [] \<or> 0 < callbacks s) \<and>
     (is_closed s \<or> \<not> stale s \<or> reasons s \<noteq> [] \<or> waiting s \<noteq> []) \<and>
     (\<forall>t\<in>set (armed s). t < next_timer s) \<and> distinct (armed s)"

lemma no_lost_reason_internal: "internal_step s s' \<Longrightarrow> no_lost_reason s \<Longrightarrow> no_lost_reason s'"
  by (induction rule: internal_step.induct)
    (auto simp: no_lost_reason_def reconcile_ops Let_def distinct_removeAll split: if_splits)

lemma insert_ne: "List.insert x xs \<noteq> []"
  by (metis List.set_insert empty_iff insertI1 list.set(1))

lemma no_lost_reason_step: "step s s' \<Longrightarrow> no_lost_reason s \<Longrightarrow> no_lost_reason s'"
proof (induction rule: step.induct)
  case (internal s s')
  then show ?case by (rule no_lost_reason_internal)
next
  case (trigger s reason)
  then show ?case
    by (auto simp: no_lost_reason_def reconcile_ops Let_def insert_ne distinct_removeAll less_Suc_eq split: option.splits)
next
  case (close s)
  then show ?case by (auto simp: no_lost_reason_def reconcile_ops distinct_removeAll split: option.splits)
next
  case (close_returns s)
  then show ?case by (simp add: no_lost_reason_def Close_return_def)
qed

lemma reachable_no_lost: "reachable s \<Longrightarrow> no_lost_reason s"
proof (induction rule: reachable.induct)
  case (init rt)
  then show ?case by (simp add: no_lost_reason_def newConfigReconcileService_def)
qed (rule no_lost_reason_step)

text \<open>The work left: every internal step lowers it.\<close>

definition work_left :: "reconcile_state \<Rightarrow> nat" where
  "work_left s = 4 * length (armed s) + 3 * callbacks s + 2 * length (waiting s) + (if running s = None then 0 else 1)"

lemma internal_step_decreases: "internal_step s s' \<Longrightarrow> work_left s' < work_left s"
proof (induction rule: internal_step.induct)
  case (timer_fires t s)
  then show ?case using length_removeAll_less [of t "armed s"] by (simp add: work_left_def fire_def)
next
  case (callback_runs s)
  then show ?case by (auto simp: work_left_def runPending_def Let_def)
next
  case (run_starts s r)
  then have "0 < length (waiting s)" by auto
  then have "2 * (length (waiting s) - 1) + 1 < 2 * length (waiting s)" by arith
  with run_starts show ?case by (simp add: work_left_def reconcile_start_def broadcast_def length_remove1)
next
  case (run_ends s r outcome)
  then show ?case by (auto simp: work_left_def reconcile_end_def broadcast_def)
qed

text \<open>Broadcasts come in pairs, and only a run in progress has an open one.\<close>

fun paired :: "reconcile_event list \<Rightarrow> string option \<Rightarrow> bool" where
  "paired [] current = (current = None)"
| "paired [Started r] current = (current = Some r)"
| "paired (Started r # Succeeded r' # es) current = (r = r' \<and> paired es current)"
| "paired (Started r # Failed r' e # es) current = (r = r' \<and> paired es current)"
| "paired _ current = False"

lemma paired_start: "paired es None \<Longrightarrow> paired (es @ [Started r]) (Some r)"
  by (induction es "None :: string option" rule: paired.induct) auto

lemma paired_end: "paired es (Some r) \<Longrightarrow> e = Succeeded r \<or> (\<exists>m. e = Failed r m) \<Longrightarrow> paired (es @ [e]) None"
  by (induction es "Some r" rule: paired.induct) auto

definition serialised :: "reconcile_state \<Rightarrow> bool" where
  "serialised s \<longleftrightarrow> (if realtime s then paired (events s) (running s) else events s = [])"

lemma stop_timer_frame [simp]:
  "events (stop_timer s) = events s" "running (stop_timer s) = running s" "realtime (stop_timer s) = realtime s"
  "waiting (stop_timer s) = waiting s" "callbacks (stop_timer s) = callbacks s" "reasons (stop_timer s) = reasons s"
  "triggers (stop_timer s) = triggers s" "is_closed (stop_timer s) = is_closed s"
  by (simp_all add: stop_timer_def split: option.split)

lemma serialised_step: "step s s' \<Longrightarrow> serialised s \<Longrightarrow> serialised s'"
proof (induction rule: step.induct)
  case (internal s s')
  then show ?case
  proof (induction rule: internal_step.induct)
    case (run_ends s r outcome)
    then show ?case
      by (auto simp: serialised_def reconcile_end_def broadcast_def split: reconcile_outcome.splits intro!: paired_end)
  qed (auto simp: serialised_def fire_def runPending_def reconcile_start_def broadcast_def Let_def intro!: paired_start)
qed (auto simp: serialised_def Trigger_def Close_def Close_return_def Let_def)

text \<open>Each run, and each run still to come, goes back to a trigger of its own.\<close>

fun is_start :: "reconcile_event \<Rightarrow> bool" where
  "is_start (Started r) = True"
| "is_start _ = False"

definition started_count :: "reconcile_state \<Rightarrow> nat" where
  "started_count s = length (filter is_start (events s))"

definition within_triggers :: "reconcile_state \<Rightarrow> bool" where
  "within_triggers s \<longleftrightarrow> started_count s + length (waiting s) + callbacks s + length (armed s) \<le> triggers s"

lemma stop_timer_armed: "length (armed (stop_timer s)) \<le> length (armed s)"
  by (simp add: stop_timer_def removeAll_filter_not_eq split: option.split)

lemma within_triggers_step: "step s s' \<Longrightarrow> within_triggers s \<Longrightarrow> within_triggers s'"
proof (induction rule: step.induct)
  case (internal s s')
  then show ?case
  proof (induction rule: internal_step.induct)
    case (timer_fires t s)
    then show ?case using length_removeAll_less [of t "armed s"]
      by (simp add: within_triggers_def started_count_def fire_def)
  next
    case (callback_runs s)
    then show ?case by (auto simp: within_triggers_def started_count_def runPending_def Let_def)
  next
    case (run_starts s r)
    then have "length (waiting s) = Suc (length (remove1 r (waiting s)))"
      by (metis One_nat_def Suc_pred length_pos_if_in_set length_remove1)
    with run_starts show ?case
      by (auto simp: within_triggers_def started_count_def reconcile_start_def broadcast_def)
  next
    case (run_ends s r outcome)
    then show ?case
      by (auto simp: within_triggers_def started_count_def reconcile_end_def broadcast_def split: reconcile_outcome.splits)
  qed
next
  case (trigger s reason)
  define r where "r = (if reason = [] then ''data.changed'' else reason)"
  have "length (armed (stop_timer (s\<lparr>reasons := List.insert r (reasons s)\<rparr>))) \<le> length (armed s)"
    using stop_timer_armed [of "s\<lparr>reasons := List.insert r (reasons s)\<rparr>"] by simp
  with trigger show ?case
    by (simp add: within_triggers_def started_count_def Trigger_def Let_def r_def [symmetric] del: if_not_P)
next
  case (close s)
  then show ?case using stop_timer_armed [of "s\<lparr>is_closed := True\<rparr>"]
    by (auto simp: within_triggers_def started_count_def Close_def)
next
  case (close_returns s)
  then show ?case by (simp add: within_triggers_def started_count_def Close_return_def)
qed

lemma reachable_induct:
  assumes "reachable s" and "\<And>rt. P (newConfigReconcileService rt)" and "\<And>s s'. step s s' \<Longrightarrow> P s \<Longrightarrow> P s'"
  shows "P s"
  using assms(1) by (induction rule: reachable.induct) (use assms(2,3) in blast)+

lemma quiescent_idle:
  assumes "no_lost_reason s" and "\<not> is_closed s" and "\<not> (\<exists>t. internal_step s t)"
  shows "\<not> stale s \<and> reasons s = [] \<and> waiting s = [] \<and> running s = None"
proof -
  have "armed s = []" using assms(3) timer_fires by (metis list.set_intros(1) neq_Nil_conv)
  moreover have "callbacks s = 0" using assms(3) callback_runs by blast
  moreover have r: "running s = None" using assms(3) run_ends by (metis not_None_eq)
  moreover have "waiting s = []" using assms(3) run_starts [OF r] by (metis list.set_intros(1) neq_Nil_conv)
  ultimately show ?thesis using assms(1,2) by (auto simp: no_lost_reason_def)
qed

section \<open>Properties\<close>

text \<open>C9. Every change reaches the configuration: left alone, the service always comes to rest (no
  infinite sequence of its own steps exists, whatever the order of timers, callbacks and runs), and an
  open service at rest has no pending reason and no run that was asked for after the last run
  started, even when a timer fired while it was being replaced.\<close>

theorem reconcile_liveness:
  "wfp (\<lambda>t s. internal_step s t) \<and>
   (\<forall>s. reachable s \<and> \<not> is_closed s \<and> \<not> (\<exists>t. internal_step s t) \<longrightarrow>
      \<not> stale s \<and> reasons s = [] \<and> waiting s = [] \<and> running s = None)"
proof
  show "wfp (\<lambda>t s. internal_step s t)"
    by (rule wfp_if_convertible_to_nat [where f = work_left]) (rule internal_step_decreases)
qed (use quiescent_idle reachable_no_lost in blast)

text \<open>Runs do not overlap: whatever triggers, timers and closing interleave, the broadcast history
  is a sequence of pairs of a start and the matching success or failure, followed by one open start
  exactly while that run is in progress.\<close>

theorem reconcile_serialised:
  assumes "reachable s"
  shows "if realtime s then paired (events s) (running s) else events s = []"
proof -
  have "serialised s"
    by (rule reachable_induct [OF assms])
      (simp add: serialised_def newConfigReconcileService_def, rule serialised_step)
  then show ?thesis by (simp only: serialised_def)
qed

text \<open>Triggers are coalesced, never multiplied: the runs started so far, those waiting, and those
  that timers and callbacks can still cause are together at most the accepted triggers.\<close>

theorem reconcile_coalesces:
  assumes "reachable s"
  shows "started_count s + length (waiting s) + callbacks s + length (armed s) \<le> triggers s"
proof -
  have "within_triggers s"
    by (rule reachable_induct [OF assms])
      (simp add: within_triggers_def started_count_def newConfigReconcileService_def, rule within_triggers_step)
  then show ?thesis by (simp only: within_triggers_def)
qed

text \<open>A closed service takes no new work: it stays closed, ignores triggers, and only callbacks
  that had taken their reasons before may still run.\<close>

theorem closed_takes_no_work:
  assumes "is_closed s" and "step s s'"
  shows "is_closed s' \<and> triggers s' = triggers s \<and> mset (waiting s') \<subseteq># mset (waiting s)"
  using assms(2,1)
proof (induction rule: step.induct)
  case (internal s s')
  then show ?case
    by (induction rule: internal_step.induct) (auto simp: reconcile_ops Let_def split: reconcile_outcome.split)
qed (auto simp: Trigger_def Close_def Close_return_def)

text \<open>Scripted runs: the script's result is reachable when every step of it is enabled.\<close>

datatype action = DoTrigger string | DoFire nat | DoRun | DoStart string | DoEnd reconcile_outcome | DoClose | DoCloseReturn

fun act :: "action \<Rightarrow> reconcile_state \<Rightarrow> reconcile_state option" where
  "act (DoTrigger r) s = Some (Trigger r s)"
| "act (DoFire t) s = (if t \<in> set (armed s) then Some (fire t s) else None)"
| "act DoRun s = (if 0 < callbacks s then Some (runPending s) else None)"
| "act (DoStart r) s = (if running s = None \<and> r \<in> set (waiting s) then Some (reconcile_start r s) else None)"
| "act (DoEnd oc) s = (case running s of None \<Rightarrow> None | Some r \<Rightarrow> Some (reconcile_end r oc s))"
| "act DoClose s = Some (Close s)"
| "act DoCloseReturn s = (if is_closed s \<and> running s = None then Some (Close_return s) else None)"

fun script :: "action list \<Rightarrow> reconcile_state \<Rightarrow> reconcile_state option" where
  "script [] s = Some s"
| "script (a # as) s = (case act a s of None \<Rightarrow> None | Some s' \<Rightarrow> script as s')"

lemma act_step: "act a s = Some s' \<Longrightarrow> step s s'"
  by (cases a) (auto split: if_split_asm option.split_asm intro: step.intros internal_step.intros)

lemma script_reachable: "reachable s \<Longrightarrow> script as s = Some s' \<Longrightarrow> reachable s'"
  by (induction as arbitrary: s) (auto split: option.split_asm dest: act_step intro: reachable.step)

text \<open>
  A trigger whose timer fires while a second trigger replaces it: two callbacks run, the second one
  with no reason left.
\<close>

definition sample_script :: "action list" where
  "sample_script =
     [DoTrigger ''rule'', DoFire 0, DoTrigger ''dns'', DoRun, DoStart ''dns,rule'', DoFire 1, DoEnd ConfigValid, DoRun,
      DoStart [], DoEnd (GeneratorError ''e'')]"

definition sample_rest :: reconcile_state where
  "sample_rest = the (script sample_script (newConfigReconcileService True))"

lemma sample_rest_reachable: "reachable sample_rest"
proof (rule script_reachable [OF reachable.init])
  have "script sample_script (newConfigReconcileService True) \<noteq> None" by code_simp
  then show "script sample_script (newConfigReconcileService True) = Some sample_rest"
    by (simp add: sample_rest_def)
qed

lemma sample_rest_state:
  "armed sample_rest = []" "callbacks sample_rest = 0" "waiting sample_rest = []" "running sample_rest = None"
  "is_closed sample_rest = False" "realtime sample_rest = True" "triggers sample_rest = 2"
  "events sample_rest = [Started ''dns,rule'', Succeeded ''dns,rule'', Started [], Failed [] (reconcile_failed_text @ ''e'')]"
  by code_simp+

theorem reconcile_liveness_witness: "\<not> stale sample_rest \<and> reasons sample_rest = []"
proof -
  have "\<not> (\<exists>t. internal_step sample_rest t)"
    by (auto elim!: internal_stepE simp: sample_rest_state)
  with reconcile_liveness sample_rest_reachable sample_rest_state show ?thesis by blast
qed

theorem reconcile_serialised_witness: "paired (events sample_rest) (running sample_rest)"
  using reconcile_serialised [OF sample_rest_reachable] sample_rest_state by simp

theorem reconcile_coalesces_witness: "started_count sample_rest \<le> 2"
  using reconcile_coalesces [OF sample_rest_reachable] sample_rest_state by simp

theorem closed_takes_no_work_witness:
  "is_closed (Trigger ''x'' (Close sample_rest)) \<and> triggers (Trigger ''x'' (Close sample_rest)) = triggers (Close sample_rest)"
proof -
  have "is_closed (Close sample_rest)" by (simp add: Close_def)
  from closed_takes_no_work [OF this step.trigger] show ?thesis by blast
qed

text \<open>
  Closing does not wait for a callback that has taken its reasons but does not hold \<^verbatim>\<open>runMu\<close> yet: a run
  can be in progress after \<^verbatim>\<open>Close\<close> has returned.
\<close>

lemma run_after_close: "\<exists>s. reachable s \<and> close_done s \<and> running s = Some ''rule''"
proof (intro exI conjI)
  let ?as = "[DoTrigger ''rule'', DoFire 0, DoRun, DoClose, DoCloseReturn, DoStart ''rule'']"
  let ?s = "the (script ?as (newConfigReconcileService True))"
  have "script ?as (newConfigReconcileService True) \<noteq> None" by code_simp
  then show "reachable ?s" by (intro script_reachable [OF reachable.init, where as = ?as]) simp
  show "close_done ?s" "running ?s = Some ''rule''" by code_simp+
qed

end
