(* ===== verification/Config_Apply.thy ===== *)
theory Config_Apply
  imports Outbound_Tags
begin

text \<open>
  The configuration directory: names of configuration files and the active one
  (\<^verbatim>\<open>paths/paths.go\<close>, \<open>normalizeConfigFileName\<close>), the replacement of the active file by a
  generated configuration (\<open>applyConfigFileLocked\<close>, \<open>Apply\<close>) and the reconcile run that
  generates, compares and applies (\<open>ReconcileCurrentWithCallback\<close>), all of
  \<^verbatim>\<open>service/config_generator.go\<close>.
\<close>

section \<open>Configuration file names\<close>

text \<open>
  \<^verbatim>\<open>filepath.Ext\<close> of a name without a slash: from its last dot on, empty when it has none.
\<close>

definition file_ext :: "string \<Rightarrow> string" where
  "file_ext name =
     (if CHR ''.'' \<in> set name then CHR ''.'' # rev (takeWhile (\<lambda>c. c \<noteq> CHR ''.'') (rev name)) else [])"

definition IsConfigBackupName :: "string \<Rightarrow> bool" where
  "IsConfigBackupName name \<longleftrightarrow>
     (let n = ToLower name
      in suffix ''.bak.json'' n \<or> prefix ''config.backup.'' n \<and> suffix ''.json'' n)"

definition IsConfigFileName :: "string \<Rightarrow> bool" where
  "IsConfigFileName name \<longleftrightarrow> EqualFold (file_ext name) ''.json'' \<and> \<not> IsConfigBackupName name"

datatype name_error = NameEmpty | NameNotPlain | NameMalformed | NameReserved | NameIsBackup

definition forbidden_char :: "char \<Rightarrow> bool" where
  "forbidden_char c \<longleftrightarrow> c \<in> set [CHR ''<'', CHR ''>'', CHR '':'', CHR 0x22, CHR ''/'', CHR 0x5C, CHR ''|'', CHR ''?'', CHR ''*'']"

definition is_control :: "nat \<Rightarrow> bool" where
  "is_control r \<longleftrightarrow> r < 32 \<or> 127 \<le> r \<and> r < 160"

definition upper_byte :: "char \<Rightarrow> char" where
  "upper_byte c = (if CHR ''a'' \<le> c \<and> c \<le> CHR ''z'' then char_of (of_char c - 32 :: nat) else c)"

text \<open>
  The device names of Windows.  \<^verbatim>\<open>strings.ToUpper\<close> is used on the part before the first dot; of the
  runes outside ASCII only the dotless i (U+0131) and the long s (U+017F) have an ASCII upper case, and
  none of the names holds an I or an S.
\<close>

definition is_reserved_stem :: "string \<Rightarrow> bool" where
  "is_reserved_stem stem \<longleftrightarrow>
     (let u = map upper_byte (takeWhile (\<lambda>c. c \<noteq> CHR ''.'') stem)
      in u \<in> set [''CON'', ''PRN'', ''AUX'', ''NUL''] \<or>
         length u = 4 \<and> (prefix ''COM'' u \<or> prefix ''LPT'' u) \<and> u ! 3 \<in> set ''123456789'')"

definition normalizeConfigFileName :: "string \<Rightarrow> name_error + string" where
  "normalizeConfigFileName raw =
     (let trimmed = TrimSpace raw in
      if trimmed = [] then Inl NameEmpty
      else
        let fileName = (if file_ext trimmed = [] then trimmed @ ''.json'' else trimmed);
            extension = file_ext fileName;
            stem = take (length fileName - length extension) fileName
        in if 128 < length (runes fileName) \<or> list_ex forbidden_char fileName \<or>
              list_ex (\<lambda>p. is_control (fst p)) (runes fileName) \<or> \<not> EqualFold extension ''.json''
           then Inl NameNotPlain
           else if stem = [] \<or> suffix ''.'' stem \<or> suffix '' '' stem then Inl NameMalformed
           else if is_reserved_stem stem then Inl NameReserved
           else if IsConfigBackupName (stem @ ''.json'') then Inl NameIsBackup
           else Inr (stem @ ''.json''))"

section \<open>The configuration directory\<close>

text \<open>
  The regular files of the configuration directory, backups and staging files left out, and the
  generated configuration \<^verbatim>\<open>config.tmp.json\<close> in the data directory.  The backup step only reads and
  writes backup names, which are no configuration names.
\<close>

record config_store =
  files :: "(string \<times> string) list"
  tmp_config :: "string option"

definition active_marker :: string where
  "active_marker = ''.active-config''"

definition default_config :: string where
  "default_config = ''config.json''"

definition marked_config :: "config_store \<Rightarrow> string option" where
  "marked_config st =
     (case map_of (files st) active_marker of
        None \<Rightarrow> None
      | Some marker \<Rightarrow>
          let name = TrimSpace marker
          in if name \<noteq> [] \<and> CHR ''/'' \<notin> set name \<and> IsConfigFileName name \<and> has_key (files st) name
             then Some name else None)"

definition ActiveConfigPath :: "config_store \<Rightarrow> string option" where
  "ActiveConfigPath st =
     (case marked_config st of
        Some name \<Rightarrow> Some name
      | None \<Rightarrow>
          let configs = filter IsConfigFileName (map fst (files st))
          in if configs = [] then None
             else if default_config \<in> set configs then Some default_config
             else Some (hd (sort configs)))"

definition active_content :: "config_store \<Rightarrow> string option" where
  "active_content st = Option.bind (ActiveConfigPath st) (map_of (files st))"

datatype apply_error =
    MkdirFailed
  | ActivePathFailed
  | TmpMissing
  | StageFailed
  | ValidationFailed
  | BackupFailed
  | TargetStatFailed
  | ReplaceFailed
  | MarkerFailed

text \<open>What the environment does: each flag lets the operation succeed.\<close>

record apply_io =
  mkdir_ok :: bool
  active_ok :: bool
  stage_ok :: bool
  backup_ok :: bool
  stat_ok :: bool
  replace_ok :: bool
  marker_ok :: bool
  remove_ok :: bool

definition writeActiveConfigMarker :: "bool \<Rightarrow> string \<Rightarrow> config_store \<Rightarrow> config_store option" where
  "writeActiveConfigMarker ok target st =
     (if ok then Some (st\<lparr>files := map_put active_marker target (files st)\<rparr>) else None)"

definition apply_target :: "string \<Rightarrow> config_store \<Rightarrow> string" where
  "apply_target fileName st =
     (if fileName \<noteq> [] then fileName
      else case ActiveConfigPath st of None \<Rightarrow> default_config | Some n \<Rightarrow> n)"

text \<open>\<open>check\<close> is the verdict of \<^verbatim>\<open>sing-box check\<close> on a configuration text.\<close>

definition applyConfigFileLocked ::
  "(string \<Rightarrow> bool) \<Rightarrow> apply_io \<Rightarrow> string \<Rightarrow> config_store \<Rightarrow> config_store \<times> apply_error option" where
  "applyConfigFileLocked check io fileName st =
     (if \<not> mkdir_ok io then (st, Some MkdirFailed)
      else if fileName = [] \<and> \<not> active_ok io then (st, Some ActivePathFailed)
      else let target = apply_target fileName st in
        case tmp_config st of
          None \<Rightarrow> (st, Some TmpMissing)
        | Some generated \<Rightarrow>
            if \<not> stage_ok io then (st, Some StageFailed)
            else if \<not> check generated then (st, Some ValidationFailed)
            else if \<not> stat_ok io then (st, Some TargetStatFailed)
            else if has_key (files st) target \<and> \<not> backup_ok io then (st, Some BackupFailed)
            else if \<not> replace_ok io then (st, Some ReplaceFailed)
            else let st1 = st\<lparr>files := map_put target generated (files st)\<rparr>
                 in case writeActiveConfigMarker (marker_ok io) target st1 of
                      None \<Rightarrow> (st1, Some MarkerFailed)
                    | Some st2 \<Rightarrow> (if remove_ok io then st2\<lparr>tmp_config := None\<rparr> else st2, None))"

datatype apply_failure = BadName name_error | ApplyFailed apply_error

definition Apply :: "(string \<Rightarrow> bool) \<Rightarrow> apply_io \<Rightarrow> string \<Rightarrow> config_store \<Rightarrow> config_store \<times> apply_failure option" where
  "Apply check io raw st =
     (case normalizeConfigFileName raw of
        Inl e \<Rightarrow> (st, Some (BadName e))
      | Inr fileName \<Rightarrow>
          (case applyConfigFileLocked check io fileName st of (st', e) \<Rightarrow> (st', map_option ApplyFailed e)))"

section \<open>Reconciling the active configuration\<close>

text \<open>
  The generator's result: an error, or the text it wrote to \<^verbatim>\<open>config.tmp.json\<close>, valid or not.
  Reading the two files for the comparison may fail (\<open>compare_ok\<close>); the callback after applying may
  fail too, when there is one.
\<close>

datatype generation = GenerationFailed | Generated string bool

datatype reconcile_result = Reconciled | NotValid | ReconcileError apply_error | CompareFailed | CallbackFailed | GeneratorFailed

definition discardGeneratedConfig :: "bool \<Rightarrow> config_store \<Rightarrow> config_store" where
  "discardGeneratedConfig ok st = (if ok then st\<lparr>tmp_config := None\<rparr> else st)"

definition generatedConfigMatchesActive :: "bool \<Rightarrow> config_store \<Rightarrow> bool option" where
  "generatedConfigMatchesActive ok st =
     (if \<not> ok then None
      else case ActiveConfigPath st of
        None \<Rightarrow> Some False
      | Some n \<Rightarrow> Some (map_of (files st) n = tmp_config st))"

definition ReconcileCurrentWithCallback ::
  "(string \<Rightarrow> bool) \<Rightarrow> apply_io \<Rightarrow> bool \<Rightarrow> bool option \<Rightarrow> generation \<Rightarrow> config_store \<Rightarrow> config_store \<times> reconcile_result" where
  "ReconcileCurrentWithCallback check io compare_ok afterApply gen st =
     (let callback = (if afterApply = Some False then CallbackFailed else Reconciled);
          (st', r) =
            (case gen of
               GenerationFailed \<Rightarrow> (st, GeneratorFailed)
             | Generated json valid \<Rightarrow>
                 let st1 = st\<lparr>tmp_config := Some json\<rparr>
                 in if \<not> valid then (st1, NotValid)
                    else case generatedConfigMatchesActive compare_ok st1 of
                      None \<Rightarrow> (st1, CompareFailed)
                    | Some True \<Rightarrow> (st1, callback)
                    | Some False \<Rightarrow>
                        (case applyConfigFileLocked check io [] st1 of
                           (st2, Some e) \<Rightarrow> (st2, ReconcileError e)
                         | (st2, None) \<Rightarrow> (st2, callback)))
      in (discardGeneratedConfig (remove_ok io) st', r))"

section \<open>Facts about names\<close>

lemma TrimSpace_front: "lead_len space_encodings (TrimSpace s) = 0"
proof -
  have "prefix (TrimSpace s) (strip_front space_encodings s)"
    unfolding TrimSpace_def using strip_front_suffix by (metis rev_rev_ident suffix_to_prefix)
  then show ?thesis by (rule lead_len_prefix) (rule strip_front_done)
qed

lemma TrimSpace_fixed:
  "lead_len space_encodings s = 0 \<Longrightarrow> lead_len (map rev space_encodings) (rev s) = 0 \<Longrightarrow> TrimSpace s = s"
  by (simp add: TrimSpace_def strip_front_id)

lemma space_encodings_no_dot: "list_all (\<lambda>e. CHR ''.'' \<notin> set e) space_encodings"
  by code_simp

lemma json_name_trimmed:
  assumes "stem \<noteq> []" and "lead_len space_encodings stem = 0"
  shows "TrimSpace (stem @ ''.json'') = stem @ ''.json''"
proof (rule TrimSpace_fixed)
  show "lead_len space_encodings (stem @ ''.json'') = 0"
  proof (rule ccontr)
    assume "\<not> ?thesis"
    then obtain e where e: "e \<in> set space_encodings" "e \<noteq> []" "prefix e (stem @ ''.json'')"
      using lead_len_pos by blast
    have "\<not> prefix e stem" using lead_len_mem [OF e(1,2), of stem] assms(2) by auto
    with e(3) obtain x where x: "e = stem @ x" "prefix x ''.json''" by (auto simp: prefix_append)
    with \<open>\<not> prefix e stem\<close> have "CHR ''.'' \<in> set e" by (cases x) auto
    with e(1) space_encodings_no_dot show False by (simp add: list_all_iff)
  qed
  show "lead_len (map rev space_encodings) (rev (stem @ ''.json'')) = 0"
    by (simp add: space_encodings_def)
qed

lemma json_ext: "file_ext (stem @ ''.json'') = ''.json''"
  by (simp add: file_ext_def)

lemma file_ext_suffix: "suffix (file_ext s) s"
proof (cases "CHR ''.'' \<in> set s")
  case True
  then obtain a b where s: "s = a @ CHR ''.'' # b" "CHR ''.'' \<notin> set b" by (meson split_list_last)
  then have "takeWhile (\<lambda>c. c \<noteq> CHR ''.'') (rev b @ CHR ''.'' # rev a) = rev b" by (subst takeWhile_append2) auto
  with s show ?thesis by (simp add: file_ext_def suffix_def)
qed (simp add: file_ext_def)

lemma stem_prefix:
  assumes "fileName = (if file_ext trimmed = [] then trimmed @ ''.json'' else trimmed)"
  shows "prefix (take (length fileName - length (file_ext fileName)) fileName) trimmed"
proof (cases "file_ext trimmed = []")
  case True
  then have f: "fileName = trimmed @ ''.json''" using assms by simp
  show ?thesis unfolding f json_ext by simp
next
  case False
  then show ?thesis using assms by (simp add: take_is_prefix)
qed

definition plain_config_name :: "string \<Rightarrow> bool" where
  "plain_config_name n \<longleftrightarrow> n \<noteq> [] \<and> list_all (\<lambda>c. \<not> forbidden_char c) n \<and> IsConfigFileName n \<and> TrimSpace n = n"

lemma normalized_plain:
  assumes "normalizeConfigFileName raw = Inr n"
  shows "plain_config_name n"
proof -
  define trimmed fileName stem where "trimmed = TrimSpace raw"
    and "fileName = (if file_ext trimmed = [] then trimmed @ ''.json'' else trimmed)"
    and "stem = take (length fileName - length (file_ext fileName)) fileName"
  have stem: "stem \<noteq> []" "n = stem @ ''.json''" "\<not> IsConfigBackupName n" "\<not> list_ex forbidden_char fileName"
    using assms unfolding normalizeConfigFileName_def Let_def
      trimmed_def [symmetric] fileName_def [symmetric] stem_def [symmetric]
    by (auto split: if_split_asm)
  have "list_all (\<lambda>c. \<not> forbidden_char c) stem"
    using stem(4) by (auto simp: stem_def list_all_iff list_ex_iff dest: in_set_takeD)
  moreover have "list_all (\<lambda>c. \<not> forbidden_char c) ''.json''" by code_simp
  ultimately have "list_all (\<lambda>c. \<not> forbidden_char c) n" by (simp add: stem(2))
  moreover have "lead_len space_encodings stem = 0"
    using lead_len_prefix [OF stem_prefix [OF fileName_def, folded stem_def]] TrimSpace_front by (simp add: trimmed_def)
  ultimately show ?thesis
    using stem json_name_trimmed [of stem] json_ext [of stem] by (simp add: plain_config_name_def IsConfigFileName_def)
qed

text \<open>A configuration name that is accepted cannot leave the configuration directory or hide there:
  it is not empty, holds no path separator or other reserved character, has the \<open>.json\<close> extension,
  is no backup name, and has no blanks around it, so that the marker file names it exactly.\<close>

theorem config_name_plain:
  assumes "normalizeConfigFileName raw = Inr n"
  shows "n \<noteq> [] \<and> list_all (\<lambda>c. \<not> forbidden_char c) n \<and> IsConfigFileName n \<and> TrimSpace n = n"
  using normalized_plain [OF assms] unfolding plain_config_name_def .

theorem config_name_plain_witness:
  "normalizeConfigFileName '' home.JSON '' = Inr ''home.json'' \<and> IsConfigFileName ''home.json''"
proof -
  have n: "normalizeConfigFileName '' home.JSON '' = Inr ''home.json''" by code_simp
  with config_name_plain [OF n] show ?thesis by blast
qed

section \<open>Facts about applying\<close>

lemma marker_no_config: "\<not> IsConfigFileName active_marker"
  by code_simp

lemma marked_after_write:
  assumes "plain_config_name n" and "has_key (files st) n"
  shows "ActiveConfigPath (st\<lparr>files := map_put active_marker n (files st)\<rparr>) = Some n"
proof -
  have "n \<noteq> active_marker" using assms(1) marker_no_config by (auto simp: plain_config_name_def)
  moreover have "CHR ''/'' \<notin> set n" using assms(1) by (auto simp: plain_config_name_def list_all_iff forbidden_char_def)
  ultimately show ?thesis using assms
    by (simp add: ActiveConfigPath_def marked_config_def plain_config_name_def)
qed

lemma marked_some: "marked_config st = Some n \<Longrightarrow> IsConfigFileName n \<and> has_key (files st) n"
  by (auto simp: marked_config_def Let_def split: option.split_asm if_split_asm)

lemma active_is_config: "ActiveConfigPath st = Some n \<Longrightarrow> IsConfigFileName n \<and> has_key (files st) n"
proof -
  assume a: "ActiveConfigPath st = Some n"
  show ?thesis
  proof (cases "marked_config st")
    case None
    let ?c = "filter IsConfigFileName (map fst (files st))"
    have "hd (sort ?c) \<in> set ?c" if "?c \<noteq> []"
      using hd_in_set [of "sort ?c"] that by (metis length_0_conv length_sort set_sort)
    with None a have "n \<in> set ?c" unfolding ActiveConfigPath_def Let_def by (simp split: if_split_asm)
    then show ?thesis by (auto simp: has_key_iff)
  next
    case (Some m)
    with a marked_some show ?thesis by (simp add: ActiveConfigPath_def)
  qed
qed

text \<open>The names of the directory's configuration files have no blanks around them and no slash.\<close>

definition well_named :: "config_store \<Rightarrow> bool" where
  "well_named st \<longleftrightarrow> list_all (\<lambda>n. IsConfigFileName n \<longrightarrow> plain_config_name n) (map fst (files st))"

lemma default_plain: "plain_config_name default_config"
  by code_simp

lemma active_plain: "well_named st \<Longrightarrow> ActiveConfigPath st = Some n \<Longrightarrow> plain_config_name n"
  using active_is_config [of st n] by (auto simp: well_named_def list_all_iff has_key_iff)

lemma target_plain:
  "well_named st \<Longrightarrow> fileName = [] \<or> plain_config_name fileName \<Longrightarrow> plain_config_name (apply_target fileName st)"
  by (auto simp: apply_target_def default_plain active_plain split: option.split)

lemma plain_not_marker: "plain_config_name n \<Longrightarrow> n \<noteq> active_marker"
  using marker_no_config by (auto simp: plain_config_name_def)

lemma map_put_names: "set (map fst (map_put k v al)) = insert k (set (map fst al))"
  using fst_map_put [of k v al] by (simp only: set_map)

lemma well_named_put: "well_named st \<Longrightarrow> plain_config_name n \<Longrightarrow> well_named (st\<lparr>files := map_put n c (files st)\<rparr>)"
  unfolding well_named_def list_all_iff by (simp del: set_map add: map_put_names)

lemma well_named_marker: "well_named st \<Longrightarrow> well_named (st\<lparr>files := map_put active_marker c (files st)\<rparr>)"
  using marker_no_config unfolding well_named_def list_all_iff
  by (simp del: set_map add: map_put_names)

lemma active_tmp [simp]: "ActiveConfigPath (st\<lparr>tmp_config := t\<rparr>) = ActiveConfigPath st"
  by (simp add: ActiveConfigPath_def marked_config_def Let_def cong: if_cong option.case_cong)

lemma content_tmp [simp]: "active_content (st\<lparr>tmp_config := t\<rparr>) = active_content st"
  by (simp add: active_content_def)

lemma well_named_tmp [simp]: "well_named (st\<lparr>tmp_config := t\<rparr>) = well_named st"
  by (simp add: well_named_def)

text \<open>Writing one configuration file leaves the old active file active, or makes the written one active.\<close>

lemma hd_sort_Min:
  fixes xs :: "string list"
  assumes "xs \<noteq> []"
  shows "hd (sort xs) = Min (set xs)"
proof -
  obtain y ys where s: "sort xs = y # ys" using assms by (metis length_0_conv length_sort list.exhaust)
  then have "set xs = insert y (set ys)" by (metis list.simps(15) set_sort)
  moreover have "\<forall>z\<in>set ys. y \<le> z" using sorted_sort [of xs] by (simp add: s)
  ultimately have "Min (set xs) = y" by (intro Min_eqI) auto
  then show ?thesis by (simp add: s)
qed

lemma active_after_put:
  assumes "plain_config_name n"
  shows "ActiveConfigPath (st\<lparr>files := map_put n c (files st)\<rparr>) \<in> {Some n, ActiveConfigPath st}"
proof -
  let ?st = "st\<lparr>files := map_put n c (files st)\<rparr>"
  have nm: "map_of (files ?st) active_marker = map_of (files st) active_marker"
    using plain_not_marker [OF assms] by simp
  show ?thesis
  proof (cases "marked_config ?st = marked_config st")
    case False
    then have "marked_config ?st = Some n"
      unfolding marked_config_def nm by (auto simp: Let_def split: option.split_asm if_split_asm)
    then show ?thesis by (simp add: ActiveConfigPath_def)
  next
    case True
    let ?c = "filter IsConfigFileName (map fst (files st))"
    let ?c' = "filter IsConfigFileName (map fst (files ?st))"
    have c': "set ?c' = insert n (set ?c)"
      using assms by (auto simp: plain_config_name_def map_put_names simp del: set_map)
    then have ne: "?c' \<noteq> []" by (metis empty_set insert_not_empty)
    have min: "hd (sort ?c') = n \<or> ?c \<noteq> [] \<and> hd (sort ?c') = hd (sort ?c)"
    proof (cases "?c = []")
      case True
      with c' ne show ?thesis by (simp add: hd_sort_Min)
    next
      case False
      have "Min (insert n (set ?c)) = min n (Min (set ?c))"
        using False by (intro Min_insert) (simp_all only: finite_set set_empty not_False_eq_True)
      with False ne c' show ?thesis by (auto simp: hd_sort_Min min_def)
    qed
    show ?thesis
    proof (cases "marked_config st")
      case None
      then have a: "ActiveConfigPath ?st = (if default_config \<in> set ?c' then Some default_config else Some (hd (sort ?c')))"
        and b: "ActiveConfigPath st = (if ?c = [] then None else if default_config \<in> set ?c then Some default_config else Some (hd (sort ?c)))"
        using True ne by (simp_all only: ActiveConfigPath_def Let_def option.case if_False)
      show ?thesis unfolding a b using min c' by (cases "?c = []") auto
    next
      case (Some m)
      with True show ?thesis by (simp add: ActiveConfigPath_def)
    qed
  qed
qed

lemma content_after_put:
  assumes "plain_config_name n"
  shows "active_content (st\<lparr>files := map_put n c (files st)\<rparr>) \<in> {Some c, active_content st}"
proof (cases "ActiveConfigPath (st\<lparr>files := map_put n c (files st)\<rparr>) = Some n")
  case True
  then show ?thesis by (simp add: active_content_def)
next
  case False
  with active_after_put [OF assms, where st = st and c = c]
  have "ActiveConfigPath (st\<lparr>files := map_put n c (files st)\<rparr>) = ActiveConfigPath st" by auto
  with False show ?thesis by (cases "ActiveConfigPath st") (auto simp: active_content_def)
qed

lemma apply_cases:
  assumes "applyConfigFileLocked check io fileName st = (st', e)"
  obtains (unchanged) "st' = st" "e \<noteq> None" "e \<noteq> Some MarkerFailed"
  | (unmarked) g where "tmp_config st = Some g" "check g" "e = Some MarkerFailed"
      "st' = st\<lparr>files := map_put (apply_target fileName st) g (files st)\<rparr>"
  | (applied) g t where "tmp_config st = Some g" "check g" "e = None"
      "st' = st\<lparr>files := map_put active_marker (apply_target fileName st) (map_put (apply_target fileName st) g (files st)), tmp_config := t\<rparr>"
proof -
  note d = assms [unfolded applyConfigFileLocked_def writeActiveConfigMarker_def Let_def]
  show ?thesis
  proof (cases "st' = st \<and> e \<noteq> None \<and> e \<noteq> Some MarkerFailed")
    case True
    then show ?thesis by (intro unchanged) auto
  next
    case False
    with d obtain g where g: "tmp_config st = Some g" "check g"
      and r: "(if marker_ok io then (if remove_ok io then st\<lparr>files := map_put active_marker (apply_target fileName st) (map_put (apply_target fileName st) g (files st)), tmp_config := None\<rparr>
             else st\<lparr>files := map_put active_marker (apply_target fileName st) (map_put (apply_target fileName st) g (files st))\<rparr>, None)
           else (st\<lparr>files := map_put (apply_target fileName st) g (files st)\<rparr>, Some MarkerFailed)) = (st', e)"
      by (auto split: if_split_asm option.split_asm)
    show ?thesis
    proof (cases "marker_ok io")
      case False
      with g r show ?thesis by (intro unmarked) auto
    next
      case True
      with g r show ?thesis by (intro applied [of g "tmp_config st'"]) (auto split: if_split_asm)
    qed
  qed
qed

lemma applied_active:
  assumes "plain_config_name n"
  shows "ActiveConfigPath (st\<lparr>files := map_put active_marker n (map_put n g (files st)), tmp_config := t\<rparr>) = Some n"
    and "active_content (st\<lparr>files := map_put active_marker n (map_put n g (files st)), tmp_config := t\<rparr>) = Some g"
proof -
  show a: "ActiveConfigPath (st\<lparr>files := map_put active_marker n (map_put n g (files st)), tmp_config := t\<rparr>) = Some n"
    using marked_after_write [OF assms, of "st\<lparr>files := map_put n g (files st)\<rparr>"]
    by (simp add: has_key_iff fst_map_put)
  show "active_content (st\<lparr>files := map_put active_marker n (map_put n g (files st)), tmp_config := t\<rparr>) = Some g"
    using a plain_not_marker [OF assms] by (simp add: active_content_def)
qed

lemma well_named_applied:
  "well_named st \<Longrightarrow> plain_config_name n \<Longrightarrow>
   well_named (st\<lparr>files := map_put active_marker n (map_put n g (files st)), tmp_config := t\<rparr>)"
  using well_named_marker [of "st\<lparr>files := map_put n g (files st)\<rparr>" n] well_named_put [of st n g]
  by (simp add: well_named_def)

text \<open>C13. Applying a generated configuration replaces the active one only by a text that
  \<^verbatim>\<open>sing-box check\<close> accepted, and only whole: when it reports success, the target file is the
  active one and holds the generated text; when it reports an error, nothing changed, except that a
  failed marker leaves the old text or the checked new one active.  No other file is touched.\<close>

theorem config_apply_atomic:
  assumes "well_named st" and "fileName = [] \<or> plain_config_name fileName"
    and "applyConfigFileLocked check io fileName st = (st', e)"
  shows "(case e of
            None \<Rightarrow> ActiveConfigPath st' = Some (apply_target fileName st) \<and> active_content st' = tmp_config st \<and>
                    pred_option check (active_content st') \<and> active_content st' \<noteq> None
          | Some MarkerFailed \<Rightarrow>
              active_content st' = active_content st \<or>
              active_content st' = tmp_config st \<and> pred_option check (tmp_config st)
          | Some err \<Rightarrow> st' = st) \<and>
         (\<forall>n. n = apply_target fileName st \<or> n = active_marker \<or> map_of (files st') n = map_of (files st) n) \<and>
         well_named st'"
  using assms(3)
proof (cases rule: apply_cases)
  case unchanged
  then show ?thesis using assms(1) by (auto split: option.split apply_error.split)
next
  case (unmarked g)
  have p: "plain_config_name (apply_target fileName st)" using assms(1,2) by (rule target_plain)
  show ?thesis using unmarked content_after_put [OF p, where st = st and c = g] well_named_put [OF assms(1) p]
    by auto
next
  case (applied g t)
  have p: "plain_config_name (apply_target fileName st)" using assms(1,2) by (rule target_plain)
  show ?thesis using applied applied_active [OF p] well_named_applied [OF assms(1) p]
    by simp
qed

definition sample_store :: config_store where
  "sample_store = \<lparr>files = [(''config.json'', ''{}''), (''.active-config'', ''config.json'')], tmp_config = Some ''{1}''\<rparr>"

definition sample_io :: apply_io where
  "sample_io = \<lparr>mkdir_ok = True, active_ok = True, stage_ok = True, backup_ok = True, stat_ok = True,
     replace_ok = True, marker_ok = True, remove_ok = True\<rparr>"

theorem config_apply_atomic_witness:
  "active_content (fst (applyConfigFileLocked (\<lambda>s. s \<noteq> []) sample_io [] sample_store)) = Some ''{1}''"
proof -
  have w: "well_named sample_store" by code_simp
  have r: "applyConfigFileLocked (\<lambda>s. s \<noteq> []) sample_io [] sample_store
      = (fst (applyConfigFileLocked (\<lambda>s. s \<noteq> []) sample_io [] sample_store), None)"
    by code_simp
  have "tmp_config sample_store = Some ''{1}''" by code_simp
  with config_apply_atomic [OF w disjI1 [OF refl] r] show ?thesis by simp
qed

section \<open>Reconciling refines its specification\<close>

text \<open>
  The contract of a reconcile run on the text that is active, the only part the core reads: the
  generator decides the desired text, and the run reports success exactly when that text is active.
  A failed run leaves the old text, or the desired one when it passed the check.
\<close>

fun reconcile_spec :: "(string \<Rightarrow> bool) \<Rightarrow> generation \<Rightarrow> string option \<Rightarrow> string option \<Rightarrow> reconcile_result \<Rightarrow> bool" where
  "reconcile_spec check GenerationFailed a a' r \<longleftrightarrow> r = GeneratorFailed \<and> a' = a"
| "reconcile_spec check (Generated json valid) a a' r \<longleftrightarrow>
     (if \<not> valid then r = NotValid \<and> a' = a
      else case r of
        Reconciled \<Rightarrow> a' = Some json \<and> (a = Some json \<or> check json)
      | CallbackFailed \<Rightarrow> a' = Some json \<and> (a = Some json \<or> check json)
      | CompareFailed \<Rightarrow> a' = a
      | ReconcileError MarkerFailed \<Rightarrow> a \<noteq> Some json \<and> check json \<and> (a' = a \<or> a' = Some json)
      | ReconcileError e \<Rightarrow> a \<noteq> Some json \<and> a' = a
      | _ \<Rightarrow> False)"

lemma matches_active:
  assumes "generatedConfigMatchesActive ok (st\<lparr>tmp_config := Some json\<rparr>) = Some b"
  shows "b \<longleftrightarrow> active_content st = Some json"
  using assms by (auto simp: generatedConfigMatchesActive_def active_content_def split: if_split_asm option.split_asm)

text \<open>C11. Reconciling refines its specification: whatever the environment does, what the run leaves active
  and what it reports obey the contract on the active text, the directory keeps its invariant, and
  the generated file is gone when it could be removed.\<close>

theorem reconcile_refines:
  assumes "well_named st"
    and "ReconcileCurrentWithCallback check io compare_ok afterApply gen st = (st', r)"
  shows "reconcile_spec check gen (active_content st) (active_content st') r \<and> well_named st' \<and>
         (if remove_ok io then tmp_config st' = None else True)"
proof (cases gen)
  case GenerationFailed
  with assms show ?thesis by (auto simp: ReconcileCurrentWithCallback_def discardGeneratedConfig_def)
next
  case (Generated json valid)
  let ?st1 = "st\<lparr>tmp_config := Some json\<rparr>"
  have w1: "well_named ?st1" using assms(1) by simp
  note d = assms(2) [unfolded ReconcileCurrentWithCallback_def Generated generation.case Let_def]
  show ?thesis
  proof (cases "valid \<and> generatedConfigMatchesActive compare_ok ?st1 = Some False")
    case False
    with d Generated assms(1) matches_active [of compare_ok json st] show ?thesis
      by (auto simp: discardGeneratedConfig_def split: option.split_asm bool.split_asm if_split_asm)
  next
    case True
    obtain st2 e where a: "applyConfigFileLocked check io [] ?st1 = (st2, e)" by fastforce
    have ne: "active_content st \<noteq> Some json" using matches_active [of compare_ok json st False] True by simp
    have st': "st' = discardGeneratedConfig (remove_ok io) st2"
      and r: "r = (case e of Some e \<Rightarrow> ReconcileError e | None \<Rightarrow> if afterApply = Some False then CallbackFailed else Reconciled)"
      using d True by (auto simp: a split: option.split_asm)
    have p: "plain_config_name (apply_target [] ?st1)" by (rule target_plain [OF w1]) simp
    have "reconcile_spec check gen (active_content st) (active_content st2) r \<and> well_named st2"
      using a
    proof (cases rule: apply_cases)
      case unchanged
      then show ?thesis using True ne r w1 by (auto simp: Generated split: apply_error.split)
    next
      case (unmarked g)
      then show ?thesis using True ne r well_named_put [OF w1 p] content_after_put [OF p, where st = "?st1" and c = g]
        by (auto simp: Generated)
    next
      case (applied g t)
      then show ?thesis using True r well_named_applied [OF w1 p] applied_active(2) [OF p, where st = "?st1"]
        by (auto simp: Generated)
    qed
    then show ?thesis by (simp add: st' discardGeneratedConfig_def)
  qed
qed

theorem reconcile_refines_witness:
  "reconcile_spec (\<lambda>s. s \<noteq> []) (Generated ''{2}'' True) (Some ''{}'')
     (active_content (fst (ReconcileCurrentWithCallback (\<lambda>s. s \<noteq> []) sample_io True None (Generated ''{2}'' True) sample_store)))
     Reconciled"
proof -
  have w: "well_named sample_store" by code_simp
  have r: "ReconcileCurrentWithCallback (\<lambda>s. s \<noteq> []) sample_io True None (Generated ''{2}'' True) sample_store
      = (fst (ReconcileCurrentWithCallback (\<lambda>s. s \<noteq> []) sample_io True None (Generated ''{2}'' True) sample_store), Reconciled)"
    by code_simp
  have "active_content sample_store = Some ''{}''" by code_simp
  with reconcile_refines [OF w r] show ?thesis by simp
qed

end
