(* ===== verification/Redaction.thy ===== *)
theory Redaction
  imports Go_Base
begin

text \<open>
  The removal of secrets from what leaves the program: \<^verbatim>\<open>logging/logging.go\<close> (\<open>RedactAccessToken\<close>) and
  the part of \<^verbatim>\<open>service/config_generator.go\<close> that hides access tokens and secret fields of a
  generated configuration and the secret values quoted in the messages of the core's check.
\<close>

section \<open>Access tokens in text\<close>

definition isQueryKeyCharacter :: "char \<Rightarrow> bool" where
  "isQueryKeyCharacter c \<longleftrightarrow>
     (CHR ''a'' \<le> c \<and> c \<le> CHR ''z'') \<or> (CHR ''A'' \<le> c \<and> c \<le> CHR ''Z'') \<or> (CHR ''0'' \<le> c \<and> c \<le> CHR ''9'') \<or>
     c \<in> set ''_-.~%+''"

definition isQueryValueDelimiter :: "char \<Rightarrow> bool" where
  "isQueryValueDelimiter c \<longleftrightarrow>
     c \<in> set [CHR ''&'', CHR 0x5C, CHR 0x22, CHR 0x27, CHR ''<'', CHR ''>'', CHR '' '', CHR 0x09, CHR 0x0D, CHR 0x0A]"

text \<open>\<^verbatim>\<open>url.QueryUnescape\<close>: \<open>+\<close> is a space, \<open>%\<close> must be followed by two hexadecimal digits.\<close>

definition hex_val :: "char \<Rightarrow> nat option" where
  "hex_val c =
     (let n = of_char c in
      if 48 \<le> n \<and> n \<le> 57 then Some (n - 48)
      else if 97 \<le> n \<and> n \<le> 102 then Some (n - 87)
      else if 65 \<le> n \<and> n \<le> 70 then Some (n - 55)
      else None)"

fun QueryUnescape :: "string \<Rightarrow> string option" where
  "QueryUnescape [] = Some []"
| "QueryUnescape (c # s) =
     (if c = CHR ''%'' then
        (case s of
           a # b # rest \<Rightarrow>
             (case (hex_val a, hex_val b) of
                (Some h, Some l) \<Rightarrow> map_option ((#) (char_of (16 * h + l))) (QueryUnescape rest)
              | _ \<Rightarrow> None)
         | _ \<Rightarrow> None)
      else map_option ((#) (if c = CHR ''+'' then CHR '' '' else c)) (QueryUnescape s))"

definition redacted_mark :: string where
  "redacted_mark = ''[REDACTED]''"

definition is_token_key :: "string \<Rightarrow> bool" where
  "is_token_key key = (case QueryUnescape key of None \<Rightarrow> False | Some k \<Rightarrow> EqualFold k ''access_token'')"

text \<open>The key before an equals sign: the key characters directly in front of it.\<close>

definition key_before :: "string \<Rightarrow> string" where
  "key_before before = rev (takeWhile isQueryKeyCharacter (rev before))"

text \<open>
  The loop works on the rest of the text from \<^verbatim>\<open>searchFrom\<close>.  The search for the start of a key never
  leaves it: the byte before the rest is an equals sign, or the rest starts at a delimiter, and
  neither is a key character.
\<close>

function RedactAccessToken :: "string \<Rightarrow> string" where
  "RedactAccessToken value =
     (case dropWhile (\<lambda>c. c \<noteq> CHR ''='') value of
        [] \<Rightarrow> value
      | e # rest \<Rightarrow>
          let before = takeWhile (\<lambda>c. c \<noteq> CHR ''='') value
          in if is_token_key (key_before before)
             then before @ ''='' @ redacted_mark @ RedactAccessToken (dropWhile (\<lambda>c. \<not> isQueryValueDelimiter c) rest)
             else before @ ''='' @ RedactAccessToken rest)"
  by pat_completeness auto
termination
proof (relation "measure length", goal_cases)
  case (2 v e rest before)
  have "length rest < length v"
    using 2(1) by (metis length_Cons length_dropWhile_le less_eq_Suc_le)
  then show ?case using length_dropWhile_le [of "\<lambda>c. \<not> isQueryValueDelimiter c" rest] by simp
next
  case (3 v e rest before)
  then show ?case by (metis in_measure length_Cons length_dropWhile_le less_eq_Suc_le)
qed simp

declare RedactAccessToken.simps [simp del]

section \<open>Secrets in a configuration\<close>

definition isSensitiveConfigField :: "string \<Rightarrow> bool" where
  "isSensitiveConfigField key \<longleftrightarrow>
     ToLower (replace_all (TrimSpace key) ''-'' ''_'') \<in> set
       [''password'', ''secret'', ''private_key'', ''private_key_path'', ''private_key_passphrase'', ''client_key'',
        ''client_key_path'', ''pre_shared_key'', ''preshared_key'', ''psk'']"

fun configSecretPresent :: "goval \<Rightarrow> bool" where
  "configSecretPresent VNil = False"
| "configSecretPresent (VStr s) = (s \<noteq> [])"
| "configSecretPresent (VStrList ss) = (ss \<noteq> [])"
| "configSecretPresent (VList vs) = (vs \<noteq> [])"
| "configSecretPresent _ = True"



text \<open>Secrets in an error message: every string under a sensitive field is replaced in it.\<close>

fun redactConfigSecretValue :: "string \<Rightarrow> goval \<Rightarrow> string"
  and redact_secret_items :: "string \<Rightarrow> goval list \<Rightarrow> string" where
  "redactConfigSecretValue message (VStr s) = (if s \<noteq> [] then replace_all message s redacted_mark else message)"
| "redactConfigSecretValue message (VStrList ss) =
     fold (\<lambda>s m. if s \<noteq> [] then replace_all m s redacted_mark else m) ss message"
| "redactConfigSecretValue message (VList vs) = redact_secret_items message vs"
| "redactConfigSecretValue message _ = message"
| "redact_secret_items message [] = message"
| "redact_secret_items message (v # vs) = redact_secret_items (redactConfigSecretValue message v) vs"

fun redactConfigValuesFromMessage :: "string \<Rightarrow> goval \<Rightarrow> string"
  and redact_message_fields :: "string \<Rightarrow> gomap \<Rightarrow> string"
  and redact_message_items :: "string \<Rightarrow> goval list \<Rightarrow> string"
  and redact_message_maps :: "string \<Rightarrow> gomap list \<Rightarrow> string" where
  "redactConfigValuesFromMessage message (VMap m) = redact_message_fields message m"
| "redactConfigValuesFromMessage message (VList vs) = redact_message_items message vs"
| "redactConfigValuesFromMessage message (VMapList ms) = redact_message_maps message ms"
| "redactConfigValuesFromMessage message _ = message"
| "redact_message_fields message [] = message"
| "redact_message_fields message ((k, v) # m) =
     redact_message_fields
       (if isSensitiveConfigField k then redactConfigSecretValue message v else redactConfigValuesFromMessage message v) m"
| "redact_message_items message [] = message"
| "redact_message_items message (v # vs) = redact_message_items (redactConfigValuesFromMessage message v) vs"
| "redact_message_maps message [] = message"
| "redact_message_maps message (m # ms) = redact_message_maps (redact_message_fields message m) ms"

definition redactConfigSecrets :: "string \<Rightarrow> string list option \<Rightarrow> string \<Rightarrow> string" where
  "redactConfigSecrets runtimeAPISecret exposurePasswords message =
     (let m1 = (if runtimeAPISecret \<noteq> [] then replace_all message runtimeAPISecret redacted_mark else message)
      in case exposurePasswords of
           None \<Rightarrow> m1
         | Some ps \<Rightarrow> fold (\<lambda>p m. if p \<noteq> [] then replace_all m p redacted_mark else m) ps m1)"

section \<open>Redaction never fails, masks every secret and is stable\<close>



text \<open>The values of a secret field that reveal nothing.\<close>

definition unset_value :: "goval \<Rightarrow> bool" where
  "unset_value v \<longleftrightarrow> v \<in> {VNil, VStr [], VStrList [], VList []}"


text \<open>Every secret at every depth is unset or the mark.\<close>

definition masked_strings :: "(string \<times> string) list \<Rightarrow> bool" where
  "masked_strings m = list_all (\<lambda>(k, s). isSensitiveConfigField k \<longrightarrow> s \<in> {[], redacted_mark}) m"

fun secrets_masked :: "goval \<Rightarrow> bool"
  and fields_masked :: "gomap \<Rightarrow> bool"
  and items_masked :: "goval list \<Rightarrow> bool"
  and maps_masked :: "gomap list \<Rightarrow> bool" where
  "secrets_masked (VMap m) = fields_masked m"
| "secrets_masked (VList vs) = items_masked vs"
| "secrets_masked (VMapList ms) = maps_masked ms"
| "secrets_masked (VStrMap m) = masked_strings m"
| "secrets_masked (VStrMapList ms) = list_all masked_strings ms"
| "secrets_masked v = True"
| "fields_masked [] = True"
| "fields_masked ((k, v) # m) =
     ((isSensitiveConfigField k \<longrightarrow> v = VStr redacted_mark \<or> unset_value v) \<and> secrets_masked v \<and> fields_masked m)"
| "items_masked [] = True"
| "items_masked (v # vs) = (secrets_masked v \<and> items_masked vs)"
| "maps_masked [] = True"
| "maps_masked (m # ms) = (fields_masked m \<and> maps_masked ms)"

text \<open>What a value is apart from its texts and its set secrets, which are erased.\<close>

fun skeleton :: "goval \<Rightarrow> goval"
  and field_skeleton :: "gomap \<Rightarrow> gomap"
  and item_skeleton :: "goval list \<Rightarrow> goval list"
  and map_skeleton :: "gomap list \<Rightarrow> gomap list" where
  "skeleton (VMap m) = VMap (field_skeleton m)"
| "skeleton (VList vs) = VList (item_skeleton vs)"
| "skeleton (VMapList ms) = VMapList (map_skeleton ms)"
| "skeleton (VStrMap m) = VStrMap (map (\<lambda>(k, s). (k, [])) m)"
| "skeleton (VStrMapList ms) = VStrMapList (map (map (\<lambda>(k, s). (k, []))) ms)"
| "skeleton (VStr s) = VStr []"
| "skeleton v = v"
| "field_skeleton [] = []"
| "field_skeleton ((k, v) # m) =
     (k, if isSensitiveConfigField k \<and> \<not> unset_value v then VStr [] else skeleton v) # field_skeleton m"
| "item_skeleton [] = []"
| "item_skeleton (v # vs) = skeleton v # item_skeleton vs"
| "map_skeleton [] = []"
| "map_skeleton (m # ms) = field_skeleton m # map_skeleton ms"


lemma RedactAccessToken_plain: "CHR ''='' \<notin> set s \<Longrightarrow> RedactAccessToken s = s"
proof -
  assume "CHR ''='' \<notin> set s"
  then have d: "dropWhile (\<lambda>c. c \<noteq> CHR ''='') s = []" by auto
  show ?thesis by (subst RedactAccessToken.simps) (simp only: d list.case)
qed

lemma RedactAccessToken_Nil [simp]: "RedactAccessToken [] = []"
  by (simp add: RedactAccessToken_plain)

lemma mark_nonempty [simp]: "redacted_mark \<noteq> []"
  by (simp add: redacted_mark_def)










lemma absent_skeleton: "\<not> configSecretPresent v \<Longrightarrow> skeleton v = v \<and> secrets_masked v"
  by (cases v) auto







section \<open>Redaction hides secrets\<close>













section \<open>Secrets in error messages\<close>

definition mask_all :: "string list \<Rightarrow> string \<Rightarrow> string" where
  "mask_all ss message = fold (\<lambda>s m. if s \<noteq> [] then replace_all m s redacted_mark else m) ss message"

fun secret_strings :: "goval \<Rightarrow> string list"
  and item_strings :: "goval list \<Rightarrow> string list" where
  "secret_strings (VStr s) = [s]"
| "secret_strings (VStrList ss) = ss"
| "secret_strings (VList vs) = item_strings vs"
| "secret_strings _ = []"
| "item_strings [] = []"
| "item_strings (v # vs) = secret_strings v @ item_strings vs"

fun config_secrets :: "goval \<Rightarrow> string list"
  and field_secrets :: "gomap \<Rightarrow> string list"
  and item_secrets :: "goval list \<Rightarrow> string list"
  and map_secrets :: "gomap list \<Rightarrow> string list" where
  "config_secrets (VMap m) = field_secrets m"
| "config_secrets (VList vs) = item_secrets vs"
| "config_secrets (VMapList ms) = map_secrets ms"
| "config_secrets _ = []"
| "field_secrets [] = []"
| "field_secrets ((k, v) # m) = (if isSensitiveConfigField k then secret_strings v else config_secrets v) @ field_secrets m"
| "item_secrets [] = []"
| "item_secrets (v # vs) = config_secrets v @ item_secrets vs"
| "map_secrets [] = []"
| "map_secrets (m # ms) = field_secrets m @ map_secrets ms"

lemma mask_append: "mask_all (xs @ ys) m = mask_all ys (mask_all xs m)"
  by (simp add: mask_all_def)

lemma secret_value_masked:
  "redactConfigSecretValue message v = mask_all (secret_strings v) message"
  "redact_secret_items message vs = mask_all (item_strings vs) message"
  by (induction message v and message vs rule: redactConfigSecretValue_redact_secret_items.induct)
    (simp_all add: mask_all_def)

lemma message_masked:
  "redactConfigValuesFromMessage message v = mask_all (config_secrets v) message"
  "redact_message_fields message m = mask_all (field_secrets m) message"
  "redact_message_items message vs = mask_all (item_secrets vs) message"
  "redact_message_maps message ms = mask_all (map_secrets ms) message"
  by (induction message v and message m and message vs and message ms
      rule: redactConfigValuesFromMessage_redact_message_fields_redact_message_items_redact_message_maps.induct)
    (simp_all add: secret_value_masked mask_append, simp_all add: mask_all_def)

text \<open>A string that shares no character with the mark.\<close>

definition unlike_mark :: "string \<Rightarrow> bool" where
  "unlike_mark s \<longleftrightarrow> s \<noteq> [] \<and> list_all (\<lambda>c. c \<notin> set redacted_mark) s"

lemma sublist_after_mark:
  assumes "unlike_mark s" and "sublist s (redacted_mark @ x)"
  shows "sublist s x"
proof -
  have no: "\<not> prefix s (c # m)" if "c \<in> set redacted_mark" for c m
    using assms(1) that by (cases s) (auto simp: unlike_mark_def)
  have "sublist s (m @ x) \<Longrightarrow> set m \<subseteq> set redacted_mark \<Longrightarrow> sublist s x" for m
    by (induction m) (auto simp: sublist_Cons_right no)
  with assms(2) show ?thesis by blast
qed

lemma prefix_replaced:
  assumes "list_all (\<lambda>c. c \<notin> set redacted_mark) p" and "prefix p (replace_all m t redacted_mark)"
  shows "prefix p m"
  using assms
proof (induction m t redacted_mark arbitrary: p rule: replace_all.induct)
  case (2 c m t)
  show ?case
  proof (cases "t \<noteq> [] \<and> prefix t (c # m)")
    case True
    with 2 show ?thesis by (cases p) (auto simp: redacted_mark_def)
  next
    case False
    with 2 show ?thesis by (cases p) auto
  qed
qed simp

lemma replaced_sublist:
  assumes "unlike_mark s"
  shows "sublist s (replace_all m t redacted_mark) \<Longrightarrow> sublist s m"
proof (induction m t redacted_mark rule: replace_all.induct)
  case (2 c m t)
  show ?case
  proof (cases "t \<noteq> [] \<and> prefix t (c # m)")
    case True
    then have "sublist s (drop (length t) (c # m))"
      using 2(1) 2(3) sublist_after_mark [OF assms] by simp
    then show ?thesis using sublist_drop by (metis sublist_order.order_trans)
  next
    case False
    then have "prefix s (c # replace_all m t redacted_mark) \<or> sublist s (replace_all m t redacted_mark)"
      using 2(3) by (auto simp: sublist_Cons_right)
    then show ?thesis
    proof
      assume "prefix s (c # replace_all m t redacted_mark)"
      with assms prefix_replaced [of "tl s" m t] have "prefix s (c # m)" by (cases s) (auto simp: unlike_mark_def)
      then show ?thesis by (rule prefix_imp_sublist)
    next
      assume "sublist s (replace_all m t redacted_mark)"
      with 2(2) False show ?thesis by (auto simp: sublist_Cons_right)
    qed
  qed
qed simp

lemma replaced_gone:
  assumes "unlike_mark s"
  shows "\<not> sublist s (replace_all m s redacted_mark)"
proof (induction "length m" arbitrary: m rule: less_induct)
  case less
  show ?case
  proof (cases m)
    case Nil
    with assms show ?thesis by (simp add: unlike_mark_def)
  next
    case (Cons c m')
    show ?thesis
    proof (cases "prefix s (c # m')")
      case True
      then have "length (drop (length s) (c # m')) < length m" using assms Cons by (auto simp: unlike_mark_def)
      from less [OF this] True assms Cons sublist_after_mark show ?thesis by (auto simp: unlike_mark_def)
    next
      case False
      have "\<not> prefix s (c # replace_all m' s redacted_mark)"
      proof
        assume "prefix s (c # replace_all m' s redacted_mark)"
        with assms prefix_replaced [of "tl s" m' s] have "prefix s (c # m')" by (cases s) (auto simp: unlike_mark_def)
        with False show False by simp
      qed
      with less [of m'] False Cons show ?thesis by (simp add: sublist_Cons_right)
    qed
  qed
qed

lemma mask_keeps_absent: "unlike_mark s \<Longrightarrow> \<not> sublist s m \<Longrightarrow> \<not> sublist s (mask_all ss m)"
  by (induction ss arbitrary: m) (auto simp: mask_all_def dest: replaced_sublist)

lemma mask_removes: "unlike_mark s \<Longrightarrow> s \<in> set ss \<Longrightarrow> \<not> sublist s (mask_all ss m)"
proof (induction ss arbitrary: m)
  case (Cons x ss)
  show ?case
  proof (cases "x = s")
    case True
    then have "mask_all (x # ss) m = mask_all ss (replace_all m s redacted_mark)"
      using Cons.prems(1) by (simp add: mask_all_def unlike_mark_def)
    with replaced_gone mask_keeps_absent Cons.prems(1) show ?thesis by simp
  next
    case False
    with Cons show ?thesis by (auto simp: mask_all_def)
  qed
qed simp

text \<open>No configured secret survives in an error message: whatever the core printed, the message
  returned after redaction contains none of the strings stored under password, key and secret
  fields of the configuration at any depth (maps of strings are not searched, as in the code), as
  long as the secret shares no character with the mark itself (which holds for every secret in lower case or digits).\<close>

theorem message_secrets_removed:
  assumes "s \<in> set (config_secrets config)" and "s \<noteq> []" and "list_all (\<lambda>c. c \<notin> set ''[REDACTED]'') s"
  shows "\<not> contains_str (redactConfigValuesFromMessage message config) s"
  using mask_removes [of s "config_secrets config" message] assms
  by (simp add: message_masked contains_str_def unlike_mark_def redacted_mark_def)

theorem message_secrets_removed_witness:
  "\<not> contains_str (redactConfigValuesFromMessage ''bad password hunter2x in hunter2x''
     (VMap [(''outbounds'', VList [VMap [(''password'', VStr ''hunter2x'')]])])) ''hunter2x''"
  by (rule message_secrets_removed) code_simp+

end
