(* ===== verification/Remote_Path.thy ===== *)
theory Remote_Path
  imports Go_Base
begin

text \<open>
  The paths of remote file operations: \<^verbatim>\<open>path.Clean\<close> and its relatives, \<open>normalizeSFTPPath\<close> of
  \<^verbatim>\<open>service/ssh_sftp.go\<close> and \<open>normalizeMCPPath\<close> of \<^verbatim>\<open>service/ssh_mcp_local.go\<close>.
\<close>

section \<open>Path cleaning\<close>

text \<open>
  \<^verbatim>\<open>path.Clean\<close>, on the elements between the slashes: empty and single-dot elements are dropped, a
  double-dot element takes back the element before it, at the root it is dropped, and at the start of
  a relative path it stays.  The elements kept are held last first.
\<close>

fun clean_step :: "bool \<Rightarrow> string list \<Rightarrow> string \<Rightarrow> string list" where
  "clean_step rooted stack seg =
     (if seg = [] \<or> seg = ''.'' then stack
      else if seg = ''..'' then
        (case stack of
           [] \<Rightarrow> if rooted then [] else [''..'']
         | before # rest \<Rightarrow> if before = ''..'' then ''..'' # stack else rest)
      else seg # stack)"

definition clean_segs :: "bool \<Rightarrow> string list \<Rightarrow> string list" where
  "clean_segs rooted segs = rev (foldl (clean_step rooted) [] segs)"

definition is_rooted :: "string \<Rightarrow> bool" where
  "is_rooted p \<longleftrightarrow> prefix ''/'' p"

definition Clean :: "string \<Rightarrow> string" where
  "Clean p =
     (let body = join_with ''/'' (clean_segs (is_rooted p) (split_char (CHR ''/'') p))
      in if is_rooted p then CHR ''/'' # body else if body = [] then ''.'' else body)"

text \<open>\<^verbatim>\<open>filepath.Dir\<close> and \<^verbatim>\<open>filepath.Join\<close> of two elements, on Unix.\<close>

definition Dir :: "string \<Rightarrow> string" where
  "Dir p = Clean (rev (dropWhile (\<lambda>c. c \<noteq> CHR ''/'') (rev p)))"

definition Join :: "string \<Rightarrow> string \<Rightarrow> string" where
  "Join a b =
     (if a \<noteq> [] then Clean (a @ ''/'' @ b) else if b \<noteq> [] then Clean b else [])"

section \<open>Paths of file operations\<close>

datatype path_error = PathEmpty | PathInvalid | PathIsDirectory | NoHome

definition sshMaximumSFTPPathSize :: nat where
  "sshMaximumSFTPPathSize = 4096"

definition has_line_break :: "string \<Rightarrow> bool" where
  "has_line_break s \<longleftrightarrow> list_ex (\<lambda>c. c \<in> set [CHR 0x00, CHR 0x0D, CHR 0x0A]) s"

definition normalizeSFTPPath :: "string \<Rightarrow> bool \<Rightarrow> path_error + string" where
  "normalizeSFTPPath v allowCurrent =
     (if v = [] then (if allowCurrent then Inr ''.'' else Inl PathEmpty)
      else if sshMaximumSFTPPathSize < length v \<or> has_line_break v then Inl PathInvalid
      else let cleaned = Clean v
           in if \<not> allowCurrent \<and> (cleaned = ''.'' \<or> cleaned = ''/'' \<or> cleaned = ''..'' \<or> prefix ''../'' cleaned)
              then Inl PathIsDirectory
              else Inr cleaned)"

definition SSHMCPLocalHostID :: int where
  "SSHMCPLocalHostID = - 1"

text \<open>\<open>home\<close> is what \<^verbatim>\<open>os.UserHomeDir\<close> returns.\<close>

definition normalizeMCPPath :: "string option \<Rightarrow> int \<Rightarrow> string \<Rightarrow> bool \<Rightarrow> path_error + string" where
  "normalizeMCPPath home hostID v allowCurrent =
     (if hostID \<noteq> SSHMCPLocalHostID then normalizeSFTPPath v allowCurrent
      else
        let t = TrimSpace v in
        if sshMaximumSFTPPathSize < length t \<or> has_line_break t \<or> t = [] \<and> \<not> allowCurrent then Inl PathInvalid
        else
          case (if is_rooted t then Some t else map_option (\<lambda>h. Join h t) home) of
            None \<Rightarrow> Inl NoHome
          | Some p \<Rightarrow>
              let p = Clean p
              in if \<not> allowCurrent \<and> Dir p = p then Inl PathIsDirectory else Inr p)"

section \<open>Facts about cleaning\<close>

text \<open>
  What the stack of elements holds: proper elements, with the double-dot elements only at the bottom
  and, for a rooted path, none.
\<close>

definition plain_seg :: "string \<Rightarrow> bool" where
  "plain_seg s \<longleftrightarrow> s \<noteq> [] \<and> s \<noteq> ''.'' \<and> CHR ''/'' \<notin> set s"

fun clean_stack :: "bool \<Rightarrow> string list \<Rightarrow> bool" where
  "clean_stack rooted [] = True"
| "clean_stack rooted (s # st) \<longleftrightarrow>
     plain_seg s \<and> (s = ''..'' \<longrightarrow> \<not> rooted \<and> list_all (\<lambda>x. x = ''..'') st) \<and> clean_stack rooted st"

lemma clean_step_stack:
  assumes "clean_stack rooted st" and "CHR ''/'' \<notin> set seg"
  shows "clean_stack rooted (clean_step rooted st seg)"
  using assms by (cases st) (auto simp: plain_seg_def)

lemma clean_fold_stack:
  "list_all (\<lambda>x. CHR ''/'' \<notin> set x) segs \<Longrightarrow> clean_stack r st \<Longrightarrow> clean_stack r (foldl (clean_step r) st segs)"
  by (induction segs arbitrary: st) (simp_all add: clean_step_stack del: clean_step.simps)

lemma split_char_free: "list_all (\<lambda>x. sep \<notin> set x) (split_char sep s)"
proof (induction s)
  case (Cons c s)
  then show ?case by (cases "split_char sep s") auto
qed simp

lemma clean_segs_stack: "clean_stack r (rev (clean_segs r (split_char (CHR ''/'') p)))"
  by (simp add: clean_segs_def clean_fold_stack split_char_free)

text \<open>Elements that are already clean are kept as they are.\<close>

lemma clean_step_keeps: "clean_stack r (s # st) \<Longrightarrow> clean_step r st s = s # st"
  by (cases st) (auto simp: plain_seg_def)

lemma clean_stack_append: "clean_stack r (xs @ ys) \<Longrightarrow> clean_stack r ys"
  by (induction xs) auto

lemma clean_fold_keeps: "clean_stack r (rev segs @ st) \<Longrightarrow> foldl (clean_step r) st segs = rev segs @ st"
proof (induction segs arbitrary: st)
  case (Cons s segs)
  then have "clean_stack r (s # st)" using clean_stack_append [of r "rev segs" "s # st"] by simp
  with Cons show ?case by (simp add: clean_step_keeps del: clean_step.simps)
qed simp

lemma clean_segs_keeps: "clean_stack r (rev segs) \<Longrightarrow> clean_segs r segs = segs"
  using clean_fold_keeps [of r segs "[]"] by (simp add: clean_segs_def)

lemma clean_stack_plain: "clean_stack r st \<Longrightarrow> list_all plain_seg st"
  by (induction st) auto

lemma clean_dots_last: "clean_stack r st \<Longrightarrow> ''..'' \<in> set st \<Longrightarrow> last st = ''..''"
proof (induction st)
  case (Cons s st)
  show ?case
  proof (cases "s = ''..''")
    case True
    with Cons.prems(1) have "list_all (\<lambda>x. x = ''..'') st" by simp
    with True show ?thesis using last_in_set [of st] by (auto simp: list_all_iff)
  qed (use Cons in auto)
qed simp

lemma clean_dots_first:
  "clean_stack r (rev segs) \<Longrightarrow> segs \<noteq> [] \<Longrightarrow> hd segs \<noteq> ''..'' \<Longrightarrow> ''..'' \<notin> set segs"
  using clean_dots_last [of r "rev segs"] by (auto simp: last_rev)

text \<open>The elements of a cleaned path, as its text shows them.\<close>

definition path_segs :: "string \<Rightarrow> string list" where
  "path_segs p = clean_segs (is_rooted p) (split_char (CHR ''/'') p)"

lemma plain_segs_split:
  assumes "list_all plain_seg segs"
  shows "split_char (CHR ''/'') (join_with ''/'' segs) = (if segs = [] then [[]] else segs)"
  using assms split_char_join [of segs "CHR ''/''"] by (auto simp: plain_seg_def list_all_iff)

lemma join_plain_head:
  assumes "list_all plain_seg segs"
  shows "\<not> is_rooted (join_with ''/'' segs) \<and> (join_with ''/'' segs = [] \<longleftrightarrow> segs = [])"
proof (cases segs)
  case (Cons s ss)
  then have "s \<noteq> []" "CHR ''/'' \<notin> set s" using assms by (auto simp: plain_seg_def)
  with Cons show ?thesis by (cases ss; cases s) (auto simp: is_rooted_def)
qed (simp add: is_rooted_def)

lemma path_segs_plain: "list_all plain_seg (path_segs p)"
  using clean_stack_plain [OF clean_segs_stack] by (simp add: path_segs_def)

lemma Clean_segs:
  "Clean p = (if is_rooted p then CHR ''/'' # join_with ''/'' (path_segs p)
     else if path_segs p = [] then ''.'' else join_with ''/'' (path_segs p))"
  using join_plain_head [OF path_segs_plain [of p]] unfolding Clean_def path_segs_def [symmetric] Let_def by simp

lemma Clean_rooted [simp]: "is_rooted (Clean p) = is_rooted p"
  using join_plain_head [OF path_segs_plain [of p]] by (simp add: Clean_segs) (simp add: is_rooted_def)

lemma path_segs_Clean: "path_segs (Clean p) = path_segs p"
proof -
  have k: "clean_segs (is_rooted p) (path_segs p) = path_segs p"
    unfolding path_segs_def by (rule clean_segs_keeps, rule clean_segs_stack)
  have e: "clean_segs r ([] # segs) = clean_segs r segs" "clean_segs r [''.''] = []" "clean_segs r [[]] = []" for r segs
    by (simp_all add: clean_segs_def)
  show ?thesis
    using plain_segs_split [OF path_segs_plain [of p]] k e
    by (auto simp: path_segs_def [of "Clean p"]) (auto simp: Clean_segs)
qed

lemma Clean_idem: "Clean (Clean p) = Clean p"
  unfolding Clean_segs [of "Clean p"] Clean_rooted path_segs_Clean by (rule Clean_segs [symmetric])

text \<open>The bytes of a cleaned path come from the path, slashes and dots apart.\<close>

lemma clean_fold_set: "set (foldl (clean_step r) st segs) \<subseteq> insert ''..'' (set st \<union> set segs)"
proof (induction segs arbitrary: st)
  case (Cons s segs)
  have "set (clean_step r st s) \<subseteq> insert ''..'' (insert s (set st))"
    by (auto split: list.splits if_splits)
  with Cons [of "clean_step r st s"] show ?case by (auto simp del: clean_step.simps)
qed auto

lemma split_char_bytes: "\<forall>x\<in>set (split_char sep s). set x \<subseteq> set s"
proof (induction s)
  case (Cons c s)
  then show ?case by (cases "split_char sep s") auto
qed simp

lemma Clean_bytes: "set (Clean p) \<subseteq> insert (CHR ''/'') (insert (CHR ''.'') (set p))"
proof -
  have "set s \<subseteq> insert (CHR ''.'') (set p)" if "s \<in> set (path_segs p)" for s
  proof -
    have "s = ''..'' \<or> s \<in> set (split_char (CHR ''/'') p)"
      using that clean_fold_set [of "is_rooted p" "[]" "split_char (CHR ''/'') p"]
      by (auto simp: path_segs_def clean_segs_def)
    then show ?thesis using split_char_bytes [of "CHR ''/''" p] by auto
  qed
  then have "set (join_with ''/'' (path_segs p)) \<subseteq> insert (CHR ''/'') (insert (CHR ''.'') (set p))"
    using set_join [of "''/''" "path_segs p"] by auto
  then show ?thesis by (auto simp: Clean_segs)
qed

lemma Clean_text: "\<not> has_line_break p \<Longrightarrow> \<not> has_line_break (Clean p)"
  using Clean_bytes [of p] by (auto simp: has_line_break_def list_ex_iff)

lemma Clean_no_dots:
  assumes "Clean p \<noteq> ''..''" and "\<not> prefix ''../'' (Clean p)"
  shows "''..'' \<notin> set (split_char (CHR ''/'') (Clean p))"
proof -
  have st: "clean_stack (is_rooted p) (rev (path_segs p))"
    unfolding path_segs_def by (rule clean_segs_stack)
  have no: "''..'' \<notin> set (path_segs p)"
  proof (cases "is_rooted p")
    case True
    have "clean_stack True s \<Longrightarrow> ''..'' \<notin> set s" for s by (induction s) auto
    with st True show ?thesis by fastforce
  next
    case False
    have "hd (path_segs p) \<noteq> ''..''" if "path_segs p \<noteq> []"
    proof
      assume h: "hd (path_segs p) = ''..''"
      with that obtain r where r: "path_segs p = ''..'' # r" by (metis list.collapse)
      with False assms show False by (cases r) (auto simp: Clean_segs)
    qed
    with clean_dots_first [OF st] show ?thesis by (cases "path_segs p") auto
  qed
  show ?thesis using no plain_segs_split [OF path_segs_plain [of p]] by (auto simp: Clean_segs)
qed

text \<open>C34. A path accepted for changing a remote file is clean and stays below the directory it starts in: no
  element of it is a double dot, it is neither the root nor the current directory, it holds no line
  break or NUL, and cleaning it again changes nothing.\<close>

theorem sftp_path_contained:
  assumes "normalizeSFTPPath v False = Inr p"
  shows "''..'' \<notin> set (split_char (CHR ''/'') p) \<and> p \<noteq> [] \<and> p \<noteq> ''.'' \<and> p \<noteq> ''/'' \<and>
         \<not> has_line_break p \<and> Clean p = p \<and> is_rooted p = is_rooted v"
proof -
  from assms have v: "\<not> has_line_break v" "p = Clean v" "p \<noteq> ''.''" "p \<noteq> ''/''" "p \<noteq> ''..''" "\<not> prefix ''../'' p"
    by (auto simp: normalizeSFTPPath_def Let_def split: if_split_asm)
  moreover have "p \<noteq> []" using join_plain_head [OF path_segs_plain [of v]] v(2) by (auto simp: Clean_segs)
  ultimately show ?thesis using Clean_no_dots [of v] Clean_text [of v] Clean_idem [of v] by simp
qed

theorem sftp_path_contained_witness:
  "normalizeSFTPPath ''/srv//app/../data/./x.bin'' False = Inr ''/srv/data/x.bin'' \<and> Clean ''/srv/data/x.bin'' = ''/srv/data/x.bin''"
proof -
  have n: "normalizeSFTPPath ''/srv//app/../data/./x.bin'' False = Inr ''/srv/data/x.bin''" by code_simp
  with sftp_path_contained [OF n] show ?thesis by blast
qed

end
