(* ===== verification/Sha256.thy ===== *)
theory Sha256
  imports Go_Base "HOL-Library.Word"
begin

text \<open>
  \<^verbatim>\<open>crypto/sha256\<close> as the sources use it: \<open>Sum256\<close> on a byte sequence, in 32-bit words.
\<close>

unbundle bit_operations_syntax

section \<open>SHA-256\<close>

type_synonym w32 = "32 word"

definition sha_k :: "w32 list" where
  "sha_k =
    [1116352408, 1899447441, 3049323471, 3921009573, 961987163, 1508970993,
     2453635748, 2870763221, 3624381080, 310598401, 607225278, 1426881987,
     1925078388, 2162078206, 2614888103, 3248222580, 3835390401, 4022224774,
     264347078, 604807628, 770255983, 1249150122, 1555081692, 1996064986,
     2554220882, 2821834349, 2952996808, 3210313671, 3336571891, 3584528711,
     113926993, 338241895, 666307205, 773529912, 1294757372, 1396182291,
     1695183700, 1986661051, 2177026350, 2456956037, 2730485921, 2820302411,
     3259730800, 3345764771, 3516065817, 3600352804, 4094571909, 275423344,
     430227734, 506948616, 659060556, 883997877, 958139571, 1322822218,
     1537002063, 1747873779, 1955562222, 2024104815, 2227730452, 2361852424,
     2428436474, 2756734187, 3204031479, 3329325298]"

definition sha_init :: "w32 list" where
  "sha_init =
    [1779033703, 3144134277, 1013904242, 2773480762, 1359893119, 2600822924,
     528734635, 1541459225]"

definition ror :: "nat \<Rightarrow> w32 \<Rightarrow> w32" where
  "ror n w = drop_bit n w OR push_bit (32 - n) w"

definition sha_pad :: "string \<Rightarrow> nat list" where
  "sha_pad s =
     (let n = length s
      in map of_char s @ 0x80 # replicate ((119 - n mod 64) mod 64) 0 @
         map (\<lambda>i. (8 * n) div 256 ^ (7 - i) mod 256) [0..<8])"

fun sha_words :: "nat list \<Rightarrow> w32 list" where
  "sha_words (a # b # c # d # r) = of_nat (((a * 256 + b) * 256 + c) * 256 + d) # sha_words r"
| "sha_words _ = []"

text \<open>The message schedule, newest word first.\<close>

definition sha_next :: "w32 list \<Rightarrow> w32" where
  "sha_next ws =
     (let x = ws ! 1; y = ws ! 14
      in (ror 17 x XOR ror 19 x XOR drop_bit 10 x) + ws ! 6 +
         (ror 7 y XOR ror 18 y XOR drop_bit 3 y) + ws ! 15)"

fun sha_schedule :: "nat \<Rightarrow> w32 list \<Rightarrow> w32 list" where
  "sha_schedule 0 ws = ws"
| "sha_schedule (Suc n) ws = sha_schedule n (sha_next ws # ws)"

fun sha_round :: "w32 list \<Rightarrow> w32 \<times> w32 \<Rightarrow> w32 list" where
  "sha_round [a, b, c, d, e, f, g, h] (k, w) =
     (let t1 = h + (ror 6 e XOR ror 11 e XOR ror 25 e) + ((e AND f) XOR (NOT e AND g)) + k + w;
          t2 = (ror 2 a XOR ror 13 a XOR ror 22 a) + ((a AND b) XOR (a AND c) XOR (b AND c))
      in [t1 + t2, a, b, c, d + t1, e, f, g])"
| "sha_round hs _ = hs"

definition sha_block :: "w32 list \<Rightarrow> w32 list \<Rightarrow> w32 list" where
  "sha_block hs ws = map2 (+) hs (foldl sha_round hs (zip sha_k (rev (sha_schedule 48 (rev ws)))))"

fun sha_blocks :: "nat \<Rightarrow> w32 list \<Rightarrow> w32 list \<Rightarrow> w32 list" where
  "sha_blocks 0 hs ws = hs"
| "sha_blocks (Suc n) hs ws = sha_blocks n (sha_block hs (take 16 ws)) (drop 16 ws)"

definition word_bytes :: "w32 \<Rightarrow> string" where
  "word_bytes w = map (\<lambda>i. char_of (unat w div 256 ^ (3 - i) mod 256)) [0..<4]"

text \<open>\<^verbatim>\<open>sha256.Sum256\<close>.\<close>

definition Sum256 :: "string \<Rightarrow> string" where
  "Sum256 s =
     (let p = sha_pad s
      in concat (map word_bytes (sha_blocks (length p div 64) sha_init (sha_words p))))"

text \<open>\<^verbatim>\<open>hex.EncodeToString\<close>.\<close>

definition hex_char :: "nat \<Rightarrow> char" where
  "hex_char n = (if n < 10 then char_of (48 + n) else char_of (87 + n))"

definition hex_EncodeToString :: "string \<Rightarrow> string" where
  "hex_EncodeToString s = concat (map (\<lambda>c. [hex_char (of_char c div 16), hex_char (of_char c mod 16)]) s)"

lemma length_sha_round: "length (sha_round hs kw) = length hs"
  by (cases "(hs, kw)" rule: sha_round.cases) (auto simp: Let_def)

lemma length_sha_rounds: "length (foldl sha_round hs kws) = length hs"
  by (induction kws arbitrary: hs) (simp_all add: length_sha_round)

lemma length_sha_blocks: "length (sha_blocks n hs ws) = length hs"
  by (induction n arbitrary: hs ws) (simp_all add: sha_block_def length_sha_rounds)

lemma length_Sum256 [simp]: "length (Sum256 s) = 32"
  by (simp add: Sum256_def Let_def length_concat word_bytes_def comp_def sum_list_triv length_sha_blocks sha_init_def)

text \<open>
  The constants are those of the standard: the first 32 bits of the fractional parts of the cube roots
  of the first 64 primes, and of the square roots of the first eight.
\<close>

definition sha_primes :: "int list" where
  "sha_primes =
    [2, 3, 5, 7, 11, 13, 17, 19, 23, 29, 31, 37, 41, 43, 47, 53, 59, 61, 67, 71, 73, 79, 83, 89, 97, 101,
     103, 107, 109, 113, 127, 131, 137, 139, 149, 151, 157, 163, 167, 173, 179, 181, 191, 193, 197, 199,
     211, 223, 227, 229, 233, 239, 241, 251, 257, 263, 269, 271, 277, 281, 283, 293, 307, 311]"

fun root_bits :: "nat \<Rightarrow> int \<Rightarrow> int \<Rightarrow> bool" where
  "root_bits n p k =
     (let i = sum_list (map (\<lambda>j. if j ^ n \<le> p then 1 else 0) [1, 2, 3, 4, 5, 6])
      in (i * 4294967296 + k) ^ n \<le> p * 4294967296 ^ n \<and> p * 4294967296 ^ n < (i * 4294967296 + k + 1) ^ n)"

lemma sha_k_roots: "list_all2 (root_bits 3) sha_primes (map uint sha_k)"
  by (simp add: sha_k_def sha_primes_def)

lemma sha_init_roots: "list_all2 (root_bits 2) (take 8 sha_primes) (map uint sha_init)"
  by (simp add: sha_init_def sha_primes_def)

end
