(* ===== verification/Histories.thy ===== *)
theory Histories
  imports Go_Base
begin

text \<open>
  Runs of a state machine together with what happened in them.  The locale \<open>history\<close> is the
  interface of the step relations of the development: a component gives its start states, its
  labelled steps and its runs, and gets the two induction principles its invariants are proved with.
\<close>

locale history =
  fixes starts :: "'s \<Rightarrow> bool"
    and step :: "'s \<Rightarrow> 'l \<Rightarrow> 's \<Rightarrow> bool"
    and run :: "'l list \<Rightarrow> 's \<Rightarrow> bool"
  assumes run_iff: "run tr s \<longleftrightarrow> tr = [] \<and> starts s \<or> (\<exists>tr' s' l. tr = tr' @ [l] \<and> run tr' s' \<and> step s' l s)"
begin

lemma run_Nil: "run [] s \<longleftrightarrow> starts s"
  by (subst run_iff) simp

lemma run_snoc: "run (tr @ [l]) s \<longleftrightarrow> (\<exists>s'. run tr s' \<and> step s' l s)"
  by (subst run_iff) auto

text \<open>A relation between history and state that holds at the start and is kept by every step.\<close>

lemma history_invariant:
  assumes "run tr s"
    and "\<And>s. starts s \<Longrightarrow> P [] s"
    and "\<And>tr s l s'. run tr s \<Longrightarrow> P tr s \<Longrightarrow> step s l s' \<Longrightarrow> P (tr @ [l]) s'"
  shows "P tr s"
  using assms(1)
proof (induction tr arbitrary: s rule: rev_induct)
  case Nil
  then show ?case using assms(2) by (simp add: run_Nil)
next
  case (snoc l tr)
  then show ?case using assms(3) by (auto simp: run_snoc)
qed

lemma state_invariant:
  assumes "run tr s" and "\<And>s. starts s \<Longrightarrow> I s" and "\<And>s l s'. I s \<Longrightarrow> step s l s' \<Longrightarrow> I s'"
  shows "I s"
  using assms(1) by (rule history_invariant [where P = "\<lambda>_ s. I s"]) (auto intro: assms(2,3))

end

end
