(* ===== verification/Ssh_Mcp.thy ===== *)
theory Ssh_Mcp
  imports Remote_Path Sha256 Histories Outbound_Tags
begin

text \<open>
  Access of tools to SSH hosts, \<^verbatim>\<open>service/ssh_mcp.go\<close> and \<^verbatim>\<open>service/ssh_mcp_upload_ticket.go\<close>: the
  settings with the access token, its authentication, and the one-time upload grants, as a state
  machine whose every interleaving of calls is a run (each call is one critical section).
\<close>

section \<open>Hexadecimal and base64 text\<close>

definition fromHexChar :: "char \<Rightarrow> nat option" where
  "fromHexChar c =
     (let n = of_char c :: nat
      in if 48 \<le> n \<and> n \<le> 57 then Some (n - 48)
         else if 97 \<le> n \<and> n \<le> 102 then Some (n - 87)
         else if 65 \<le> n \<and> n \<le> 70 then Some (n - 55)
         else None)"

fun hex_DecodeString :: "string \<Rightarrow> string option" where
  "hex_DecodeString [] = Some []"
| "hex_DecodeString [c] = None"
| "hex_DecodeString (a # b # s) =
     (case (fromHexChar a, fromHexChar b, hex_DecodeString s) of
        (Some x, Some y, Some r) \<Rightarrow> Some (char_of (16 * x + y) # r)
      | _ \<Rightarrow> None)"

definition base64_url_char :: "nat \<Rightarrow> char" where
  "base64_url_char n = ''ABCDEFGHIJKLMNOPQRSTUVWXYZabcdefghijklmnopqrstuvwxyz0123456789-_'' ! (n mod 64)"

text \<open>\<^verbatim>\<open>base64.RawURLEncoding.EncodeToString\<close>: no padding.\<close>

fun RawURLEncoding :: "nat list \<Rightarrow> string" where
  "RawURLEncoding [] = []"
| "RawURLEncoding [a] = map base64_url_char [a div 4, a mod 4 * 16]"
| "RawURLEncoding [a, b] = map base64_url_char [a div 4, a mod 4 * 16 + b div 16, b mod 16 * 4]"
| "RawURLEncoding (a # b # c # r) =
     map base64_url_char [a div 4, a mod 4 * 16 + b div 16, b mod 16 * 4 + c div 64, c mod 64] @ RawURLEncoding r"

section \<open>State and requests\<close>

record mcp_config =
  mcp_enabled :: bool
  mcp_local_enabled :: bool
  mcp_local_name :: string
  mcp_token_hash :: string

record transfer_request =
  tr_host_id :: int
  tr_path :: string
  tr_overwrite :: bool
  tr_sha1 :: string

record upload_grant =
  grant_request :: transfer_request
  grant_secret_hash :: string
  grant_config_hash :: string
  grant_expires :: int

text \<open>
  The persisted configuration and the pending upload grants, both changed under one mutex.  Times are
  nanoseconds.
\<close>

record mcp_state =
  mcp_cfg :: mcp_config
  mcp_uploads :: "(string \<times> upload_grant) list"

datatype mcp_error =
    StoreFailed
  | LocalNameInvalid
  | TokenChoice
  | RandomFailed
  | TokenInvalid
  | TokenMissing
  | BadPath path_error
  | BadChecksum
  | HostNotFound
  | HostDisabled
  | McpDisabled
  | LocalDisabled
  | TooManyUploads
  | UploadInvalid
  | UploadExpired

definition SSHMCPEndpoint :: string where
  "SSHMCPEndpoint = ''/mcp/ssh''"

definition sshMCPUploadTicketTTL :: int where
  "sshMCPUploadTicketTTL = 15 * 60 * 1000000000"

definition sshMCPMaximumUploadTickets :: nat where
  "sshMCPMaximumUploadTickets = 128"

text \<open>The UTF-8 bytes of the default name of the local host.\<close>

definition default_local_name :: string where
  "default_local_name = map char_of [0xE6, 0x9C, 0xAC, 0xE6, 0x9C, 0xBA :: nat]"

section \<open>Settings and authentication\<close>

record mcp_settings =
  set_enabled :: bool
  set_local_enabled :: bool
  set_local_name :: string
  set_token_configured :: bool
  set_endpoint :: string
  set_token :: string

record settings_request =
  req_enabled :: bool
  req_local_enabled :: "bool option"
  req_local_name :: "string option"
  req_token :: string
  req_generate :: bool

text \<open>What the environment does: reading and writing the store, and 32 random bytes.\<close>

record settings_io =
  cfg_read_ok :: bool
  cfg_write_ok :: bool
  cfg_random :: "nat list option"

definition Settings :: "bool \<Rightarrow> mcp_state \<Rightarrow> mcp_error + mcp_settings" where
  "Settings readable st =
     (if \<not> readable then Inl StoreFailed
      else let cfg = mcp_cfg st
           in Inr \<lparr>set_enabled = mcp_enabled cfg, set_local_enabled = mcp_local_enabled cfg,
                   set_local_name = mcp_local_name cfg, set_token_configured = (mcp_token_hash cfg \<noteq> []),
                   set_endpoint = SSHMCPEndpoint, set_token = []\<rparr>)"

definition update_name :: "string option \<Rightarrow> mcp_config \<Rightarrow> mcp_error + mcp_config" where
  "update_name localName cfg =
     (case localName of
        None \<Rightarrow> Inr cfg
      | Some raw \<Rightarrow>
          let name = TrimSpace raw
          in if 128 < length (runes name) \<or> has_line_break name then Inl LocalNameInvalid
             else Inr (cfg\<lparr>mcp_local_name := (if name = [] then default_local_name else name)\<rparr>))"

definition choose_token :: "settings_io \<Rightarrow> settings_request \<Rightarrow> mcp_error + string" where
  "choose_token io req =
     (if req_generate req \<and> req_token req \<noteq> [] then Inl TokenChoice
      else if req_generate req then
        (case cfg_random io of None \<Rightarrow> Inl RandomFailed | Some bytes \<Rightarrow> Inr (RawURLEncoding bytes))
      else Inr (req_token req))"

definition token_ok :: "string \<Rightarrow> bool" where
  "token_ok token \<longleftrightarrow>
     32 \<le> length token \<and> length token \<le> 256 \<and> list_all (\<lambda>c. CHR 0x21 \<le> c \<and> c \<le> CHR 0x7E) token"

definition update_token :: "string \<Rightarrow> mcp_config \<Rightarrow> mcp_error + mcp_config" where
  "update_token token cfg =
     (if token = [] then Inr cfg
      else if \<not> token_ok token then Inl TokenInvalid
      else Inr (cfg\<lparr>mcp_token_hash := hex_EncodeToString (Sum256 token)\<rparr>))"

definition update_switches :: "settings_request \<Rightarrow> mcp_config \<Rightarrow> mcp_error + mcp_config" where
  "update_switches req cfg =
     (if req_enabled req \<and> mcp_token_hash cfg = [] then Inl TokenMissing
      else Inr (cfg\<lparr>mcp_enabled := req_enabled req,
                    mcp_local_enabled := (case req_local_enabled req of None \<Rightarrow> mcp_local_enabled cfg | Some b \<Rightarrow> b)\<rparr>))"

definition local_switched_off :: "settings_request \<Rightarrow> mcp_config \<Rightarrow> bool" where
  "local_switched_off req cfg \<longleftrightarrow> mcp_local_enabled cfg \<and> req_local_enabled req = Some False"

definition is_local_grant :: "upload_grant \<Rightarrow> bool" where
  "is_local_grant g \<longleftrightarrow> tr_host_id (grant_request g) = SSHMCPLocalHostID"

definition revoke_uploads ::
  "mcp_config \<Rightarrow> string \<Rightarrow> bool \<Rightarrow> (string \<times> upload_grant) list \<Rightarrow> (string \<times> upload_grant) list" where
  "revoke_uploads cfg token localDisabled ups =
     (if \<not> mcp_enabled cfg \<or> token \<noteq> [] then []
      else if localDisabled then filter (\<lambda>(key, g). \<not> is_local_grant g) ups
      else ups)"

text \<open>The checks of a settings update: the new configuration and the token set, if any.\<close>

definition update_config :: "settings_io \<Rightarrow> settings_request \<Rightarrow> mcp_config \<Rightarrow> mcp_error + mcp_config \<times> string" where
  "update_config io req cfg =
     res_bind (update_name (req_local_name req) cfg) (\<lambda>cfg1.
     res_bind (choose_token io req) (\<lambda>token.
     res_bind (update_token token cfg1) (\<lambda>cfg2.
     res_bind (update_switches req cfg2) (\<lambda>cfg3. Inr (cfg3, token)))))"

definition UpdateSettings :: "settings_io \<Rightarrow> settings_request \<Rightarrow> mcp_state \<Rightarrow> mcp_state \<times> (mcp_error + mcp_settings)" where
  "UpdateSettings io req st =
     (if \<not> cfg_read_ok io then (st, Inl StoreFailed)
      else case update_config io req (mcp_cfg st) of
        Inl e \<Rightarrow> (st, Inl e)
      | Inr (cfg, token) \<Rightarrow>
          if \<not> cfg_write_ok io then (st, Inl StoreFailed)
          else (\<lparr>mcp_cfg = cfg,
                 mcp_uploads = revoke_uploads cfg token (local_switched_off req (mcp_cfg st)) (mcp_uploads st)\<rparr>,
                Inr \<lparr>set_enabled = mcp_enabled cfg, set_local_enabled = mcp_local_enabled cfg,
                     set_local_name = mcp_local_name cfg, set_token_configured = (mcp_token_hash cfg \<noteq> []),
                     set_endpoint = SSHMCPEndpoint, set_token = token\<rparr>))"

text \<open>Whether the service is enabled and whether the token is the configured one.\<close>

definition Authenticate :: "bool \<Rightarrow> string \<Rightarrow> mcp_state \<Rightarrow> (bool \<times> bool) option" where
  "Authenticate readable token st =
     (if \<not> readable then None
      else if \<not> mcp_enabled (mcp_cfg st) then Some (False, False)
      else case hex_DecodeString (mcp_token_hash (mcp_cfg st)) of
        None \<Rightarrow> Some (True, False)
      | Some expected \<Rightarrow>
          if length expected \<noteq> 32 then Some (True, False)
          else Some (True, token \<noteq> [] \<and> expected = Sum256 token))"

section \<open>Upload grants\<close>

definition validateMCPTransfer :: "string option \<Rightarrow> transfer_request \<Rightarrow> mcp_error + string" where
  "validateMCPTransfer home req =
     (case normalizeMCPPath home (tr_host_id req) (tr_path req) False of
        Inl e \<Rightarrow> Inl (BadPath e)
      | Inr remote \<Rightarrow>
          if tr_sha1 req \<noteq> [] \<and> (case hex_DecodeString (tr_sha1 req) of None \<Rightarrow> True | Some d \<Rightarrow> length d \<noteq> 20)
          then Inl BadChecksum
          else Inr remote)"

text \<open>
  The enabled flag of the target: that of the stored host, as the store's lookup gives it, or for the
  local host the configuration's, as read before the lock is taken.
\<close>

definition getSSHMCPHost :: "mcp_config option \<Rightarrow> (mcp_error + bool) \<Rightarrow> int \<Rightarrow> mcp_error + bool" where
  "getSSHMCPHost cfg lookup hostID =
     (if hostID \<noteq> SSHMCPLocalHostID then lookup
      else case cfg of
        None \<Rightarrow> Inl StoreFailed
      | Some c \<Rightarrow> if \<not> mcp_enabled c \<or> \<not> mcp_local_enabled c then Inl LocalDisabled else Inr True)"

record upload_io =
  up_home :: "string option"
  up_early_cfg :: "mcp_config option"
  up_lookup :: "mcp_error + bool"
  up_id :: "string option"
  up_secret :: "string option"
  up_read_ok :: bool
  up_now :: int

record upload_ticket =
  ticket_path :: string
  ticket_method :: string
  ticket_headers :: "(string \<times> string) list"
  ticket_expires_at :: int
  ticket_expires_in :: int
  ticket_timeout :: int
  ticket_single_use :: bool

text \<open>The part of \<^verbatim>\<open>PrepareUpload\<close> before the lock: the checked request, an id and a secret.\<close>

definition prepare_request :: "upload_io \<Rightarrow> transfer_request \<Rightarrow> mcp_error + transfer_request \<times> string \<times> string" where
  "prepare_request io req =
     res_bind (validateMCPTransfer (up_home io) req) (\<lambda>remote.
     res_bind (getSSHMCPHost (up_early_cfg io) (up_lookup io) (tr_host_id req)) (\<lambda>enabled.
       if \<not> enabled then Inl HostDisabled
       else case (up_id io, up_secret io) of
         (Some i, Some s) \<Rightarrow> Inr (req\<lparr>tr_path := remote\<rparr>, hex_EncodeToString i, hex_EncodeToString s)
       | _ \<Rightarrow> Inl RandomFailed))"

definition drop_stale :: "int \<Rightarrow> mcp_config \<Rightarrow> (string \<times> upload_grant) list \<Rightarrow> (string \<times> upload_grant) list" where
  "drop_stale now cfg ups =
     filter (\<lambda>(key, g). now < grant_expires g \<and> grant_config_hash g = mcp_token_hash cfg) ups"

definition make_ticket :: "string \<Rightarrow> string \<Rightarrow> int \<Rightarrow> upload_ticket" where
  "make_ticket key secret expires =
     \<lparr>ticket_path = SSHMCPEndpoint @ ''/uploads/'' @ key, ticket_method = ''PUT'',
      ticket_headers = [(''Content-Type'', ''application/octet-stream''), (''Authorization'', ''Bearer '' @ secret)],
      ticket_expires_at = expires div 1000000, ticket_expires_in = 900, ticket_timeout = 3600, ticket_single_use = True\<rparr>"

definition PrepareUpload :: "upload_io \<Rightarrow> transfer_request \<Rightarrow> mcp_state \<Rightarrow> mcp_state \<times> (mcp_error + upload_ticket)" where
  "PrepareUpload io req st =
     (case prepare_request io req of
        Inl e \<Rightarrow> (st, Inl e)
      | Inr (req', key, secret) \<Rightarrow>
          let cfg = mcp_cfg st in
          if \<not> up_read_ok io then (st, Inl StoreFailed)
          else if \<not> mcp_enabled cfg \<or> mcp_token_hash cfg = [] then (st, Inl McpDisabled)
          else if tr_host_id req' = SSHMCPLocalHostID \<and> \<not> mcp_local_enabled cfg then (st, Inl LocalDisabled)
          else
            let ups = drop_stale (up_now io) cfg (mcp_uploads st);
                expires = up_now io + sshMCPUploadTicketTTL;
                grant = \<lparr>grant_request = req', grant_secret_hash = Sum256 secret,
                         grant_config_hash = mcp_token_hash cfg, grant_expires = expires\<rparr>
            in if sshMCPMaximumUploadTickets \<le> length ups then (st\<lparr>mcp_uploads := ups\<rparr>, Inl TooManyUploads)
               else (st\<lparr>mcp_uploads := map_put key grant ups\<rparr>, Inr (make_ticket key secret expires)))"

definition ClaimUpload :: "bool \<Rightarrow> int \<Rightarrow> string \<Rightarrow> string \<Rightarrow> mcp_state \<Rightarrow> mcp_state \<times> (mcp_error + transfer_request)" where
  "ClaimUpload readable now key secret st =
     (let cfg = mcp_cfg st in
      if \<not> readable then (st, Inl StoreFailed)
      else if \<not> mcp_enabled cfg then (st, Inl McpDisabled)
      else case map_of (mcp_uploads st) key of
        None \<Rightarrow> (st, Inl UploadInvalid)
      | Some g \<Rightarrow>
          if secret = [] \<or> Sum256 secret \<noteq> grant_secret_hash g then (st, Inl UploadInvalid)
          else
            let st' = st\<lparr>mcp_uploads := map_del key (mcp_uploads st)\<rparr> in
            if is_local_grant g \<and> \<not> mcp_local_enabled cfg then (st', Inl LocalDisabled)
            else if grant_config_hash g \<noteq> mcp_token_hash cfg then (st', Inl UploadInvalid)
            else if \<not> now < grant_expires g then (st', Inl UploadExpired)
            else (st', Inr (grant_request g)))"

section \<open>The service as a state machine\<close>

datatype mcp_event =
    EvSettings settings_io settings_request
  | EvPrepare upload_io transfer_request
  | EvClaim bool int string string

datatype mcp_answer =
    AnsSettings "mcp_error + mcp_settings"
  | AnsTicket "mcp_error + upload_ticket"
  | AnsClaim "mcp_error + transfer_request"

fun mcp_step :: "mcp_event \<Rightarrow> mcp_state \<Rightarrow> mcp_state \<times> mcp_answer" where
  "mcp_step (EvSettings io req) st = map_prod (\<lambda>s. s) AnsSettings (UpdateSettings io req st)"
| "mcp_step (EvPrepare io req) st = map_prod (\<lambda>s. s) AnsTicket (PrepareUpload io req st)"
| "mcp_step (EvClaim readable now key secret) st = map_prod (\<lambda>s. s) AnsClaim (ClaimUpload readable now key secret st)"

text \<open>A process starts with the persisted configuration and no grants; \<open>tr\<close> is what happened since.\<close>

inductive mcp_run :: "mcp_config \<Rightarrow> (mcp_event \<times> mcp_answer) list \<Rightarrow> mcp_state \<Rightarrow> bool" where
  start: "mcp_run cfg [] \<lparr>mcp_cfg = cfg, mcp_uploads = []\<rparr>"
| more: "mcp_run cfg tr st \<Longrightarrow> mcp_step ev st = (st', ans) \<Longrightarrow> mcp_run cfg (tr @ [(ev, ans)]) st'"

inductive_simps mcp_run_iff: "mcp_run cfg tr st"

interpretation mcp_history: history
  "\<lambda>st. st = \<lparr>mcp_cfg = cfg, mcp_uploads = []\<rparr>" "\<lambda>st e st'. mcp_step (fst e) st = (st', snd e)" "mcp_run cfg"
  for cfg
  by unfold_locales (subst mcp_run_iff, auto)

section \<open>Hexadecimal text round trip\<close>

lemma fromHexChar_char: "n < 16 \<Longrightarrow> fromHexChar (hex_char n) = Some n"
  by (auto simp: fromHexChar_def hex_char_def of_char_of)

lemma hex_decode_encode: "hex_DecodeString (hex_EncodeToString s) = Some s"
proof (induction s)
  case (Cons c s)
  have "of_char c < (256 :: nat)" by simp
  then have "of_char c div 16 < (16 :: nat)" by linarith
  then show ?case using Cons by (simp add: hex_EncodeToString_def fromHexChar_char)
qed (simp add: hex_EncodeToString_def)

section \<open>What each operation does to the grants\<close>

lemma update_name_keeps:
  "update_name n cfg = Inr cfg' \<Longrightarrow>
   mcp_enabled cfg' = mcp_enabled cfg \<and> mcp_token_hash cfg' = mcp_token_hash cfg \<and> mcp_local_enabled cfg' = mcp_local_enabled cfg"
  by (auto simp: update_name_def Let_def split: option.split_asm if_split_asm)

lemma update_token_hash:
  "update_token token cfg = Inr cfg' \<Longrightarrow>
   mcp_token_hash cfg' = (if token = [] then mcp_token_hash cfg else hex_EncodeToString (Sum256 token)) \<and>
   mcp_local_enabled cfg' = mcp_local_enabled cfg"
  by (auto simp: update_token_def split: if_split_asm)

lemma update_switches_result:
  "update_switches req cfg = Inr cfg' \<Longrightarrow>
   mcp_enabled cfg' = req_enabled req \<and> mcp_token_hash cfg' = mcp_token_hash cfg \<and>
   (req_enabled req \<longrightarrow> mcp_token_hash cfg \<noteq> []) \<and>
   mcp_local_enabled cfg' = (case req_local_enabled req of None \<Rightarrow> mcp_local_enabled cfg | Some b \<Rightarrow> b)"
  by (auto simp: update_switches_def split: if_split_asm)

lemma update_config_result:
  assumes "update_config io req cfg = Inr (cfg', token)"
  shows "mcp_enabled cfg' = req_enabled req"
    and "mcp_token_hash cfg' = (if token = [] then mcp_token_hash cfg else hex_EncodeToString (Sum256 token))"
    and "req_enabled req \<Longrightarrow> mcp_token_hash cfg' \<noteq> []"
    and "mcp_local_enabled cfg' = (case req_local_enabled req of None \<Rightarrow> mcp_local_enabled cfg | Some b \<Rightarrow> b)"
proof -
  from assms obtain cfg1 cfg2 where c: "update_name (req_local_name req) cfg = Inr cfg1"
    "update_token token cfg1 = Inr cfg2" "update_switches req cfg2 = Inr cfg'"
    by (auto simp: update_config_def go_result)
  note r = update_name_keeps [OF c(1)] update_token_hash [OF c(2)] update_switches_result [OF c(3)]
  show "mcp_enabled cfg' = req_enabled req"
    "mcp_token_hash cfg' = (if token = [] then mcp_token_hash cfg else hex_EncodeToString (Sum256 token))"
    "req_enabled req \<Longrightarrow> mcp_token_hash cfg' \<noteq> []"
    "mcp_local_enabled cfg' = (case req_local_enabled req of None \<Rightarrow> mcp_local_enabled cfg | Some b \<Rightarrow> b)"
    using r by (simp_all split: option.split)
qed

text \<open>The grants agree with the configuration and are at most 128.\<close>

definition grant_valid :: "mcp_config \<Rightarrow> upload_grant \<Rightarrow> bool" where
  "grant_valid cfg g \<longleftrightarrow>
     mcp_enabled cfg \<and> mcp_token_hash cfg \<noteq> [] \<and> grant_config_hash g = mcp_token_hash cfg \<and>
     (is_local_grant g \<longrightarrow> mcp_local_enabled cfg)"

definition mcp_inv :: "mcp_state \<Rightarrow> bool" where
  "mcp_inv st \<longleftrightarrow>
     list_all (\<lambda>(key, g). grant_valid (mcp_cfg st) g) (mcp_uploads st) \<and>
     distinct (map fst (mcp_uploads st)) \<and> length (mcp_uploads st) \<le> sshMCPMaximumUploadTickets"

lemma map_del_length: "length (map_del k m) \<le> length m"
  by (simp add: map_del_def)

lemma map_put_length: "length (map_put k v m) \<le> Suc (length m)"
  by (induction m) auto

lemma set_map_put: "set (map_put k v m) \<subseteq> insert (k, v) (set m)"
  by (induction m) (auto split: if_split_asm)

lemma distinct_filter_fst: "distinct (map fst m) \<Longrightarrow> distinct (map fst (filter P m))"
  by (induction m) auto

text \<open>The ways an operation that succeeds, or fails late, changes the state.\<close>

lemma UpdateSettings_cases:
  assumes "UpdateSettings io req st = (st', r)"
  obtains (failed) e where "st' = st" "r = Inl e"
  | (stored) cfg token s where "update_config io req (mcp_cfg st) = Inr (cfg, token)" "r = Inr s"
      "set_token s = token" "set_enabled s = mcp_enabled cfg"
      "st' = \<lparr>mcp_cfg = cfg, mcp_uploads = revoke_uploads cfg token (local_switched_off req (mcp_cfg st)) (mcp_uploads st)\<rparr>"
proof (cases "cfg_read_ok io \<and> cfg_write_ok io")
  case False
  then have "st' = st \<and> isl r" using assms
    by (auto simp: UpdateSettings_def split: if_split_asm sum.split_asm)
  then show ?thesis by (cases r) (auto intro: failed)
next
  case True
  show ?thesis
  proof (cases "update_config io req (mcp_cfg st)")
    case (Inl e)
    then have "st' = st" "r = Inl e" using assms True by (simp_all add: UpdateSettings_def)
    then show ?thesis by (rule failed)
  next
    case (Inr p)
    then obtain cfg token where p: "update_config io req (mcp_cfg st) = Inr (cfg, token)" by (cases p) simp
    show ?thesis using assms True by (intro stored [OF p]) (auto simp: UpdateSettings_def p)
  qed
qed

lemma PrepareUpload_cases:
  assumes "PrepareUpload io req st = (st', r)"
  obtains (failed) e where "st' = st" "r = Inl e"
  | (full) "st' = st\<lparr>mcp_uploads := drop_stale (up_now io) (mcp_cfg st) (mcp_uploads st)\<rparr>" "r = Inl TooManyUploads"
  | (granted) req' key secret g where "prepare_request io req = Inr (req', key, secret)"
      "g = \<lparr>grant_request = req', grant_secret_hash = Sum256 secret, grant_config_hash = mcp_token_hash (mcp_cfg st),
            grant_expires = up_now io + sshMCPUploadTicketTTL\<rparr>"
      "grant_valid (mcp_cfg st) g" "length (drop_stale (up_now io) (mcp_cfg st) (mcp_uploads st)) < sshMCPMaximumUploadTickets"
      "st' = st\<lparr>mcp_uploads := map_put key g (drop_stale (up_now io) (mcp_cfg st) (mcp_uploads st))\<rparr>"
      "r = Inr (make_ticket key secret (up_now io + sshMCPUploadTicketTTL))"
proof (cases "prepare_request io req")
  case (Inl e)
  then have "st' = st" "r = Inl e" using assms by (simp_all add: PrepareUpload_def)
  then show ?thesis by (rule failed)
next
  case (Inr p)
  then obtain req' key secret where p: "prepare_request io req = Inr (req', key, secret)" by (cases p) simp
  let ?ups = "drop_stale (up_now io) (mcp_cfg st) (mcp_uploads st)"
  let ?ok = "up_read_ok io \<and> mcp_enabled (mcp_cfg st) \<and> mcp_token_hash (mcp_cfg st) \<noteq> [] \<and>
    (tr_host_id req' = SSHMCPLocalHostID \<longrightarrow> mcp_local_enabled (mcp_cfg st))"
  note d = assms [unfolded PrepareUpload_def Let_def p sum.case prod.case]
  show ?thesis
  proof (cases ?ok)
    case False
    then have "st' = st \<and> isl r" using d by (auto split: if_split_asm)
    then show ?thesis by (cases r) (auto intro: failed)
  next
    case True
    show ?thesis
    proof (cases "sshMCPMaximumUploadTickets \<le> length ?ups")
      case full_up: True
      then show ?thesis using d True by (intro full) (simp_all split: if_split_asm)
    next
      case False
      then show ?thesis using d True
        by (intro granted [OF p refl]) (auto simp: grant_valid_def is_local_grant_def)
    qed
  qed
qed

lemma ClaimUpload_cases:
  assumes "ClaimUpload readable now key secret st = (st', r)"
  obtains (kept) e where "st' = st" "r = Inl e"
  | (consumed) g where "map_of (mcp_uploads st) key = Some g" "secret \<noteq> []" "Sum256 secret = grant_secret_hash g"
      "st' = st\<lparr>mcp_uploads := map_del key (mcp_uploads st)\<rparr>"
      "r = (if is_local_grant g \<and> \<not> mcp_local_enabled (mcp_cfg st) then Inl LocalDisabled
            else if grant_config_hash g \<noteq> mcp_token_hash (mcp_cfg st) then Inl UploadInvalid
            else if \<not> now < grant_expires g then Inl UploadExpired else Inr (grant_request g))"
proof -
  note d = assms [unfolded ClaimUpload_def Let_def]
  show ?thesis
  proof (cases "map_of (mcp_uploads st) key")
    case None
    then have "st' = st \<and> isl r" using d by (auto split: if_split_asm)
    then show ?thesis by (cases r) (auto intro: kept)
  next
    case (Some g)
    show ?thesis
    proof (cases "readable \<and> mcp_enabled (mcp_cfg st) \<and> secret \<noteq> [] \<and> Sum256 secret = grant_secret_hash g")
      case False
      then have "st' = st \<and> isl r" using d Some by (auto split: if_split_asm)
      then show ?thesis by (cases r) (auto intro: kept)
    next
      case True
      then show ?thesis using d Some by (intro consumed [OF Some]) (auto split: if_split_asm)
    qed
  qed
qed

lemma UpdateSettings_inv:
  assumes "mcp_inv st" and "UpdateSettings io req st = (st', r)"
  shows "mcp_inv st'"
  using assms(2)
proof (cases rule: UpdateSettings_cases)
  case (stored cfg token s)
  note u = update_config_result [OF stored(1)]
  have "grant_valid cfg g"
    if g: "grant_valid (mcp_cfg st) g" and e: "mcp_enabled cfg" "token = []"
      and l: "local_switched_off req (mcp_cfg st) \<longrightarrow> \<not> is_local_grant g" for g
    using g e l u by (auto simp: grant_valid_def local_switched_off_def split: option.splits)
  then show ?thesis using assms(1) stored(5)
    by (auto simp: mcp_inv_def revoke_uploads_def list_all_iff distinct_filter_fst intro: le_trans [OF length_filter_le])
qed (use assms(1) in simp)

lemma drop_stale_inv: "mcp_inv st \<Longrightarrow> mcp_inv (st\<lparr>mcp_uploads := drop_stale now (mcp_cfg st) (mcp_uploads st)\<rparr>)"
  by (auto simp: mcp_inv_def drop_stale_def list_all_iff distinct_filter_fst intro: le_trans [OF length_filter_le])

lemma PrepareUpload_inv:
  assumes "mcp_inv st" and "PrepareUpload io req st = (st', r)"
  shows "mcp_inv st'"
  using assms(2)
proof (cases rule: PrepareUpload_cases)
  case (granted req' key secret g)
  then show ?thesis
    using drop_stale_inv [OF assms(1), of "up_now io"] set_map_put [of key g "drop_stale (up_now io) (mcp_cfg st) (mcp_uploads st)"]
      map_put_length [of key g "drop_stale (up_now io) (mcp_cfg st) (mcp_uploads st)"]
    by (fastforce simp: mcp_inv_def list_all_iff distinct_map_put)
qed (use assms(1) drop_stale_inv in simp_all)

lemma ClaimUpload_inv:
  assumes "mcp_inv st" and "ClaimUpload readable now key secret st = (st', r)"
  shows "mcp_inv st'"
  using assms(2)
proof (cases rule: ClaimUpload_cases)
  case (consumed g)
  then show ?thesis using assms(1)
    by (auto simp: mcp_inv_def map_del_def list_all_iff distinct_filter_fst intro: le_trans [OF length_filter_le])
qed (use assms(1) in simp)

lemma mcp_step_inv: "mcp_inv st \<Longrightarrow> mcp_step ev st = (st', ans) \<Longrightarrow> mcp_inv st'"
  by (cases ev) (auto simp: map_prod_def split: prod.split_asm dest: UpdateSettings_inv PrepareUpload_inv ClaimUpload_inv)

lemma mcp_run_inv: "mcp_run cfg tr st \<Longrightarrow> mcp_inv st"
  by (erule mcp_history.state_invariant) (simp add: mcp_inv_def, erule mcp_step_inv)

section \<open>Properties of the service\<close>

text \<open>C35. In every state the service reaches, at most 128 upload grants are pending, under different ids, and
  each was issued under the token that is configured now, while the service is enabled, and for the
  local host only while local access is enabled: changing the token or a switch revokes them.\<close>

theorem mcp_grants_revoked:
  assumes "mcp_run cfg tr st"
  shows "length (mcp_uploads st) \<le> 128 \<and> distinct (map fst (mcp_uploads st)) \<and>
         list_all (\<lambda>(key, g). mcp_enabled (mcp_cfg st) \<and> mcp_token_hash (mcp_cfg st) \<noteq> [] \<and>
           grant_config_hash g = mcp_token_hash (mcp_cfg st) \<and>
           (if is_local_grant g then mcp_local_enabled (mcp_cfg st) else True)) (mcp_uploads st)"
  using mcp_run_inv [OF assms]
  by (auto simp: mcp_inv_def sshMCPMaximumUploadTickets_def list_all_iff grant_valid_def)

definition sample_cfg :: mcp_config where
  "sample_cfg = \<lparr>mcp_enabled = True, mcp_local_enabled = False, mcp_local_name = ''box'', mcp_token_hash = ''ab''\<rparr>"

definition sample_req :: transfer_request where
  "sample_req = \<lparr>tr_host_id = 3, tr_path = ''/srv//x'', tr_overwrite = False, tr_sha1 = []\<rparr>"

definition sample_up :: upload_io where
  "sample_up = \<lparr>up_home = None, up_early_cfg = None, up_lookup = Inr True, up_id = Some ''i'', up_secret = Some ''s'',
     up_read_ok = True, up_now = 1000\<rparr>"

definition sample_grant :: upload_grant where
  "sample_grant = \<lparr>grant_request = sample_req\<lparr>tr_path := ''/srv/x''\<rparr>, grant_secret_hash = Sum256 ''73'',
     grant_config_hash = ''ab'', grant_expires = 1000 + sshMCPUploadTicketTTL\<rparr>"

lemma sample_prepare:
  "prepare_request sample_up sample_req = Inr (sample_req\<lparr>tr_path := ''/srv/x''\<rparr>, ''69'', ''73'')"
  by code_simp

lemma sample_run:
  "\<exists>ans. mcp_run sample_cfg [(EvPrepare sample_up sample_req, ans)]
     \<lparr>mcp_cfg = sample_cfg, mcp_uploads = [(''69'', sample_grant)]\<rparr>"
proof -
  let ?s0 = "\<lparr>mcp_cfg = sample_cfg, mcp_uploads = []\<rparr>"
  have "PrepareUpload sample_up sample_req ?s0 =
      (\<lparr>mcp_cfg = sample_cfg, mcp_uploads = [(''69'', sample_grant)]\<rparr>,
       Inr (make_ticket ''69'' ''73'' (1000 + sshMCPUploadTicketTTL)))"
    unfolding PrepareUpload_def sample_prepare
    by (simp add: Let_def drop_stale_def sample_cfg_def sample_up_def sample_grant_def
        sample_req_def SSHMCPLocalHostID_def sshMCPMaximumUploadTickets_def)
  with mcp_run.more [OF mcp_run.start, of "EvPrepare sample_up sample_req" sample_cfg] show ?thesis by auto
qed

theorem mcp_grants_revoked_witness:
  "\<exists>tr. mcp_run sample_cfg tr \<lparr>mcp_cfg = sample_cfg, mcp_uploads = [(''69'', sample_grant)]\<rparr> \<and>
     grant_config_hash sample_grant = mcp_token_hash sample_cfg"
proof -
  obtain ans where r: "mcp_run sample_cfg [(EvPrepare sample_up sample_req, ans)]
     \<lparr>mcp_cfg = sample_cfg, mcp_uploads = [(''69'', sample_grant)]\<rparr>" using sample_run by blast
  from mcp_grants_revoked [OF r] have "grant_config_hash sample_grant = mcp_token_hash sample_cfg" by simp
  with r show ?thesis by blast
qed

text \<open>What ends the life of the grant \<open>key\<close>: a claim that consumed it, a new grant under its id, a token
  change or the service switched off.\<close>

fun ends_grant :: "string \<Rightarrow> mcp_event \<times> mcp_answer \<Rightarrow> bool" where
  "ends_grant key (EvClaim readable now k secret, AnsClaim (Inr req)) \<longleftrightarrow> k = key"
| "ends_grant key (EvSettings io req, AnsSettings (Inr s)) \<longleftrightarrow> set_token s \<noteq> [] \<or> \<not> set_enabled s"
| "ends_grant key (EvPrepare io req, AnsTicket (Inr t)) \<longleftrightarrow> ticket_path t = SSHMCPEndpoint @ ''/uploads/'' @ key"
| "ends_grant key _ \<longleftrightarrow> False"

text \<open>The grant \<open>g\<close> under \<open>key\<close> was issued in the history and nothing ended it since.\<close>

definition issued :: "(mcp_event \<times> mcp_answer) list \<Rightarrow> string \<Rightarrow> upload_grant \<Rightarrow> bool" where
  "issued tr key g \<longleftrightarrow>
     (\<exists>before io req secret after.
        tr = before @ (EvPrepare io req, AnsTicket (Inr (make_ticket key secret (grant_expires g)))) # after \<and>
        prepare_request io req = Inr (grant_request g, key, secret) \<and>
        grant_secret_hash g = Sum256 secret \<and> grant_expires g = up_now io + sshMCPUploadTicketTTL \<and>
        list_all (\<lambda>e. \<not> ends_grant key e) after)"

lemma issued_more: "issued tr key g \<Longrightarrow> \<not> ends_grant key e \<Longrightarrow> issued (tr @ [e]) key g"
  unfolding issued_def
proof (elim exE conjE)
  fix before io req secret after
  assume a: "tr = before @ (EvPrepare io req, AnsTicket (Inr (make_ticket key secret (grant_expires g)))) # after"
    "prepare_request io req = Inr (grant_request g, key, secret)" "grant_secret_hash g = Sum256 secret"
    "grant_expires g = up_now io + sshMCPUploadTicketTTL" "list_all (\<lambda>e. \<not> ends_grant key e) after" "\<not> ends_grant key e"
  show "\<exists>before io req secret after.
        tr @ [e] = before @ (EvPrepare io req, AnsTicket (Inr (make_ticket key secret (grant_expires g)))) # after \<and>
        prepare_request io req = Inr (grant_request g, key, secret) \<and>
        grant_secret_hash g = Sum256 secret \<and> grant_expires g = up_now io + sshMCPUploadTicketTTL \<and>
        list_all (\<lambda>e. \<not> ends_grant key e) after"
    by (rule exI [of _ before], rule exI [of _ io], rule exI [of _ req], rule exI [of _ secret], rule exI [of _ "after @ [e]"])
      (use a in simp)
qed

lemma map_of_filter_origin: "map_of (filter P m) k = Some v \<Longrightarrow> (k, v) \<in> set m"
  by (auto dest: map_of_SomeD)

lemma UpdateSettings_origin:
  assumes "UpdateSettings io req st = (st', r)" and "map_of (mcp_uploads st') key = Some g" and "mcp_inv st"
  shows "map_of (mcp_uploads st) key = Some g \<and> \<not> ends_grant key (EvSettings io req, AnsSettings r)"
  using assms(1)
proof (cases rule: UpdateSettings_cases)
  case (stored cfg token s)
  with assms(2,3) show ?thesis
    by (auto simp: revoke_uploads_def mcp_inv_def dest: map_of_filter_origin split: if_split_asm)
qed (use assms(2) in simp)

lemma PrepareUpload_origin:
  assumes "PrepareUpload io req st = (st', r)" and "map_of (mcp_uploads st') key = Some g" and "mcp_inv st"
  shows "map_of (mcp_uploads st) key = Some g \<and> \<not> ends_grant key (EvPrepare io req, AnsTicket r) \<or>
         issued (tr @ [(EvPrepare io req, AnsTicket r)]) key g"
  using assms(1)
proof (cases rule: PrepareUpload_cases)
  case full
  with assms(2,3) show ?thesis by (auto simp: drop_stale_def mcp_inv_def dest: map_of_filter_origin)
next
  case (granted req' key' secret g')
  show ?thesis
  proof (cases "key' = key")
    case True
    with granted assms(2) have "g = g'" by simp
    with True granted show ?thesis unfolding issued_def
      by (intro disjI2 exI [of _ tr] exI [of _ io] exI [of _ req] exI [of _ secret] exI [of _ "[]"]) simp
  next
    case False
    with granted assms(2,3) show ?thesis
      by (auto simp: drop_stale_def mcp_inv_def make_ticket_def dest: map_of_filter_origin)
  qed
qed (use assms(2) in simp)

lemma ClaimUpload_origin:
  assumes "ClaimUpload readable now k secret st = (st', r)" and "map_of (mcp_uploads st') key = Some g"
  shows "map_of (mcp_uploads st) key = Some g \<and> \<not> ends_grant key (EvClaim readable now k secret, AnsClaim r)"
  using assms(1)
proof (cases rule: ClaimUpload_cases)
  case (consumed g')
  with assms(2) have "key \<noteq> k" by auto
  with consumed(4) assms(2) show ?thesis by (cases r) auto
qed (use assms(2) in simp)

lemma mcp_step_origin:
  assumes "mcp_step ev st = (st', ans)" and "map_of (mcp_uploads st') key = Some g" and "mcp_inv st"
  shows "map_of (mcp_uploads st) key = Some g \<and> \<not> ends_grant key (ev, ans) \<or> issued (tr @ [(ev, ans)]) key g"
proof (cases ev)
  case (EvSettings io req)
  then show ?thesis using assms UpdateSettings_origin by (auto simp: map_prod_def split: prod.split_asm)
next
  case (EvPrepare io req)
  with assms(1) obtain r where r: "PrepareUpload io req st = (st', r)" "ans = AnsTicket r"
    by (auto simp: map_prod_def split: prod.split_asm)
  show ?thesis using PrepareUpload_origin [OF r(1) assms(2,3), of tr] by (simp add: r(2) EvPrepare)
next
  case (EvClaim readable now k secret)
  then show ?thesis using assms ClaimUpload_origin by (auto simp: map_prod_def split: prod.split_asm)
qed

lemma mcp_run_issued:
  assumes "mcp_run cfg tr st" and "map_of (mcp_uploads st) key = Some g"
  shows "issued tr key g"
proof -
  from assms(1) have "\<forall>g. map_of (mcp_uploads st) key = Some g \<longrightarrow> issued tr key g"
  proof (rule mcp_history.history_invariant, goal_cases)
    case (2 tr st e st')
    show ?case
    proof (intro allI impI)
      fix g assume "map_of (mcp_uploads st') key = Some g"
      from mcp_step_origin [OF 2(3) this mcp_run_inv [OF 2(1)], of tr] 2(2)
      show "issued (tr @ [e]) key g" using issued_more [of tr key g e] by auto
    qed
  qed simp
  with assms(2) show ?thesis by blast
qed

text \<open>C10. An upload grant works once, for the right secret, in time: when a claim succeeds, the history holds
  the request that issued this id, with the request that is now handed out; the secret presented has
  the same SHA-256 as the one issued; less than fifteen minutes have passed; since then no claim of
  the id succeeded, the id was not issued again, the token was not changed and the service not switched
  off; and the grant is gone afterwards.\<close>

theorem upload_claimed_once:
  assumes "mcp_run cfg tr st" and "ClaimUpload readable now key secret st = (st', Inr req)"
  shows "(\<exists>before io req0 secret0 ticket after.
            tr = before @ (EvPrepare io req0, AnsTicket (Inr ticket)) # after \<and>
            prepare_request io req0 = Inr (req, key, secret0) \<and>
            Sum256 secret = Sum256 secret0 \<and> secret \<noteq> [] \<and>
            now < up_now io + 15 * 60 * 1000000000 \<and>
            list_all (\<lambda>e. \<not> ends_grant key e) after) \<and>
         map_of (mcp_uploads st') key = None"
  using assms(2)
proof (cases rule: ClaimUpload_cases)
  case (consumed g)
  from mcp_run_issued [OF assms(1) consumed(1)] obtain before io req0 secret0 after where
    i: "tr = before @ (EvPrepare io req0, AnsTicket (Inr (make_ticket key secret0 (grant_expires g)))) # after"
    "prepare_request io req0 = Inr (grant_request g, key, secret0)"
    "grant_secret_hash g = Sum256 secret0" "grant_expires g = up_now io + sshMCPUploadTicketTTL"
    "list_all (\<lambda>e. \<not> ends_grant key e) after"
    unfolding issued_def by blast
  have r: "req = grant_request g" "now < grant_expires g" using consumed(5) by (auto split: if_split_asm)
  have "\<exists>ticket. tr = before @ (EvPrepare io req0, AnsTicket (Inr ticket)) # after" using i(1) by blast
  moreover have "now < up_now io + 15 * 60 * 1000000000" using r(2) i(4) by (simp add: sshMCPUploadTicketTTL_def)
  moreover have "map_of (mcp_uploads st') key = None" using consumed(4) by simp
  ultimately show ?thesis using i(2,3,5) consumed(2,3) r(1) by fastforce
qed simp

lemma sample_claim:
  "ClaimUpload True 2000 ''69'' ''73'' \<lparr>mcp_cfg = sample_cfg, mcp_uploads = [(''69'', sample_grant)]\<rparr> =
     (\<lparr>mcp_cfg = sample_cfg, mcp_uploads = []\<rparr>, Inr (sample_req\<lparr>tr_path := ''/srv/x''\<rparr>))"
  by (simp add: ClaimUpload_def Let_def sample_cfg_def sample_grant_def sample_req_def map_del_def is_local_grant_def
      SSHMCPLocalHostID_def sshMCPUploadTicketTTL_def)

theorem upload_claimed_once_witness:
  "\<exists>io req0 secret0. prepare_request io req0 = Inr (sample_req\<lparr>tr_path := ''/srv/x''\<rparr>, ''69'', secret0) \<and>
     Sum256 ''73'' = Sum256 secret0 \<and> 2000 < up_now io + 15 * 60 * 1000000000"
proof -
  obtain ans where r: "mcp_run sample_cfg [(EvPrepare sample_up sample_req, ans)]
     \<lparr>mcp_cfg = sample_cfg, mcp_uploads = [(''69'', sample_grant)]\<rparr>" using sample_run by blast
  from upload_claimed_once [OF r sample_claim] show ?thesis by blast
qed

text \<open>C36. After a settings update that sets a token and enables the service, the token authenticates, and
  another text authenticates only if it is not empty and has the same SHA-256.\<close>

theorem mcp_token_roundtrip:
  assumes "UpdateSettings io req st = (st', Inr s)" and "set_token s \<noteq> []" and "set_enabled s"
  shows "Authenticate True (set_token s) st' = Some (True, True) \<and>
         Authenticate True u st' = Some (True, u \<noteq> [] \<and> Sum256 u = Sum256 (set_token s))"
  using assms(1)
proof (cases rule: UpdateSettings_cases)
  case (stored cfg token s')
  then have "s' = s" by simp
  with stored assms(2,3) have "mcp_token_hash (mcp_cfg st') = hex_EncodeToString (Sum256 (set_token s))"
    "mcp_enabled (mcp_cfg st')"
    using update_config_result [OF stored(1)] by simp_all
  with assms(2) show ?thesis by (auto simp: Authenticate_def hex_decode_encode)
qed simp

definition sample_settings :: settings_request where
  "sample_settings = \<lparr>req_enabled = True, req_local_enabled = None, req_local_name = None, req_token = [], req_generate = True\<rparr>"

definition sample_sio :: settings_io where
  "sample_sio = \<lparr>cfg_read_ok = True, cfg_write_ok = True, cfg_random = Some (replicate 32 7)\<rparr>"

theorem mcp_token_roundtrip_witness:
  "\<exists>st' token. fst (UpdateSettings sample_sio sample_settings \<lparr>mcp_cfg = sample_cfg, mcp_uploads = []\<rparr>) = st' \<and>
     length token = 43 \<and> Authenticate True token st' = Some (True, True)"
proof -
  define t where "t = RawURLEncoding (replicate 32 7)"
  have t: "length t = 43 \<and> token_ok t" unfolding t_def by code_simp
  then have ne: "t \<noteq> []" by auto
  let ?cfg = "sample_cfg\<lparr>mcp_token_hash := hex_EncodeToString (Sum256 t)\<rparr>"
  have h: "hex_EncodeToString (Sum256 t) \<noteq> []" by (metis hex_decode_encode hex_DecodeString.simps(1) length_Sum256 list.size(3) option.inject zero_neq_numeral)
  have "choose_token sample_sio sample_settings = Inr t"
    by (simp add: choose_token_def sample_sio_def sample_settings_def t_def)
  with t ne h have c: "update_config sample_sio sample_settings sample_cfg = Inr (?cfg, t)"
    by (simp add: update_config_def update_name_def update_token_def update_switches_def sample_settings_def sample_cfg_def)
  have io: "cfg_read_ok sample_sio" "cfg_write_ok sample_sio" "mcp_enabled sample_cfg" by code_simp+
  obtain s where u: "UpdateSettings sample_sio sample_settings \<lparr>mcp_cfg = sample_cfg, mcp_uploads = []\<rparr> =
      (\<lparr>mcp_cfg = ?cfg, mcp_uploads = []\<rparr>, Inr s)" and s: "set_token s = t" "set_enabled s"
    using c io by (auto simp: UpdateSettings_def revoke_uploads_def)
  have "Authenticate True (set_token s) (fst (UpdateSettings sample_sio sample_settings \<lparr>mcp_cfg = sample_cfg, mcp_uploads = []\<rparr>)) = Some (True, True)"
    using mcp_token_roundtrip [OF u] s ne u by auto
  with t s show ?thesis by metis
qed

end
