(* ===== verification/Ssh_Session.thy ===== *)
theory Ssh_Session
  imports Sha256 Histories
begin

text \<open>
  The interactive SSH sessions of \<^verbatim>\<open>service/ssh_session.go\<close> and the SFTP access to them
  (\<open>sftpClient\<close> of \<^verbatim>\<open>service/ssh_sftp.go\<close>): slots and limits, creation, attaching, input, closing
  and shutdown.  One definition is one critical section of the code, and the step relation
  interleaves them in every order.
\<close>

section \<open>Sessions and the service\<close>

text \<open>
  A managed session.  An owner is the web socket connection that attached; \<open>ms_shell\<close> tells
  whether the remote shell and its input pipe are set, \<open>ms_sftp\<close> whether the SFTP client is;
  \<open>ms_sftp_ops\<close> counts the SFTP operations in progress.  Times are nanoseconds, the last activity
  is in milliseconds.
\<close>

type_synonym conn = nat

record managed_session =
  ms_id :: string
  ms_host :: int
  ms_attach_token :: string
  ms_sftp_hash :: string
  ms_created :: int
  ms_expires :: int
  ms_columns :: int
  ms_rows :: int
  ms_owner :: "conn option"
  ms_shell :: bool
  ms_sftp :: bool
  ms_sftp_ops :: nat
  ms_input :: "string list"
  ms_last_active :: int
  ms_terminated :: bool

text \<open>
  The service: the sessions by id, as addresses of the heap of session objects (an object outlives its
  entry, since other goroutines still hold it), the slots reserved but not yet used, in all and by
  host, and the flag of the shutdown.
\<close>

record session_svc =
  sv_sessions :: "(string \<times> nat) list"
  sv_heap :: "managed_session list"
  sv_pending :: nat
  sv_pending_host :: "(int \<times> nat) list"
  sv_closed :: bool

datatype session_error =
    SessionClosed
  | SessionLimit
  | SessionConflict
  | SessionNotFound
  | AttachExpired
  | InputInvalid
  | Backpressure

definition sshAttachTimeout :: int where
  "sshAttachTimeout = 30 * 1000000000"

definition sshIdleTimeout :: int where
  "sshIdleTimeout = 30 * 60 * 1000000000"

definition sshMaximumSessionAge :: int where
  "sshMaximumSessionAge = 8 * 3600 * 1000000000"

definition sshMaximumSessions :: nat where
  "sshMaximumSessions = 4"

definition sshMaximumHostSessions :: nat where
  "sshMaximumHostSessions = 2"

definition sshMaximumInputSize :: nat where
  "sshMaximumInputSize = 64 * 1024"

definition sshSessionInputQueueSize :: nat where
  "sshSessionInputQueueSize = 32"

definition normalizeSSHWindow :: "int \<Rightarrow> int \<Rightarrow> int \<times> int" where
  "normalizeSSHWindow columns rows =
     (if columns < 20 \<or> 500 < columns then 80 else columns,
      if rows < 2 \<or> 200 < rows then 24 else rows)"

definition unix_milli :: "int \<Rightarrow> int" where
  "unix_milli t = t div 1000000"

section \<open>Slots\<close>

definition pending_of :: "session_svc \<Rightarrow> int \<Rightarrow> nat" where
  "pending_of sv h = (case map_of (sv_pending_host sv) h of None \<Rightarrow> 0 | Some n \<Rightarrow> n)"

definition host_count :: "session_svc \<Rightarrow> int \<Rightarrow> nat" where
  "host_count sv h = length (filter (\<lambda>(i, a). ms_host (sv_heap sv ! a) = h) (sv_sessions sv))"

definition checkSessionLimitLocked :: "int \<Rightarrow> session_svc \<Rightarrow> session_error option" where
  "checkSessionLimitLocked h sv =
     (if sv_closed sv then Some SessionClosed
      else if sshMaximumSessions \<le> length (sv_sessions sv) + sv_pending sv then Some SessionLimit
      else if sshMaximumHostSessions \<le> host_count sv h + pending_of sv h then Some SessionLimit
      else None)"

definition reserveSessionSlot :: "int \<Rightarrow> session_svc \<Rightarrow> session_error + session_svc" where
  "reserveSessionSlot h sv =
     (case checkSessionLimitLocked h sv of
        Some e \<Rightarrow> Inl e
      | None \<Rightarrow> Inr (sv\<lparr>sv_pending := Suc (sv_pending sv),
                       sv_pending_host := map_put h (Suc (pending_of sv h)) (sv_pending_host sv)\<rparr>))"

definition releaseSessionSlotLocked :: "int \<Rightarrow> session_svc \<Rightarrow> session_svc" where
  "releaseSessionSlotLocked h sv =
     sv\<lparr>sv_pending := sv_pending sv - 1,
        sv_pending_host := (if pending_of sv h \<le> 1 then map_del h (sv_pending_host sv)
                            else map_put h (pending_of sv h - 1) (sv_pending_host sv))\<rparr>"

section \<open>Creating a session\<close>

text \<open>
  \<^verbatim>\<open>CreateSession\<close> reserves a slot, connects outside the lock, and then registers the session and
  frees the slot in one critical section; the id and the two tokens are random.
\<close>

definition new_session :: "string \<Rightarrow> int \<Rightarrow> string \<Rightarrow> string \<Rightarrow> int \<Rightarrow> int \<Rightarrow> int \<Rightarrow> managed_session" where
  "new_session sid h token sftpToken now columns rows =
     (case normalizeSSHWindow columns rows of (c, r) \<Rightarrow>
       \<lparr>ms_id = sid, ms_host = h, ms_attach_token = token, ms_sftp_hash = Sum256 sftpToken,
        ms_created = now, ms_expires = now + sshAttachTimeout, ms_columns = c, ms_rows = r,
        ms_owner = None, ms_shell = False, ms_sftp = False, ms_sftp_ops = 0, ms_input = [],
        ms_last_active = unix_milli now, ms_terminated = False\<rparr>)"

definition registerSession :: "managed_session \<Rightarrow> session_svc \<Rightarrow> session_svc \<times> (session_error + nat)" where
  "registerSession ms sv =
     (let freed = releaseSessionSlotLocked (ms_host ms) sv in
      if sv_closed sv then (freed, Inl SessionClosed)
      else if has_key (sv_sessions sv) (ms_id ms) then (freed, Inl SessionConflict)
      else (freed\<lparr>sv_sessions := map_put (ms_id ms) (length (sv_heap sv)) (sv_sessions sv),
                  sv_heap := sv_heap sv @ [ms]\<rparr>, Inr (length (sv_heap sv))))"

section \<open>Attaching, input and size\<close>

definition upd_session :: "nat \<Rightarrow> (managed_session \<Rightarrow> managed_session) \<Rightarrow> session_svc \<Rightarrow> session_svc" where
  "upd_session a f sv = sv\<lparr>sv_heap := (sv_heap sv)[a := f (sv_heap sv ! a)]\<rparr>"

text \<open>
  The critical section of \<^verbatim>\<open>attachSession\<close> on the object it looked up: only one connection, only with
  the token, only in time.
\<close>

definition claimSession :: "conn \<Rightarrow> string \<Rightarrow> int \<Rightarrow> int \<Rightarrow> int \<Rightarrow> nat \<Rightarrow> session_svc \<Rightarrow> session_error + session_svc" where
  "claimSession c token columns rows now a sv =
     (let ms = sv_heap sv ! a in
      if ms_terminated ms \<or> ms_owner ms \<noteq> None \<or> ms_expires ms < now \<or> ms_attach_token ms \<noteq> token
      then Inl AttachExpired
      else case normalizeSSHWindow columns rows of (cols, rws) \<Rightarrow>
        Inr (upd_session a (\<lambda>m. m\<lparr>ms_owner := Some c, ms_attach_token := [], ms_columns := cols, ms_rows := rws\<rparr>) sv))"

definition commitAttach :: "int \<Rightarrow> nat \<Rightarrow> session_svc \<Rightarrow> session_svc \<times> bool" where
  "commitAttach now a sv =
     (if ms_terminated (sv_heap sv ! a) then (sv, False)
      else (upd_session a (\<lambda>m. m\<lparr>ms_shell := True, ms_last_active := unix_milli now\<rparr>) sv, True))"

definition ownedSession :: "conn \<Rightarrow> string \<Rightarrow> session_svc \<Rightarrow> nat option" where
  "ownedSession c sid sv =
     (case map_of (sv_sessions sv) sid of
        None \<Rightarrow> None
      | Some a \<Rightarrow> if ms_owner (sv_heap sv ! a) = Some c then Some a else None)"

text \<open>
  Input of a connection: \<open>content\<close> is the decoded text, if it decodes.  The queue has room for 32
  entries; a full queue means that the session is closed for backpressure.  When the session is
  terminated and the queue has room, both branches of the \<^verbatim>\<open>select\<close> are ready and the runtime picks one
  (\<open>pick_done\<close>).
\<close>

definition enqueueInput :: "bool \<Rightarrow> string \<Rightarrow> int \<Rightarrow> nat \<Rightarrow> session_svc \<Rightarrow> session_svc \<times> session_error option" where
  "enqueueInput pick_done bytes now a sv =
     (let sv1 = upd_session a (\<lambda>m. m\<lparr>ms_last_active := unix_milli now\<rparr>) sv;
          room = length (ms_input (sv_heap sv ! a)) < sshSessionInputQueueSize
      in if ms_terminated (sv_heap sv ! a) \<and> (pick_done \<or> \<not> room) then (sv1, None)
         else if room then (upd_session a (\<lambda>m. m\<lparr>ms_input := ms_input m @ [bytes]\<rparr>) sv1, None)
         else (sv1, Some Backpressure))"

definition writeSessionInput ::
  "bool \<Rightarrow> conn \<Rightarrow> string \<Rightarrow> string option \<Rightarrow> int \<Rightarrow> session_svc \<Rightarrow> session_svc \<times> session_error option" where
  "writeSessionInput pick_done c sid content now sv =
     (case ownedSession c sid sv of
        None \<Rightarrow> (sv, Some SessionNotFound)
      | Some a \<Rightarrow>
          (case content of
             None \<Rightarrow> (sv, Some InputInvalid)
           | Some bytes \<Rightarrow>
               if sshMaximumInputSize < length bytes then (sv, Some InputInvalid)
               else enqueueInput pick_done bytes now a sv))"

text \<open>One turn of the input pump: what is written to the shell, and whether the pump goes on.\<close>

definition pumpSessionInput :: "bool \<Rightarrow> nat \<Rightarrow> session_svc \<Rightarrow> session_svc \<times> string option" where
  "pumpSessionInput pick_done a sv =
     (let ms = sv_heap sv ! a
      in if ms_input ms = [] \<or> ms_terminated ms \<and> pick_done then (sv, None)
         else (upd_session a (\<lambda>m. m\<lparr>ms_input := tl (ms_input m)\<rparr>) sv,
               if ms_shell ms then Some (hd (ms_input ms)) else None))"

definition resizeSession :: "conn \<Rightarrow> string \<Rightarrow> int \<Rightarrow> int \<Rightarrow> session_svc \<Rightarrow> session_svc" where
  "resizeSession c sid columns rows sv =
     (case ownedSession c sid sv of
        None \<Rightarrow> sv
      | Some a \<Rightarrow>
          (case normalizeSSHWindow columns rows of (cols, rws) \<Rightarrow>
            upd_session a (\<lambda>m. m\<lparr>ms_columns := cols, ms_rows := rws\<rparr>) sv))"

section \<open>SFTP on a session\<close>

text \<open>
  The critical sections of \<^verbatim>\<open>sftpClient\<close>: the lookup, the check of the token, after which an open
  client is used at once, and the use of a client opened outside the lock.
\<close>

definition sftpLookup :: "string \<Rightarrow> string \<Rightarrow> session_svc \<Rightarrow> nat option" where
  "sftpLookup sid token sv = (if sid = [] \<or> token = [] then None else map_of (sv_sessions sv) sid)"

definition sftp_use :: "nat \<Rightarrow> session_svc \<Rightarrow> session_svc" where
  "sftp_use a = upd_session a (\<lambda>m. m\<lparr>ms_sftp := True, ms_sftp_ops := Suc (ms_sftp_ops m)\<rparr>)"

text \<open>\<open>None\<close> when refused; the flag tells that a client has to be opened.\<close>

definition sftpCheck :: "string \<Rightarrow> nat \<Rightarrow> session_svc \<Rightarrow> (session_svc \<times> bool) option" where
  "sftpCheck token a sv =
     (if ms_terminated (sv_heap sv ! a) \<or> ms_sftp_hash (sv_heap sv ! a) \<noteq> Sum256 token then None
      else if ms_sftp (sv_heap sv ! a) then Some (sftp_use a sv, False)
      else Some (sv, True))"

definition sftpOpened :: "int \<Rightarrow> nat \<Rightarrow> session_svc \<Rightarrow> session_svc option" where
  "sftpOpened now a sv =
     (if ms_terminated (sv_heap sv ! a) then None
      else Some (upd_session a (\<lambda>m. m\<lparr>ms_last_active := unix_milli now\<rparr>) (sftp_use a sv)))"

definition sftpDone :: "nat \<Rightarrow> session_svc \<Rightarrow> session_svc" where
  "sftpDone a = upd_session a (\<lambda>m. m\<lparr>ms_sftp_ops := ms_sftp_ops m - 1\<rparr>)"

section \<open>Closing\<close>

text \<open>
  \<^verbatim>\<open>closeSession\<close> first takes the entry out of the map; only the caller that took it out then
  terminates the object.
\<close>

definition unlinkSession :: "string \<Rightarrow> session_svc \<Rightarrow> (session_svc \<times> nat) option" where
  "unlinkSession sid sv =
     (case map_of (sv_sessions sv) sid of
        None \<Rightarrow> None
      | Some a \<Rightarrow> Some (sv\<lparr>sv_sessions := map_del sid (sv_sessions sv)\<rparr>, a))"

definition terminateSession :: "nat \<Rightarrow> session_svc \<Rightarrow> session_svc" where
  "terminateSession a =
     upd_session a (\<lambda>m. m\<lparr>ms_terminated := True, ms_owner := None, ms_shell := False, ms_sftp := False,
        ms_sftp_hash := replicate 32 (CHR 0x00)\<rparr>)"

text \<open>Why the monitor closes a session at a tick, if it does.\<close>

datatype monitor_verdict = TooOld | Idle | KeepaliveFailed | KeepAlive

definition monitorSession :: "bool \<Rightarrow> int \<Rightarrow> managed_session \<Rightarrow> monitor_verdict" where
  "monitorSession keepalive_ok now ms =
     (if sshMaximumSessionAge \<le> now - ms_created ms then TooOld
      else if sshIdleTimeout \<le> now - ms_last_active ms * 1000000 then Idle
      else if \<not> keepalive_ok then KeepaliveFailed
      else KeepAlive)"

definition shutdownIds :: "session_svc \<Rightarrow> string list" where
  "shutdownIds sv = map fst (sv_sessions sv)"

definition ownedIds :: "conn \<Rightarrow> session_svc \<Rightarrow> string list" where
  "ownedIds c sv = map fst (filter (\<lambda>(i, a). ms_owner (sv_heap sv ! a) = Some c) (sv_sessions sv))"

section \<open>All interleavings\<close>

text \<open>
  The goroutines at work: \<open>w_reserved\<close> are the hosts of the slots held (a session being created or
  a tool call in progress), \<open>w_opening\<close> the sessions claimed whose shell is being started,
  \<open>w_closing\<close> the objects taken out of the map and not yet terminated, \<open>w_stop\<close> the ids the
  shutdown saw.
\<close>

record ssh_world =
  w_svc :: session_svc
  w_reserved :: "int list"
  w_opening :: "nat list"
  w_closing :: "nat list"
  w_stop :: "string list option"

datatype ssh_label =
    Created nat string
  | Attached nat conn string
  | Other

abbreviation objects :: "ssh_world \<Rightarrow> managed_session list" where
  "objects w \<equiv> sv_heap (w_svc w)"

inductive ssh_step :: "ssh_world \<Rightarrow> ssh_label \<Rightarrow> ssh_world \<Rightarrow> bool" where
  reserve: "reserveSessionSlot h (w_svc w) = Inr sv \<Longrightarrow>
    ssh_step w Other (w\<lparr>w_svc := sv, w_reserved := h # w_reserved w\<rparr>)"
| release: "h \<in> set (w_reserved w) \<Longrightarrow>
    ssh_step w Other (w\<lparr>w_svc := releaseSessionSlotLocked h (w_svc w), w_reserved := remove1 h (w_reserved w)\<rparr>)"
| register: "h \<in> set (w_reserved w) \<Longrightarrow> ms = new_session sid h token sftpToken now columns rows \<Longrightarrow>
    registerSession ms (w_svc w) = (sv, Inr a) \<Longrightarrow>
    ssh_step w (Created a token) (w\<lparr>w_svc := sv, w_reserved := remove1 h (w_reserved w)\<rparr>)"
| refuse: "h \<in> set (w_reserved w) \<Longrightarrow> ms = new_session sid h token sftpToken now columns rows \<Longrightarrow>
    registerSession ms (w_svc w) = (sv, Inl e) \<Longrightarrow>
    ssh_step w Other (w\<lparr>w_svc := sv, w_reserved := remove1 h (w_reserved w)\<rparr>)"
| claim: "a < length (objects w) \<Longrightarrow> claimSession c token columns rows now a (w_svc w) = Inr sv \<Longrightarrow>
    ssh_step w (Attached a c token) (w\<lparr>w_svc := sv, w_opening := a # w_opening w\<rparr>)"
| commit: "a \<in> set (w_opening w) \<Longrightarrow>
    ssh_step w Other (w\<lparr>w_svc := fst (commitAttach now a (w_svc w)), w_opening := remove1 a (w_opening w)\<rparr>)"
| give_up: "a \<in> set (w_opening w) \<Longrightarrow> ssh_step w Other (w\<lparr>w_opening := remove1 a (w_opening w)\<rparr>)"
| input: "a < length (objects w) \<Longrightarrow> length bytes \<le> sshMaximumInputSize \<Longrightarrow>
    ssh_step w Other (w\<lparr>w_svc := fst (enqueueInput pick_done bytes now a (w_svc w))\<rparr>)"
| pump: "a < length (objects w) \<Longrightarrow>
    ssh_step w Other (w\<lparr>w_svc := fst (pumpSessionInput pick_done a (w_svc w))\<rparr>)"
| resize: "ssh_step w Other (w\<lparr>w_svc := resizeSession c sid columns rows (w_svc w)\<rparr>)"
| sftp_check: "a < length (objects w) \<Longrightarrow> sftpCheck token a (w_svc w) = Some (sv, again) \<Longrightarrow>
    ssh_step w Other (w\<lparr>w_svc := sv\<rparr>)"
| sftp_open: "a < length (objects w) \<Longrightarrow> sftpOpened now a (w_svc w) = Some sv \<Longrightarrow> ssh_step w Other (w\<lparr>w_svc := sv\<rparr>)"
| sftp_done: "a < length (objects w) \<Longrightarrow> ssh_step w Other (w\<lparr>w_svc := sftpDone a (w_svc w)\<rparr>)"
| unlink: "unlinkSession sid (w_svc w) = Some (sv, a) \<Longrightarrow>
    ssh_step w Other (w\<lparr>w_svc := sv, w_closing := a # w_closing w\<rparr>)"
| terminate: "a \<in> set (w_closing w) \<Longrightarrow>
    ssh_step w Other (w\<lparr>w_svc := terminateSession a (w_svc w), w_closing := remove1 a (w_closing w)\<rparr>)"
| stop: "ssh_step w Other (w\<lparr>w_svc := (w_svc w)\<lparr>sv_closed := True\<rparr>,
    w_stop := Some (shutdownIds (w_svc w) @ (case w_stop w of None \<Rightarrow> [] | Some ids \<Rightarrow> ids))\<rparr>)"

definition init_world :: ssh_world where
  "init_world =
     \<lparr>w_svc = \<lparr>sv_sessions = [], sv_heap = [], sv_pending = 0, sv_pending_host = [], sv_closed = False\<rparr>,
      w_reserved = [], w_opening = [], w_closing = [], w_stop = None\<rparr>"

inductive ssh_run :: "ssh_label list \<Rightarrow> ssh_world \<Rightarrow> bool" where
  run_start: "ssh_run [] init_world"
| run_step: "ssh_run tr w \<Longrightarrow> ssh_step w l w' \<Longrightarrow> ssh_run (tr @ [l]) w'"

inductive_simps ssh_run_iff: "ssh_run tr w"

interpretation ssh_history: history "\<lambda>w. w = init_world" ssh_step ssh_run
  by unfold_locales (subst ssh_run_iff, auto)

section \<open>The limits\<close>

text \<open>
  The part of the state the limits depend on: how many sessions each host has, and how many slots are
  held for it.  Steps that only change an object keep it.
\<close>

lemma upd_session_simps [simp]:
  "sv_sessions (upd_session a f sv) = sv_sessions sv" "sv_pending (upd_session a f sv) = sv_pending sv"
  "sv_pending_host (upd_session a f sv) = sv_pending_host sv" "sv_closed (upd_session a f sv) = sv_closed sv"
  "length (sv_heap (upd_session a f sv)) = length (sv_heap sv)"
  by (simp_all add: upd_session_def)

lemma upd_session_nth:
  "b < length (sv_heap sv) \<Longrightarrow> sv_heap (upd_session a f sv) ! b = (if b = a then f (sv_heap sv ! a) else sv_heap sv ! b)"
  by (auto simp: upd_session_def nth_list_update)

text \<open>
  What most steps do to an object: its identity, owner, tokens and end are kept, a terminated one gets
  no shell and no SFTP client back, and its size and queue stay within the bounds.
\<close>

definition good_size :: "managed_session \<Rightarrow> bool" where
  "good_size m \<longleftrightarrow>
     20 \<le> ms_columns m \<and> ms_columns m \<le> 500 \<and> 2 \<le> ms_rows m \<and> ms_rows m \<le> 200 \<and>
     length (ms_input m) \<le> sshSessionInputQueueSize"

definition mild :: "managed_session \<Rightarrow> managed_session \<Rightarrow> bool" where
  "mild m m' \<longleftrightarrow>
     ms_host m' = ms_host m \<and> ms_attach_token m' = ms_attach_token m \<and> ms_sftp_hash m' = ms_sftp_hash m \<and>
     ms_owner m' = ms_owner m \<and> ms_terminated m' = ms_terminated m \<and>
     (ms_terminated m \<longrightarrow> ms_shell m' = ms_shell m \<and> ms_sftp m' = ms_sftp m) \<and>
     (good_size m \<longrightarrow> good_size m')"

lemma mild_refl [simp]: "mild m m"
  by (simp add: mild_def)

lemma mild_trans: "mild a b \<Longrightarrow> mild b c \<Longrightarrow> mild a c"
  by (simp add: mild_def)

definition mild_step :: "session_svc \<Rightarrow> session_svc \<Rightarrow> bool" where
  "mild_step sv sv' \<longleftrightarrow>
     sv_sessions sv' = sv_sessions sv \<and> sv_pending sv' = sv_pending sv \<and> sv_pending_host sv' = sv_pending_host sv \<and>
     sv_closed sv' = sv_closed sv \<and> length (sv_heap sv') = length (sv_heap sv) \<and>
     (\<forall>a<length (sv_heap sv). mild (sv_heap sv ! a) (sv_heap sv' ! a))"

lemma mild_step_refl [simp]: "mild_step sv sv"
  by (simp add: mild_step_def)

lemma mild_step_trans: "mild_step a b \<Longrightarrow> mild_step b c \<Longrightarrow> mild_step a c"
  unfolding mild_step_def by (elim conjE, intro conjI allI impI) (simp_all, blast intro: mild_trans)

lemma mild_upd:
  assumes "a < length (sv_heap sv) \<Longrightarrow> mild (sv_heap sv ! a) (f (sv_heap sv ! a))"
  shows "mild_step sv (upd_session a f sv)"
  using assms by (simp add: mild_step_def upd_session_nth)

lemma mild_stepD:
  assumes "mild_step sv sv'"
  shows "sv_sessions sv' = sv_sessions sv" "sv_pending sv' = sv_pending sv" "sv_pending_host sv' = sv_pending_host sv"
    "sv_closed sv' = sv_closed sv" "length (sv_heap sv') = length (sv_heap sv)"
    "\<And>a. a < length (sv_heap sv) \<Longrightarrow> mild (sv_heap sv ! a) (sv_heap sv' ! a)"
  using assms by (simp_all add: mild_step_def)

lemma window_good: "normalizeSSHWindow c r = (c', r') \<Longrightarrow> 20 \<le> c' \<and> c' \<le> 500 \<and> 2 \<le> r' \<and> r' \<le> 200"
  by (auto simp: normalizeSSHWindow_def)

lemma mild_active: "mild_step sv (upd_session a (\<lambda>m. m\<lparr>ms_last_active := t\<rparr>) sv)"
  by (rule mild_upd) (simp add: mild_def good_size_def)

lemma mild_commit: "mild_step sv (fst (commitAttach now a sv))"
  unfolding commitAttach_def by (auto intro!: mild_upd simp: mild_def good_size_def)

lemma mild_input:
  assumes "a < length (sv_heap sv)"
  shows "mild_step sv (fst (enqueueInput pick_done bytes now a sv))"
proof (cases "length (ms_input (sv_heap sv ! a)) < sshSessionInputQueueSize \<and> \<not> (ms_terminated (sv_heap sv ! a) \<and> pick_done)")
  case True
  let ?sv = "upd_session a (\<lambda>m. m\<lparr>ms_last_active := unix_milli now\<rparr>) sv"
  have "mild_step ?sv (upd_session a (\<lambda>m. m\<lparr>ms_input := ms_input m @ [bytes]\<rparr>) ?sv)"
    using True assms by (intro mild_upd) (simp add: upd_session_nth mild_def good_size_def)
  then have "mild_step sv (upd_session a (\<lambda>m. m\<lparr>ms_input := ms_input m @ [bytes]\<rparr>) ?sv)"
    by (rule mild_step_trans [OF mild_active])
  with True show ?thesis by (auto simp: enqueueInput_def Let_def)
next
  case False
  then have "fst (enqueueInput pick_done bytes now a sv) = upd_session a (\<lambda>m. m\<lparr>ms_last_active := unix_milli now\<rparr>) sv"
    by (auto simp: enqueueInput_def Let_def)
  then show ?thesis by (simp add: mild_active)
qed

lemma mild_pump: "mild_step sv (fst (pumpSessionInput pick_done a sv))"
  unfolding pumpSessionInput_def Let_def by (auto intro!: mild_upd simp: mild_def good_size_def)

lemma mild_resize: "mild_step sv (resizeSession c sid columns rows sv)"
proof -
  obtain cs rs where "normalizeSSHWindow columns rows = (cs, rs)" by fastforce
  with window_good [OF this] show ?thesis unfolding resizeSession_def
    by (auto intro!: mild_upd simp: mild_def good_size_def split: option.split)
qed

lemma mild_use: "\<not> ms_terminated (sv_heap sv ! a) \<Longrightarrow> mild_step sv (sftp_use a sv)"
  unfolding sftp_use_def by (rule mild_upd) (simp add: mild_def good_size_def)

lemma mild_check: "sftpCheck token a sv = Some (sv', again) \<Longrightarrow> mild_step sv sv'"
  by (auto simp: sftpCheck_def intro: mild_use split: if_split_asm)

lemma mild_open: "sftpOpened now a sv = Some sv' \<Longrightarrow> mild_step sv sv'"
  unfolding sftpOpened_def by (split if_split_asm) (simp, metis mild_step_trans mild_use mild_active option.inject)

lemma mild_done: "mild_step sv (sftpDone a sv)"
  unfolding sftpDone_def by (rule mild_upd) (simp add: mild_def good_size_def)

text \<open>The steps that are not mild, and the mild ones as one case.\<close>

lemma ssh_step_split [consumes 1, case_names mild reserve release register claim unlink terminate stop]:
  assumes "ssh_step w l w'"
  obtains sv where "mild_step (w_svc w) sv" "l = Other" "w_svc w' = sv" "w_reserved w' = w_reserved w"
      "w_closing w' = w_closing w" "w_stop w' = w_stop w"
  | h sv where "reserveSessionSlot h (w_svc w) = Inr sv" "l = Other" "w' = w\<lparr>w_svc := sv, w_reserved := h # w_reserved w\<rparr>"
  | h where "h \<in> set (w_reserved w)" "l = Other"
      "w' = w\<lparr>w_svc := releaseSessionSlotLocked h (w_svc w), w_reserved := remove1 h (w_reserved w)\<rparr>"
  | sid h token sftpToken now columns rows where "h \<in> set (w_reserved w)" "\<not> sv_closed (w_svc w)"
      "\<not> has_key (sv_sessions (w_svc w)) sid" "l = Created (length (objects w)) token"
      "w' = w\<lparr>w_svc := (releaseSessionSlotLocked h (w_svc w))\<lparr>
         sv_sessions := map_put sid (length (objects w)) (sv_sessions (w_svc w)),
         sv_heap := objects w @ [new_session sid h token sftpToken now columns rows]\<rparr>,
         w_reserved := remove1 h (w_reserved w)\<rparr>"
  | a c cols rws now where "a < length (objects w)" "\<not> ms_terminated (objects w ! a)" "ms_owner (objects w ! a) = None"
      "now \<le> ms_expires (objects w ! a)" "20 \<le> cols \<and> cols \<le> 500 \<and> 2 \<le> rws \<and> rws \<le> 200"
      "l = Attached a c (ms_attach_token (objects w ! a))"
      "w' = w\<lparr>w_svc := upd_session a (\<lambda>m. m\<lparr>ms_owner := Some c, ms_attach_token := [], ms_columns := cols, ms_rows := rws\<rparr>) (w_svc w),
         w_opening := a # w_opening w\<rparr>"
  | sid a where "map_of (sv_sessions (w_svc w)) sid = Some a" "l = Other"
      "w' = w\<lparr>w_svc := (w_svc w)\<lparr>sv_sessions := map_del sid (sv_sessions (w_svc w))\<rparr>, w_closing := a # w_closing w\<rparr>"
  | a where "a \<in> set (w_closing w)" "l = Other"
      "w' = w\<lparr>w_svc := terminateSession a (w_svc w), w_closing := remove1 a (w_closing w)\<rparr>"
  | "l = Other" "w' = w\<lparr>w_svc := (w_svc w)\<lparr>sv_closed := True\<rparr>,
       w_stop := Some (shutdownIds (w_svc w) @ (case w_stop w of None \<Rightarrow> [] | Some ids \<Rightarrow> ids))\<rparr>"
  using assms
proof cases
  case (reserve h sv)
  then show ?thesis by (intro that(2))
next
  case (release h)
  then show ?thesis by (intro that(3))
next
  case (register h ms sid token sftpToken now columns rows sv a)
  have "ms_id ms = sid" "ms_host ms = h" by (simp_all add: register(4) new_session_def split: prod.split)
  with register(5) have r: "\<not> sv_closed (w_svc w)" "\<not> has_key (sv_sessions (w_svc w)) sid" "a = length (objects w)"
    "sv = (releaseSessionSlotLocked h (w_svc w))\<lparr>
         sv_sessions := map_put sid (length (objects w)) (sv_sessions (w_svc w)), sv_heap := objects w @ [ms]\<rparr>"
    by (auto simp: registerSession_def Let_def split: if_split_asm)
  show ?thesis by (rule that(4) [OF register(3) r(1,2)]) (use register r in simp_all)
next
  case (refuse h ms sid token sftpToken now columns rows sv e)
  have "ms_host ms = h" by (simp add: refuse(4) new_session_def split: prod.split)
  then have "sv = releaseSessionSlotLocked h (w_svc w)"
    using refuse(5) by (auto simp: registerSession_def Let_def split: if_split_asm)
  with refuse show ?thesis by (intro that(3)) simp_all
next
  case (claim a c token columns rows now sv)
  obtain cs rs where n: "normalizeSSHWindow columns rows = (cs, rs)" by fastforce
  from claim(4) have k: "\<not> ms_terminated (objects w ! a)" "ms_owner (objects w ! a) = None" "now \<le> ms_expires (objects w ! a)"
    "token = ms_attach_token (objects w ! a)"
    "sv = upd_session a (\<lambda>m. m\<lparr>ms_owner := Some c, ms_attach_token := [], ms_columns := cs, ms_rows := rs\<rparr>) (w_svc w)"
    by (auto simp: claimSession_def Let_def n split: if_split_asm)
  show ?thesis by (rule that(5) [OF claim(3) k(1,2,3) window_good [OF n]]) (use claim k in simp_all)
next
  case (commit a now)
  then show ?thesis by (intro that(1) [OF mild_commit]) simp_all
next
  case (give_up a)
  then show ?thesis by (intro that(1) [OF mild_step_refl]) simp_all
next
  case (input a bytes pick_done now)
  then show ?thesis by (intro that(1) [OF mild_input]) simp_all
next
  case (pump a pick_done)
  then show ?thesis by (intro that(1) [OF mild_pump]) simp_all
next
  case (resize c sid columns rows)
  then show ?thesis by (intro that(1) [OF mild_resize]) simp_all
next
  case (sftp_check a token sv again)
  then show ?thesis by (intro that(1) [OF mild_check]) simp_all
next
  case (sftp_open a now sv)
  then show ?thesis by (intro that(1) [OF mild_open]) simp_all
next
  case (sftp_done a)
  then show ?thesis by (intro that(1) [OF mild_done]) simp_all
next
  case (unlink sid sv a)
  then show ?thesis by (intro that(6)) (auto simp: unlinkSession_def split: option.split_asm)
next
  case (terminate a)
  then show ?thesis by (intro that(7))
next
  case stop
  then show ?thesis by (intro that(8))
qed

text \<open>The counters are exact, and sessions and held slots together keep the limits.\<close>

definition limits_inv :: "ssh_world \<Rightarrow> bool" where
  "limits_inv w \<longleftrightarrow>
     sv_pending (w_svc w) = length (w_reserved w) \<and>
     (\<forall>h. pending_of (w_svc w) h = count_list (w_reserved w) h) \<and>
     length (sv_sessions (w_svc w)) + length (w_reserved w) \<le> sshMaximumSessions \<and>
     (\<forall>h. host_count (w_svc w) h + count_list (w_reserved w) h \<le> sshMaximumHostSessions) \<and>
     (\<forall>(i, a)\<in>set (sv_sessions (w_svc w)). a < length (objects w))"

lemma limitsD:
  assumes "limits_inv w"
  shows "length (sv_sessions (w_svc w)) + length (w_reserved w) \<le> sshMaximumSessions"
    and "host_count (w_svc w) h + count_list (w_reserved w) h \<le> sshMaximumHostSessions"
  using assms by (simp_all add: limits_inv_def)

lemma pending_of_put: "pending_of (sv\<lparr>sv_pending := n, sv_pending_host := map_put h k (sv_pending_host sv)\<rparr>) g = (if g = h then k else pending_of sv g)"
  by (simp add: pending_of_def)

lemma pending_of_del: "pending_of (sv\<lparr>sv_pending := n, sv_pending_host := map_del h (sv_pending_host sv)\<rparr>) g = (if g = h then 0 else pending_of sv g)"
  by (simp add: pending_of_def)

lemma pending_release: "pending_of (releaseSessionSlotLocked h sv) g = (if g = h then pending_of sv h - 1 else pending_of sv g)"
  unfolding releaseSessionSlotLocked_def by (simp add: pending_of_put pending_of_del)

lemma release_simps [simp]:
  "sv_sessions (releaseSessionSlotLocked h sv) = sv_sessions sv" "sv_heap (releaseSessionSlotLocked h sv) = sv_heap sv"
  "sv_pending (releaseSessionSlotLocked h sv) = sv_pending sv - 1" "sv_closed (releaseSessionSlotLocked h sv) = sv_closed sv"
  by (simp_all add: releaseSessionSlotLocked_def)

lemma count_remove1: "count_list (remove1 x xs) y = (if y = x \<and> x \<in> set xs then count_list xs y - 1 else count_list xs y)"
  by (induction xs) (auto simp: count_list_0_iff)

lemma count_pos: "x \<in> set xs \<Longrightarrow> 0 < count_list xs x"
  by (metis count_list_0_iff gr0I)

lemma host_count_cong:
  assumes "sv_sessions sv' = sv_sessions sv"
    and "\<And>i a. (i, a) \<in> set (sv_sessions sv) \<Longrightarrow> ms_host (sv_heap sv' ! a) = ms_host (sv_heap sv ! a)"
  shows "host_count sv' h = host_count sv h"
  unfolding host_count_def assms(1) by (rule arg_cong [where f = length], rule filter_cong) (use assms(2) in auto)

lemma host_count_pending [simp]: "host_count (sv\<lparr>sv_pending := n, sv_pending_host := m\<rparr>) h = host_count sv h"
  by (simp add: host_count_def)

lemma host_count_release [simp]: "host_count (releaseSessionSlotLocked g sv) h = host_count sv h"
  by (simp add: host_count_def)

lemma limits_objects:
  assumes "limits_inv w" and "sv_sessions sv = sv_sessions (w_svc w)" "sv_pending sv = sv_pending (w_svc w)"
    "sv_pending_host sv = sv_pending_host (w_svc w)" "length (sv_heap sv) = length (objects w)"
    and "\<And>a. a < length (objects w) \<Longrightarrow> ms_host (sv_heap sv ! a) = ms_host (objects w ! a)"
    and "w_svc w' = sv" "w_reserved w' = w_reserved w"
  shows "limits_inv w'"
proof -
  have "host_count sv h = host_count (w_svc w) h" for h
    using assms(1,2,6) by (intro host_count_cong) (auto simp: limits_inv_def)
  moreover have "pending_of sv h = pending_of (w_svc w) h" for h by (simp add: pending_of_def assms(4))
  ultimately show ?thesis using assms(1,2,3,5,7,8) by (simp add: limits_inv_def)
qed

lemma limits_reserve:
  assumes "limits_inv w" and "reserveSessionSlot h (w_svc w) = Inr sv"
  shows "limits_inv (w\<lparr>w_svc := sv, w_reserved := h # w_reserved w\<rparr>)"
proof -
  from assms(2) have c: "\<not> sshMaximumSessions \<le> length (sv_sessions (w_svc w)) + sv_pending (w_svc w)"
    "\<not> sshMaximumHostSessions \<le> host_count (w_svc w) h + pending_of (w_svc w) h"
    "sv = (w_svc w)\<lparr>sv_pending := Suc (sv_pending (w_svc w)), sv_pending_host := map_put h (Suc (pending_of (w_svc w) h)) (sv_pending_host (w_svc w))\<rparr>"
    by (auto simp: reserveSessionSlot_def checkSessionLimitLocked_def split: if_split_asm)
  with assms(1) show ?thesis by (simp add: limits_inv_def c(3) pending_of_put)
qed

lemma limits_release:
  assumes "limits_inv w" and "h \<in> set (w_reserved w)"
  shows "limits_inv (w\<lparr>w_svc := releaseSessionSlotLocked h (w_svc w), w_reserved := remove1 h (w_reserved w)\<rparr>)"
proof -
  have "length (remove1 h (w_reserved w)) = length (w_reserved w) - 1" using assms(2) by (simp add: length_remove1)
  moreover have "host_count (w_svc w) g + (count_list (w_reserved w) g - 1) \<le> sshMaximumHostSessions" for g
    using limitsD(2) [OF assms(1), of g] by linarith
  moreover have "length (sv_sessions (w_svc w)) + (length (w_reserved w) - 1) \<le> sshMaximumSessions"
    using limitsD(1) [OF assms(1)] by linarith
  ultimately show ?thesis using assms by (simp add: limits_inv_def pending_release count_remove1)
qed

lemma limits_register:
  assumes "limits_inv w" and "h \<in> set (w_reserved w)" and "\<not> has_key (sv_sessions (w_svc w)) sid" and "ms_host ms = h"
  shows "limits_inv (w\<lparr>w_svc := (releaseSessionSlotLocked h (w_svc w))\<lparr>
     sv_sessions := map_put sid (length (objects w)) (sv_sessions (w_svc w)), sv_heap := objects w @ [ms]\<rparr>,
     w_reserved := remove1 h (w_reserved w)\<rparr>)"
proof -
  let ?sv = "(releaseSessionSlotLocked h (w_svc w))\<lparr>sv_sessions := sv_sessions (w_svc w) @ [(sid, length (objects w))], sv_heap := objects w @ [ms]\<rparr>"
  have "filter (\<lambda>(i, a). ms_host ((objects w @ [ms]) ! a) = g) (sv_sessions (w_svc w)) =
      filter (\<lambda>(i, a). ms_host (objects w ! a) = g) (sv_sessions (w_svc w))" for g
    using assms(1) by (intro filter_cong) (auto simp: limits_inv_def nth_append)
  then have hc: "host_count ?sv g = (if g = h then Suc (host_count (w_svc w) g) else host_count (w_svc w) g)" for g
    using assms(4) by (simp add: host_count_def nth_append)
  have "pending_of ?sv g = (if g = h then pending_of (w_svc w) h - 1 else pending_of (w_svc w) g)" for g
    using pending_release [of h "w_svc w" g] by (simp add: pending_of_def)
  moreover have r: "0 < count_list (w_reserved w) h" "0 < length (w_reserved w)"
    using assms(2) by (auto simp: count_pos)
  moreover have "Suc (length (sv_sessions (w_svc w)) + (length (w_reserved w) - 1)) \<le> sshMaximumSessions"
    using limitsD(1) [OF assms(1)] r by linarith
  moreover have "length (remove1 h (w_reserved w)) = length (w_reserved w) - 1" using assms(2) by (simp add: length_remove1)
  ultimately show ?thesis using assms(1,2) map_put_fresh [OF assms(3)]
    by (auto simp: limits_inv_def hc count_remove1 less_Suc_eq)
qed

lemma limits_unlink:
  assumes "limits_inv w"
  shows "limits_inv (w\<lparr>w_svc := (w_svc w)\<lparr>sv_sessions := map_del sid (sv_sessions (w_svc w))\<rparr>, w_closing := c\<rparr>)"
proof -
  have "length (filter P (map_del sid ss)) \<le> length (filter P ss)" for P and ss :: "(string \<times> nat) list"
    by (simp add: map_del_def) (induction ss, auto)
  then have "host_count ((w_svc w)\<lparr>sv_sessions := map_del sid (sv_sessions (w_svc w))\<rparr>) h \<le> host_count (w_svc w) h" for h
    by (simp add: host_count_def)
  moreover have "length (map_del sid (sv_sessions (w_svc w))) \<le> length (sv_sessions (w_svc w))" by (simp add: map_del_def)
  ultimately have
    "host_count ((w_svc w)\<lparr>sv_sessions := map_del sid (sv_sessions (w_svc w))\<rparr>) h + count_list (w_reserved w) h \<le> sshMaximumHostSessions"
    "length (map_del sid (sv_sessions (w_svc w))) + length (w_reserved w) \<le> sshMaximumSessions" for h
    using limitsD [OF assms] by (meson add_right_mono le_trans)+
  then show ?thesis using assms by (auto simp: limits_inv_def pending_of_def) (auto simp: map_del_def)
qed

lemma new_session_host [simp]: "ms_host (new_session sid h token sftpToken now columns rows) = h"
  by (simp add: new_session_def split: prod.split)

lemma limits_step: "ssh_step w l w' \<Longrightarrow> limits_inv w \<Longrightarrow> limits_inv w'"
proof (induction rule: ssh_step_split)
  case (mild sv)
  note m = mild_stepD [OF mild(1)]
  have h: "ms_host (sv_heap sv ! a) = ms_host (objects w ! a)" if "a < length (objects w)" for a
    using m(6) [OF that] by (simp add: mild_def)
  show ?case by (rule limits_objects [OF mild(7) m(1,2,3,5) h mild(3,4)])
next
  case (claim a c cols rws now)
  show ?case by (rule limits_objects [OF claim(8), of "w_svc w'"]) (auto simp: claim(7) upd_session_nth)
next
  case (terminate a)
  show ?case by (rule limits_objects [OF terminate(4), of "w_svc w'"]) (auto simp: terminate(3) terminateSession_def upd_session_nth)
next
  case stop
  show ?case by (rule limits_objects [OF stop(3), of "w_svc w'"]) (auto simp: stop(2))
qed (auto intro: limits_reserve limits_release limits_register limits_unlink)

lemma limits_run: "ssh_run tr w \<Longrightarrow> limits_inv w"
  by (erule ssh_history.state_invariant)
    (auto intro: limits_step, simp add: limits_inv_def init_world_def pending_of_def host_count_def)

section \<open>Life of a session\<close>

abbreviation linked :: "ssh_world \<Rightarrow> nat list" where
  "linked w \<equiv> map snd (sv_sessions (w_svc w))"

text \<open>A terminated object has nothing left that could be used.\<close>

definition bare :: "managed_session \<Rightarrow> bool" where
  "bare m \<longleftrightarrow> ms_owner m = None \<and> \<not> ms_shell m \<and> \<not> ms_sftp m"

text \<open>
  Every object is registered, being closed, or terminated, and only one of the three; after the
  shutdown started, only sessions it saw are registered.
\<close>

definition links_inv :: "ssh_world \<Rightarrow> bool" where
  "links_inv w \<longleftrightarrow>
     distinct (map fst (sv_sessions (w_svc w))) \<and> distinct (linked w @ w_closing w) \<and>
     set (linked w @ w_closing w) \<subseteq> {..<length (objects w)} \<and>
     (\<forall>a<length (objects w). ms_terminated (objects w ! a) \<longleftrightarrow> a \<notin> set (linked w @ w_closing w)) \<and>
     (\<forall>a<length (objects w). ms_terminated (objects w ! a) \<longrightarrow> bare (objects w ! a)) \<and>
     (\<forall>a<length (objects w). good_size (objects w ! a)) \<and>
     (sv_closed (w_svc w) \<longrightarrow> (\<exists>ids. w_stop w = Some ids \<and> set (map fst (sv_sessions (w_svc w))) \<subseteq> set ids))"

lemma links_mild:
  assumes "links_inv w" and "mild_step (w_svc w) (w_svc w')" and "w_closing w' = w_closing w" and "w_stop w' = w_stop w"
  shows "links_inv w'"
proof -
  note m = mild_stepD [OF assms(2)]
  have "ms_terminated (objects w' ! a) = ms_terminated (objects w ! a)"
    "ms_terminated (objects w ! a) \<Longrightarrow> bare (objects w ! a) \<Longrightarrow> bare (objects w' ! a)"
    "good_size (objects w ! a) \<Longrightarrow> good_size (objects w' ! a)"
    if "a < length (objects w)" for a
    using m(6) [OF that] by (auto simp: mild_def bare_def)
  then show ?thesis using assms(1) by (simp add: links_inv_def m assms(3,4))
qed

lemma links_register:
  assumes "links_inv w" and "\<not> sv_closed (w_svc w)" and "\<not> has_key (sv_sessions (w_svc w)) sid"
    and "\<not> ms_terminated ms" "good_size ms"
  shows "links_inv (w\<lparr>w_svc := (releaseSessionSlotLocked h (w_svc w))\<lparr>
     sv_sessions := map_put sid (length (objects w)) (sv_sessions (w_svc w)), sv_heap := objects w @ [ms]\<rparr>,
     w_reserved := r\<rparr>)"
  using assms map_put_fresh [OF assms(3)]
  by (auto simp: links_inv_def nth_append less_Suc_eq has_key_iff)

lemma links_claim:
  assumes "links_inv w" and "a < length (objects w)" "\<not> ms_terminated (objects w ! a)"
    and "20 \<le> cols \<and> cols \<le> 500 \<and> 2 \<le> rws \<and> rws \<le> 200"
  shows "links_inv (w\<lparr>w_svc := upd_session a (\<lambda>m. m\<lparr>ms_owner := Some c, ms_attach_token := [], ms_columns := cols, ms_rows := rws\<rparr>) (w_svc w),
         w_opening := x\<rparr>)"
  using assms by (auto simp: links_inv_def upd_session_nth good_size_def bare_def)

lemma snd_map_del:
  assumes "distinct (map fst m)" and "distinct (map snd m)" and "map_of m k = Some a"
  shows "set (map snd (map_del k m)) = set (map snd m) - {a}"
proof -
  have "(k, a) \<in> set m" using assms(3) by (rule map_of_SomeD)
  then have "(k', b) \<in> set m \<Longrightarrow> k' = k \<longleftrightarrow> b = a" for k' b
    using assms(1,2) by (metis distinct_map eq_key_imp_eq_value fst_conv inj_on_def snd_conv)
  then show ?thesis by (auto simp: map_del_def image_iff)
qed

lemma links_unlink:
  assumes "links_inv w" and "map_of (sv_sessions (w_svc w)) sid = Some a"
  shows "links_inv (w\<lparr>w_svc := (w_svc w)\<lparr>sv_sessions := map_del sid (sv_sessions (w_svc w))\<rparr>, w_closing := a # w_closing w\<rparr>)"
proof -
  let ?m = "map_del sid (sv_sessions (w_svc w))"
  have d: "distinct (map fst ?m)" "distinct (map snd ?m)" "set (map fst ?m) \<subseteq> set (map fst (sv_sessions (w_svc w)))"
    using assms(1) by (auto simp: links_inv_def map_del_def distinct_map inj_on_def)
  have s: "set (map snd ?m) = set (linked w) - {a}" using assms by (intro snd_map_del) (auto simp: links_inv_def)
  have a: "a \<in> set (linked w)" using map_of_SomeD [OF assms(2)] by force
  from a assms(1) have "set (map snd ?m @ a # w_closing w) = set (linked w @ w_closing w)"
    "distinct (map snd ?m @ a # w_closing w)"
    using s d(2) by (auto simp: links_inv_def)
  then show ?thesis using assms(1) d(1,3) by (simp add: links_inv_def del: set_map set_append distinct_append) blast
qed

lemma links_terminate:
  assumes "links_inv w" and "a \<in> set (w_closing w)"
  shows "links_inv (w\<lparr>w_svc := terminateSession a (w_svc w), w_closing := remove1 a (w_closing w)\<rparr>)"
proof -
  have a: "a < length (objects w)" "distinct (w_closing w)" "a \<notin> set (linked w)" using assms by (auto simp: links_inv_def)
  then show ?thesis using assms
    by (auto simp: links_inv_def terminateSession_def upd_session_nth bare_def good_size_def)
qed

lemma links_stop:
  assumes "links_inv w"
  shows "links_inv (w\<lparr>w_svc := (w_svc w)\<lparr>sv_closed := True\<rparr>, w_stop := Some (shutdownIds (w_svc w) @ x)\<rparr>)"
  using assms by (simp add: links_inv_def shutdownIds_def)

lemma new_session_good:
  "\<not> ms_terminated (new_session sid h token sftpToken now columns rows)"
  "good_size (new_session sid h token sftpToken now columns rows)"
  "ms_owner (new_session sid h token sftpToken now columns rows) = None"
  "ms_attach_token (new_session sid h token sftpToken now columns rows) = token"
  using window_good [of columns rows] by (auto simp: new_session_def good_size_def split: prod.split)

lemma links_slots:
  assumes "links_inv w" "sv_sessions sv = sv_sessions (w_svc w)" "sv_heap sv = objects w" "sv_closed sv = sv_closed (w_svc w)"
  shows "links_inv (w\<lparr>w_svc := sv, w_reserved := r\<rparr>)"
  using assms by (simp add: links_inv_def)

lemma reserve_keeps:
  "reserveSessionSlot h sv = Inr sv' \<Longrightarrow> sv_sessions sv' = sv_sessions sv \<and> sv_heap sv' = sv_heap sv \<and> sv_closed sv' = sv_closed sv"
  by (auto simp: reserveSessionSlot_def split: option.split_asm)

lemma links_step: "ssh_step w l w' \<Longrightarrow> links_inv w \<Longrightarrow> links_inv w'"
proof (induction rule: ssh_step_split)
  case (mild sv)
  then show ?case using links_mild by blast
next
  case (reserve h sv)
  then show ?case using links_slots reserve_keeps by metis
next
  case (release h)
  then show ?case by (simp add: links_slots)
qed (simp_all add: links_register new_session_good links_claim links_unlink links_terminate links_stop)

lemma links_run: "ssh_run tr w \<Longrightarrow> links_inv w"
  by (erule ssh_history.state_invariant) (auto intro: links_step, simp add: links_inv_def init_world_def)

section \<open>Attaching\<close>

fun attach_of :: "nat \<Rightarrow> ssh_label \<Rightarrow> bool" where
  "attach_of a (Attached b c t) \<longleftrightarrow> b = a"
| "attach_of a _ \<longleftrightarrow> False"

text \<open>
  What the history says of the objects: a session nobody attached to still has the token issued for
  it; every attach used the token issued, and there was at most one.
\<close>

definition attach_inv :: "ssh_label list \<Rightarrow> ssh_world \<Rightarrow> bool" where
  "attach_inv tr w \<longleftrightarrow>
     (\<forall>a t. Created a t \<in> set tr \<longrightarrow> a < length (objects w)) \<and>
     (\<forall>a t u. Created a t \<in> set tr \<longrightarrow> Created a u \<in> set tr \<longrightarrow> t = u) \<and>
     (\<forall>a c t. Attached a c t \<in> set tr \<longrightarrow> Created a t \<in> set tr) \<and>
     (\<forall>a<length (objects w). ms_owner (objects w ! a) = None \<longrightarrow> \<not> ms_terminated (objects w ! a) \<longrightarrow>
        Created a (ms_attach_token (objects w ! a)) \<in> set tr \<and> filter (attach_of a) tr = []) \<and>
     (\<forall>a. length (filter (attach_of a) tr) \<le> 1)"

lemma attach_inv_other:
  assumes "attach_inv tr w" and "length (objects w') = length (objects w)"
    and "\<And>a. a < length (objects w) \<Longrightarrow> ms_owner (objects w' ! a) = None \<Longrightarrow> \<not> ms_terminated (objects w' ! a) \<Longrightarrow>
      ms_owner (objects w ! a) = None \<and> \<not> ms_terminated (objects w ! a) \<and> ms_attach_token (objects w' ! a) = ms_attach_token (objects w ! a)"
  shows "attach_inv (tr @ [Other]) w'"
  using assms by (simp add: attach_inv_def)

lemma attach_inv_register:
  assumes "attach_inv tr w" and "objects w' = objects w @ [ms]" and "ms_attach_token ms = token"
  shows "attach_inv (tr @ [Created (length (objects w)) token]) w'"
proof -
  let ?n = "length (objects w)"
  have no: "Created ?n t \<notin> set tr" for t using assms(1) by (auto simp: attach_inv_def)
  then have "Attached ?n c t \<notin> set tr" for c t using assms(1) unfolding attach_inv_def by blast
  then have "filter (attach_of ?n) tr = []" by (auto simp: filter_empty_conv elim: attach_of.elims)
  then show ?thesis using assms no by (auto simp: attach_inv_def nth_append less_Suc_eq)
qed

lemma attach_inv_claim:
  assumes "attach_inv tr w" and "a < length (objects w)" "\<not> ms_terminated (objects w ! a)" "ms_owner (objects w ! a) = None"
    and "objects w' = sv_heap (upd_session a (\<lambda>m. m\<lparr>ms_owner := Some c, ms_attach_token := [], ms_columns := cols, ms_rows := rws\<rparr>) (w_svc w))"
  shows "attach_inv (tr @ [Attached a c (ms_attach_token (objects w ! a))]) w'"
proof -
  have "Created a (ms_attach_token (objects w ! a)) \<in> set tr" "filter (attach_of a) tr = []"
    using assms(1-4) by (simp_all add: attach_inv_def)
  then show ?thesis using assms(1) unfolding attach_inv_def assms(5) by (simp add: upd_session_nth)
qed

lemma attach_step: "ssh_step w l w' \<Longrightarrow> attach_inv tr w \<Longrightarrow> attach_inv (tr @ [l]) w'"
proof (induction rule: ssh_step_split)
  case (mild sv)
  note m = mild_stepD [OF mild(1)]
  show ?case unfolding mild(2) by (rule attach_inv_other [OF mild(7)]) (use m(5,6) mild(3) in \<open>auto simp: mild_def\<close>)
next
  case (reserve h sv)
  show ?case unfolding reserve(2) by (rule attach_inv_other [OF reserve(4)]) (use reserve_keeps [OF reserve(1)] in \<open>auto simp: reserve(3)\<close>)
next
  case (release h)
  show ?case unfolding release(2) by (rule attach_inv_other [OF release(4)]) (auto simp: release(3))
next
  case (register sid h token sftpToken now columns rows)
  show ?case unfolding register(4) by (rule attach_inv_register [OF register(6)]) (auto simp: register(5) new_session_good)
next
  case (claim a c cols rws now)
  show ?case unfolding claim(6) by (rule attach_inv_claim [OF claim(8,1,2,3)]) (simp add: claim(7))
next
  case (unlink sid a)
  show ?case unfolding unlink(2) by (rule attach_inv_other [OF unlink(4)]) (auto simp: unlink(3))
next
  case (terminate a)
  show ?case unfolding terminate(2)
    by (rule attach_inv_other [OF terminate(4)]) (auto simp: terminate(3) terminateSession_def upd_session_nth split: if_split_asm)
next
  case stop
  show ?case unfolding stop(1) by (rule attach_inv_other [OF stop(3)]) (auto simp: stop(2))
qed

lemma attach_run: "ssh_run tr w \<Longrightarrow> attach_inv tr w"
  by (erule ssh_history.history_invariant) (auto intro: attach_step, simp add: attach_inv_def init_world_def)

section \<open>Properties of the sessions\<close>

text \<open>C12. However the goroutines interleave, the registered sessions and the slots held by session creations
  and tool calls are together at most four, at most two for each host, and the service's counters of
  pending slots are exactly the slots held, in all and for each host.\<close>

theorem ssh_session_limits:
  assumes "ssh_run tr w"
  shows "length (sv_sessions (w_svc w)) + length (w_reserved w) \<le> 4 \<and>
         (\<forall>h. host_count (w_svc w) h + count_list (w_reserved w) h \<le> 2) \<and>
         sv_pending (w_svc w) = length (w_reserved w) \<and>
         (\<forall>h. pending_of (w_svc w) h = count_list (w_reserved w) h)"
  using limits_run [OF assms] by (simp add: limits_inv_def sshMaximumSessions_def sshMaximumHostSessions_def)

definition sample_session :: managed_session where
  "sample_session = new_session ''s1'' 5 ''tok'' ''sftp'' 1000 80 24"

definition sample_world :: ssh_world where
  "sample_world = init_world\<lparr>w_svc := \<lparr>sv_sessions = [(''s1'', 0)], sv_heap = [sample_session], sv_pending = 0,
     sv_pending_host = [], sv_closed = False\<rparr>\<rparr>"

lemma session_sample_run: "ssh_run [Other, Created 0 ''tok''] sample_world"
proof -
  let ?sv = "\<lparr>sv_sessions = [], sv_heap = [], sv_pending = 1, sv_pending_host = [(5, 1)], sv_closed = False\<rparr>"
  let ?w = "init_world\<lparr>w_svc := ?sv, w_reserved := [5]\<rparr>"
  have "reserveSessionSlot 5 (w_svc init_world) = Inr ?sv"
    by (simp add: reserveSessionSlot_def checkSessionLimitLocked_def init_world_def sshMaximumSessions_def
        sshMaximumHostSessions_def host_count_def pending_of_def)
  from ssh_step.reserve [OF this] have r: "ssh_run [Other] ?w"
    using ssh_run.run_step [OF ssh_run.run_start, of Other ?w] by (simp add: init_world_def)
  have g: "registerSession sample_session (w_svc ?w) = (w_svc sample_world, Inr 0)"
    by (simp add: registerSession_def sample_session_def new_session_def normalizeSSHWindow_def sample_world_def
        releaseSessionSlotLocked_def pending_of_def map_del_def has_key_def)
  have "ssh_step ?w (Created 0 ''tok'') sample_world"
    using ssh_step.register [OF _ sample_session_def g] by (simp add: sample_world_def init_world_def)
  from ssh_run.run_step [OF r this] show ?thesis by simp
qed

theorem ssh_session_limits_witness:
  "host_count (w_svc sample_world) 5 + count_list (w_reserved sample_world) 5 \<le> 2 \<and> sv_sessions (w_svc sample_world) = [(''s1'', 0)]"
proof -
  have "sv_sessions (w_svc sample_world) = [(''s1'', 0)]" by (simp add: sample_world_def)
  with ssh_session_limits [OF session_sample_run] show ?thesis by blast
qed

text \<open>C37. A session is attached to at most once, whatever happens to it, and only with the token that was issued
  when it was created.\<close>

theorem ssh_attach_once:
  assumes "ssh_run tr w"
  shows "length (filter (attach_of a) tr) \<le> 1 \<and>
         list_all (\<lambda>l. case l of Attached b c t \<Rightarrow> Created b t \<in> set tr | _ \<Rightarrow> True) tr"
  using attach_run [OF assms] by (auto simp: attach_inv_def list_all_iff split: ssh_label.split)

lemma sample_attach: "\<exists>w. ssh_run [Other, Created 0 ''tok'', Attached 0 7 ''tok''] w"
proof -
  obtain sv where "claimSession 7 ''tok'' 100 30 2000 0 (w_svc sample_world) = Inr sv"
    by (simp add: claimSession_def sample_world_def sample_session_def new_session_def normalizeSSHWindow_def sshAttachTimeout_def)
  from ssh_run.run_step [OF session_sample_run ssh_step.claim [OF _ this]] show ?thesis
    by (auto simp: sample_world_def)
qed

theorem ssh_attach_once_witness:
  "length (filter (attach_of 0) [Other, Created 0 ''tok'', Attached 0 7 ''tok'']) \<le> 1"
proof -
  obtain w where "ssh_run [Other, Created 0 ''tok'', Attached 0 7 ''tok''] w" using sample_attach by blast
  from ssh_attach_once [OF this] show ?thesis by blast
qed

text \<open>C38. Shutting down leaves nothing behind: once the sessions the shutdown saw have been closed and no
  closing is still under way, no session is registered, not even one whose creation was in progress
  when the shutdown started, and every session object is terminated without owner, shell or SFTP client.\<close>

theorem ssh_shutdown_complete:
  assumes "ssh_run tr w" and "sv_closed (w_svc w)"
    and "list_all (\<lambda>i. \<not> has_key (sv_sessions (w_svc w)) i) (the (w_stop w))" and "w_closing w = []"
  shows "sv_sessions (w_svc w) = [] \<and> list_all (\<lambda>m. ms_terminated m \<and> ms_owner m = None \<and> \<not> ms_shell m \<and> \<not> ms_sftp m) (objects w)"
proof -
  note l = links_run [OF assms(1), unfolded links_inv_def]
  from l assms(2) obtain ids where "w_stop w = Some ids" "set (map fst (sv_sessions (w_svc w))) \<subseteq> set ids" by blast
  with assms(3) have e: "sv_sessions (w_svc w) = []"
    by (cases "sv_sessions (w_svc w)") (auto simp: list_all_iff has_key_def)
  with l assms(4) show ?thesis by (simp add: list_all_length bare_def)
qed

definition stopped_world :: ssh_world where
  "stopped_world = sample_world\<lparr>w_closing := [], w_svc := (terminateSession 0 ((w_svc sample_world)\<lparr>sv_sessions := []\<rparr>))\<lparr>sv_closed := True\<rparr>, w_stop := Some []\<rparr>"

lemma stopped_run: "ssh_run [Other, Created 0 ''tok'', Other, Other, Other] stopped_world"
proof -
  let ?w1 = "sample_world\<lparr>w_svc := (w_svc sample_world)\<lparr>sv_sessions := []\<rparr>, w_closing := [0]\<rparr>"
  let ?w2 = "sample_world\<lparr>w_svc := terminateSession 0 ((w_svc sample_world)\<lparr>sv_sessions := []\<rparr>), w_closing := []\<rparr>"
  have c: "w_closing sample_world = []" by (simp add: sample_world_def init_world_def)
  have "unlinkSession ''s1'' (w_svc sample_world) = Some ((w_svc sample_world)\<lparr>sv_sessions := []\<rparr>, 0)"
    by (simp add: unlinkSession_def sample_world_def map_del_def)
  from ssh_step.unlink [OF this] have 1: "ssh_step sample_world Other ?w1" by (simp add: c)
  from ssh_step.terminate [of 0 ?w1] have 2: "ssh_step ?w1 Other ?w2" by simp
  have "w_stop sample_world = None" by (simp add: sample_world_def init_world_def)
  then have 3: "ssh_step ?w2 Other stopped_world"
    using ssh_step.stop [of ?w2] c
    by (simp add: stopped_world_def shutdownIds_def terminateSession_def)
  from ssh_run.run_step [OF ssh_run.run_step [OF ssh_run.run_step [OF session_sample_run 1] 2] 3] show ?thesis by simp
qed

theorem ssh_shutdown_complete_witness:
  "list_all (\<lambda>m. ms_terminated m \<and> ms_owner m = None \<and> \<not> ms_shell m \<and> \<not> ms_sftp m) (objects stopped_world) \<and> length (objects stopped_world) = 1"
proof -
  have "sv_closed (w_svc stopped_world)" "w_stop stopped_world = Some []" "w_closing stopped_world = []" "length (objects stopped_world) = 1"
    by (simp_all add: stopped_world_def sample_world_def init_world_def terminateSession_def)
  with ssh_shutdown_complete [OF stopped_run] show ?thesis by simp
qed

end
