(* ===== verification/Chain_Document.thy ===== *)
theory Chain_Document
  imports Node_Identity Sha256
begin

text \<open>
  The documents that \<^verbatim>\<open>parser/node_chain.go\<close> reads and writes: how values of a subscription are read
  (\<^verbatim>\<open>parser/helpers.go\<close>), proxy groups and their checks, what a name of the document stands for, and the
  chain metadata as JSON, with the round trip of \<^verbatim>\<open>model/node_chain.go\<close>.
\<close>

section \<open>Reading the document\<close>

text \<open>
  \<^verbatim>\<open>getString\<close>, \<^verbatim>\<open>getInt\<close> and \<^verbatim>\<open>boolOrString\<close>; \<open>sprint\<close> is \<^verbatim>\<open>fmt.Sprintf("%v", val)\<close> for the other types.
\<close>

definition getString :: "(rat \<Rightarrow> string) \<Rightarrow> (goval \<Rightarrow> string) \<Rightarrow> gomap \<Rightarrow> string \<Rightarrow> string" where
  "getString ff sprint m key =
     (case map_get m key of
        VNil \<Rightarrow> []
      | VStr s \<Rightarrow> s
      | VInt i \<Rightarrow> show_int i
      | VFloat r \<Rightarrow> float_f ff r
      | v \<Rightarrow> sprint v)"

definition getInt :: "gomap \<Rightarrow> string \<Rightarrow> int" where
  "getInt m key =
     (case map_get m key of VInt i \<Rightarrow> i | VFloat r \<Rightarrow> float_int r | VStr s \<Rightarrow> fst (Atoi s) | _ \<Rightarrow> 0)"

definition boolOrString :: "goval \<Rightarrow> bool" where
  "boolOrString v =
     (case v of
        VBool b \<Rightarrow> b
      | VStr s \<Rightarrow> EqualFold s ''true'' \<or> s = ''1''
      | VInt i \<Rightarrow> i \<noteq> 0
      | VFloat r \<Rightarrow> r \<noteq> 0
      | _ \<Rightarrow> False)"

text \<open>
  \<^verbatim>\<open>time.ParseDuration\<close>, in nanoseconds: a sign, then numbers with units, none of whose sums may pass
  \<open>2 ^ 63\<close>.  A fraction counts with its exact value,
  rounded down.
\<close>

definition duration_unit :: "string \<Rightarrow> nat option" where
  "duration_unit u =
     map_of [(''ns'', 1), (''us'', 1000), ([CHR 0xC2, CHR 0xB5] @ ''s'', 1000), ([CHR 0xCE, CHR 0xBC] @ ''s'', 1000),
       (''ms'', 1000000), (''s'', 1000000000), (''m'', 60000000000), (''h'', 3600000000000)] u"

definition fraction_digits :: "string \<Rightarrow> string" where
  "fraction_digits s = (case s of c # r \<Rightarrow> if c = CHR ''.'' then takeWhile is_digit r else [] | [] \<Rightarrow> [])"

definition after_fraction :: "string \<Rightarrow> string" where
  "after_fraction s = (case s of c # r \<Rightarrow> if c = CHR ''.'' then dropWhile is_digit r else s | [] \<Rightarrow> [])"

definition unit_text :: "string \<Rightarrow> string" where
  "unit_text s = takeWhile (\<lambda>c. c \<noteq> CHR ''.'' \<and> \<not> is_digit c) s"

definition duration_part :: "string \<Rightarrow> (nat \<times> string) option" where
  "duration_part s =
     (let ds = takeWhile is_digit s; s1 = dropWhile is_digit s;
          fs = fraction_digits s1; s2 = after_fraction s1; u = unit_text s2
      in if ds = [] \<and> fs = [] \<or> digits_val ds > 2 ^ 63 then None
         else case duration_unit u of
           None \<Rightarrow> None
         | Some unit \<Rightarrow>
             (let v = digits_val ds * unit + digits_val fs * unit div 10 ^ length fs
              in if digits_val ds > 2 ^ 63 div unit \<or> v > 2 ^ 63 then None else Some (v, drop (length u) s2)))"

lemma after_fraction_le: "length (after_fraction s) \<le> length s"
  by (auto simp: after_fraction_def split: list.splits intro: le_SucI length_dropWhile_le)

lemma duration_unit_nil: "duration_unit [] = None"
  by (simp add: duration_unit_def)

lemma duration_part_le:
  assumes "duration_part s = Some (v, t)"
  shows "length t < length s"
proof -
  let ?r = "after_fraction (dropWhile is_digit s)"
  have r: "length ?r \<le> length s"
    using after_fraction_le length_dropWhile_le order_trans by blast
  have "t = drop (length (unit_text ?r)) ?r" "duration_unit (unit_text ?r) \<noteq> None"
    using assms by (auto simp: duration_part_def Let_def split: if_splits option.splits)
  moreover from this(2) have "unit_text ?r \<noteq> []" by (metis duration_unit_nil)
  moreover have "length (unit_text ?r) \<le> length ?r" by (simp add: unit_text_def length_takeWhile_le)
  ultimately show ?thesis using r by (cases "unit_text ?r") auto
qed

function duration_parts :: "nat \<Rightarrow> string \<Rightarrow> nat option" where
  "duration_parts d s =
     (if s = [] then Some d
      else case duration_part s of
        None \<Rightarrow> None
      | Some (v, r) \<Rightarrow> if d + v > 2 ^ 63 then None else duration_parts (d + v) r)"
  by pat_completeness auto
termination by (relation "measure (length \<circ> snd)") (auto dest: duration_part_le)

declare duration_parts.simps [simp del]

definition ParseDuration :: "string \<Rightarrow> int option" where
  "ParseDuration s =
     (let neg = (s \<noteq> [] \<and> hd s = CHR ''-'');
          s1 = (if s \<noteq> [] \<and> (hd s = CHR ''-'' \<or> hd s = CHR ''+'') then tl s else s)
      in if s1 = ''0'' then Some 0
         else if s1 = [] then None
         else case duration_parts 0 s1 of
           None \<Rightarrow> None
         | Some d \<Rightarrow> if neg then Some (- int d) else if d < 2 ^ 63 then Some (int d) else None)"

section \<open>Groups and sources\<close>

fun all_strings :: "goval list \<Rightarrow> string list option" where
  "all_strings [] = Some []"
| "all_strings (VStr s # vs) = map_option (Cons s) (all_strings vs)"
| "all_strings (_ # vs) = None"

text \<open>The empty list stands for \<^verbatim>\<open>nil\<close>: the only caller tests the length.\<close>

definition chainMemberNames :: "goval \<Rightarrow> string list" where
  "chainMemberNames v =
     (let names = (case v of VStrList ss \<Rightarrow> ss
                     | VList vs \<Rightarrow> (case all_strings vs of None \<Rightarrow> [] | Some ss \<Rightarrow> ss) | _ \<Rightarrow> [])
      in if list_ex (\<lambda>n. TrimSpace n = []) names then [] else names)"

definition isPlainChainDirect :: "gomap \<Rightarrow> bool" where
  "isPlainChainDirect raw = list_all (\<lambda>(k, _). k = ''name'' \<or> k = ''tag'' \<or> k = ''type'') raw"

definition clash_group_fields :: "(rat \<Rightarrow> string) \<Rightarrow> (goval \<Rightarrow> string) \<Rightarrow> gomap \<Rightarrow> NodeChainGroup" where
  "clash_group_fields ff sprint raw =
     (let t = getString ff sprint raw ''type''; interval = getInt raw ''interval''
      in empty_group\<lparr>group_type := (if t = ''select'' then ''selector'' else if t = ''url-test'' then ''urltest'' else t),
           group_name := getString ff sprint raw ''name'',
           Outbounds := chainMemberNames (map_get raw ''proxies''),
           Interval := (if interval > 0 then show_int interval @ ''s'' else [])\<rparr>)"

definition native_group_fields :: "(rat \<Rightarrow> string) \<Rightarrow> (goval \<Rightarrow> string) \<Rightarrow> gomap \<Rightarrow> NodeChainGroup" where
  "native_group_fields ff sprint raw =
     empty_group\<lparr>group_type := getString ff sprint raw ''type'', group_name := getString ff sprint raw ''tag'',
       Outbounds := chainMemberNames (map_get raw ''outbounds''), Default := getString ff sprint raw ''default'',
       Interval := getString ff sprint raw ''interval'', IdleTimeout := getString ff sprint raw ''idle_timeout'',
       InterruptExistConnections := boolOrString (map_get raw ''interrupt_exist_connections'')\<rparr>"

definition allowed_group_options :: "bool \<Rightarrow> string" where
  "allowed_group_options clash =
     (if clash then '' name type proxies url interval tolerance icon hidden ''
      else '' type tag outbounds default url interval tolerance idle_timeout interrupt_exist_connections '')"

text \<open>\<open>Inl\<close> is the reason why the group cannot be used.\<close>

definition normalizeChainGroup ::
  "(rat \<Rightarrow> string) \<Rightarrow> (goval \<Rightarrow> string) \<Rightarrow> gomap \<Rightarrow> bool \<Rightarrow> string + NodeChainGroup" where
  "normalizeChainGroup ff sprint raw clash =
     (let g0 = (if clash then clash_group_fields ff sprint raw else native_group_fields ff sprint raw);
          g = g0\<lparr>URL := getString ff sprint raw ''url'', Tolerance := getInt raw ''tolerance''\<rparr>
      in if group_type g \<noteq> ''selector'' \<and> group_type g \<noteq> ''urltest''
         then Inl ''chain proxy group type is not supported; use a static select/selector or url-test/urltest group''
         else if list_ex (\<lambda>(k, _). \<not> contains_str (allowed_group_options clash) ('' '' @ k @ '' '')) raw
         then Inl ''chain proxy group contains unsupported options or external providers''
         else if Outbounds g = [] then Inl ''chain proxy group has no members''
         else if Tolerance g < 0 \<or> Tolerance g > 65535 then Inl ''chain URL-test tolerance is invalid''
         else if list_ex (\<lambda>v. v \<noteq> [] \<and> ParseDuration v = None) [Interval g, IdleTimeout g]
         then Inl ''chain proxy group duration is invalid''
         else if group_type g = ''selector'' \<and> (URL g \<noteq> [] \<or> Interval g \<noteq> [] \<or> IdleTimeout g \<noteq> [] \<or> Tolerance g \<noteq> 0)
         then Inl ''chain selector contains URL-test-only options''
         else Inr g)"

text \<open>What a name of the document stands for; \<open>InvalidSource\<close> carries a reason.\<close>

datatype chainSource = NodeSource nat | GroupSource NodeChainGroup | DirectSource | InvalidSource string

definition addSource :: "string \<times> chainSource \<Rightarrow> (string \<times> chainSource) list \<Rightarrow> (string \<times> chainSource) list" where
  "addSource entry sources =
     (case entry of (name, source) \<Rightarrow>
        if name = [] then sources
        else map_put name (if has_key sources name then InvalidSource ''chain dependency name is ambiguous'' else source) sources)"

definition group_source :: "(rat \<Rightarrow> string) \<Rightarrow> (goval \<Rightarrow> string) \<Rightarrow> bool \<Rightarrow> gomap \<Rightarrow> string \<times> chainSource" where
  "group_source ff sprint clash raw =
     (getString ff sprint raw (if clash then ''name'' else ''tag''),
      case normalizeChainGroup ff sprint raw clash of Inl reason \<Rightarrow> InvalidSource reason | Inr g \<Rightarrow> GroupSource g)"

definition chain_sources ::
  "(rat \<Rightarrow> string) \<Rightarrow> (goval \<Rightarrow> string) \<Rightarrow> ParsedNode list \<Rightarrow> gomap list \<Rightarrow> string list \<Rightarrow> bool \<Rightarrow>
   (string \<times> chainSource) list" where
  "chain_sources ff sprint nodes groups directNames clash =
     fold addSource
       (map (\<lambda>(i, n). (p_Name n, NodeSource i)) (enumerate 0 nodes) @ map (\<lambda>name. (name, DirectSource)) directNames @
        map (group_source ff sprint clash) groups) []"

section \<open>Chain metadata as JSON\<close>

text \<open>
  \<^verbatim>\<open>json.Marshal\<close> of the metadata, as a later \<^verbatim>\<open>json.Unmarshal\<close> into a map reads it: the fields marked
  \<^verbatim>\<open>omitempty\<close> are left out when they have their zero value, and a number comes back as a \<^verbatim>\<open>float64\<close>.
  The keys are listed in byte order.
\<close>

definition opt_string :: "string \<Rightarrow> string \<Rightarrow> gomap" where
  "opt_string k s = (if s = [] then [] else [(k, VStr s)])"

definition encode_group :: "NodeChainGroup \<Rightarrow> goval" where
  "encode_group g = VMap
     (opt_string ''default'' (Default g) @ [(''id'', VStr (ID g))] @ opt_string ''idle_timeout'' (IdleTimeout g) @
      (if InterruptExistConnections g then [(''interrupt_exist_connections'', VBool True)] else []) @
      opt_string ''interval'' (Interval g) @ opt_string ''name'' (group_name g) @
      [(''outbounds'', VList (map VStr (Outbounds g)))] @
      (if Tolerance g = 0 then [] else [(''tolerance'', VFloat (of_int (Tolerance g)))]) @
      [(''type'', VStr (group_type g))] @ opt_string ''url'' (URL g))"

definition encode_chain :: "NodeChain \<Rightarrow> goval" where
  "encode_chain c = VMap
     ([(''detour'', VStr (Detour c))] @ (if Groups c = [] then [] else [(''groups'', VList (map encode_group (Groups c)))]) @
      [(''identity'', VStr (Identity c))])"

lemmas json_fold = EqualFold_def fold_case.simps lower_byte_def

lemma group_field_keys:
  "group_field ff g ''default'' v = map_option (\<lambda>s. g\<lparr>Default := s\<rparr>) (decode_string (Default g) v)"
  "group_field ff g ''id'' v = map_option (\<lambda>s. g\<lparr>ID := s\<rparr>) (decode_string (ID g) v)"
  "group_field ff g ''idle_timeout'' v = map_option (\<lambda>s. g\<lparr>IdleTimeout := s\<rparr>) (decode_string (IdleTimeout g) v)"
  "group_field ff g ''interrupt_exist_connections'' v =
     map_option (\<lambda>b. g\<lparr>InterruptExistConnections := b\<rparr>) (decode_bool (InterruptExistConnections g) v)"
  "group_field ff g ''interval'' v = map_option (\<lambda>s. g\<lparr>Interval := s\<rparr>) (decode_string (Interval g) v)"
  "group_field ff g ''name'' v = map_option (\<lambda>s. g\<lparr>group_name := s\<rparr>) (decode_string (group_name g) v)"
  "group_field ff g ''outbounds'' v =
     map_option (\<lambda>s. g\<lparr>Outbounds := s\<rparr>) (decode_slice decode_string [] (Outbounds g) v)"
  "group_field ff g ''tolerance'' v = map_option (\<lambda>i. g\<lparr>Tolerance := i\<rparr>) (decode_int ff (Tolerance g) v)"
  "group_field ff g ''type'' v = map_option (\<lambda>s. g\<lparr>group_type := s\<rparr>) (decode_string (group_type g) v)"
  "group_field ff g ''url'' v = map_option (\<lambda>s. g\<lparr>URL := s\<rparr>) (decode_string (URL g) v)"
  by (simp_all add: group_field_def json_fold)

lemma chain_field_keys:
  "chain_field ff c ''detour'' v = map_option (\<lambda>s. c\<lparr>Detour := s\<rparr>) (decode_string (Detour c) v)"
  "chain_field ff c ''groups'' v =
     map_option (\<lambda>s. c\<lparr>Groups := s\<rparr>) (decode_slice (decode_struct (group_field ff)) empty_group (Groups c) v)"
  "chain_field ff c ''identity'' v = map_option (\<lambda>s. c\<lparr>Identity := s\<rparr>) (decode_string (Identity c) v)"
  by (simp_all add: chain_field_def json_fold)

lemma decode_pairs_append:
  "decode_pairs f r (xs @ ys) = (case decode_pairs f r xs of None \<Rightarrow> None | Some r' \<Rightarrow> decode_pairs f r' ys)"
  by (induction xs arbitrary: r) (auto split: option.splits)

lemma decode_strings: "decode_items decode_string [] [] (map VStr ss) = Some ss"
  by (induction ss) auto

lemma decode_opt_string:
  "decode_pairs f r (opt_string k s) = (if s = [] then Some r else f r k (VStr s))"
  by (auto simp: opt_string_def split: option.splits)

definition small_tolerance :: "NodeChainGroup \<Rightarrow> bool" where
  "small_tolerance g \<longleftrightarrow> 0 \<le> Tolerance g \<and> Tolerance g \<le> 65535"

lemma float_f_int: "\<bar>i\<bar> < 10 ^ 15 \<Longrightarrow> float_f ff (of_int i) = show_int i"
  by (simp add: float_f_def)

lemma decode_tolerance:
  assumes "small_tolerance g"
  shows "decode_int ff old (VFloat (of_int (Tolerance g))) = Some (Tolerance g)"
proof -
  have "0 \<le> Tolerance g" "Tolerance g \<le> 65535" using assms by (simp_all add: small_tolerance_def)
  then have "float_f ff (of_int (Tolerance g)) = show_nat (nat (Tolerance g))"
    by (simp add: float_f_int show_int_def)
  moreover have "Atoi (show_nat (nat (Tolerance g))) = (Tolerance g, True)"
    using \<open>0 \<le> Tolerance g\<close> \<open>Tolerance g \<le> 65535\<close> by (subst Atoi_show_nat) auto
  ultimately show ?thesis by simp
qed

lemma sorted_group_keys: "encode_group g = VMap m \<Longrightarrow> sorted (map fst m)"
  by (auto simp: encode_group_def opt_string_def)

lemma decode_encode_group:
  assumes "small_tolerance g"
  shows "decode_struct (group_field ff) empty_group (encode_group g) = Some g"
proof -
  have "decode_struct (group_field ff) empty_group (encode_group g) =
      (case encode_group g of VMap m \<Rightarrow> decode_pairs (group_field ff) empty_group m | _ \<Rightarrow> None)"
    using sorted_group_keys [of g] by (simp add: encode_group_def sorted_sort_id sort_key_id_if_sorted)
  also have "\<dots> = Some g"
    using decode_tolerance [OF assms, of ff]
    by (cases g) (simp add: encode_group_def decode_pairs_append decode_opt_string group_field_keys decode_strings empty_group_def)
  finally show ?thesis .
qed

lemma decode_groups:
  "list_all small_tolerance gs \<Longrightarrow>
   decode_items (decode_struct (group_field ff)) empty_group [] (map encode_group gs) = Some gs"
  by (induction gs) (auto simp: decode_encode_group)

lemma decode_encode_chain:
  assumes "list_all small_tolerance (Groups c)" "Detour c \<noteq> []" "Identity c \<noteq> []"
  shows "DecodeNodeChain ff (map_del ''detour'' (map_put NodeChainMetadataKey (encode_chain c) m)) = Inr (Some c)"
proof -
  have "decode_struct (chain_field ff) \<lparr>Detour = [], Identity = [], Groups = []\<rparr> (encode_chain c) = Some c"
    using decode_groups [OF assms(1), of ff]
    by (cases c) (simp add: encode_chain_def chain_field_keys decode_pairs_append)
  with assms show ?thesis by (simp add: DecodeNodeChain_def NodeChainMetadataKey_def)
qed

section \<open>Identities of groups\<close>

text \<open>
  The JSON text of a string, with the escapes of \<^verbatim>\<open>encoding/json\<close>; strings from a decoded document are valid
  UTF-8, so that bytes from \<open>0x80\<close> on are copied, apart from the line separators U+2028 and U+2029.
\<close>

definition json_escape :: "char \<Rightarrow> string" where
  "json_escape c =
     (if c = CHR 0x22 \<or> c = CHR 0x5C then [CHR 0x5C, c]
      else if c = CHR 0x08 then [CHR 0x5C, CHR ''b''] else if c = CHR 0x0C then [CHR 0x5C, CHR ''f'']
      else if c = CHR 0x0A then [CHR 0x5C, CHR ''n''] else if c = CHR 0x0D then [CHR 0x5C, CHR ''r'']
      else if c = CHR 0x09 then [CHR 0x5C, CHR ''t'']
      else if of_char c < (32::nat) \<or> c = CHR ''<'' \<or> c = CHR ''>'' \<or> c = CHR ''&''
      then CHR 0x5C # ''u00'' @ hex_EncodeToString [c]
      else [c])"

fun json_bytes :: "string \<Rightarrow> string" where
  "json_bytes [] = []"
| "json_bytes (c # s) =
     (if c = CHR 0xE2 \<and> prefix [CHR 0x80, CHR 0xA8] s then CHR 0x5C # ''u2028'' @ json_bytes (tl (tl s))
      else if c = CHR 0xE2 \<and> prefix [CHR 0x80, CHR 0xA9] s then CHR 0x5C # ''u2029'' @ json_bytes (tl (tl s))
      else json_escape c @ json_bytes s)"

definition json_string :: "string \<Rightarrow> string" where
  "json_string s = [CHR 0x22] @ json_bytes s @ [CHR 0x22]"

definition json_field :: "string \<Rightarrow> string \<Rightarrow> string" where
  "json_field k v = json_string k @ '':'' @ v"

definition json_opt :: "string \<Rightarrow> string \<Rightarrow> string list" where
  "json_opt k s = (if s = [] then [] else [json_field k (json_string s)])"

text \<open>\<^verbatim>\<open>json.Marshal\<close> of a group, fields in the order of the struct.\<close>

definition json_group :: "NodeChainGroup \<Rightarrow> string" where
  "json_group g = ''{'' @ join_with '',''
     ([json_field ''id'' (json_string (ID g))] @ json_opt ''name'' (group_name g) @
      [json_field ''type'' (json_string (group_type g)),
       json_field ''outbounds'' (''['' @ join_with '','' (map json_string (Outbounds g)) @ '']'')] @
      json_opt ''default'' (Default g) @ json_opt ''url'' (URL g) @ json_opt ''interval'' (Interval g) @
      (if Tolerance g = 0 then [] else [json_field ''tolerance'' (show_int (Tolerance g))]) @
      json_opt ''idle_timeout'' (IdleTimeout g) @
      (if InterruptExistConnections g then [json_field ''interrupt_exist_connections'' ''true''] else [])) @ ''}''"

definition short_sum :: "string \<Rightarrow> string" where
  "short_sum s = take 16 (hex_EncodeToString (Sum256 s))"

definition lookup_str :: "(string \<times> string) list \<Rightarrow> string \<Rightarrow> string" where
  "lookup_str m k = (case map_of m k of None \<Rightarrow> [] | Some v \<Rightarrow> v)"

definition group_fingerprint :: "(string \<times> string) list \<Rightarrow> NodeChainGroup \<Rightarrow> string" where
  "group_fingerprint ids g = NodeChainGroupPrefix @ short_sum (json_group
     (g\<lparr>group_name := [], Outbounds := map (lookup_str ids) (Outbounds g), Default := lookup_str ids (Default g)\<rparr>))"

definition group_id :: "string \<Rightarrow> string \<Rightarrow> string" where
  "group_id name fingerprint = NodeChainGroupPrefix @ short_sum (name @ [CHR 0x00] @ fingerprint)"

end
