(* ===== verification/Import_Base.thy ===== *)
theory Import_Base
  imports Chain_Document Outbound_Tags
begin

text \<open>
  What the parsers of subscriptions share (\<^verbatim>\<open>parser/helpers.go\<close>, \<^verbatim>\<open>protocol_support.go\<close>,
  \<^verbatim>\<open>clash_options.go\<close>): reading and copying fields, base64, the reasons of unsupported nodes, the
  Shadowsocks plugin check, and what a configuration looks like after it was stored as JSON.
\<close>

section \<open>Parameters\<close>

text \<open>
  The digits of floating-point numbers (\<open>i_ff\<close>) and \<^verbatim>\<open>fmt.Sprint\<close> of other values (\<open>i_sprint\<close>); the JSON text of a
  map (\<open>i_text\<close>) and the digest of \<open>StableUID\<close> (\<open>i_digest\<close>); quotation by \<^verbatim>\<open>%q\<close> (\<open>i_quote\<close>)
  and the text of an error of the plugin options (\<open>i_sip_text\<close>); what
  \<^verbatim>\<open>boolOrString\<close> answers on an integer of a YAML document, whose Go type the YAML package chooses
  (\<open>i_int_true\<close>: \<open>i \<noteq> 0\<close> for an \<^verbatim>\<open>int\<close>, false for the other types); and package \<^verbatim>\<open>encoding/pem\<close> for a single
  block of type \<^verbatim>\<open>ECH CONFIGS\<close> (\<open>i_pem_ok\<close>: the text is one such block; \<open>i_pem\<close>: encoding of bytes).
\<close>

datatype ss_error =
    TLSWrapped
  | InvalidTLSText
  | TransportNeedsPlugin string
  | PluginRefused sip_error

record import_env =
  i_ff :: "rat \<Rightarrow> string"
  i_sprint :: "goval \<Rightarrow> string"
  i_text :: "gomap \<Rightarrow> string"
  i_digest :: "gomap \<Rightarrow> string"
  i_quote :: "string \<Rightarrow> string"
  i_sip_text :: "sip_error \<Rightarrow> string"
  i_int_true :: "int \<Rightarrow> bool"
  i_pem_ok :: "string \<Rightarrow> bool"
  i_pem :: "string \<Rightarrow> string"

definition get_str :: "import_env \<Rightarrow> gomap \<Rightarrow> string \<Rightarrow> string" where
  "get_str e m key = getString (i_ff e) (i_sprint e) m key"

section \<open>Reading and writing fields\<close>

fun firstNonEmpty :: "string list \<Rightarrow> string" where
  "firstNonEmpty [] = []"
| "firstNonEmpty (v # vs) = (if TrimSpace v \<noteq> [] then TrimSpace v else firstNonEmpty vs)"

fun firstNonNil :: "goval list \<Rightarrow> goval" where
  "firstNonNil [] = VNil"
| "firstNonNil (v # vs) = (if v \<noteq> VNil then v else firstNonNil vs)"

definition put_when :: "bool \<Rightarrow> string \<Rightarrow> goval \<Rightarrow> gomap \<Rightarrow> gomap" where
  "put_when b k v m = (if b then map_put k v m else m)"

definition sprint_item :: "import_env \<Rightarrow> goval \<Rightarrow> string" where
  "sprint_item e v = (case v of VStr s \<Rightarrow> s | _ \<Rightarrow> i_sprint e v)"

definition stringList :: "import_env \<Rightarrow> goval \<Rightarrow> string list" where
  "stringList e v =
     (case v of
        VStr s \<Rightarrow> (if TrimSpace s = [] then [] else [TrimSpace s])
      | VStrList ss \<Rightarrow> ss
      | VList vs \<Rightarrow> filter (\<lambda>s. s \<noteq> []) (map (\<lambda>x. TrimSpace (sprint_item e x)) vs)
      | _ \<Rightarrow> [])"

definition copyClashField :: "gomap \<Rightarrow> string \<Rightarrow> gomap \<Rightarrow> gomap" where
  "copyClashField src key dst = put_when (map_get src key \<noteq> VNil) key (map_get src key) dst"

fun copyFirstClashField :: "gomap \<Rightarrow> string \<Rightarrow> string list \<Rightarrow> gomap \<Rightarrow> gomap" where
  "copyFirstClashField src target [] dst = dst"
| "copyFirstClashField src target (k # ks) dst =
     (if map_get src k \<noteq> VNil then map_put target (map_get src k) dst else copyFirstClashField src target ks dst)"

fun copyFirstClashListField :: "import_env \<Rightarrow> gomap \<Rightarrow> string \<Rightarrow> string list \<Rightarrow> gomap \<Rightarrow> gomap" where
  "copyFirstClashListField e src target [] dst = dst"
| "copyFirstClashListField e src target (k # ks) dst =
     (if stringList e (map_get src k) \<noteq> [] then map_put target (VStrList (stringList e (map_get src k))) dst
      else copyFirstClashListField e src target ks dst)"

text \<open>\<^verbatim>\<open>toStringValue\<close> on the entries of a header map.\<close>

definition stringMap :: "goval \<Rightarrow> gomap" where
  "stringMap v =
     (case v of
        VMap m \<Rightarrow> map (\<lambda>(k, x). (k, VStr (as_string x))) m
      | VStrMap m \<Rightarrow> map (\<lambda>(k, s). (k, VStr s)) m
      | _ \<Rightarrow> [])"

text \<open>
  A configuration as \<^verbatim>\<open>json.Unmarshal\<close> reads it back from \<^verbatim>\<open>json.Marshal\<close>: numbers are \<^verbatim>\<open>float64\<close> (exact for
  integers up to \<open>2 ^ 53\<close>), slices and maps have dynamic elements.
\<close>

fun json_value :: "goval \<Rightarrow> goval" where
  "json_value VNil = VNil"
| "json_value (VBool b) = VBool b"
| "json_value (VInt i) = VFloat (of_int i)"
| "json_value (VFloat r) = VFloat r"
| "json_value (VStr s) = VStr s"
| "json_value (VStrList ss) = VList (map VStr ss)"
| "json_value (VList vs) = VList (map json_value vs)"
| "json_value (VMap m) = VMap (map (\<lambda>(k, v). (k, json_value v)) m)"
| "json_value (VMapList ms) = VList (map (\<lambda>m. VMap (map (\<lambda>(k, v). (k, json_value v)) m)) ms)"
| "json_value (VStrMap m) = VMap (map (\<lambda>(k, s). (k, VStr s)) m)"
| "json_value (VStrMapList ms) = VList (map (\<lambda>m. VMap (map (\<lambda>(k, s). (k, VStr s)) m)) ms)"

definition json_map :: "gomap \<Rightarrow> gomap" where
  "json_map m = map (\<lambda>(k, v). (k, json_value v)) m"

section \<open>Base64\<close>

text \<open>
  \<^verbatim>\<open>DecodeString\<close> of the standard and the URL alphabet, with and without padding: line breaks are skipped,
  and the spare bits of the last group are ignored.
\<close>

definition b64_alphabet :: "bool \<Rightarrow> string" where
  "b64_alphabet url = ''ABCDEFGHIJKLMNOPQRSTUVWXYZabcdefghijklmnopqrstuvwxyz0123456789'' @ (if url then ''-_'' else ''+/'')"

definition b64_value :: "bool \<Rightarrow> char \<Rightarrow> nat option" where
  "b64_value url c = find (\<lambda>i. b64_alphabet url ! i = c) [0..<64]"

fun b64_bytes :: "nat list \<Rightarrow> string option" where
  "b64_bytes (a # b # c # d # r) =
     map_option (\<lambda>s. char_of (a * 4 + b div 16) # char_of (b mod 16 * 16 + c div 4) # char_of (c mod 4 * 64 + d) # s) (b64_bytes r)"
| "b64_bytes [a, b, c] = Some [char_of (a * 4 + b div 16), char_of (b mod 16 * 16 + c div 4)]"
| "b64_bytes [a, b] = Some [char_of (a * 4 + b div 16)]"
| "b64_bytes [a] = None"
| "b64_bytes [] = Some []"

definition b64_decode :: "bool \<Rightarrow> bool \<Rightarrow> string \<Rightarrow> string option" where
  "b64_decode url padded s =
     (let clean = filter (\<lambda>c. c \<noteq> CHR 0x0A \<and> c \<noteq> CHR 0x0D) s;
          body = (if padded then takeWhile (\<lambda>c. c \<noteq> CHR ''='') clean else clean);
          pad = drop (length body) clean
      in if padded \<and> (length clean mod 4 \<noteq> 0 \<or> length pad > 2 \<or> list_ex (\<lambda>c. c \<noteq> CHR ''='') pad) then None
         else case all_some (map (b64_value url) body) of None \<Rightarrow> None | Some vs \<Rightarrow> b64_bytes vs)"

text \<open>The encodings the parsers try, in their order: standard and URL alphabet, padded before raw.\<close>

definition b64_any :: "(string \<Rightarrow> bool) \<Rightarrow> string \<Rightarrow> string option" where
  "b64_any ok s = find ok (map the (filter (\<lambda>r. r \<noteq> None)
     [b64_decode False True s, b64_decode False False s, b64_decode True True s, b64_decode True False s]))"

section \<open>Unsupported nodes\<close>

definition UnsupportedNodeProtocolReason :: "string \<Rightarrow> string" where
  "UnsupportedNodeProtocolReason nodeType =
     (let t = normalizeProtocolType nodeType in
      if IsSupportedNodeProtocol t then []
      else if t = ''shadowtls''
      then ''Standalone ShadowTLS is a transport tunnel; Ackwrap requires a chained node model to use it as a proxy''
      else if t = ''tor'' then ''Tor is a managed process outbound, not a remote subscription node''
      else if t \<in> set [''bridge'', ''direct'', ''block'', ''dns'', ''selector'', ''urltest'', ''fallback'', ''loadbalance'']
      then ''sing-box '' @ t @ '' is an internal outbound, not a subscription node''
      else if t \<in> set [''openconnect'', ''openvpn'', ''openvpn-client'', ''openvpn-server'', ''tailscale'']
      then ''sing-box '' @ t @ '' is an endpoint and requires a dedicated endpoint model''
      else if t = ''mieru'' then ''Mieru is not included in the bundled sing-box core''
      else ''protocol '' @ TrimSpace t @ '' is not supported by Ackwrap'')"

section \<open>Shadowsocks plugins\<close>

text \<open>The changes to the map stay when the function returns an error.\<close>

definition ss_tls_field :: "gomap \<Rightarrow> gomap \<times> ss_error option" where
  "ss_tls_field cfg =
     (case map_of cfg ''tls'' of
        None \<Rightarrow> (cfg, None)
      | Some v \<Rightarrow>
         (case v of
            VNil \<Rightarrow> (map_del ''tls'' cfg, None)
          | VBool b \<Rightarrow> (if b then (cfg, Some TLSWrapped) else (map_del ''tls'' cfg, None))
          | VStr s \<Rightarrow>
              (let t = ToLower (TrimSpace s) in
               if t = [] \<or> t = ''0'' \<or> t = ''false'' then (map_del ''tls'' cfg, None)
               else if t = ''1'' \<or> t = ''true'' then (cfg, Some TLSWrapped)
               else (cfg, Some InvalidTLSText))
          | _ \<Rightarrow> (cfg, Some TLSWrapped)))"

definition normalizeShadowsocksPlugin :: "import_env \<Rightarrow> gomap \<Rightarrow> gomap \<times> ss_error option" where
  "normalizeShadowsocksPlugin e cfg =
     (case ss_tls_field cfg of
        (c1, Some err) \<Rightarrow> (c1, Some err)
      | (c1, None) \<Rightarrow>
         (let plugin = TrimSpace (get_str e c1 ''plugin''); network = ToLower (TrimSpace (get_str e c1 ''network'')) in
          if network \<noteq> [] \<and> network \<noteq> ''tcp'' \<and> network \<noteq> ''udp'' then (c1, Some (TransportNeedsPlugin network))
          else case NormalizeShadowsocksSIP003Plugin plugin (map_get c1 ''plugin_opts'') of
            Inl err \<Rightarrow> (c1, Some (PluginRefused err))
          | Inr (p, opts) \<Rightarrow>
              if p = [] then (map_del ''plugin_opts'' (map_del ''plugin'' c1), None)
              else (let c2 = map_put ''plugin'' (VStr p) c1
                    in (if opts = [] then map_del ''plugin_opts'' c2 else map_put ''plugin_opts'' (VStr opts) c2, None))))"

definition ss_error_text :: "import_env \<Rightarrow> ss_error \<Rightarrow> string" where
  "ss_error_text e err =
     (case err of
        TLSWrapped \<Rightarrow> ''TLS-wrapped Shadowsocks is not supported by the current sing-box version''
      | InvalidTLSText \<Rightarrow> ''invalid Shadowsocks TLS value''
      | TransportNeedsPlugin network \<Rightarrow>
          ''shadowsocks transport '' @ i_quote e network @ '' must be configured through an explicit SIP003 plugin''
      | PluginRefused sip \<Rightarrow> i_sip_text e sip)"

end
