(* ===== verification/Go_Url.thy ===== *)
theory Go_Url
  imports Import_Base
begin

text \<open>
  What the share links use of the Go packages \<^verbatim>\<open>net/url\<close>, \<^verbatim>\<open>net\<close> and \<^verbatim>\<open>encoding/base64\<close> (as of Go 1.26, the version
  \<^verbatim>\<open>go.mod\<close> names): escaping in the different parts of a URL, parsing and printing URLs and queries, host
  and port, and base64 encoding, with the round trips between them.
\<close>

section \<open>Strings\<close>

text \<open>The text before and after the last occurrence of a byte.\<close>

definition split_last :: "char \<Rightarrow> string \<Rightarrow> (string \<times> string) option" where
  "split_last sep s =
     (case dropWhile (\<lambda>c. c \<noteq> sep) (rev s) of
        [] \<Rightarrow> None
      | _ # r \<Rightarrow> Some (rev r, rev (takeWhile (\<lambda>c. c \<noteq> sep) (rev s))))"

lemma while_word: "sep \<notin> set r \<Longrightarrow> dropWhile (\<lambda>c. c \<noteq> sep) (r @ sep # u) = sep # u"
  "sep \<notin> set r \<Longrightarrow> takeWhile (\<lambda>c. c \<noteq> sep) (r @ sep # u) = r"
  by (induction r) auto

lemma while_none: "sep \<notin> set r \<Longrightarrow> dropWhile (\<lambda>c. c \<noteq> sep) r = []" "sep \<notin> set r \<Longrightarrow> takeWhile (\<lambda>c. c \<noteq> sep) r = r"
  by (induction r) auto

lemma split_last_word: "sep \<notin> set t \<Longrightarrow> split_last sep (s @ sep # t) = Some (s, t)"
  using while_word [of sep "rev t" "rev s"] by (simp add: split_last_def)

lemma split_last_none: "sep \<notin> set s \<Longrightarrow> split_last sep s = None"
  by (simp add: split_last_def while_none del: dropWhile_eq_Nil_conv)

lemma split_once_none: "sep \<notin> set s \<Longrightarrow> split_once sep s = (s, None)"
  by (simp add: split_once_def while_none del: dropWhile_eq_Nil_conv)

section \<open>Escaping\<close>

datatype url_part = encodePath | encodePathSegment | encodeHost | encodeZone | encodeUserPassword | encodeQueryComponent | encodeFragment

definition is_alnum :: "char \<Rightarrow> bool" where
  "is_alnum c \<longleftrightarrow> is_digit c \<or> CHR ''a'' \<le> lower_byte c \<and> lower_byte c \<le> CHR ''z''"

definition shouldEscape :: "url_part \<Rightarrow> char \<Rightarrow> bool" where
  "shouldEscape p c \<longleftrightarrow>
     \<not> (is_alnum c \<or> c \<in> set ''-_.~'' \<or>
        p \<in> {encodeHost, encodeZone} \<and> c \<in> set ([CHR 0x22, CHR 0x27] @ ''!$&()*+,;=:[]<>'') \<or>
        p = encodePath \<and> c \<in> set ''$&+,/:;=@'' \<or>
        p = encodePathSegment \<and> c \<in> set ''$&+:=@'' \<or>
        p = encodeUserPassword \<and> c \<in> set ''$&+,;='' \<or>
        p = encodeFragment \<and> c \<in> set ''$&+,/:;=?@!()*'')"

definition upper_hex :: "nat \<Rightarrow> char" where
  "upper_hex n = (if n < 10 then char_of (48 + n) else char_of (55 + n))"

definition escape_url_byte :: "url_part \<Rightarrow> char \<Rightarrow> string" where
  "escape_url_byte p c =
     (if p = encodeQueryComponent \<and> c = CHR '' '' then ''+''
      else if shouldEscape p c then [CHR ''%'', upper_hex (of_char c div 16), upper_hex (of_char c mod 16)]
      else [c])"

definition url_escape :: "url_part \<Rightarrow> string \<Rightarrow> string" where
  "url_escape p s = concat (map (escape_url_byte p) s)"

definition unhex :: "char \<Rightarrow> nat" where
  "unhex c = (if is_digit c then of_char c - 48 else if CHR ''a'' \<le> c then of_char c - 87 else of_char c - 55)"

definition hex_pair :: "char \<Rightarrow> char \<Rightarrow> char" where
  "hex_pair a b = char_of (16 * unhex a + unhex b)"

text \<open>Whether the escape \<open>%ab\<close> may stand in the part: hosts escape only bytes outside ASCII, and \<open>%\<close> itself.\<close>

definition escape_allowed :: "url_part \<Rightarrow> char \<Rightarrow> char \<Rightarrow> bool" where
  "escape_allowed p a b \<longleftrightarrow> is_hex a \<and> is_hex b \<and>
     (p = encodeHost \<longrightarrow> 8 \<le> unhex a \<or> [a, b] = ''25'') \<and>
     (p = encodeZone \<longrightarrow> [a, b] = ''25'' \<or> hex_pair a b = CHR '' '' \<or> \<not> shouldEscape encodeHost (hex_pair a b))"

fun url_unescape :: "url_part \<Rightarrow> string \<Rightarrow> string option" where
  "url_unescape p [] = Some []"
| "url_unescape p (c # s) =
     (if c = CHR ''%'' then
        (case s of
           a # b # r \<Rightarrow> if escape_allowed p a b then map_option (\<lambda>t. hex_pair a b # t) (url_unescape p r) else None
         | _ \<Rightarrow> None)
      else if p \<in> {encodeHost, encodeZone} \<and> of_char c < (128 :: nat) \<and> shouldEscape p c then None
      else map_option (\<lambda>t. (if p = encodeQueryComponent \<and> c = CHR ''+'' then CHR '' '' else c) # t) (url_unescape p s))"

declare url_unescape.simps [simp del]

section \<open>Queries\<close>

type_synonym url_values = "(string \<times> string list) list"

definition value_list :: "url_values \<Rightarrow> string \<Rightarrow> string list" where
  "value_list m k = (case map_of m k of None \<Rightarrow> [] | Some vs \<Rightarrow> vs)"

definition value_add :: "string \<Rightarrow> string \<Rightarrow> url_values \<Rightarrow> url_values" where
  "value_add k v m = map_put k (value_list m k @ [v]) m"

definition value_get :: "url_values \<Rightarrow> string \<Rightarrow> string" where
  "value_get m k = (case value_list m k of [] \<Rightarrow> [] | v # _ \<Rightarrow> v)"

text \<open>\<^verbatim>\<open>url.ParseQuery\<close> without its error: pairs that cannot be read are dropped, and a query of more than ten
  thousand pairs is not read at all.\<close>

definition query_pair :: "string \<Rightarrow> url_values \<Rightarrow> url_values" where
  "query_pair pair m =
     (if pair = [] \<or> CHR '';'' \<in> set pair then m
      else let (k, v) = split_once (CHR ''='') pair in
        (case (url_unescape encodeQueryComponent k, url_unescape encodeQueryComponent (case v of None \<Rightarrow> [] | Some t \<Rightarrow> t)) of
           (Some key, Some val) \<Rightarrow> value_add key val m
         | _ \<Rightarrow> m))"

definition parse_query :: "string \<Rightarrow> url_values" where
  "parse_query query =
     (let pairs = split_char (CHR ''&'') query in if 10000 < length pairs then [] else fold query_pair pairs [])"

text \<open>\<^verbatim>\<open>Values.Encode\<close>.\<close>

definition values_encode :: "url_values \<Rightarrow> string" where
  "values_encode m =
     join_with ''&'' (concat (map (\<lambda>(k, vs). map (\<lambda>v. url_escape encodeQueryComponent k @ ''='' @ url_escape encodeQueryComponent v) vs) (sort_key fst m)))"

section \<open>Hosts and ports\<close>

definition valid_port :: "string \<Rightarrow> bool" where
  "valid_port s \<longleftrightarrow> (case s of [] \<Rightarrow> True | c # r \<Rightarrow> c = CHR '':'' \<and> list_all is_digit r)"

text \<open>\<^verbatim>\<open>net.JoinHostPort\<close> and \<^verbatim>\<open>net.SplitHostPort\<close>.\<close>

definition JoinHostPort :: "string \<Rightarrow> string \<Rightarrow> string" where
  "JoinHostPort host port = (if CHR '':'' \<in> set host then ''['' @ host @ '']:'' @ port else host @ '':'' @ port)"

definition split_host_port :: "string \<Rightarrow> (string \<times> string) option" where
  "split_host_port hp =
     (case split_last (CHR '':'') hp of
        None \<Rightarrow> None
      | Some (h, port) \<Rightarrow>
          if prefix ''['' hp then
            (case split_once (CHR '']'') (tl hp) of
               (_, None) \<Rightarrow> None
             | (host, Some rest) \<Rightarrow>
                 if rest = CHR '':'' # port \<and> CHR ''['' \<notin> set (tl hp) \<and> CHR '']'' \<notin> set rest then Some (host, port) else None)
          else if CHR '':'' \<in> set h \<or> CHR ''['' \<in> set hp \<or> CHR '']'' \<in> set hp then None
          else Some (h, port))"

text \<open>\<^verbatim>\<open>URL.Hostname\<close> and \<^verbatim>\<open>URL.Port\<close> on the host field.\<close>

definition url_host_port :: "string \<Rightarrow> string \<times> string" where
  "url_host_port hp =
     (let (h, port) = (case split_last (CHR '':'') hp of
            Some (a, b) \<Rightarrow> if list_all is_digit b then (a, b) else (hp, [])
          | None \<Rightarrow> (hp, []))
      in (if prefix ''['' h \<and> suffix '']'' h then butlast (tl h) else h, port))"

section \<open>URLs\<close>

text \<open>The path of a link is checked and not used.\<close>

record go_url =
  u_scheme :: string
  u_user :: "(string \<times> string option) option"
  u_host :: string
  u_query :: string
  u_fragment :: string

definition no_url :: go_url where
  "no_url = \<lparr>u_scheme = [], u_user = None, u_host = [], u_query = [], u_fragment = []\<rparr>"

text \<open>\<^verbatim>\<open>getScheme\<close>: \<open>None\<close> for a missing scheme before a colon.\<close>

definition url_scheme :: "string \<Rightarrow> (string \<times> string) option" where
  "url_scheme s =
     (let w = takeWhile (\<lambda>c. is_alnum c \<or> c \<in> set ''+-.'') s; r = drop (length w) s in
      if w = [] then (if prefix '':'' r then None else Some ([], s))
      else if is_digit (hd w) \<or> hd w \<in> set ''+-.'' then Some ([], s)
      else if prefix '':'' r then Some (w, tl r) else Some ([], s))"

definition valid_userinfo :: "string \<Rightarrow> bool" where
  "valid_userinfo s \<longleftrightarrow> list_all (\<lambda>c. is_alnum c \<or> c \<in> set (CHR 0x27 # ''-._:~!$&()*+,;=%@'')) s"

text \<open>The text before the first occurrence of a pattern, and the rest from there on.\<close>

fun cut_before :: "string \<Rightarrow> string \<Rightarrow> string \<times> string" where
  "cut_before pat [] = ([], [])"
| "cut_before pat (c # s) = (if prefix pat (c # s) then ([], c # s) else case cut_before pat s of (a, b) \<Rightarrow> (c # a, b))"

text \<open>\<open>ip6\<close>: the text is an IPv6 address, with a zone or without (\<^verbatim>\<open>netip.ParseAddr\<close>).\<close>

definition url_parse_host :: "(string \<Rightarrow> bool) \<Rightarrow> string \<Rightarrow> string option" where
  "url_parse_host ip6 host =
     (if CHR ''['' \<in> set host then
        (if \<not> prefix ''['' host \<or> CHR ''['' \<in> set (tl host) then None
         else case split_last (CHR '']'') (tl host) of
           None \<Rightarrow> None
         | Some (name, port) \<Rightarrow>
             if \<not> valid_port port then None
             else case cut_before ''%25'' name of (a, b) \<Rightarrow>
               (case (url_unescape encodeHost a, url_unescape encodeZone b) of
                  (Some x, Some y) \<Rightarrow> if ip6 (x @ y) then Some (''['' @ x @ y @ '']'' @ port) else None
                | _ \<Rightarrow> None))
      else if valid_port (dropWhile (\<lambda>c. c \<noteq> CHR '':'') host) then url_unescape encodeHost host else None)"

definition url_parse_user :: "string \<Rightarrow> (string \<times> string option) option" where
  "url_parse_user s =
     (if \<not> valid_userinfo s then None
      else case split_once (CHR '':'') s of
        (u, None) \<Rightarrow> map_option (\<lambda>x. (x, None)) (url_unescape encodeUserPassword u)
      | (u, Some w) \<Rightarrow>
          (case (url_unescape encodeUserPassword u, url_unescape encodeUserPassword w) of
             (Some x, Some y) \<Rightarrow> Some (x, Some y)
           | _ \<Rightarrow> None))"

definition url_authority :: "(string \<Rightarrow> bool) \<Rightarrow> string \<Rightarrow> ((string \<times> string option) option \<times> string) option" where
  "url_authority ip6 s =
     (case split_last (CHR ''@'') s of
        None \<Rightarrow> map_option (\<lambda>h. (None, h)) (url_parse_host ip6 s)
      | Some (user, host) \<Rightarrow>
          (case (url_parse_host ip6 host, url_parse_user user) of
             (Some h, Some u) \<Rightarrow> Some (Some u, h)
           | _ \<Rightarrow> None))"

text \<open>The part of a URL before the fragment, after its scheme and query were taken off.\<close>

definition url_rest :: "(string \<Rightarrow> bool) \<Rightarrow> string \<Rightarrow> string \<Rightarrow> string \<Rightarrow> go_url option" where
  "url_rest ip6 scheme query rest =
     (let u = no_url\<lparr>u_scheme := scheme, u_query := query\<rparr> in
      if \<not> prefix ''/'' rest \<and> scheme \<noteq> [] then Some u
      else if \<not> prefix ''/'' rest \<and> CHR '':'' \<in> set (takeWhile (\<lambda>c. c \<noteq> CHR ''/'') rest) then None
      else if prefix ''//'' rest \<and> (scheme \<noteq> [] \<or> \<not> prefix ''///'' rest) then
        (let authority = takeWhile (\<lambda>c. c \<noteq> CHR ''/'') (drop 2 rest); path = dropWhile (\<lambda>c. c \<noteq> CHR ''/'') (drop 2 rest)
         in case (url_authority ip6 authority, url_unescape encodePath path) of
              (Some (user, host), Some _) \<Rightarrow> Some (u\<lparr>u_user := user, u_host := host\<rparr>)
            | _ \<Rightarrow> None)
      else if url_unescape encodePath rest = None then None else Some u)"

definition url_without_fragment :: "(string \<Rightarrow> bool) \<Rightarrow> string \<Rightarrow> go_url option" where
  "url_without_fragment ip6 s =
     (if list_ex (\<lambda>c. of_char c < (32 :: nat) \<or> c = CHR 0x7F) s then None
      else if s = ''*'' then Some no_url
      else case url_scheme s of
        None \<Rightarrow> None
      | Some (scheme, rest) \<Rightarrow>
          (case split_once (CHR ''?'') rest of
             (r, q) \<Rightarrow> url_rest ip6 (ToLower scheme) (case q of None \<Rightarrow> [] | Some t \<Rightarrow> t) r))"

text \<open>\<^verbatim>\<open>url.Parse\<close>.\<close>

definition go_url_parse :: "(string \<Rightarrow> bool) \<Rightarrow> string \<Rightarrow> go_url option" where
  "go_url_parse ip6 s =
     (case split_once (CHR ''#'') s of
        (u, frag) \<Rightarrow>
          (case (url_without_fragment ip6 u, url_unescape encodeFragment (case frag of None \<Rightarrow> [] | Some t \<Rightarrow> t)) of
             (Some r, Some f) \<Rightarrow> Some (r\<lparr>u_fragment := f\<rparr>)
           | _ \<Rightarrow> None))"

text \<open>\<^verbatim>\<open>URL.String\<close> for a URL without path.\<close>

definition user_string :: "(string \<times> string option) option \<Rightarrow> string" where
  "user_string user =
     (case user of
        None \<Rightarrow> []
      | Some (u, w) \<Rightarrow> url_escape encodeUserPassword u @
          (case w of None \<Rightarrow> [] | Some x \<Rightarrow> '':'' @ url_escape encodeUserPassword x) @ ''@'')"

definition url_string :: "go_url \<Rightarrow> string" where
  "url_string u =
     u_scheme u @ ''://'' @ user_string (u_user u) @ url_escape encodeHost (u_host u) @
     (if u_query u = [] then [] else ''?'' @ u_query u) @
     (if u_fragment u = [] then [] else ''#'' @ url_escape encodeFragment (u_fragment u))"

section \<open>Base64 encoding\<close>

definition b64_char :: "bool \<Rightarrow> nat \<Rightarrow> char" where
  "b64_char url n = b64_alphabet url ! n"

fun b64_sextets :: "nat list \<Rightarrow> nat list" where
  "b64_sextets (a # b # c # r) = a div 4 # (a mod 4 * 16 + b div 16) # (b mod 16 * 4 + c div 64) # c mod 64 # b64_sextets r"
| "b64_sextets [a, b] = [a div 4, a mod 4 * 16 + b div 16, b mod 16 * 4]"
| "b64_sextets [a] = [a div 4, a mod 4 * 16]"
| "b64_sextets [] = []"

definition b64_raw :: "bool \<Rightarrow> string \<Rightarrow> string" where
  "b64_raw url s = map (b64_char url) (b64_sextets (map of_char s))"

definition withPadding :: "string \<Rightarrow> string" where
  "withPadding v = (if length v mod 4 = 0 then v else v @ replicate (4 - length v mod 4) (CHR ''=''))"

definition base64DecodeURLSafe :: "string \<Rightarrow> string option" where
  "base64DecodeURLSafe v =
     b64_decode False True (withPadding (map (\<lambda>c. if c = CHR ''_'' then CHR ''/'' else c) (map (\<lambda>c. if c = CHR ''-'' then CHR ''+'' else c) v)))"

definition decodeBase64 :: "string \<Rightarrow> string option" where
  "decodeBase64 txt =
     (let compact = filter (\<lambda>c. c \<notin> set [CHR 0x0A, CHR 0x0D, CHR '' '', CHR 0x09]) txt in
      if compact = [] then None
      else find (\<lambda>d. contains_str d ''://'')
        (map the (filter (\<lambda>r. r \<noteq> None) [b64_decode False True (withPadding compact), b64_decode True True (withPadding compact)])))"

section \<open>Round trips\<close>

lemma byte_less: "(of_char c :: nat) < 256"
  by (metis of_char_mod_256 mod_less_divisor zero_less_numeral)

lemma hex_digits:
  "list_all (\<lambda>n. is_hex (upper_hex n) \<and> unhex (upper_hex n) = n) [0..<16]"
  by code_simp

lemma upper_hex: assumes "n < 16" shows "is_hex (upper_hex n)" "unhex (upper_hex n) = n"
  using hex_digits assms by (auto simp: list_all_iff)

lemma hex_pair_byte: "hex_pair (upper_hex (of_char c div 16)) (upper_hex (of_char c mod 16)) = c"
proof -
  have "(of_char c :: nat) div 16 < 16" using byte_less [of c] by (simp add: less_mult_imp_div_less)
  then show ?thesis by (simp add: hex_pair_def upper_hex)
qed

lemma escape_char: "\<not> shouldEscape p c \<Longrightarrow> c \<noteq> CHR ''%''"
proof
  assume "c = CHR ''%''" and p: "\<not> shouldEscape p c"
  then have "\<not> shouldEscape p (CHR ''%'')" by simp
  moreover have "list_all (\<lambda>p. shouldEscape p (CHR ''%'')) [encodePath, encodePathSegment, encodeHost, encodeZone, encodeUserPassword, encodeQueryComponent, encodeFragment]"
    by code_simp
  ultimately show False by (cases p) simp_all
qed

text \<open>
  What was escaped for one part is read back in another, if the reader does not take a byte that was left
  alone for something else: a plus sign, which stands for a space in a query.
\<close>

lemma unescape_escape:
  assumes "q \<notin> {encodeHost, encodeZone}"
    and "p = encodeQueryComponent \<longrightarrow> q = encodeQueryComponent"
    and "q = encodeQueryComponent \<longrightarrow> p \<noteq> encodeQueryComponent \<longrightarrow> CHR ''+'' \<notin> set s"
  shows "url_unescape q (url_escape p s) = Some s"
  using assms(3)
proof (induction s)
  case Nil
  then show ?case by (simp add: url_escape_def url_unescape.simps)
next
  case (Cons c s)
  then have ih: "url_unescape q (url_escape p s) = Some s" by simp
  have split: "url_escape p (c # s) = escape_url_byte p c @ url_escape p s" by (simp add: url_escape_def)
  have byte: "(of_char c :: nat) div 16 < 16" "(of_char c :: nat) mod 16 < 16" using byte_less [of c] by (simp_all add: less_mult_imp_div_less)
  consider (space) "p = encodeQueryComponent" "c = CHR '' ''" | (escaped) "shouldEscape p c" "\<not> (p = encodeQueryComponent \<and> c = CHR '' '')"
    | (plain) "\<not> shouldEscape p c" "\<not> (p = encodeQueryComponent \<and> c = CHR '' '')" by blast
  then show ?case
  proof cases
    case space
    with assms(2) ih show ?thesis unfolding split by (simp add: escape_url_byte_def url_unescape.simps)
  next
    case escaped
    have "escape_allowed q (upper_hex (of_char c div 16)) (upper_hex (of_char c mod 16))"
      using assms(1) upper_hex(1) [OF byte(1)] upper_hex(1) [OF byte(2)] by (simp add: escape_allowed_def)
    moreover have "escape_url_byte p c = [CHR ''%'', upper_hex (of_char c div 16), upper_hex (of_char c mod 16)]"
      using escaped by (auto simp: escape_url_byte_def)
    ultimately show ?thesis unfolding split using ih by (simp add: url_unescape.simps hex_pair_byte)
  next
    case plain
    have "\<not> (q = encodeQueryComponent \<and> c = CHR ''+'')"
    proof
      assume q: "q = encodeQueryComponent \<and> c = CHR ''+''"
      with Cons.prems have "p = encodeQueryComponent" by auto
      moreover have "shouldEscape encodeQueryComponent (CHR ''+'')" by code_simp
      ultimately show False using plain(1) q by simp
    qed
    moreover have "escape_url_byte p c = [c]" using plain by (auto simp: escape_url_byte_def)
    moreover have "\<not> (q \<in> {encodeHost, encodeZone} \<and> of_char c < (128 :: nat) \<and> shouldEscape q c)" using assms(1) by blast
    ultimately show ?thesis unfolding split using escape_char [OF plain(1)] ih
      by (simp only: append_Cons append_Nil url_unescape.simps if_False option.map)
  qed
qed

lemma b64_alphabet_facts: "length (b64_alphabet url) = 64" "distinct (b64_alphabet url)"
  by (simp_all add: b64_alphabet_def)

lemma b64_value_char: "n < 64 \<Longrightarrow> b64_value url (b64_char url n) = Some n"
  using nth_eq_iff_index_eq [OF b64_alphabet_facts(2) [of url]] b64_alphabet_facts(1) [of url]
  by (auto simp: b64_value_def b64_char_def find_Some_iff intro!: exI [of _ n])

lemma b64_sextets_less: "list_all (\<lambda>n. n < 256) ns \<Longrightarrow> list_all (\<lambda>n. n < 64) (b64_sextets ns)"
  by (induction ns rule: b64_sextets.induct) (auto simp: less_mult_imp_div_less)

lemma group_digits: fixes x y :: nat shows "y < k \<Longrightarrow> (x * k + y) div k = x" "y < k \<Longrightarrow> (x * k + y) mod k = y"
  by simp_all

lemma b64_bytes_sextets: "list_all (\<lambda>n. n < 256) ns \<Longrightarrow> b64_bytes (b64_sextets ns) = Some (map char_of ns)"
proof (induction ns rule: b64_sextets.induct)
  case (1 a b c r)
  then have "b div 16 < 16" "c div 64 < 4" by (simp_all add: less_mult_imp_div_less)
  with 1 show ?case by (simp add: group_digits)
next
  case (2 a b)
  then have "b div 16 < 16" by (simp add: less_mult_imp_div_less)
  then show ?case by (simp add: group_digits)
next
  case (3 a)
  then show ?case by simp
next
  case 4
  then show ?case by simp
qed

lemma bytes_less: "list_all (\<lambda>n. n < 256) (map of_char s :: nat list)"
  by (simp add: list_all_iff byte_less)

lemma values_map: "list_all (\<lambda>n. n < 64) ns \<Longrightarrow> all_some (map (b64_value url) (map (b64_char url) ns)) = Some ns"
  by (induction ns) (simp_all add: b64_value_char)

text \<open>The alphabets differ in their last two characters only.\<close>

definition std_char :: "char \<Rightarrow> char" where
  "std_char c = (if c = CHR ''_'' then CHR ''/'' else if c = CHR ''-'' then CHR ''+'' else c)"

lemma std_alphabet: "map std_char (b64_alphabet True) = b64_alphabet False"
  by (simp add: b64_alphabet_def std_char_def)

lemma std_b64_char: "n < 64 \<Longrightarrow> std_char (b64_char True n) = b64_char False n"
  using b64_alphabet_facts(1) [of True] by (simp add: b64_char_def flip: std_alphabet)

lemma std_raw: "map std_char (b64_raw True s) = b64_raw False s"
  using b64_sextets_less [OF bytes_less [of s]] by (auto simp: b64_raw_def list_all_iff std_b64_char)

lemma b64_raw_chars: "set (b64_raw url s) \<subseteq> set (b64_alphabet url)"
  using b64_sextets_less [OF bytes_less [of s]] b64_alphabet_facts(1) [of url]
  by (auto simp: b64_raw_def b64_char_def list_all_iff intro!: nth_mem)

lemma b64_alphabet_plain: "c \<in> set (b64_alphabet url) \<Longrightarrow> c \<notin> {CHR ''='', CHR 0x0A, CHR 0x0D}"
  by (auto simp: b64_alphabet_def split: if_splits)

lemma b64_length: "length (b64_sextets ns) mod 4 \<noteq> 1"
proof (induction ns rule: b64_sextets.induct)
  case (1 a b c r)
  have "Suc (Suc (Suc (Suc n))) mod 4 = n mod 4" for n :: nat by presburger
  with 1 show ?case by simp
qed simp_all

lemma decode_padded:
  assumes "set body \<subseteq> set (b64_alphabet url)" "length body mod 4 \<noteq> 1"
  shows "b64_decode url True (withPadding body) = (case all_some (map (b64_value url) body) of None \<Rightarrow> None | Some vs \<Rightarrow> b64_bytes vs)"
proof -
  define pad where "pad = (if length body mod 4 = 0 then [] else replicate (4 - length body mod 4) (CHR ''=''))"
  have w: "withPadding body = body @ pad" by (simp add: withPadding_def pad_def)
  have plain: "c \<notin> {CHR ''='', CHR 0x0A, CHR 0x0D}" if "c \<in> set body" for c
    using assms(1) that b64_alphabet_plain by blast
  have pads: "set pad \<subseteq> {CHR ''=''}" by (auto simp: pad_def)
  have f: "filter (\<lambda>c. c \<noteq> CHR 0x0A \<and> c \<noteq> CHR 0x0D) body = body" "filter (\<lambda>c. c \<noteq> CHR 0x0A \<and> c \<noteq> CHR 0x0D) pad = pad"
    using plain pads by (auto intro!: filter_True)
  have t: "takeWhile (\<lambda>c. c \<noteq> CHR ''='') (body @ pad) = body"
    using plain by (subst takeWhile_append2) (auto simp: pad_def)
  have "length body mod 4 < 4" by simp
  then consider "length body mod 4 = 0" | "length body mod 4 = 2" | "length body mod 4 = 3" using assms(2) by linarith
  then have l: "(length body + length pad) mod 4 = 0 \<and> length pad \<le> 2" by cases (simp_all add: pad_def, presburger+)
  have "\<not> list_ex (\<lambda>c. c \<noteq> CHR ''='') pad" using pads by (auto simp: list_ex_iff)
  then show ?thesis using l by (simp add: b64_decode_def Let_def w f t)
qed

lemma base64_share: "base64DecodeURLSafe (b64_raw True s) = Some s"
proof -
  have "map (\<lambda>c. if c = CHR ''_'' then CHR ''/'' else c) (map (\<lambda>c. if c = CHR ''-'' then CHR ''+'' else c) (b64_raw True s)) = map std_char (b64_raw True s)"
    by (simp add: std_char_def)
  then have "base64DecodeURLSafe (b64_raw True s) = b64_decode False True (withPadding (b64_raw False s))"
    by (simp add: base64DecodeURLSafe_def std_raw)
  also have "\<dots> = b64_bytes (b64_sextets (map of_char s))"
  proof (subst decode_padded)
    show "set (b64_raw False s) \<subseteq> set (b64_alphabet False)" by (rule b64_raw_chars)
    show "length (b64_raw False s) mod 4 \<noteq> 1" using b64_length by (simp add: b64_raw_def)
  qed (simp add: b64_raw_def values_map b64_sextets_less bytes_less del: map_map)
  also have "\<dots> = Some s" by (simp add: b64_bytes_sextets bytes_less comp_def)
  finally show ?thesis .
qed

text \<open>Host and port.\<close>

lemma split_join_host_port:
  assumes "list_all is_digit port" "CHR ''['' \<notin> set host" "CHR '']'' \<notin> set host"
  shows "split_host_port (JoinHostPort host port) = Some (host, port)"
proof -
  have p: "CHR '':'' \<notin> set port" "CHR ''['' \<notin> set port" "CHR '']'' \<notin> set port" using assms(1) by (auto simp: list_all_iff is_digit_def)
  have last: "split_last (CHR '':'') (JoinHostPort host port) = Some (if CHR '':'' \<in> set host then ''['' @ host @ '']'' else host, port)"
    using split_last_word [OF p(1), of "''['' @ host @ '']''"] split_last_word [OF p(1), of host] by (simp add: JoinHostPort_def)
  show ?thesis
  proof (cases "CHR '':'' \<in> set host")
    case True
    then have "split_once (CHR '']'') (tl (JoinHostPort host port)) = (host, Some (CHR '':'' # port))"
      using split_once_word [OF assms(3), of "CHR '':'' # port"] by (simp add: JoinHostPort_def)
    moreover have "prefix ''['' (JoinHostPort host port)" "CHR ''['' \<notin> set (tl (JoinHostPort host port))"
      using True assms(2) p(2) by (simp_all add: JoinHostPort_def)
    ultimately show ?thesis using last p(3) by (simp add: split_host_port_def)
  next
    case False
    then have "\<not> prefix ''['' (JoinHostPort host port)" "CHR ''['' \<notin> set (JoinHostPort host port)" "CHR '']'' \<notin> set (JoinHostPort host port)"
      using assms(2,3) p by (cases host; auto simp: JoinHostPort_def)+
    with last False show ?thesis by (simp add: split_host_port_def)
  qed
qed

end
