(* ===== verification/Chain_Resolve.thy ===== *)
theory Chain_Resolve
  imports Chain_Document Chain_Filter
begin

text \<open>
  \<^verbatim>\<open>parser/node_chain.go\<close>: the proxy chains of an imported subscription.  A node of the document may name
  another node, a proxy group or the direct outbound as its detour; the names are resolved within the
  document and replaced by references to connection UIDs, and a node whose chain cannot be resolved
  becomes an unsupported node.  \<open>Chain_Grounded\<close> shows that every node that stays supported is grounded:
  following its chain ends after finitely many steps, and every reference on the way is a supported node
  of the same document, a group the chain carries, or the direct outbound where the document names it.
\<close>

section \<open>The resolver\<close>

datatype dep_error = ChainCycle | UnsupportedDependency | MissingDependency | SourceInvalid string | DefaultNotMember

fun dep_message :: "dep_error \<Rightarrow> string" where
  "dep_message ChainCycle = ''chain contains a cycle or exceeds 64 hops''"
| "dep_message UnsupportedDependency = ''chain dependency is not a supported node''"
| "dep_message MissingDependency = ''chain dependency is missing from the subscription''"
| "dep_message (SourceInvalid reason) = reason"
| "dep_message DefaultNotMember = ''chain selector default is not one of its members''"

text \<open>A \<^verbatim>\<open>chainResolution\<close> by its \<^verbatim>\<open>state\<close>: 0, 1, or 2 with the reference or the error.\<close>

datatype chainResolution = Unvisited | Resolving | Resolved "dep_error + string"

text \<open>What the closures of \<^verbatim>\<open>resolveSubscriptionChains\<close> share and change.\<close>

record resolver =
  r_nodes :: "ParsedNode list"
  nodeStates :: "chainResolution list"
  groupStates :: "(string \<times> chainResolution) list"
  resolvedGroups :: "(string \<times> NodeChainGroup) list"
  identities :: "(string \<times> string) list"

text \<open>
  What they only read: the sources, the kind of document, and the parameters \<open>ff\<close>, \<open>sprint\<close>, the digest of
  \<open>StableUID\<close> and the JSON text of a map (\<open>e_text\<close>).
\<close>

record chain_env =
  e_sources :: "(string \<times> chainSource) list"
  e_clash :: bool
  e_ff :: "rat \<Rightarrow> string"
  e_sprint :: "goval \<Rightarrow> string"
  e_digest :: "gomap \<Rightarrow> string"
  e_text :: "gomap \<Rightarrow> string"

definition lookup_group :: "(string \<times> NodeChainGroup) list \<Rightarrow> string \<Rightarrow> NodeChainGroup" where
  "lookup_group m k = (case map_of m k of None \<Rightarrow> empty_group | Some g \<Rightarrow> g)"

text \<open>
  \<^verbatim>\<open>collectGroups\<close> on a list of references: the groups below them, each once, members first; \<open>seen\<close> are the
  references met so far.
\<close>

function collectGroups ::
  "(string \<times> NodeChainGroup) list \<Rightarrow> string list \<Rightarrow> string list \<times> NodeChainGroup list \<Rightarrow> string list \<times> NodeChainGroup list" where
  "collectGroups rg [] acc = acc"
| "collectGroups rg (ref # refs) acc =
     (if ref \<in> set (fst acc) \<or> \<not> prefix NodeChainGroupPrefix ref then collectGroups rg refs acc
      else let group = lookup_group rg ref;
               acc1 = collectGroups rg (Outbounds group) (ref # fst acc, snd acc)
           in collectGroups rg refs (fst acc1, snd acc1 @ [group]))"
  by pat_completeness auto

lemma collect_seen: "collectGroups_dom (rg, refs, acc) \<Longrightarrow> set (fst acc) \<subseteq> set (fst (collectGroups rg refs acc))"
proof (induction rg refs acc rule: collectGroups.pinduct)
  case (1 rg acc)
  then show ?case by (simp add: collectGroups.psimps)
next
  case (2 rg ref refs acc)
  show ?case
  proof (cases "ref \<in> set (fst acc) \<or> \<not> prefix NodeChainGroupPrefix ref")
    case True
    with 2 show ?thesis by (simp add: collectGroups.psimps)
  next
    case False
    let ?a = "collectGroups rg (Outbounds (lookup_group rg ref)) (ref # fst acc, snd acc)"
    have "set (fst acc) \<subseteq> set (fst ?a)" using 2(3) [OF False refl] by simp
    also have "\<dots> \<subseteq> set (fst (collectGroups rg refs (fst ?a, snd ?a @ [lookup_group rg ref])))"
      using 2(4) [OF False refl refl] by simp
    finally show ?thesis using False 2(1) by (simp add: collectGroups.psimps Let_def)
  qed
qed

definition unseen :: "(string \<times> NodeChainGroup) list \<Rightarrow> string list \<Rightarrow> nat" where
  "unseen rg seen = card (fst ` set rg - set seen)"

lemma unseen_less: "ref \<in> fst ` set rg \<Longrightarrow> ref \<notin> set seen \<Longrightarrow> unseen rg (ref # seen) < unseen rg seen"
  unfolding unseen_def by (rule psubset_card_mono) auto

lemma unseen_mono: "set seen \<subseteq> set seen' \<Longrightarrow> unseen rg seen' \<le> unseen rg seen"
  unfolding unseen_def by (rule card_mono) auto

lemma lookup_group_absent: "ref \<notin> fst ` set rg \<Longrightarrow> lookup_group rg ref = empty_group"
  by (metis lookup_group_def map_of_eq_None_iff option.simps(4))

termination collectGroups
proof (relation "measures [\<lambda>(rg, refs, acc). unseen rg (fst acc), \<lambda>(rg, refs, acc). length refs]", goal_cases)
  case 1
  then show ?case by simp
next
  case (2 rg ref refs acc)
  then show ?case by simp
next
  case (3 rg ref refs acc group)
  then show ?case
    using unseen_less [of ref rg "fst acc"] unseen_mono [of "fst acc" "ref # fst acc" rg] lookup_group_absent [of ref rg]
    by (cases "ref \<in> fst ` set rg") (auto simp: empty_group_def le_less)
next
  case (4 rg ref refs acc group acc1)
  then have "set (fst acc) \<subseteq> set (fst acc1)" using collect_seen by fastforce
  then show ?case using unseen_mono [of "fst acc" "fst acc1" rg] by (auto simp: le_less)
qed

definition finish_group :: "string \<Rightarrow> dep_error + NodeChainGroup \<Rightarrow> resolver \<Rightarrow> (dep_error + string) \<times> resolver" where
  "finish_group name r s =
     (case r of
        Inl e \<Rightarrow> (Inl e, s\<lparr>groupStates := map_put name (Resolved (Inl e)) (groupStates s)\<rparr>)
      | Inr g \<Rightarrow>
          (let fingerprint = group_fingerprint (identities s) g; gid = group_id (group_name g) fingerprint
           in (Inr gid, s\<lparr>resolvedGroups := map_put gid (g\<lparr>ID := gid\<rparr>) (resolvedGroups s),
                 identities := map_put gid fingerprint (identities s),
                 groupStates := map_put name (Resolved (Inr gid)) (groupStates s)\<rparr>)))"

definition node_chain :: "string \<Rightarrow> resolver \<Rightarrow> NodeChain" where
  "node_chain ref s = \<lparr>Detour = ref, Identity = lookup_str (identities s) ref,
     Groups = sort_key ID (snd (collectGroups (resolvedGroups s) [ref] ([], [])))\<rparr>"

definition attach_chain :: "chain_env \<Rightarrow> nat \<Rightarrow> string \<Rightarrow> resolver \<Rightarrow> resolver" where
  "attach_chain env i ref s =
     (let node = r_nodes s ! i;
          cfg = map_del ''detour'' (map_put NodeChainMetadataKey (encode_chain (node_chain ref s)) (node_options (p_config node)))
      in s\<lparr>r_nodes := (r_nodes s)[i := node\<lparr>p_config := Object cfg, p_Raw := e_text env cfg\<rparr>]\<rparr>)"

definition finish_node :: "chain_env \<Rightarrow> nat \<Rightarrow> dep_error option \<Rightarrow> resolver \<Rightarrow> (dep_error + string) \<times> resolver" where
  "finish_node env i err s =
     (let node = r_nodes s ! i in
      case err of
        Some e \<Rightarrow>
          (Inl e, s\<lparr>r_nodes := (r_nodes s)[i := if p_UnsupportedReason node = []
                       then node\<lparr>p_UnsupportedReason := ''chain: '' @ dep_message e\<rparr> else node],
                    nodeStates := (nodeStates s)[i := Resolved (Inl e)]\<rparr>)
      | None \<Rightarrow>
          (let uid = StableUID (e_ff env) (e_digest env) node; ref = NodeChainNodePrefix @ uid
           in (Inr ref, s\<lparr>r_nodes := (r_nodes s)[i := node\<lparr>p_UID := uid\<rparr>],
                 nodeStates := (nodeStates s)[i := Resolved (Inr ref)],
                 identities := map_put ref ref (identities s)\<rparr>)))"

fun resolve_members :: "('a \<Rightarrow> 's \<Rightarrow> ('e + 'r) \<times> 's) \<Rightarrow> 'a list \<Rightarrow> 's \<Rightarrow> ('e + 'r list) \<times> 's" where
  "resolve_members f [] s = (Inr [], s)"
| "resolve_members f (x # xs) s =
     (case f x s of
        (Inl e, s1) \<Rightarrow> (Inl e, s1)
      | (Inr r, s1) \<Rightarrow>
          (case resolve_members f xs s1 of
             (Inl e, s2) \<Rightarrow> (Inl e, s2)
           | (Inr rs, s2) \<Rightarrow> (Inr (r # rs), s2)))"

definition detour_target :: "chain_env \<Rightarrow> ParsedNode \<Rightarrow> string" where
  "detour_target env node = getString (e_ff env) (e_sprint env) (node_options (p_config node)) ''detour''"

definition usable_node :: "ParsedNode \<Rightarrow> bool" where
  "usable_node node = (p_UnsupportedReason node = [] \<and> (case p_config node of Object _ \<Rightarrow> True | _ \<Rightarrow> False))"

definition direct_name :: "chain_env \<Rightarrow> string \<Rightarrow> bool" where
  "direct_name env name =
     (case map_of (e_sources env) name of
        None \<Rightarrow> e_clash env \<and> name = ''DIRECT'' | Some src \<Rightarrow> src = DirectSource)"

text \<open>The first argument is \<open>65 - depth\<close>: at 0 the depth is over 64.\<close>

fun resolveNode :: "nat \<Rightarrow> chain_env \<Rightarrow> nat \<Rightarrow> resolver \<Rightarrow> (dep_error + string) \<times> resolver"
and resolveRef :: "nat \<Rightarrow> chain_env \<Rightarrow> string \<Rightarrow> resolver \<Rightarrow> (dep_error + string) \<times> resolver" where
  "resolveNode 0 env i s = (Inl ChainCycle, s)"
| "resolveNode (Suc k) env i s =
     (case nodeStates s ! i of
        Resolving \<Rightarrow> (Inl ChainCycle, s)
      | Resolved r \<Rightarrow> (r, s)
      | Unvisited \<Rightarrow>
          (let s1 = s\<lparr>nodeStates := (nodeStates s)[i := Resolving]\<rparr>; node = r_nodes s1 ! i in
           if \<not> usable_node node then finish_node env i (Some UnsupportedDependency) s1
           else if TrimSpace (detour_target env node) = [] then finish_node env i None s1
           else (case resolveRef k env (detour_target env node) s1 of
                   (Inl e, s2) \<Rightarrow> finish_node env i (Some e) s2
                 | (Inr ref, s2) \<Rightarrow> finish_node env i None (attach_chain env i ref s2))))"
| "resolveRef k env name s =
     (case map_of (e_sources env) name of
        None \<Rightarrow> (if e_clash env \<and> name = ''DIRECT'' then Inr NodeChainDirect else Inl MissingDependency, s)
      | Some (InvalidSource reason) \<Rightarrow> (Inl (SourceInvalid reason), s)
      | Some DirectSource \<Rightarrow> (Inr NodeChainDirect, s)
      | Some (NodeSource i) \<Rightarrow> resolveNode k env i s
      | Some (GroupSource g) \<Rightarrow>
          (case k of
             0 \<Rightarrow> (Inl ChainCycle, s)
           | Suc k' \<Rightarrow>
              (case map_of (groupStates s) name of
                 Some Resolving \<Rightarrow> (Inl ChainCycle, s)
               | Some (Resolved r) \<Rightarrow> (r, s)
               | _ \<Rightarrow>
                  (case resolve_members (resolveRef k' env) (Outbounds g)
                          (s\<lparr>groupStates := map_put name Resolving (groupStates s)\<rparr>) of
                     (Inl e, s2) \<Rightarrow> finish_group name (Inl e) s2
                   | (Inr refs, s2) \<Rightarrow>
                       if Default g = [] then finish_group name (Inr (g\<lparr>Outbounds := refs\<rparr>)) s2
                       else (case resolveRef k' env (Default g) s2 of
                               (Inl e, s3) \<Rightarrow> finish_group name (Inl e) s3
                             | (Inr d, s3) \<Rightarrow>
                                 finish_group name (if d \<in> set refs then Inr (g\<lparr>Outbounds := refs, Default := d\<rparr>)
                                                    else Inl DefaultNotMember) s3)))))"

declare resolveNode.simps [simp del] resolveRef.simps [simp del]

definition start_resolver :: "ParsedNode list \<Rightarrow> resolver" where
  "start_resolver nodes = \<lparr>r_nodes = nodes, nodeStates = replicate (length nodes) Unvisited, groupStates = [],
     resolvedGroups = [], identities = [(NodeChainDirect, NodeChainDirect)]\<rparr>"

definition resolve_all :: "chain_env \<Rightarrow> ParsedNode list \<Rightarrow> resolver" where
  "resolve_all env nodes = fold (\<lambda>i s. snd (resolveNode 65 env i s)) [0..<length nodes] (start_resolver nodes)"

definition chain_env_of ::
  "(rat \<Rightarrow> string) \<Rightarrow> (goval \<Rightarrow> string) \<Rightarrow> (gomap \<Rightarrow> string) \<Rightarrow> (gomap \<Rightarrow> string) \<Rightarrow>
   ParsedNode list \<Rightarrow> gomap list \<Rightarrow> string list \<Rightarrow> bool \<Rightarrow> chain_env" where
  "chain_env_of ff sprint digest txt nodes groups directNames clash =
     \<lparr>e_sources = chain_sources ff sprint nodes groups directNames clash, e_clash = clash, e_ff = ff,
      e_sprint = sprint, e_digest = digest, e_text = txt\<rparr>"

definition resolveSubscriptionChains ::
  "(rat \<Rightarrow> string) \<Rightarrow> (goval \<Rightarrow> string) \<Rightarrow> (gomap \<Rightarrow> string) \<Rightarrow> (gomap \<Rightarrow> string) \<Rightarrow>
   ParsedNode list \<Rightarrow> gomap list \<Rightarrow> string list \<Rightarrow> bool \<Rightarrow> ParsedNode list" where
  "resolveSubscriptionChains ff sprint digest txt nodes groups directNames clash =
     r_nodes (resolve_all (chain_env_of ff sprint digest txt nodes groups directNames clash) nodes)"

end
