(* ===== verification/Chain_Grounded.thy ===== *)
theory Chain_Grounded
  imports Chain_Resolve
begin

text \<open>
  What the resolver of \<open>Chain_Resolve\<close> guarantees, by an invariant of its shared state: supported nodes are
  grounded, their chains mean what the document says, and the chain filter of the generator keeps them.
\<close>

section \<open>The groups below a reference\<close>

declare collectGroups.simps [simp del]

lemma collect_nil: "collectGroups rg [] acc = acc"
  by (simp add: collectGroups.simps)

lemma collect_skip:
  "ref \<in> set (fst acc) \<or> \<not> prefix NodeChainGroupPrefix ref \<Longrightarrow> collectGroups rg (ref # refs) acc = collectGroups rg refs acc"
  by (simp add: collectGroups.simps)

lemma collect_group:
  "\<not> (ref \<in> set (fst acc) \<or> \<not> prefix NodeChainGroupPrefix ref) \<Longrightarrow>
   collectGroups rg (ref # refs) acc =
     collectGroups rg refs (fst (collectGroups rg (Outbounds (lookup_group rg ref)) (ref # fst acc, snd acc)),
       snd (collectGroups rg (Outbounds (lookup_group rg ref)) (ref # fst acc, snd acc)) @ [lookup_group rg ref])"
  by (simp add: collectGroups.simps Let_def)

definition follows :: "(string \<times> NodeChainGroup) list \<Rightarrow> string \<Rightarrow> string list \<Rightarrow> bool" where
  "follows rg r seen \<longleftrightarrow> (\<forall>m\<in>set (Outbounds (lookup_group rg r)). prefix NodeChainGroupPrefix m \<longrightarrow> m \<in> set seen)"

definition groups_collected :: "(string \<times> NodeChainGroup) list \<Rightarrow> string list \<Rightarrow> string list \<times> NodeChainGroup list \<Rightarrow>
    string list \<times> NodeChainGroup list \<Rightarrow> bool" where
  "groups_collected rg refs acc out \<longleftrightarrow>
     set (fst acc) \<subseteq> set (fst out) \<and>
     (\<forall>r\<in>set refs. prefix NodeChainGroupPrefix r \<longrightarrow> r \<in> set (fst out)) \<and>
     (\<forall>r\<in>set (fst out) - set (fst acc). follows rg r (fst out)) \<and>
     set (snd out) = set (snd acc) \<union> lookup_group rg ` (set (fst out) - set (fst acc))"

lemma follows_mono: "follows rg r seen \<Longrightarrow> set seen \<subseteq> set seen' \<Longrightarrow> follows rg r seen'"
  by (auto simp: follows_def)

lemma collected_step:
  assumes "ref \<notin> set seen" "groups_collected rg (Outbounds (lookup_group rg ref)) (ref # seen, gs) (seen1, gs1)"
    and "groups_collected rg refs (seen1, gs1 @ [lookup_group rg ref]) (seen2, gs2)"
  shows "groups_collected rg (ref # refs) (seen, gs) (seen2, gs2)"
proof -
  have a: "set (ref # seen) \<subseteq> set seen1" "follows rg ref seen1"
      "\<forall>r\<in>set seen1 - set (ref # seen). follows rg r seen1"
      "set gs1 = set gs \<union> lookup_group rg ` (set seen1 - set (ref # seen))"
    using assms(2) by (simp_all add: groups_collected_def follows_def)
  have b: "set seen1 \<subseteq> set seen2" "\<forall>r\<in>set refs. prefix NodeChainGroupPrefix r \<longrightarrow> r \<in> set seen2"
      "\<forall>r\<in>set seen2 - set seen1. follows rg r seen2"
      "set gs2 = insert (lookup_group rg ref) (set gs1) \<union> lookup_group rg ` (set seen2 - set seen1)"
    using assms(3) by (simp_all add: groups_collected_def)
  have "follows rg r seen2" if "r \<in> set seen2 - set seen" for r
    using that a b follows_mono [of rg r seen1 seen2] by (cases "r = ref"; cases "r \<in> set seen1") auto
  moreover have "set seen2 - set seen = insert ref ((set seen1 - set (ref # seen)) \<union> (set seen2 - set seen1))"
    using a(1) b(1) assms(1) by auto
  then have "set gs2 = set gs \<union> lookup_group rg ` (set seen2 - set seen)"
    using a(4) b(4) by (simp add: image_Un Un_assoc Un_left_commute)
  moreover have "set seen \<subseteq> set seen2" "ref \<in> set seen2" using a(1) b(1) by auto
  ultimately show ?thesis using b(2) by (simp add: groups_collected_def)
qed

lemma collectGroups_collected: "groups_collected rg refs acc (collectGroups rg refs acc)"
proof (induction rg refs acc rule: collectGroups.induct)
  case (1 rg acc)
  show ?case by (simp add: groups_collected_def collect_nil)
next
  case (2 rg ref refs acc)
  show ?case
  proof (cases "ref \<in> set (fst acc) \<or> \<not> prefix NodeChainGroupPrefix ref")
    case True
    from 2(1) [OF True] show ?thesis using True unfolding collect_skip [OF True] groups_collected_def by auto
  next
    case False
    obtain seen gs where acc: "acc = (seen, gs)" by fastforce
    obtain seen1 gs1 where a: "collectGroups rg (Outbounds (lookup_group rg ref)) (ref # seen, gs) = (seen1, gs1)" by fastforce
    obtain seen2 gs2 where b: "collectGroups rg refs (seen1, gs1 @ [lookup_group rg ref]) = (seen2, gs2)" by fastforce
    have "collectGroups rg (ref # refs) acc = (seen2, gs2)" using collect_group [OF False, of rg refs] acc a b by simp
    then show ?thesis
      using collected_step [of ref seen rg gs seen1 gs1 refs seen2 gs2] False 2(2) [OF False refl] 2(3) [OF False refl refl] acc a b
      by simp
  qed
qed

lemma collect_within:
  assumes "\<And>q m. q \<in> D \<Longrightarrow> m \<in> set (Outbounds (lookup_group rg q)) \<Longrightarrow> prefix NodeChainGroupPrefix m \<Longrightarrow> m \<in> D"
  shows "\<forall>r\<in>set refs. prefix NodeChainGroupPrefix r \<longrightarrow> r \<in> D \<Longrightarrow> set (fst acc) \<subseteq> D \<Longrightarrow>
    set (fst (collectGroups rg refs acc)) \<subseteq> D"
  using assms
proof (induction rg refs acc rule: collectGroups.induct)
  case (1 rg acc)
  then show ?case by (simp add: collect_nil)
next
  case (2 rg ref refs acc)
  show ?case
  proof (cases "ref \<in> set (fst acc) \<or> \<not> prefix NodeChainGroupPrefix ref")
    case True
    from 2(1) [OF True] 2(4-) show ?thesis unfolding collect_skip [OF True] by simp
  next
    case False
    then have ref: "ref \<in> D" using 2(4) by simp
    have "set (fst (collectGroups rg (Outbounds (lookup_group rg ref)) (ref # fst acc, snd acc))) \<subseteq> D"
      using 2(2) [OF False refl] ref 2(5) 2(6) by simp
    with 2(3) [OF False refl refl] 2(4) 2(6) show ?thesis unfolding collect_group [OF False] by simp
  qed
qed

section \<open>The invariant of the resolver\<close>

definition settled :: "resolver \<Rightarrow> ParsedNode set" where
  "settled s = {r_nodes s ! i | i. i < length (nodeStates s) \<and> (\<exists>r. nodeStates s ! i = Resolved (Inr r))}"

definition good_ref :: "resolver \<Rightarrow> string \<Rightarrow> bool" where
  "good_ref s r \<longleftrightarrow> r = NodeChainDirect \<or> (\<exists>n\<in>settled s. r = NodeChainNodePrefix @ p_UID n) \<or>
     r \<in> fst ` set (resolvedGroups s)"

text \<open>
  A node is grounded in a set of nodes when following its chain ends: every reference of the chain is
  the direct outbound, a group the chain carries, or the UID of a grounded node of the set.
\<close>

inductive grounded :: "(rat \<Rightarrow> string) \<Rightarrow> ParsedNode set \<Rightarrow> ParsedNode \<Rightarrow> bool" for ff N where
  groundedI: "n \<in> N \<Longrightarrow> DecodeNodeChain ff (node_options (p_config n)) = Inr co \<Longrightarrow>
    \<forall>c. co = Some c \<longrightarrow> (\<forall>r\<in>set (chain_refs c). r = NodeChainDirect \<or>
      prefix NodeChainGroupPrefix r \<and> r \<in> set (map ID (Groups c)) \<or> (\<exists>m. grounded ff N m \<and> r = NodeChainNodePrefix @ p_UID m)) \<Longrightarrow> grounded ff N n"

lemma chain_grounded_mono: "grounded ff N n \<Longrightarrow> N \<subseteq> M \<Longrightarrow> grounded ff M n"
proof (induction rule: grounded.induct)
  case (groundedI n co)
  show ?case
    by (rule grounded.groundedI [of n M ff co]) (use groundedI in \<open>blast+\<close>)
qed

text \<open>
  What a name of the document stands for: a reference, and the identity under which the fingerprint of
  a group counts it.  \<open>P\<close> says which reference the node at an index has.  A group is referred to by the hash of its
  name and its fingerprint, which is the hash of its settings and the identities of its members;
  every member is a reference that the name in the document stands for.  Two groups whose references collide
  share one identity, hence the existence of some name for it.
\<close>

inductive stands_for :: "chain_env \<Rightarrow> (nat \<Rightarrow> string \<Rightarrow> bool) \<Rightarrow> string \<Rightarrow> string \<Rightarrow> string \<Rightarrow> bool" for env P where
  stands_direct: "direct_name env name \<Longrightarrow> stands_for env P name NodeChainDirect NodeChainDirect"
| stands_node: "map_of (e_sources env) name = Some (NodeSource j) \<Longrightarrow> P j r \<Longrightarrow> stands_for env P name r r"
| stands_group: "map_of (e_sources env) name = Some (GroupSource g) \<Longrightarrow>
    length refs = length (Outbounds g) \<Longrightarrow> \<forall>k < length refs. \<exists>ident. stands_for env P (Outbounds g ! k) (refs ! k) ident \<Longrightarrow>
    (Default g = [] \<longrightarrow> d = []) \<Longrightarrow> (Default g \<noteq> [] \<longrightarrow> d \<in> set refs \<and> (\<exists>ident. stands_for env P (Default g) d ident)) \<Longrightarrow>
    lookup_str ids [] = [] \<Longrightarrow> \<forall>r\<in>set refs. \<not> prefix NodeChainGroupPrefix r \<longrightarrow> lookup_str ids r = r \<Longrightarrow>
    \<forall>r\<in>set refs. prefix NodeChainGroupPrefix r \<longrightarrow> (\<exists>n. stands_for env P n r (lookup_str ids r)) \<Longrightarrow>
    fp = group_fingerprint ids (g\<lparr>Outbounds := refs, Default := d\<rparr>) \<Longrightarrow>
    stands_for env P name (group_id (group_name g) fp) fp"

lemma stands_for_mono:
  assumes "stands_for env P name r ident" and "\<And>j r. P j r \<Longrightarrow> Q j r"
  shows "stands_for env Q name r ident"
  using assms(1)
proof (induction rule: stands_for.induct)
  case (stands_group name g refs d ids fp)
  show ?case
  proof (rule stands_for.stands_group)
    show "\<forall>k < length refs. \<exists>ident. stands_for env Q (Outbounds g ! k) (refs ! k) ident" using stands_group.IH by blast
    show "Default g \<noteq> [] \<longrightarrow> d \<in> set refs \<and> (\<exists>ident. stands_for env Q (Default g) d ident)" using stands_group.IH by blast
    show "\<forall>r\<in>set refs. prefix NodeChainGroupPrefix r \<longrightarrow> (\<exists>n. stands_for env Q n r (lookup_str ids r))" using stands_group.IH by blast
  qed (use stands_group in auto)
qed (auto intro: stands_for.intros assms(2))

definition node_ref :: "resolver \<Rightarrow> nat \<Rightarrow> string \<Rightarrow> bool" where
  "node_ref s j r \<longleftrightarrow> j < length (nodeStates s) \<and> nodeStates s ! j = Resolved (Inr r)"

definition denotes :: "chain_env \<Rightarrow> resolver \<Rightarrow> string \<Rightarrow> string \<Rightarrow> bool" where
  "denotes env s name r \<longleftrightarrow> (\<exists>ident. stands_for env (node_ref s) name r ident)"

text \<open>What the resolver remembers means what it should: the identities and the references of groups.\<close>

definition meanings :: "chain_env \<Rightarrow> resolver \<Rightarrow> bool" where
  "meanings env s \<longleftrightarrow>
     (\<forall>r ident. map_of (identities s) r = Some ident \<longrightarrow> r \<noteq> [] \<and>
        (if prefix NodeChainGroupPrefix r then \<exists>n. stands_for env (node_ref s) n r ident else ident = r)) \<and>
     (\<forall>name r. map_of (groupStates s) name = Some (Resolved (Inr r)) \<longrightarrow> denotes env s name r)"

definition chain_meant :: "chain_env \<Rightarrow> resolver \<Rightarrow> ParsedNode \<Rightarrow> ParsedNode \<Rightarrow> bool" where
  "chain_meant env s old new \<longleftrightarrow>
     (if TrimSpace (detour_target env old) = [] then p_config new = p_config old
      else \<exists>c. DecodeNodeChain (e_ff env) (node_options (p_config new)) = Inr (Some c) \<and>
             denotes env s (detour_target env old) (Detour c))"

definition settled_ok :: "chain_env \<Rightarrow> resolver \<Rightarrow> ParsedNode \<Rightarrow> ParsedNode \<Rightarrow> string \<Rightarrow> bool" where
  "settled_ok env s old new r \<longleftrightarrow>
     r = NodeChainNodePrefix @ p_UID new \<and> p_UID new = StableUID (e_ff env) (e_digest env) new \<and>
     p_UnsupportedReason new = [] \<and> p_Name new = p_Name old \<and> grounded (e_ff env) (settled s) new \<and> chain_meant env s old new"

definition resolved_node_ok :: "chain_env \<Rightarrow> ParsedNode list \<Rightarrow> resolver \<Rightarrow> nat \<Rightarrow> bool" where
  "resolved_node_ok env nodes s i =
     (case nodeStates s ! i of
        Resolved (Inl e) \<Rightarrow> p_UnsupportedReason (r_nodes s ! i) \<noteq> []
      | Resolved (Inr r) \<Rightarrow> settled_ok env s (nodes ! i) (r_nodes s ! i) r
      | _ \<Rightarrow> r_nodes s ! i = nodes ! i)"

definition group_ok :: "resolver \<Rightarrow> string \<times> NodeChainGroup \<Rightarrow> bool" where
  "group_ok s e \<longleftrightarrow> ID (snd e) = fst e \<and> prefix NodeChainGroupPrefix (fst e) \<and> small_tolerance (snd e) \<and>
     list_all (good_ref s) (Outbounds (snd e))"

definition resolver_inv :: "chain_env \<Rightarrow> ParsedNode list \<Rightarrow> resolver \<Rightarrow> bool" where
  "resolver_inv env nodes s \<longleftrightarrow>
     length (r_nodes s) = length nodes \<and> length (nodeStates s) = length nodes \<and>
     (\<forall>i < length nodes. resolved_node_ok env nodes s i) \<and>
     list_all (group_ok s) (resolvedGroups s) \<and>
     (\<forall>r. good_ref s r \<longrightarrow> lookup_str (identities s) r \<noteq> []) \<and>
     (\<forall>name r. map_of (groupStates s) name = Some (Resolved (Inr r)) \<longrightarrow> r \<in> fst ` set (resolvedGroups s)) \<and>
     meanings env s"

text \<open>What a call never takes back, and what it leaves when it returns.\<close>

definition grows :: "resolver \<Rightarrow> resolver \<Rightarrow> bool" where
  "grows s t \<longleftrightarrow> length (nodeStates t) = length (nodeStates s) \<and>
     (\<forall>i < length (nodeStates s). \<forall>r. nodeStates s ! i = Resolved r \<longrightarrow>
        nodeStates t ! i = Resolved r \<and> r_nodes t ! i = r_nodes s ! i) \<and>
     fst ` set (resolvedGroups s) \<subseteq> fst ` set (resolvedGroups t)"

definition extends :: "resolver \<Rightarrow> resolver \<Rightarrow> bool" where
  "extends s t \<longleftrightarrow> grows s t \<and>
     (\<forall>i < length (nodeStates s). (nodeStates t ! i = Resolving) = (nodeStates s ! i = Resolving))"

definition sources_ok :: "chain_env \<Rightarrow> nat \<Rightarrow> bool" where
  "sources_ok env n \<longleftrightarrow>
     (\<forall>name i. map_of (e_sources env) name = Some (NodeSource i) \<longrightarrow> i < n) \<and>
     (\<forall>name g. map_of (e_sources env) name = Some (GroupSource g) \<longrightarrow> small_tolerance g)"

definition plain_node :: "ParsedNode \<Rightarrow> bool" where
  "plain_node n \<longleftrightarrow> p_UnsupportedReason n = [] \<longrightarrow> \<not> has_key (node_options (p_config n)) NodeChainMetadataKey"

lemma grows_refl: "grows s s"
  by (simp add: grows_def)

lemma grows_trans: "grows s t \<Longrightarrow> grows t u \<Longrightarrow> grows s u"
  by (simp add: grows_def) (meson order_trans)

lemma extends_refl: "extends s s"
  by (simp add: extends_def grows_refl)

lemma extends_trans: "extends s t \<Longrightarrow> extends t u \<Longrightarrow> extends s u"
  unfolding extends_def using grows_trans by (metis grows_def)

lemma grows_resolved:
  "grows s t \<Longrightarrow> i < length (nodeStates s) \<Longrightarrow> nodeStates s ! i = Resolved r \<Longrightarrow>
   i < length (nodeStates t) \<and> nodeStates t ! i = Resolved r \<and> r_nodes t ! i = r_nodes s ! i"
  by (simp add: grows_def)

lemma settled_mono: "grows s t \<Longrightarrow> settled s \<subseteq> settled t"
  by (auto simp: settled_def dest: grows_resolved) (metis grows_resolved)

lemma good_ref_mono: "grows s t \<Longrightarrow> good_ref s r \<Longrightarrow> good_ref t r"
  using settled_mono [of s t] unfolding good_ref_def grows_def by blast

lemma denotes_mono: "grows s t \<Longrightarrow> denotes env s name r \<Longrightarrow> denotes env t name r"
  unfolding denotes_def by (erule exE, rule exI, erule stands_for_mono) (auto simp: node_ref_def dest: grows_resolved)

lemma meanings_frame:
  assumes "meanings env s" and g: "grows s t" and "groupStates t = groupStates s"
    and new: "\<And>r ident. map_of (identities t) r = Some ident \<Longrightarrow>
      map_of (identities s) r = Some ident \<or> r \<noteq> [] \<and> \<not> prefix NodeChainGroupPrefix r \<and> ident = r"
  shows "meanings env t"
proof -
  have m: "stands_for env (node_ref t) n r ident" if "stands_for env (node_ref s) n r ident" for n r ident
    using that by (rule stands_for_mono) (auto simp: node_ref_def dest: grows_resolved [OF g])
  have "r \<noteq> [] \<and> (if prefix NodeChainGroupPrefix r then \<exists>n. stands_for env (node_ref t) n r ident else ident = r)"
    if "map_of (identities t) r = Some ident" for r ident
    using new [OF that] assms(1) m unfolding meanings_def by (metis (full_types))
  with assms(1,3) denotes_mono [OF g] show ?thesis unfolding meanings_def by auto
qed

lemma settled_ok_mono: "grows s t \<Longrightarrow> settled_ok env s old new r \<Longrightarrow> settled_ok env t old new r"
  using settled_mono [of s t]
  by (auto simp: settled_ok_def chain_meant_def intro: chain_grounded_mono denotes_mono split: if_splits)

lemma group_ok_mono: "grows s t \<Longrightarrow> group_ok s e \<Longrightarrow> group_ok t e"
  by (auto simp: group_ok_def list_all_iff intro: good_ref_mono)

section \<open>Every step keeps the invariant\<close>

lemma inv_lengths: "resolver_inv env nodes s \<Longrightarrow> length (r_nodes s) = length nodes \<and> length (nodeStates s) = length nodes"
  by (simp add: resolver_inv_def)

lemma inv_meanings: "resolver_inv env nodes s \<Longrightarrow> meanings env s"
  by (simp add: resolver_inv_def)

lemma inv_node: "resolver_inv env nodes s \<Longrightarrow> i < length nodes \<Longrightarrow> resolved_node_ok env nodes s i"
  by (simp add: resolver_inv_def)

lemma inv_identity: "resolver_inv env nodes s \<Longrightarrow> good_ref s r \<Longrightarrow> lookup_str (identities s) r \<noteq> []"
  by (simp add: resolver_inv_def)

lemma inv_group_state:
  "resolver_inv env nodes s \<Longrightarrow> map_of (groupStates s) name = Some (Resolved (Inr r)) \<Longrightarrow> r \<in> fst ` set (resolvedGroups s)"
  by (auto simp: resolver_inv_def)

lemma inv_group: "resolver_inv env nodes s \<Longrightarrow> e \<in> set (resolvedGroups s) \<Longrightarrow> group_ok s e"
  by (simp add: resolver_inv_def list_all_iff)

lemma inv_group_lookup:
  assumes "resolver_inv env nodes s" "r \<in> fst ` set (resolvedGroups s)"
  shows "group_ok s (r, lookup_group (resolvedGroups s) r)"
proof -
  obtain g where "map_of (resolvedGroups s) r = Some g"
    using assms(2) by (metis map_of_eq_None_iff option.exhaust)
  moreover from this have "(r, g) \<in> set (resolvedGroups s)" by (rule map_of_SomeD)
  ultimately show ?thesis using inv_group [OF assms(1)] by (simp add: lookup_group_def)
qed

lemma node_ok_frame:
  "grows s t \<Longrightarrow> nodeStates t ! j = nodeStates s ! j \<Longrightarrow> r_nodes t ! j = r_nodes s ! j \<Longrightarrow>
   resolved_node_ok env nodes s j \<Longrightarrow> resolved_node_ok env nodes t j"
  by (auto simp: resolved_node_ok_def intro: settled_ok_mono split: chainResolution.splits sum.splits)

lemma inv_frame:
  assumes s: "resolver_inv env nodes s" and g: "grows s t" and i: "i < length nodes"
    and l: "length (r_nodes t) = length nodes"
    and other: "\<And>j. j < length nodes \<Longrightarrow> j \<noteq> i \<Longrightarrow> nodeStates t ! j = nodeStates s ! j \<and> r_nodes t ! j = r_nodes s ! j"
    and here: "resolved_node_ok env nodes t i"
    and groups: "resolvedGroups t = resolvedGroups s" "groupStates t = groupStates s"
    and ids: "\<And>r. good_ref t r \<Longrightarrow> lookup_str (identities t) r \<noteq> []"
    and new: "\<And>r ident. map_of (identities t) r = Some ident \<Longrightarrow>
      map_of (identities s) r = Some ident \<or> r \<noteq> [] \<and> \<not> prefix NodeChainGroupPrefix r \<and> ident = r"
  shows "resolver_inv env nodes t"
proof -
  have "resolved_node_ok env nodes t j" if "j < length nodes" for j
    using that other [of j] here node_ok_frame [OF g, of j env nodes] inv_node [OF s, of j] by (cases "j = i") auto
  moreover have "list_all (group_ok t) (resolvedGroups t)"
    using s groups group_ok_mono [OF g] by (auto simp: resolver_inv_def list_all_iff)
  moreover have "length (nodeStates t) = length nodes" using g inv_lengths [OF s] by (simp add: grows_def)
  moreover have "meanings env t" by (rule meanings_frame [OF inv_meanings [OF s] g groups(2) new])
  ultimately show ?thesis using l ids groups s by (simp add: resolver_inv_def)
qed

lemma settled_update_same:
  assumes "i < length (nodeStates s)" "\<And>r. nodeStates s ! i \<noteq> Resolved (Inr r)" "\<And>r. x \<noteq> Resolved (Inr r)"
    and "nodeStates t = (nodeStates s)[i := x]" "\<And>j. j \<noteq> i \<Longrightarrow> r_nodes t ! j = r_nodes s ! j"
  shows "settled t = settled s"
proof -
  have "(j < length (nodeStates t) \<and> (\<exists>r. nodeStates t ! j = Resolved (Inr r))) =
      (j < length (nodeStates s) \<and> (\<exists>r. nodeStates s ! j = Resolved (Inr r)))" for j
    using assms(1-4) by (cases "j = i") auto
  moreover have "r_nodes t ! j = r_nodes s ! j" if "nodeStates s ! j = Resolved (Inr r)" for j r
    using that assms(2,5) by (cases "j = i") auto
  ultimately show ?thesis unfolding settled_def by (smt (verit) Collect_cong)
qed

lemma grows_update:
  assumes "i < length (nodeStates s)" "\<And>r. nodeStates s ! i \<noteq> Resolved r"
    and "nodeStates t = (nodeStates s)[i := x]" "\<And>j. j \<noteq> i \<Longrightarrow> r_nodes t ! j = r_nodes s ! j"
    and "resolvedGroups t = resolvedGroups s"
  shows "grows s t"
proof -
  have "nodeStates t ! j = Resolved r \<and> r_nodes t ! j = r_nodes s ! j" if "nodeStates s ! j = Resolved r" for j r
    using that assms(1-4) by (cases "j = i") auto
  then show ?thesis using assms by (simp add: grows_def)
qed

lemma mark_inv:
  assumes "resolver_inv env nodes s" "i < length nodes" "nodeStates s ! i = Unvisited"
    and t: "t = s\<lparr>nodeStates := (nodeStates s)[i := Resolving]\<rparr>"
  shows "resolver_inv env nodes t" "grows s t"
proof -
  have l: "length (r_nodes s) = length nodes" "length (nodeStates s) = length nodes" using inv_lengths [OF assms(1)] by auto
  have st: "settled t = settled s" by (rule settled_update_same [of i _ Resolving]) (use assms l in auto)
  show g: "grows s t" by (rule grows_update [of i _ _ Resolving]) (use assms l in auto)
  show "resolver_inv env nodes t"
  proof (rule inv_frame [OF assms(1) g assms(2)])
    show "resolved_node_ok env nodes t i" using inv_node [OF assms(1,2)] assms(2,3) l by (simp add: resolved_node_ok_def t)
    show "lookup_str (identities t) r \<noteq> []" if "good_ref t r" for r
      using that st inv_identity [OF assms(1)] by (simp add: good_ref_def t)
  qed (use l t in auto)
qed

lemma fail_inv:
  assumes "resolver_inv env nodes s" "i < length nodes" "nodeStates s ! i = Resolving"
    and fin: "finish_node env i (Some e) s = (r, t)"
  shows "resolver_inv env nodes t" "grows s t" "nodeStates t = (nodeStates s)[i := Resolved (Inl e)]" "r = Inl e"
proof -
  have l: "length (r_nodes s) = length nodes" "length (nodeStates s) = length nodes" using inv_lengths [OF assms(1)] by auto
  have t: "r = Inl e" "nodeStates t = (nodeStates s)[i := Resolved (Inl e)]" "\<And>j. j \<noteq> i \<Longrightarrow> r_nodes t ! j = r_nodes s ! j"
      "resolvedGroups t = resolvedGroups s" "groupStates t = groupStates s" "identities t = identities s"
      "length (r_nodes t) = length (r_nodes s)"
    using fin by (auto simp: finish_node_def Let_def)
  have st: "settled t = settled s" by (rule settled_update_same [of i _ "Resolved (Inl e)"]) (use assms l t in auto)
  show g: "grows s t" by (rule grows_update [of i _ _ "Resolved (Inl e)"]) (use assms l t in auto)
  have bad: "p_UnsupportedReason (r_nodes t ! i) \<noteq> []" using fin l assms(2) by (auto simp: finish_node_def Let_def split: if_splits)
  show "resolver_inv env nodes t"
  proof (rule inv_frame [OF assms(1) g assms(2)])
    show "resolved_node_ok env nodes t i" using bad t(2) assms(2) l by (simp add: resolved_node_ok_def)
    show "lookup_str (identities t) r \<noteq> []" if "good_ref t r" for r
      using that st t inv_identity [OF assms(1)] by (simp add: good_ref_def)
  qed (use l t in auto)
  show "nodeStates t = (nodeStates s)[i := Resolved (Inl e)]" "r = Inl e" by (fact t)+
qed

lemma StableUID_uid: "StableUID ff d (n\<lparr>p_UID := u\<rparr>) = StableUID ff d n"
  by (cases n) (simp only: StableUID_def identity_config_def nodeIdentityFields_def ParsedNode.update_convs ParsedNode.select_convs)

lemma lookup_str_put: "lookup_str (map_put k v m) r = (if r = k then v else lookup_str m r)"
  by (simp add: lookup_str_def)

text \<open>The references of a chain that is about to be stored with a node.\<close>

definition chain_ready :: "resolver \<Rightarrow> NodeChain \<Rightarrow> bool" where
  "chain_ready s c \<longleftrightarrow> (\<forall>r\<in>set (chain_refs c). good_ref s r \<and> (r \<in> fst ` set (resolvedGroups s) \<longrightarrow> r \<in> set (map ID (Groups c))))"

lemma settled_grounded:
  assumes "resolver_inv env nodes s" "m \<in> settled s"
  shows "grounded (e_ff env) (settled s) m"
proof -
  obtain i r where "i < length nodes" "nodeStates s ! i = Resolved (Inr r)" "m = r_nodes s ! i"
    using assms inv_lengths [OF assms(1)] by (auto simp: settled_def)
  then show ?thesis using inv_node [OF assms(1), of i] by (simp add: resolved_node_ok_def settled_ok_def)
qed

lemma settle_inv:
  assumes s: "resolver_inv env nodes s" and i: "i < length nodes" and a: "nodeStates s ! i = Resolving"
    and n: "p_UnsupportedReason n = []" "p_Name n = p_Name (nodes ! i)"
      "DecodeNodeChain (e_ff env) (node_options (p_config n)) = Inr co" "\<forall>c. co = Some c \<longrightarrow> chain_ready s c"
      "chain_meant env s (nodes ! i) n"
    and fin: "finish_node env i None (s\<lparr>r_nodes := (r_nodes s)[i := n]\<rparr>) = (r, t)"
  shows "resolver_inv env nodes t" "grows s t" "\<exists>ref. r = Inr ref \<and> nodeStates t = (nodeStates s)[i := Resolved (Inr ref)]"
proof -
  have l: "length (r_nodes s) = length nodes" "length (nodeStates s) = length nodes" using inv_lengths [OF s] by auto
  define uid where "uid = StableUID (e_ff env) (e_digest env) n"
  define ref where "ref = NodeChainNodePrefix @ uid"
  let ?n = "n\<lparr>p_UID := uid\<rparr>"
  have t: "r = Inr ref" "t = s\<lparr>r_nodes := (r_nodes s)[i := ?n], nodeStates := (nodeStates s)[i := Resolved (Inr ref)],
      identities := map_put ref ref (identities s)\<rparr>"
    using fin i l by (auto simp: finish_node_def Let_def uid_def ref_def)
  show g: "grows s t" by (rule grows_update [of i _ _ "Resolved (Inr ref)"]) (use a i l t in auto)
  have st: "settled t \<subseteq> insert ?n (settled s)" "?n \<in> settled t"
  proof -
    show "settled t \<subseteq> insert ?n (settled s)"
    proof
      fix m assume "m \<in> settled t"
      then obtain j q where "j < length (nodeStates t)" "nodeStates t ! j = Resolved (Inr q)" "m = r_nodes t ! j"
        by (auto simp: settled_def)
      then show "m \<in> insert ?n (settled s)" using t i l by (cases "j = i") (auto simp: settled_def)
    qed
    show "?n \<in> settled t" unfolding settled_def using t i l by (auto intro!: exI [of _ i])
  qed
  have "grounded (e_ff env) (settled t) ?n"
  proof (rule groundedI [of _ _ _ co])
    show "?n \<in> settled t" by (fact st)
    show "DecodeNodeChain (e_ff env) (node_options (p_config ?n)) = Inr co" using n by simp
    show "\<forall>c. co = Some c \<longrightarrow> (\<forall>r\<in>set (chain_refs c). r = NodeChainDirect \<or>
      prefix NodeChainGroupPrefix r \<and> r \<in> set (map ID (Groups c)) \<or> (\<exists>m. grounded (e_ff env) (settled t) m \<and> r = NodeChainNodePrefix @ p_UID m))"
    proof (intro allI impI ballI)
      fix c q assume "co = Some c" "q \<in> set (chain_refs c)"
      then have q: "good_ref s q" "q \<in> fst ` set (resolvedGroups s) \<Longrightarrow> q \<in> set (map ID (Groups c))"
        using n(4) unfolding chain_ready_def by blast+
      have "grounded (e_ff env) (settled t) m" if "m \<in> settled s" for m
        using settled_grounded [OF s that] settled_mono [OF g] by (rule chain_grounded_mono)
      moreover have "prefix NodeChainGroupPrefix q" if "q \<in> fst ` set (resolvedGroups s)"
        using inv_group_lookup [OF s that] by (simp add: group_ok_def)
      ultimately show "q = NodeChainDirect \<or> prefix NodeChainGroupPrefix q \<and> q \<in> set (map ID (Groups c)) \<or> (\<exists>m. grounded (e_ff env) (settled t) m \<and> q = NodeChainNodePrefix @ p_UID m)"
        using q unfolding good_ref_def by blast
    qed
  qed
  moreover have "chain_meant env t (nodes ! i) ?n"
    using n(5) denotes_mono [OF g] by (auto simp: chain_meant_def split: if_splits)
  ultimately have here: "settled_ok env t (nodes ! i) ?n ref"
    using n by (simp add: settled_ok_def ref_def uid_def StableUID_uid)
  show "resolver_inv env nodes t"
  proof (rule inv_frame [OF s g i])
    show "resolved_node_ok env nodes t i" using here t i l by (simp add: resolved_node_ok_def)
    show "lookup_str (identities t) r \<noteq> []" if "good_ref t r" for r
    proof (cases "r = ref")
      case True
      then show ?thesis by (simp add: t lookup_str_put ref_def NodeChainNodePrefix_def)
    next
      case False
      then have "good_ref s r" using that st(1) t(2) by (auto simp: good_ref_def ref_def)
      then show ?thesis using False inv_identity [OF s] by (simp add: t lookup_str_put)
    qed
    show "map_of (identities s) r = Some ident \<or> r \<noteq> [] \<and> \<not> prefix NodeChainGroupPrefix r \<and> ident = r"
      if "map_of (identities t) r = Some ident" for r ident
      using that by (auto simp: t ref_def NodeChainNodePrefix_def NodeChainGroupPrefix_def split: if_splits)
  qed (use l t in auto)
  show "\<exists>ref. r = Inr ref \<and> nodeStates t = (nodeStates s)[i := Resolved (Inr ref)]" using t by auto
qed

lemmas ref_prefixes = NodeChainDirect_def NodeChainNodePrefix_def NodeChainGroupPrefix_def

lemma good_group_ref: "good_ref s r \<Longrightarrow> prefix NodeChainGroupPrefix r \<Longrightarrow> r \<in> fst ` set (resolvedGroups s)"
  by (auto simp: good_ref_def ref_prefixes)

lemma good_ref_ne: "resolver_inv env nodes s \<Longrightarrow> good_ref s r \<Longrightarrow> r \<noteq> []"
  using inv_group_lookup [of env nodes s r] by (auto simp: good_ref_def ref_prefixes group_ok_def)

lemma node_chain_groups:
  assumes s: "resolver_inv env nodes s" and r: "good_ref s ref"
    and g: "g \<in> set (Groups (node_chain ref s))"
  obtains q where "q \<in> fst ` set (resolvedGroups s)" "g = lookup_group (resolvedGroups s) q"
    "\<And>m. m \<in> set (Outbounds g) \<Longrightarrow> m \<in> fst ` set (resolvedGroups s) \<Longrightarrow> m \<in> set (map ID (Groups (node_chain ref s)))"
proof -
  let ?rg = "resolvedGroups s" and ?D = "fst ` set (resolvedGroups s)"
  let ?out = "collectGroups ?rg [ref] ([], [])"
  have within: "set (fst ?out) \<subseteq> ?D"
  proof (rule collect_within)
    show "m \<in> ?D" if "q \<in> ?D" "m \<in> set (Outbounds (lookup_group ?rg q))" "prefix NodeChainGroupPrefix m" for q m
      using inv_group_lookup [OF s that(1)] that good_group_ref by (auto simp: group_ok_def list_all_iff)
  qed (use r good_group_ref in auto)
  have c: "set (snd ?out) = lookup_group ?rg ` set (fst ?out)" "\<And>q. q \<in> set (fst ?out) \<Longrightarrow> follows ?rg q (fst ?out)"
    using collectGroups_collected [of ?rg "[ref]" "([], [])"] by (auto simp: groups_collected_def)
  obtain q where q: "q \<in> set (fst ?out)" "g = lookup_group ?rg q" using g c(1) by (auto simp: node_chain_def)
  have ids: "x \<in> set (map ID (Groups (node_chain ref s)))" if "x \<in> set (fst ?out)" for x
  proof -
    have "ID (lookup_group ?rg x) = x" using inv_group_lookup [OF s, of x] within that by (auto simp: group_ok_def)
    with that c(1) show ?thesis by (simp add: node_chain_def) (metis image_eqI)
  qed
  have "m \<in> set (map ID (Groups (node_chain ref s)))" if "m \<in> set (Outbounds g)" "m \<in> ?D" for m
  proof -
    have "prefix NodeChainGroupPrefix m" using inv_group_lookup [OF s that(2)] by (simp add: group_ok_def)
    then have "m \<in> set (fst ?out)" using c(2) [OF q(1)] that(1) q(2) by (simp add: follows_def)
    then show ?thesis by (rule ids)
  qed
  with q within show ?thesis by (intro that [of q]) auto
qed

lemma node_chain_detour:
  assumes s: "resolver_inv env nodes s" and r: "ref \<in> fst ` set (resolvedGroups s)"
  shows "ref \<in> set (map ID (Groups (node_chain ref s)))"
proof -
  let ?out = "collectGroups (resolvedGroups s) [ref] ([], [])"
  have ok: "ID (lookup_group (resolvedGroups s) ref) = ref" "prefix NodeChainGroupPrefix ref"
    using inv_group_lookup [OF s r] by (auto simp: group_ok_def)
  then have "lookup_group (resolvedGroups s) ref \<in> set (snd ?out)"
    using collectGroups_collected [of "resolvedGroups s" "[ref]" "([], [])"] by (auto simp: groups_collected_def)
  with ok show ?thesis by (simp add: node_chain_def) (metis image_eqI)
qed

lemma node_chain_ready:
  assumes s: "resolver_inv env nodes s" and r: "good_ref s ref"
  shows "chain_ready s (node_chain ref s)"
  unfolding chain_ready_def
proof
  fix x assume "x \<in> set (chain_refs (node_chain ref s))"
  then consider "x = ref" | g where "g \<in> set (Groups (node_chain ref s))" "x \<in> set (Outbounds g)"
    by (auto simp: chain_refs_def node_chain_def)
  then show "good_ref s x \<and> (x \<in> fst ` set (resolvedGroups s) \<longrightarrow> x \<in> set (map ID (Groups (node_chain ref s))))"
  proof cases
    case 1
    then show ?thesis using r node_chain_detour [OF s] by blast
  next
    case 2
    from node_chain_groups [OF s r 2(1)] obtain q where q: "q \<in> fst ` set (resolvedGroups s)" "g = lookup_group (resolvedGroups s) q"
      "\<And>m. m \<in> set (Outbounds g) \<Longrightarrow> m \<in> fst ` set (resolvedGroups s) \<Longrightarrow> m \<in> set (map ID (Groups (node_chain ref s)))" by blast
    then show ?thesis using inv_group_lookup [OF s q(1)] 2(2) by (auto simp: group_ok_def list_all_iff)
  qed
qed

lemma node_chain_decodes:
  assumes s: "resolver_inv env nodes s" and r: "good_ref s ref"
  shows "DecodeNodeChain ff (map_del ''detour'' (map_put NodeChainMetadataKey (encode_chain (node_chain ref s)) m)) =
    Inr (Some (node_chain ref s))"
proof (rule decode_encode_chain)
  have "small_tolerance g" if "g \<in> set (Groups (node_chain ref s))" for g
    using node_chain_groups [OF s r that] inv_group_lookup [OF s] by (metis group_ok_def snd_conv)
  then show "list_all small_tolerance (Groups (node_chain ref s))" by (simp add: list_all_iff)
  show "Detour (node_chain ref s) \<noteq> []" "Identity (node_chain ref s) \<noteq> []"
    using good_ref_ne [OF s r] inv_identity [OF s r] by (simp_all add: node_chain_def)
qed

lemma map_put_set: "e \<in> set (map_put k v m) \<Longrightarrow> e = (k, v) \<or> e \<in> set m"
  by (induction m) (auto split: if_splits)

lemma group_update_inv:
  assumes s: "resolver_inv env nodes s" and x: "\<And>q. x \<noteq> Resolved (Inr q)"
    and t: "t = s\<lparr>groupStates := map_put name x (groupStates s)\<rparr>"
  shows "resolver_inv env nodes t" "extends s t"
proof -
  show e: "extends s t" by (simp add: t extends_def grows_def)
  then have g: "grows s t" by (simp add: extends_def)
  have good: "good_ref t q = good_ref s q" for q by (simp add: t good_ref_def settled_def)
  have "resolved_node_ok env nodes t i" if "i < length nodes" for i
    using node_ok_frame [OF g, of i env nodes] inv_node [OF s that] by (simp add: t)
  moreover have "group_ok t e" if "e \<in> set (resolvedGroups t)" for e
    using that group_ok_mono [OF g] inv_group [OF s] by (simp add: t)
  moreover have "q \<in> fst ` set (resolvedGroups t)" if "map_of (groupStates t) n = Some (Resolved (Inr q))" for n q
    using that x inv_group_state [OF s, of n q] by (auto simp: t split: if_splits)
  moreover have "meanings env t"
  proof -
    have "node_ref t = node_ref s" by (simp add: fun_eq_iff node_ref_def t)
    then show ?thesis using inv_meanings [OF s] denotes_mono [OF g] x unfolding meanings_def by (auto simp: t)
  qed
  ultimately show "resolver_inv env nodes t"
    using inv_lengths [OF s] inv_identity [OF s] good by (simp add: resolver_inv_def list_all_iff) (simp add: t)
qed

text \<open>A group whose members have been resolved.\<close>

definition group_resolved :: "chain_env \<Rightarrow> resolver \<Rightarrow> NodeChainGroup \<Rightarrow> NodeChainGroup \<Rightarrow> bool" where
  "group_resolved env s g0 g \<longleftrightarrow>
     g = g0\<lparr>Outbounds := Outbounds g, Default := Default g\<rparr> \<and> list_all2 (denotes env s) (Outbounds g0) (Outbounds g) \<and>
     (if Default g0 = [] then Default g = [] else Default g \<in> set (Outbounds g) \<and> denotes env s (Default g0) (Default g))"

lemma group_resolved_stands:
  assumes s: "resolver_inv env nodes s" and name: "map_of (e_sources env) name = Some (GroupSource g0)"
    and g: "group_resolved env s g0 g" "list_all (good_ref s) (Outbounds g)"
  shows "stands_for env (node_ref s) name (group_id (group_name g) (group_fingerprint (identities s) g)) (group_fingerprint (identities s) g)"
proof -
  have eq: "g = g0\<lparr>Outbounds := Outbounds g, Default := Default g\<rparr>" using g(1) by (simp add: group_resolved_def)
  then have n: "group_name g = group_name g0" by (metis NodeChainGroup.select_convs(2) NodeChainGroup.surjective NodeChainGroup.update_convs)
  have k: "r \<noteq> []" "if prefix NodeChainGroupPrefix r then \<exists>n. stands_for env (node_ref s) n r ident else ident = r"
    if "map_of (identities s) r = Some ident" for r ident
    using inv_meanings [OF s] that unfolding meanings_def by blast+
  have i: "map_of (identities s) r = Some (lookup_str (identities s) r)" if "r \<in> set (Outbounds g)" for r
    using inv_identity [OF s, of r] g(2) that by (auto simp: lookup_str_def list_all_iff split: option.splits)
  show ?thesis unfolding n
  proof (rule stands_group [OF name])
    show "length (Outbounds g) = length (Outbounds g0)"
      "\<forall>k < length (Outbounds g). \<exists>ident. stands_for env (node_ref s) (Outbounds g0 ! k) (Outbounds g ! k) ident"
      "Default g0 = [] \<longrightarrow> Default g = []"
      "Default g0 \<noteq> [] \<longrightarrow> Default g \<in> set (Outbounds g) \<and> (\<exists>ident. stands_for env (node_ref s) (Default g0) (Default g) ident)"
      using g(1) by (auto simp: group_resolved_def list_all2_conv_all_nth denotes_def)
    show "lookup_str (identities s) [] = []" using k(1) [of "[]"] by (auto simp: lookup_str_def split: option.splits)
    show "\<forall>r\<in>set (Outbounds g). \<not> prefix NodeChainGroupPrefix r \<longrightarrow> lookup_str (identities s) r = r"
      "\<forall>r\<in>set (Outbounds g). prefix NodeChainGroupPrefix r \<longrightarrow> (\<exists>n. stands_for env (node_ref s) n r (lookup_str (identities s) r))"
      using k(2) [OF i] by (meson)+
    show "group_fingerprint (identities s) g = group_fingerprint (identities s) (g0\<lparr>Outbounds := Outbounds g, Default := Default g\<rparr>)"
      using eq by simp
  qed
qed

lemma finish_group_inv:
  assumes s: "resolver_inv env nodes s" and g: "list_all (good_ref s) (Outbounds g)" "small_tolerance g"
    and name: "map_of (e_sources env) name = Some (GroupSource g0)" "group_resolved env s g0 g"
    and fin: "finish_group name (Inr g) s = (r, t)"
  shows "resolver_inv env nodes t" "extends s t" "\<exists>q. r = Inr q \<and> q \<in> fst ` set (resolvedGroups t) \<and> denotes env t name q"
proof -
  define fp where "fp = group_fingerprint (identities s) g"
  define gid where "gid = group_id (group_name g) fp"
  have t: "r = Inr gid" "t = s\<lparr>resolvedGroups := map_put gid (g\<lparr>ID := gid\<rparr>) (resolvedGroups s),
      identities := map_put gid fp (identities s), groupStates := map_put name (Resolved (Inr gid)) (groupStates s)\<rparr>"
    using fin by (auto simp: finish_group_def Let_def fp_def gid_def)
  have gid: "prefix NodeChainGroupPrefix gid" "fp \<noteq> []"
    by (simp_all add: gid_def group_id_def fp_def group_fingerprint_def NodeChainGroupPrefix_def)
  have grow: "grows s t" using fst_map_put [of gid "g\<lparr>ID := gid\<rparr>" "resolvedGroups s"] by (auto simp: grows_def t(2))
  then show "extends s t" by (simp add: extends_def t(2))
  have good: "good_ref t q \<longleftrightarrow> q = gid \<or> good_ref s q" for q
    by (auto simp: good_ref_def t(2) settled_def fst_map_put)
  have "resolved_node_ok env nodes t i" if "i < length nodes" for i
    using node_ok_frame [OF grow, of i env nodes] inv_node [OF s that] by (simp add: t(2))
  moreover have "group_ok t e" if "e \<in> set (resolvedGroups t)" for e
  proof -
    have "e = (gid, g\<lparr>ID := gid\<rparr>) \<or> e \<in> set (resolvedGroups s)"
      using that by (auto simp: t(2) dest: map_put_set)
    moreover have "group_ok t (gid, g\<lparr>ID := gid\<rparr>)"
      using g gid good_ref_mono [OF grow] by (auto simp: group_ok_def list_all_iff small_tolerance_def)
    ultimately show ?thesis using group_ok_mono [OF grow] inv_group [OF s] by blast
  qed
  moreover have "lookup_str (identities t) q \<noteq> []" if "good_ref t q" for q
    using that good gid(2) inv_identity [OF s] by (auto simp: t(2) lookup_str_put)
  moreover have "q \<in> fst ` set (resolvedGroups t)" if "map_of (groupStates t) n = Some (Resolved (Inr q))" for n q
    using that inv_group_state [OF s, of n q] by (auto simp: t(2) fst_map_put split: if_splits)
  moreover have stands: "stands_for env (node_ref t) name gid fp"
    using group_resolved_stands [OF s name g(1)] unfolding fp_def gid_def
    by (rule stands_for_mono) (auto simp: node_ref_def dest: grows_resolved [OF grow])
  then have d: "denotes env t name gid" by (auto simp: denotes_def)
  moreover have "meanings env t"
  proof -
    have "r \<noteq> [] \<and> (if prefix NodeChainGroupPrefix r then \<exists>n. stands_for env (node_ref t) n r ident else ident = r)"
      if "map_of (identities t) r = Some ident" for r ident
    proof (cases "r = gid")
      case True
      then show ?thesis using that gid stands by (auto simp: t(2) NodeChainGroupPrefix_def)
    next
      case False
      then have "map_of (identities s) r = Some ident" using that by (simp add: t(2))
      moreover have "stands_for env (node_ref t) n r ident" if "stands_for env (node_ref s) n r ident" for n
        using that by (rule stands_for_mono) (auto simp: node_ref_def dest: grows_resolved [OF grow])
      ultimately show ?thesis using inv_meanings [OF s] unfolding meanings_def by (metis (full_types))
    qed
    moreover have "denotes env t n q" if "map_of (groupStates t) n = Some (Resolved (Inr q))" for n q
      using that d inv_meanings [OF s] denotes_mono [OF grow] unfolding meanings_def by (auto simp: t(2) split: if_splits)
    ultimately show ?thesis unfolding meanings_def by blast
  qed
  ultimately show "resolver_inv env nodes t"
    using inv_lengths [OF s] by (simp add: resolver_inv_def list_all_iff) (simp add: t(2))
  show "\<exists>q. r = Inr q \<and> q \<in> fst ` set (resolvedGroups t) \<and> denotes env t name q" using d by (simp add: t fst_map_put)
qed

definition node_step :: "chain_env \<Rightarrow> ParsedNode list \<Rightarrow> nat \<Rightarrow> bool" where
  "node_step env nodes k \<longleftrightarrow> (\<forall>i s r t. resolver_inv env nodes s \<longrightarrow> i < length nodes \<longrightarrow> resolveNode k env i s = (r, t) \<longrightarrow>
     resolver_inv env nodes t \<and> extends s t \<and> (\<forall>ref. r = Inr ref \<longrightarrow> nodeStates t ! i = Resolved (Inr ref)) \<and>
     (0 < k \<longrightarrow> nodeStates t ! i \<noteq> Unvisited))"

definition ref_step :: "chain_env \<Rightarrow> ParsedNode list \<Rightarrow> nat \<Rightarrow> bool" where
  "ref_step env nodes k \<longleftrightarrow> (\<forall>name s r t. resolver_inv env nodes s \<longrightarrow> resolveRef k env name s = (r, t) \<longrightarrow>
     resolver_inv env nodes t \<and> extends s t \<and> (\<forall>ref. r = Inr ref \<longrightarrow> good_ref t ref \<and> denotes env t name ref))"

lemma ref_stepD:
  assumes "ref_step env nodes k" "resolver_inv env nodes s" "resolveRef k env name s = (r, t)"
  shows "resolver_inv env nodes t" "extends s t" "r = Inr ref \<Longrightarrow> good_ref t ref" "r = Inr ref \<Longrightarrow> denotes env t name ref"
  using assms unfolding ref_step_def by blast+

lemma members_step:
  assumes "ref_step env nodes k"
  shows "resolver_inv env nodes s \<Longrightarrow> resolve_members (resolveRef k env) xs s = (r, t) \<Longrightarrow>
    resolver_inv env nodes t \<and> extends s t \<and> (\<forall>rs. r = Inr rs \<longrightarrow> list_all (good_ref t) rs \<and> list_all2 (denotes env t) xs rs)"
proof (induction xs arbitrary: s r t)
  case Nil
  then show ?case by (auto simp: extends_refl)
next
  case (Cons x xs)
  obtain r1 s1 where 1: "resolveRef k env x s = (r1, s1)" by fastforce
  note d = ref_stepD [OF assms Cons.prems(1) 1]
  show ?case
  proof (cases r1)
    case (Inl e)
    with Cons.prems 1 d show ?thesis by auto
  next
    case (Inr ref)
    obtain r2 s2 where 2: "resolve_members (resolveRef k env) xs s1 = (r2, s2)" by fastforce
    from Cons.IH [OF d(1) 2] have s2: "resolver_inv env nodes s2" "extends s1 s2" "\<And>rs. r2 = Inr rs \<Longrightarrow> list_all (good_ref s2) rs \<and> list_all2 (denotes env s2) xs rs"
      by blast+
    have "extends s s2" using d(2) s2(2) by (rule extends_trans)
    moreover have "good_ref s2 ref" "denotes env s2 x ref" using s2(2) d(3,4) [OF Inr] by (auto intro: good_ref_mono denotes_mono simp: extends_def)
    ultimately show ?thesis using Cons.prems(2) 1 2 Inr s2 by (cases r2) auto
  qed
qed

lemma extends_close:
  assumes "i < length (nodeStates s)" "nodeStates s ! i = Unvisited"
    and "s1 = s\<lparr>nodeStates := (nodeStates s)[i := Resolving]\<rparr>" "grows s s1" "extends s1 s2" "grows s2 t"
    and "nodeStates t = (nodeStates s2)[i := Resolved x]"
  shows "extends s t"
proof -
  have "grows s t" using assms(4-6) grows_trans by (auto simp: extends_def)
  moreover have "(nodeStates t ! j = Resolving) = (nodeStates s ! j = Resolving)" if "j < length (nodeStates s)" for j
  proof (cases "j = i")
    case True
    then show ?thesis using assms by (auto simp: extends_def grows_def)
  next
    case False
    then have "(nodeStates s2 ! j = Resolving) = (nodeStates s ! j = Resolving)"
      using assms(3,5) that by (auto simp: extends_def)
    then show ?thesis using False assms(7) by simp
  qed
  ultimately show ?thesis by (simp add: extends_def)
qed

lemma attach_chain_eq:
  "attach_chain env i ref s =
     s\<lparr>r_nodes := (r_nodes s)[i := (r_nodes s ! i)\<lparr>p_config := Object (map_del ''detour'' (map_put NodeChainMetadataKey
          (encode_chain (node_chain ref s)) (node_options (p_config (r_nodes s ! i))))),
        p_Raw := e_text env (map_del ''detour'' (map_put NodeChainMetadataKey
          (encode_chain (node_chain ref s)) (node_options (p_config (r_nodes s ! i)))))\<rparr>]\<rparr>"
  by (simp add: attach_chain_def Let_def)

lemma chained_settles:
  assumes s: "resolver_inv env nodes s" and i: "i < length nodes" and a: "nodeStates s ! i = Resolving"
    and u: "usable_node (nodes ! i)" "TrimSpace (detour_target env (nodes ! i)) \<noteq> []"
    and ref: "good_ref s ref" "denotes env s (detour_target env (nodes ! i)) ref"
    and fin: "finish_node env i None (attach_chain env i ref s) = (r, t)"
  shows "resolver_inv env nodes t" "grows s t" "\<exists>ref. r = Inr ref \<and> nodeStates t = (nodeStates s)[i := Resolved (Inr ref)]"
proof -
  have n: "r_nodes s ! i = nodes ! i" using inv_node [OF s i] a by (simp add: resolved_node_ok_def)
  let ?cfg = "map_del ''detour'' (map_put NodeChainMetadataKey (encode_chain (node_chain ref s)) (node_options (p_config (nodes ! i))))"
  let ?n = "(nodes ! i)\<lparr>p_config := Object ?cfg, p_Raw := e_text env ?cfg\<rparr>"
  have d: "DecodeNodeChain (e_ff env) (node_options (p_config ?n)) = Inr (Some (node_chain ref s))"
    using node_chain_decodes [OF s ref(1)] by (simp add: node_options_def)
  have n1: "p_UnsupportedReason ?n = []" "p_Name ?n = p_Name (nodes ! i)" using u(1) by (simp_all add: usable_node_def)
  have n2: "\<forall>c. Some (node_chain ref s) = Some c \<longrightarrow> chain_ready s c"
    using node_chain_ready [OF s ref(1)] by simp
  have n3: "chain_meant env s (nodes ! i) ?n"
    unfolding chain_meant_def d using u(2) ref(2) by (simp add: node_chain_def)
  have n4: "finish_node env i None (s\<lparr>r_nodes := (r_nodes s)[i := ?n]\<rparr>) = (r, t)"
    using fin by (simp add: attach_chain_eq n)
  show "resolver_inv env nodes t" "grows s t" "\<exists>ref. r = Inr ref \<and> nodeStates t = (nodeStates s)[i := Resolved (Inr ref)]"
    by (fact settle_inv [OF s i a n1 d n2 n3 n4])+
qed

lemma plain_settles:
  assumes s: "resolver_inv env nodes s" and i: "i < length nodes" and a: "nodeStates s ! i = Resolving"
    and u: "usable_node (nodes ! i)" "TrimSpace (detour_target env (nodes ! i)) = []" "plain_node (nodes ! i)"
    and fin: "finish_node env i None s = (r, t)"
  shows "resolver_inv env nodes t" "grows s t" "\<exists>ref. r = Inr ref \<and> nodeStates t = (nodeStates s)[i := Resolved (Inr ref)]"
proof -
  have n: "r_nodes s ! i = nodes ! i" using inv_node [OF s i] a by (simp add: resolved_node_ok_def)
  have "map_of (node_options (p_config (nodes ! i))) NodeChainMetadataKey = None"
    using u(1,3) by (simp add: plain_node_def usable_node_def has_key_iff map_of_eq_None_iff)
  then have d: "DecodeNodeChain (e_ff env) (node_options (p_config (nodes ! i))) = Inr None"
    by (simp add: DecodeNodeChain_def)
  have n1: "p_UnsupportedReason (nodes ! i) = []" using u(1) by (simp add: usable_node_def)
  have n2: "\<forall>c. None = Some c \<longrightarrow> chain_ready s c" by simp
  have n3: "chain_meant env s (nodes ! i) (nodes ! i)" using u(2) by (simp add: chain_meant_def)
  have n4: "finish_node env i None (s\<lparr>r_nodes := (r_nodes s)[i := nodes ! i]\<rparr>) = (r, t)"
    using fin by (simp add: n [symmetric])
  show "resolver_inv env nodes t" "grows s t" "\<exists>ref. r = Inr ref \<and> nodeStates t = (nodeStates s)[i := Resolved (Inr ref)]"
    by (fact settle_inv [OF s i a n1 refl d n2 n3 n4])+
qed

lemma resolved_ref_good:
  assumes "resolver_inv env nodes s" "i < length nodes" "nodeStates s ! i = Resolved (Inr ref)"
  shows "good_ref s ref"
proof -
  have "r_nodes s ! i \<in> settled s" using assms inv_lengths [OF assms(1)] by (auto simp: settled_def)
  moreover have "ref = NodeChainNodePrefix @ p_UID (r_nodes s ! i)"
    using inv_node [OF assms(1,2)] assms(3) by (simp add: resolved_node_ok_def settled_ok_def)
  ultimately show ?thesis by (auto simp: good_ref_def)
qed

lemma node_step_0: "node_step env nodes 0"
  by (auto simp: node_step_def resolveNode.simps extends_refl)

lemma node_step_Suc:
  assumes plain: "list_all plain_node nodes" and step: "ref_step env nodes k"
  shows "node_step env nodes (Suc k)"
  unfolding node_step_def
proof (intro allI impI)
  fix i s r t assume s: "resolver_inv env nodes s" and i: "i < length nodes" and run: "resolveNode (Suc k) env i s = (r, t)"
  have l: "length (nodeStates s) = length nodes" using inv_lengths [OF s] by simp
  let ?goal = "resolver_inv env nodes t \<and> extends s t \<and> (\<forall>ref. r = Inr ref \<longrightarrow> nodeStates t ! i = Resolved (Inr ref)) \<and>
     (0 < Suc k \<longrightarrow> nodeStates t ! i \<noteq> Unvisited)"
  show ?goal
  proof (cases "nodeStates s ! i")
    case Resolving
    with run s show ?thesis by (auto simp: resolveNode.simps extends_refl)
  next
    case (Resolved q)
    with run s show ?thesis by (auto simp: resolveNode.simps extends_refl)
  next
    case Unvisited
    define s1 where "s1 = s\<lparr>nodeStates := (nodeStates s)[i := Resolving]\<rparr>"
    have s1: "resolver_inv env nodes s1" "grows s s1" using mark_inv [OF s i Unvisited s1_def] by auto
    have a1: "nodeStates s1 ! i = Resolving" using i l by (simp add: s1_def)
    have n: "r_nodes s1 ! i = nodes ! i" using inv_node [OF s1(1) i] a1 by (simp add: resolved_node_ok_def)
    have finish: ?goal if "extends s1 s2" "grows s2 t" "resolver_inv env nodes t" "nodeStates t = (nodeStates s2)[i := Resolved r]" for s2
    proof -
      have "extends s t" using extends_close [OF _ Unvisited s1_def s1(2) that(1,2) that(4)] i l by simp
      moreover have "length (nodeStates s2) = length nodes" using that(1) l by (simp add: extends_def grows_def s1_def)
      ultimately show ?thesis using that(3,4) i by simp
    qed
    have run1: "(if \<not> usable_node (nodes ! i) then finish_node env i (Some UnsupportedDependency) s1
         else if TrimSpace (detour_target env (nodes ! i)) = [] then finish_node env i None s1
         else (case resolveRef k env (detour_target env (nodes ! i)) s1 of
                 (Inl e, s2) \<Rightarrow> finish_node env i (Some e) s2
               | (Inr ref, s2) \<Rightarrow> finish_node env i None (attach_chain env i ref s2))) = (r, t)"
      using run Unvisited by (simp only: resolveNode.simps Let_def chainResolution.simps s1_def [symmetric] n)
    consider (bad) "\<not> usable_node (nodes ! i)" | (plain) "usable_node (nodes ! i)" "TrimSpace (detour_target env (nodes ! i)) = []"
      | (chain) "usable_node (nodes ! i)" "TrimSpace (detour_target env (nodes ! i)) \<noteq> []" by blast
    then show ?thesis
    proof cases
      case bad
      then have "finish_node env i (Some UnsupportedDependency) s1 = (r, t)" using run1 by simp
      from fail_inv [OF s1(1) i a1 this] show ?thesis by (intro finish [of s1]) (auto simp: extends_refl)
    next
      case plain
      then have "finish_node env i None s1 = (r, t)" using run1 by simp
      moreover have "plain_node (nodes ! i)" using assms(1) i by (simp add: list_all_length)
      ultimately show ?thesis using plain_settles [OF s1(1) i a1 plain] finish [of s1] extends_refl by blast
    next
      case chain
      obtain r2 s2 where 2: "resolveRef k env (detour_target env (nodes ! i)) s1 = (r2, s2)" by fastforce
      note d = ref_stepD [OF step s1(1) 2]
      have a2: "nodeStates s2 ! i = Resolving" using d(2) a1 i l by (simp add: extends_def s1_def)
      show ?thesis
      proof (cases r2)
        case (Inl e)
        then have "finish_node env i (Some e) s2 = (r, t)" using run1 chain 2 by simp
        from fail_inv [OF d(1) i a2 this] d(2) show ?thesis by (intro finish [of s2]) auto
      next
        case (Inr ref)
        then have "finish_node env i None (attach_chain env i ref s2) = (r, t)" using run1 chain 2 by simp
        from chained_settles [OF d(1) i a2 chain d(3,4) [OF Inr] this] d(2) finish [of s2] show ?thesis by blast
      qed
    qed
  qed
qed

lemma finish_group_step:
  assumes s: "resolver_inv env nodes s" and name: "map_of (e_sources env) name = Some (GroupSource g0)"
    and x: "\<And>g. x = Inr g \<Longrightarrow> list_all (good_ref s) (Outbounds g) \<and> small_tolerance g \<and> group_resolved env s g0 g"
    and fin: "finish_group name x s = (r, t)"
  shows "resolver_inv env nodes t \<and> extends s t \<and> (\<forall>ref. r = Inr ref \<longrightarrow> good_ref t ref \<and> denotes env t name ref)"
proof (cases x)
  case (Inl e)
  then have t: "t = s\<lparr>groupStates := map_put name (Resolved (Inl e)) (groupStates s)\<rparr>" "r = Inl e"
    using fin by (auto simp: finish_group_def)
  have "resolver_inv env nodes t" "extends s t"
    using group_update_inv [OF s _ t(1)] by simp_all
  with t(2) show ?thesis by simp
next
  case (Inr g)
  from x [OF Inr] have g: "list_all (good_ref s) (Outbounds g)" "small_tolerance g" "group_resolved env s g0 g" by simp_all
  from fin Inr have fin': "finish_group name (Inr g) s = (r, t)" by simp
  from finish_group_inv [OF s g(1,2) name g(3) fin'] show ?thesis by (auto simp: good_ref_def)
qed

lemma group_step:
  assumes ok: "small_tolerance g" and step: "ref_step env nodes k" and s: "resolver_inv env nodes s"
    and name: "map_of (e_sources env) name = Some (GroupSource g)"
    and run: "(case resolve_members (resolveRef k env) (Outbounds g) (s\<lparr>groupStates := map_put name Resolving (groupStates s)\<rparr>) of
         (Inl e, s2) \<Rightarrow> finish_group name (Inl e) s2
       | (Inr refs, s2) \<Rightarrow>
           if Default g = [] then finish_group name (Inr (g\<lparr>Outbounds := refs\<rparr>)) s2
           else (case resolveRef k env (Default g) s2 of
                   (Inl e, s3) \<Rightarrow> finish_group name (Inl e) s3
                 | (Inr d, s3) \<Rightarrow>
                     finish_group name (if d \<in> set refs then Inr (g\<lparr>Outbounds := refs, Default := d\<rparr>) else Inl DefaultNotMember) s3)) =
       (r, t)"
  shows "resolver_inv env nodes t \<and> extends s t \<and> (\<forall>ref. r = Inr ref \<longrightarrow> good_ref t ref \<and> denotes env t name ref)"
proof -
  define s1 where "s1 = s\<lparr>groupStates := map_put name Resolving (groupStates s)\<rparr>"
  have s1: "resolver_inv env nodes s1" "extends s s1" using group_update_inv [OF s _ s1_def] by simp_all
  obtain r2 s2 where 2: "resolve_members (resolveRef k env) (Outbounds g) s1 = (r2, s2)" by fastforce
  from members_step [OF step s1(1) 2] have s2: "resolver_inv env nodes s2" "extends s1 s2"
    "\<And>rs. r2 = Inr rs \<Longrightarrow> list_all (good_ref s2) rs" "\<And>rs. r2 = Inr rs \<Longrightarrow> list_all2 (denotes env s2) (Outbounds g) rs" by auto
  have whole: ?thesis if "resolver_inv env nodes u" "extends s2 u" "finish_group name x u = (r, t)"
    "\<And>h. x = Inr h \<Longrightarrow> list_all (good_ref u) (Outbounds h) \<and> small_tolerance h \<and> group_resolved env u g h" for u x
    using finish_group_step [OF that(1) name that(4,3)] extends_trans [OF extends_trans [OF s1(2) s2(2)] that(2)] extends_trans
    by blast
  show ?thesis
  proof (cases r2)
    case (Inl e)
    then have "finish_group name (Inl e) s2 = (r, t)" using run 2 by (simp add: s1_def)
    from whole [OF s2(1) extends_refl this] show ?thesis by simp
  next
    case (Inr refs)
    show ?thesis
    proof (cases "Default g = []")
      case True
      then have "finish_group name (Inr (g\<lparr>Outbounds := refs\<rparr>)) s2 = (r, t)" using run 2 Inr by (simp add: s1_def)
      from whole [OF s2(1) extends_refl this] show ?thesis
        using s2(3,4) [OF Inr] ok True by (simp add: small_tolerance_def group_resolved_def)
    next
      case False
      obtain r3 s3 where 3: "resolveRef k env (Default g) s2 = (r3, s3)" by fastforce
      note d = ref_stepD [OF step s2(1) 3]
      define x where "x = (case r3 of Inl e \<Rightarrow> Inl e
        | Inr dv \<Rightarrow> if dv \<in> set refs then Inr (g\<lparr>Outbounds := refs, Default := dv\<rparr>) else Inl DefaultNotMember)"
      have "finish_group name x s3 = (r, t)" using run 2 3 Inr False by (cases r3) (simp_all add: s1_def x_def)
      moreover have "list_all (good_ref s3) (Outbounds h) \<and> small_tolerance h \<and> group_resolved env s3 g h" if "x = Inr h" for h
      proof -
        have g3: "grows s2 s3" using d(2) by (simp add: extends_def)
        have "list_all2 (denotes env s3) (Outbounds g) refs"
          using s2(4) [OF Inr] by (rule list_all2_mono) (rule denotes_mono [OF g3])
        with that s2(3) [OF Inr] ok d(4) good_ref_mono [OF g3] False show ?thesis
          by (auto simp: x_def list_all_iff small_tolerance_def group_resolved_def split: sum.splits if_splits)
      qed
      ultimately show ?thesis using whole [OF d(1,2)] by blast
    qed
  qed
qed

lemma ref_step_from:
  assumes ok: "sources_ok env (length nodes)" and node: "node_step env nodes k"
    and less: "\<And>k'. k = Suc k' \<Longrightarrow> ref_step env nodes k'"
  shows "ref_step env nodes k"
  unfolding ref_step_def
proof (intro allI impI)
  fix name s r t assume s: "resolver_inv env nodes s" and run: "resolveRef k env name s = (r, t)"
  let ?goal = "resolver_inv env nodes t \<and> extends s t \<and> (\<forall>ref. r = Inr ref \<longrightarrow> good_ref t ref \<and> denotes env t name ref)"
  note run = run [unfolded resolveRef.simps [of k]]
  show ?goal
  proof (cases "map_of (e_sources env) name")
    case None
    with run s show ?thesis
      by (auto simp: extends_refl good_ref_def denotes_def direct_name_def intro!: exI stands_direct split: if_splits)
  next
    case src: (Some src)
    show ?thesis
    proof (cases src)
      case (NodeSource i)
      with ok src have i: "i < length nodes" by (simp add: sources_ok_def)
      from run src NodeSource have "resolveNode k env i s = (r, t)" by simp
      with node s i have n: "resolver_inv env nodes t" "extends s t" "\<And>ref. r = Inr ref \<Longrightarrow> nodeStates t ! i = Resolved (Inr ref)"
        unfolding node_step_def by blast+
      have "good_ref t ref \<and> denotes env t name ref" if "r = Inr ref" for ref
        using resolved_ref_good [OF n(1) i n(3) [OF that]] n(3) [OF that] i inv_lengths [OF n(1)] src NodeSource
        by (auto simp: denotes_def node_ref_def intro!: exI stands_node)
      with n(1,2) show ?thesis by blast
    next
      case DirectSource
      with run src s show ?thesis by (auto simp: extends_refl good_ref_def denotes_def direct_name_def intro!: exI stands_direct)
    next
      case (InvalidSource reason)
      with run src s show ?thesis by (auto simp: extends_refl)
    next
      case (GroupSource g)
      with ok src have g: "small_tolerance g" by (auto simp: sources_ok_def)
      note name = src [unfolded GroupSource]
      show ?thesis
      proof (cases k)
        case 0
        with run src GroupSource s show ?thesis by (auto simp: extends_refl)
      next
        case (Suc k')
        have gs: ?thesis if "\<And>x. map_of (groupStates s) name = Some x \<Longrightarrow> x = Unvisited"
          by (rule group_step [OF g less [OF Suc] s name], cases "map_of (groupStates s) name")
            (use run name Suc that in simp_all)
        consider "map_of (groupStates s) name = Some Resolving" | q where "map_of (groupStates s) name = Some (Resolved q)"
          | "\<And>x. map_of (groupStates s) name = Some x \<Longrightarrow> x = Unvisited"
          by (metis chainResolution.exhaust option.inject)
        then show ?thesis
        proof cases
          case 1
          with run name Suc s show ?thesis by (auto simp: extends_refl)
        next
          case (2 q)
          with run name Suc have t: "t = s" "r = q" by auto
          have "good_ref s ref \<and> denotes env s name ref" if "q = Inr ref" for ref
            using inv_group_state [OF s] inv_meanings [OF s] 2 that by (auto simp: good_ref_def meanings_def)
          with t s show ?thesis by (auto simp: extends_refl)
        next
          case 3
          then show ?thesis by (rule gs)
        qed
      qed
    qed
  qed
qed

lemma resolve_steps:
  assumes "sources_ok env (length nodes)" "list_all plain_node nodes"
  shows "node_step env nodes k \<and> ref_step env nodes k"
proof (induction k)
  case 0
  then show ?case using ref_step_from [OF assms(1) node_step_0] by (simp add: node_step_0)
next
  case (Suc k)
  then have n: "node_step env nodes (Suc k)" using node_step_Suc [OF assms(2)] by blast
  with Suc show ?case using ref_step_from [OF assms(1) n] by simp
qed

section \<open>The whole document\<close>

lemma start_inv: "resolver_inv env nodes (start_resolver nodes)"
  by (auto simp: resolver_inv_def start_resolver_def resolved_node_ok_def good_ref_def settled_def lookup_str_def meanings_def ref_prefixes)

lemma normalizeChainGroup_tolerance: "normalizeChainGroup ff sprint raw clash = Inr g \<Longrightarrow> small_tolerance g"
  by (auto simp: normalizeChainGroup_def Let_def small_tolerance_def split: if_splits)

definition source_ok :: "nat \<Rightarrow> chainSource \<Rightarrow> bool" where
  "source_ok n src = (case src of NodeSource i \<Rightarrow> i < n | GroupSource g \<Rightarrow> small_tolerance g | _ \<Rightarrow> True)"

lemma addSource_ok:
  "list_all (source_ok n) (map snd entries) \<Longrightarrow> list_all (source_ok n) (map snd srcs) \<Longrightarrow>
   list_all (source_ok n) (map snd (fold addSource entries srcs))"
proof (induction entries arbitrary: srcs)
  case (Cons e entries)
  have "list_all (source_ok n) (map snd (addSource e srcs))"
    using Cons.prems by (auto simp: addSource_def list_all_iff source_ok_def dest!: map_put_set split: prod.splits if_splits)
  with Cons show ?case by simp
qed simp

lemma chain_env_sources_ok: "sources_ok (chain_env_of ff sprint digest txt nodes groups directNames clash) (length nodes)"
proof -
  have "list_all (source_ok (length nodes)) (map snd (chain_sources ff sprint nodes groups directNames clash))"
    unfolding chain_sources_def
    by (rule addSource_ok)
      (auto simp: list_all_iff source_ok_def group_source_def in_set_enumerate_eq normalizeChainGroup_tolerance split: sum.splits)
  then have "source_ok (length nodes) src" if "map_of (chain_sources ff sprint nodes groups directNames clash) name = Some src" for name src
    using map_of_SomeD [OF that] by (force simp: list_all_iff)
  then show ?thesis unfolding sources_ok_def chain_env_of_def by (fastforce simp: source_ok_def)
qed

lemma resolve_fold:
  assumes steps: "node_step env nodes 65"
  shows "resolver_inv env nodes s \<Longrightarrow> set is \<subseteq> {..<length nodes} \<Longrightarrow>
    t = fold (\<lambda>i s. snd (resolveNode 65 env i s)) is s \<Longrightarrow>
    resolver_inv env nodes t \<and> extends s t \<and> (\<forall>i\<in>set is. nodeStates t ! i \<noteq> Unvisited)"
proof (induction "is" arbitrary: s)
  case Nil
  then show ?case by (simp add: extends_refl)
next
  case (Cons i "is")
  obtain r s1 where 1: "resolveNode 65 env i s = (r, s1)" by fastforce
  with steps Cons.prems have s1: "resolver_inv env nodes s1" "extends s s1" "nodeStates s1 ! i \<noteq> Unvisited"
    unfolding node_step_def by fastforce+
  with Cons.IH [of s1] Cons.prems 1 have t: "resolver_inv env nodes t" "extends s1 t" "\<forall>i\<in>set is. nodeStates t ! i \<noteq> Unvisited" by auto
  have "nodeStates t ! i \<noteq> Unvisited"
    using s1 t(2) Cons.prems(2) inv_lengths [OF s1(1)]
    by (cases "nodeStates s1 ! i") (auto simp: extends_def grows_def)
  with t extends_trans [OF s1(2) t(2)] show ?case by simp
qed

lemma resolve_all_done:
  assumes "sources_ok env (length nodes)" "list_all plain_node nodes"
  shows "resolver_inv env nodes (resolve_all env nodes)"
    and "i < length nodes \<Longrightarrow> \<exists>x. nodeStates (resolve_all env nodes) ! i = Resolved x"
proof -
  have step: "node_step env nodes 65" using resolve_steps [OF assms] by blast
  have t: "resolver_inv env nodes (resolve_all env nodes) \<and> extends (start_resolver nodes) (resolve_all env nodes) \<and>
      (\<forall>i\<in>set [0..<length nodes]. nodeStates (resolve_all env nodes) ! i \<noteq> Unvisited)"
    by (rule resolve_fold [OF step start_inv]) (auto simp: resolve_all_def)
  then show "resolver_inv env nodes (resolve_all env nodes)" by blast
  show "\<exists>x. nodeStates (resolve_all env nodes) ! i = Resolved x" if "i < length nodes"
  proof (cases "nodeStates (resolve_all env nodes) ! i")
    case Unvisited
    with t that show ?thesis by simp
  next
    case Resolving
    with t that show ?thesis by (auto simp: extends_def start_resolver_def)
  qed simp
qed

lemma resolve_result:
  assumes "list_all plain_node nodes"
    and res: "result = resolveSubscriptionChains ff sprint digest txt nodes groups directNames clash"
    and env: "env = chain_env_of ff sprint digest txt nodes groups directNames clash"
    and i: "i < length nodes" "p_UnsupportedReason (result ! i) = []"
  shows "\<exists>r. nodeStates (resolve_all env nodes) ! i = Resolved (Inr r) \<and>
    settled_ok env (resolve_all env nodes) (nodes ! i) (result ! i) r"
proof -
  let ?s = "resolve_all env nodes"
  have ok: "sources_ok env (length nodes)" using chain_env_sources_ok env by simp
  have inv: "resolver_inv env nodes ?s" using resolve_all_done [OF ok assms(1)] by simp
  have eq: "result = r_nodes ?s" using res env by (simp add: resolveSubscriptionChains_def)
  obtain x where x: "nodeStates ?s ! i = Resolved x" using resolve_all_done(2) [OF ok assms(1) i(1)] by blast
  have "resolved_node_ok env nodes ?s i" using inv_node [OF inv i(1)] .
  with x i(2) eq show ?thesis by (cases x) (auto simp: resolved_node_ok_def)
qed

lemma settled_result:
  assumes "list_all plain_node nodes"
    and res: "result = resolveSubscriptionChains ff sprint digest txt nodes groups directNames clash"
    and env: "env = chain_env_of ff sprint digest txt nodes groups directNames clash"
  shows "settled (resolve_all env nodes) = {m \<in> set result. p_UnsupportedReason m = []}"
    and "length result = length nodes"
proof -
  let ?s = "resolve_all env nodes"
  have ok: "sources_ok env (length nodes)" using chain_env_sources_ok env by simp
  have inv: "resolver_inv env nodes ?s" using resolve_all_done [OF ok assms(1)] by simp
  have eq: "result = r_nodes ?s" using res env by (simp add: resolveSubscriptionChains_def)
  then show l: "length result = length nodes" using inv_lengths [OF inv] by simp
  have "m \<in> set result \<and> p_UnsupportedReason m = []" if "m \<in> settled ?s" for m
  proof -
    from that obtain i r where "i < length nodes" "nodeStates ?s ! i = Resolved (Inr r)" "m = r_nodes ?s ! i"
      using inv_lengths [OF inv] by (auto simp: settled_def)
    then show ?thesis using inv_node [OF inv, of i] eq l by (auto simp: resolved_node_ok_def settled_ok_def)
  qed
  moreover have "m \<in> settled ?s" if "m \<in> set result" "p_UnsupportedReason m = []" for m
  proof -
    from that(1) obtain i where i: "i < length nodes" "m = result ! i" using l by (metis in_set_conv_nth)
    from resolve_result [OF assms i(1)] that(2) i(2) obtain r where "nodeStates ?s ! i = Resolved (Inr r)" by blast
    then show ?thesis using i eq inv_lengths [OF inv] by (auto simp: settled_def)
  qed
  ultimately show "settled ?s = {m \<in> set result. p_UnsupportedReason m = []}" by blast
qed

lemma result_grounded:
  assumes "list_all plain_node nodes"
    and "result = resolveSubscriptionChains ff sprint digest txt nodes groups directNames clash"
    and "n \<in> set result" "p_UnsupportedReason n = []"
  shows "p_UID n = StableUID ff digest n \<and> grounded ff {m \<in> set result. p_UnsupportedReason m = []} n"
proof -
  let ?env = "chain_env_of ff sprint digest txt nodes groups directNames clash"
  note l = settled_result [OF assms(1,2) refl]
  from assms(3) obtain i where i: "i < length nodes" "n = result ! i" using l(2) by (metis in_set_conv_nth)
  have "e_ff ?env = ff" "e_digest ?env = digest" by (simp_all add: chain_env_of_def)
  with resolve_result [OF assms(1,2) refl i(1)] i(2) assms(4) l(1) show ?thesis by (auto simp: settled_ok_def)
qed

text \<open>The reference of a node in the result.\<close>

definition document_ref :: "ParsedNode list \<Rightarrow> nat \<Rightarrow> string \<Rightarrow> bool" where
  "document_ref result j r \<longleftrightarrow>
     j < length result \<and> p_UnsupportedReason (result ! j) = [] \<and> r = NodeChainNodePrefix @ p_UID (result ! j)"

lemma result_means_name:
  assumes "list_all plain_node nodes"
    and "result = resolveSubscriptionChains ff sprint digest txt nodes groups directNames clash"
    and "env = chain_env_of ff sprint digest txt nodes groups directNames clash"
    and "i < length nodes" "p_UnsupportedReason (result ! i) = []" "TrimSpace (detour_target env (nodes ! i)) \<noteq> []"
  shows "\<exists>c. DecodeNodeChain ff (node_options (p_config (result ! i))) = Inr (Some c) \<and>
     (Detour c = NodeChainDirect \<and> direct_name env (detour_target env (nodes ! i)) \<or>
      (\<exists>j < length nodes. map_of (e_sources env) (detour_target env (nodes ! i)) = Some (NodeSource j) \<and>
         p_UnsupportedReason (result ! j) = [] \<and> Detour c = NodeChainNodePrefix @ p_UID (result ! j)) \<or>
      (\<exists>g fp. map_of (e_sources env) (detour_target env (nodes ! i)) = Some (GroupSource g) \<and>
         Detour c = group_id (group_name g) fp \<and>
         stands_for env (document_ref result) (detour_target env (nodes ! i)) (Detour c) fp))"
proof -
  let ?s = "resolve_all env nodes"
  let ?name = "detour_target env (nodes ! i)"
  have ok: "sources_ok env (length nodes)" using chain_env_sources_ok assms(3) by simp
  have inv: "resolver_inv env nodes ?s" using resolve_all_done [OF ok assms(1)] by simp
  have eq: "result = r_nodes ?s" using assms(2,3) by (simp add: resolveSubscriptionChains_def)
  have ff: "e_ff env = ff" using assms(3) by (simp add: chain_env_of_def)
  from resolve_result [OF assms(1-5)] obtain r where "settled_ok env ?s (nodes ! i) (result ! i) r" by blast
  then obtain c where c: "DecodeNodeChain ff (node_options (p_config (result ! i))) = Inr (Some c)"
      "denotes env ?s ?name (Detour c)"
    using assms(6) ff by (auto simp: settled_ok_def chain_meant_def)
  have "document_ref result j q" if "node_ref ?s j q" for j q
    using inv_node [OF inv, of j] that inv_lengths [OF inv] eq
    by (simp add: node_ref_def document_ref_def resolved_node_ok_def settled_ok_def)
  with c(2) obtain fp where st: "stands_for env (document_ref result) ?name (Detour c) fp"
    unfolding denotes_def using stands_for_mono by blast
  then show ?thesis
  proof (cases rule: stands_for.cases)
    case (stands_group g refs d ids)
    with c(1) st show ?thesis by (intro exI [of _ c]) blast
  qed (use c(1) eq inv_lengths [OF inv] in \<open>auto simp: document_ref_def\<close>)
qed

section \<open>The filter keeps what the resolver produced\<close>

lemma count_at_mem:
  assumes "j < length nodes"
  shows "0 < count_at uid nodes {..<length nodes} (uid (nodes ! j))"
proof -
  have "j \<in> {i \<in> {..<length nodes}. i < length nodes \<and> uid (nodes ! i) = uid (nodes ! j)}" using assms by simp
  then show ?thesis unfolding count_at_def by (simp only: of_nat_0_less_iff card_gt_0_iff) auto
qed

lemma grounded_valid:
  assumes "grounded ff (set kept) n" "\<And>m. m \<in> set kept \<Longrightarrow> p_UID m = StableUID ff digest m"
  shows "chain_valid ff (count_at (StableUID ff digest) kept {..<length kept}) n"
  using assms(1)
proof cases
  case (groundedI co)
  show ?thesis
  proof (cases co)
    case None
    with groundedI show ?thesis by (simp add: chain_valid_def)
  next
    case (Some c)
    have "ref_available (count_at (StableUID ff digest) kept {..<length kept}) (map ID (Groups c)) r"
      if "r \<in> set (chain_refs c)" for r
    proof -
      have "r = NodeChainDirect \<or> prefix NodeChainGroupPrefix r \<and> r \<in> set (map ID (Groups c)) \<or>
          (\<exists>m. grounded ff (set kept) m \<and> r = NodeChainNodePrefix @ p_UID m)"
        using groundedI(3) [rule_format, OF Some that] .
      then consider "r = NodeChainDirect" | "prefix NodeChainGroupPrefix r" "r \<in> set (map ID (Groups c))"
        | m where "grounded ff (set kept) m" "r = NodeChainNodePrefix @ p_UID m"
        by (elim disjE conjE exE)
      then show ?thesis
      proof cases
        case 1
        then show ?thesis by (simp add: ref_available_def)
      next
        case 2
        then have "\<not> prefix NodeChainNodePrefix r" by (cases r) (auto simp: ref_prefixes)
        with 2 show ?thesis by (simp add: ref_available_def)
      next
        case (3 m)
        then have "m \<in> set kept" by (auto elim: grounded.cases)
        then obtain j where "j < length kept" "kept ! j = m" by (metis in_set_conv_nth)
        with count_at_mem [of j kept "StableUID ff digest"] assms(2) [OF \<open>m \<in> set kept\<close>] 3(2) show ?thesis
          by (simp add: ref_available_def TrimPrefix_def)
      qed
    qed
    with groundedI Some show ?thesis by (simp add: chain_valid_def list_all_iff)
  qed
qed

lemma valid_survive:
  assumes "\<And>n. n \<in> set kept \<Longrightarrow> chain_valid ff (count_at (StableUID ff digest) kept {..<length kept}) n"
  shows "filterUnavailableNodeChains ff digest kept = Some (kept, [])"
proof -
  have "self_supporting (StableUID ff digest) (chain_valid ff) kept {..<length kept}"
    using assms by (simp add: self_supporting_def)
  moreover obtain av ns ch where l: "chain_loop (StableUID ff digest) (chain_valid ff) kept = Some (av, ns, ch)"
    and f: "filterUnavailableNodeChains ff digest kept =
      Some (map fst (filter (\<lambda>p. \<not> snd p) ns), map (\<lambda>p. \<lparr>ex_Name = p_Name (fst p), ex_Type = p_Type (fst p), ex_Reason = chain_excluded_reason\<rparr>) (filter snd ns))"
    and ns: "map fst ns = kept" by (rule filter_result)
  ultimately have "{..<length kept} \<subseteq> open_positions ns" using chain_nodes.loop_greatest(3) [OF l] by blast
  then have "\<not> snd p" if "p \<in> set ns" for p
    using that ns by (auto simp: open_positions_def in_set_conv_nth)
  then show ?thesis using f ns by (simp add: filter_id_conv)
qed

lemma survive_filter:
  assumes "list_all plain_node nodes"
    and "kept = filter (\<lambda>n. p_UnsupportedReason n = [])
      (resolveSubscriptionChains ff sprint digest txt nodes groups directNames clash)"
  shows "filterUnavailableNodeChains ff digest kept = Some (kept, [])"
proof (rule valid_survive)
  have kept: "set kept = {m \<in> set (resolveSubscriptionChains ff sprint digest txt nodes groups directNames clash). p_UnsupportedReason m = []}"
    using assms(2) by auto
  have ok: "p_UID m = StableUID ff digest m" "grounded ff (set kept) m" if "m \<in> set kept" for m
    using result_grounded [OF assms(1) refl, of m] that unfolding kept by blast+
  show "chain_valid ff (count_at (StableUID ff digest) kept {..<length kept}) n" if "n \<in> set kept" for n
    using grounded_valid [OF ok(2) ok(1)] that by simp
qed

section \<open>Properties\<close>

definition doc_node :: "string \<Rightarrow> string \<Rightarrow> ParsedNode" where
  "doc_node name detour =
     \<lparr>p_UID = [], p_Name = name, p_Type = ''http'', p_Server = name, p_ServerPort = 8080, p_Raw = [],
      p_config = Object [(''type'', VStr ''http''), (''password'', VStr name), (''detour'', VStr detour)], p_UnsupportedReason = []\<rparr>"

definition sample_doc :: "ParsedNode list" where "sample_doc = [doc_node ''EXIT'' ''FRONT'', doc_node ''FRONT'' []]"
definition sample_chain_env :: chain_env where "sample_chain_env = chain_env_of (\<lambda>_. []) (\<lambda>_. []) sample_digest (\<lambda>_. []) sample_doc [] [] True"



lemma sample_doc_sources: "chain_sources (\<lambda>_. []) (\<lambda>_. []) sample_doc [] [] True = [(''EXIT'', NodeSource 0), (''FRONT'', NodeSource 1)]"
  by (simp add: chain_sources_def sample_doc_def doc_node_def addSource_def has_key_iff enumerate_eq_zip)

lemma doc_node_target: "usable_node (doc_node name d)" "detour_target env (doc_node name d) = d"
  by (simp_all add: usable_node_def detour_target_def getString_def doc_node_def node_options_def map_get_def)

lemma sample_chain_sources: "map_of (e_sources sample_chain_env) ''FRONT'' = Some (NodeSource 1)"
  by (simp add: sample_chain_env_def chain_env_of_def sample_doc_sources)

lemma trim_samples: "TrimSpace ''FRONT'' = ''FRONT''" "TrimSpace [] = []"
  by code_simp+

lemma sample_doc_plain: "list_all plain_node sample_doc"
  by (simp add: sample_doc_def plain_node_def doc_node_def node_options_def has_key_iff NodeChainMetadataKey_def)

lemma front_ref: "resolveRef 64 sample_chain_env ''FRONT'' s = resolveNode 64 sample_chain_env (Suc 0) s"
  by (simp add: resolveRef.simps sample_chain_sources)

lemma front_run:
  "nodeStates s ! Suc 0 = Unvisited \<Longrightarrow> r_nodes s ! Suc 0 = doc_node ''FRONT'' [] \<Longrightarrow>
   resolveNode 64 sample_chain_env (Suc 0) s = finish_node sample_chain_env (Suc 0) None (s\<lparr>nodeStates := (nodeStates s)[Suc 0 := Resolving]\<rparr>)"
  using resolveNode.simps(2) [of 63 sample_chain_env "Suc 0" s] by (simp add: doc_node_target trim_samples Let_def)

lemma exit_run:
  "resolveNode 65 sample_chain_env 0 (start_resolver sample_doc) =
     (case finish_node sample_chain_env (Suc 0) None ((start_resolver sample_doc)\<lparr>nodeStates := [Resolving, Resolving]\<rparr>) of
        (Inl e, s2) \<Rightarrow> finish_node sample_chain_env 0 (Some e) s2
      | (Inr ref, s2) \<Rightarrow> finish_node sample_chain_env 0 None (attach_chain sample_chain_env 0 ref s2))"
  using resolveNode.simps(2) [of 64 sample_chain_env 0 "start_resolver sample_doc"]
  by (simp add: start_resolver_def sample_doc_def doc_node_target front_ref front_run trim_samples Let_def)

definition sample_resolved :: "ParsedNode list" where "sample_resolved = resolveSubscriptionChains (\<lambda>_. []) (\<lambda>_. []) sample_digest (\<lambda>_. []) sample_doc [] [] True"

lemma sample_doc_run: "sample_resolved = r_nodes (snd (resolveNode 65 sample_chain_env 1 (snd (resolveNode 65 sample_chain_env 0 (start_resolver sample_doc)))))"
  by (simp add: sample_resolved_def resolveSubscriptionChains_def resolve_all_def sample_chain_env_def sample_doc_def upt_rec)

lemma sample_doc_reasons: "map p_UnsupportedReason sample_resolved = [[], []]"
  unfolding sample_doc_run exit_run
  using resolveNode.simps(2) [of 64 sample_chain_env 1]
  by (simp add: start_resolver_def sample_doc_def finish_node_def attach_chain_def Let_def doc_node_def)

lemma sample_doc_supported:
  "sample_resolved ! 0 \<in> set sample_resolved" "p_UnsupportedReason (sample_resolved ! 0) = []"
  "filter (\<lambda>n. p_UnsupportedReason n = []) sample_resolved = sample_resolved"
proof -
  obtain a b where r: "sample_resolved = [a, b]" and ok: "p_UnsupportedReason a = []" "p_UnsupportedReason b = []"
    using sample_doc_reasons by (auto simp only: map_eq_Cons_conv list.map map_is_Nil_conv list.inject)
  show "sample_resolved ! 0 \<in> set sample_resolved" "p_UnsupportedReason (sample_resolved ! 0) = []"
    "filter (\<lambda>n. p_UnsupportedReason n = []) sample_resolved = sample_resolved" unfolding r using ok by simp_all
qed

text \<open>C5. In a document whose supported nodes carry no stored chain metadata, every node that is supported
  after resolution has its connection UID and is grounded: each reference of its chain is the direct
  outbound, a group the chain carries, or the UID of another supported node of the same document that
  is itself grounded, so that following the chain ends.  The parsers produce such nodes, except for the
  endpoints of a sing-box document.\<close>

theorem resolved_chains_grounded:
  assumes "list_all plain_node nodes"
    and "result = resolveSubscriptionChains ff sprint digest txt nodes groups directNames clash"
    and "n \<in> set result" "p_UnsupportedReason n = []"
  shows "p_UID n = StableUID ff digest n \<and> grounded ff {m \<in> set result. p_UnsupportedReason m = []} n"
  by (rule result_grounded [OF assms])

theorem resolved_chains_grounded_witness:
  "grounded (\<lambda>_. []) {m \<in> set sample_resolved. p_UnsupportedReason m = []} (sample_resolved ! 0)"
  using resolved_chains_grounded [OF sample_doc_plain sample_resolved_def sample_doc_supported(1,2)] by blast

text \<open>C20. In a document whose nodes carry no stored chain, a supported node with a detour carries a chain
  whose detour is what its name stands for in the document: the direct outbound only if the document
  names a plain direct outbound (or, in a Clash document, the built-in name without a source of its
  own); the UID of the one node with that name; or, if it is the name of a usable group, the identifier
  made of the name of that very group and its fingerprint, whose members in turn are what the names in
  the group stand for, down to nodes and direct outbounds.  Resolution never falls back to a direct
  connection.\<close>

theorem resolved_chain_means_name:
  assumes "list_all plain_node nodes"
    and "result = resolveSubscriptionChains ff sprint digest txt nodes groups directNames clash"
    and "env = chain_env_of ff sprint digest txt nodes groups directNames clash"
    and "i < length nodes" "p_UnsupportedReason (result ! i) = []" "TrimSpace (detour_target env (nodes ! i)) \<noteq> []"
  shows "\<exists>c. DecodeNodeChain ff (node_options (p_config (result ! i))) = Inr (Some c) \<and>
     (Detour c = NodeChainDirect \<and> direct_name env (detour_target env (nodes ! i)) \<or>
      (\<exists>j < length nodes. map_of (e_sources env) (detour_target env (nodes ! i)) = Some (NodeSource j) \<and>
         p_UnsupportedReason (result ! j) = [] \<and> Detour c = NodeChainNodePrefix @ p_UID (result ! j)) \<or>
      (\<exists>g fp. map_of (e_sources env) (detour_target env (nodes ! i)) = Some (GroupSource g) \<and>
         Detour c = group_id (group_name g) fp \<and>
         stands_for env (document_ref result) (detour_target env (nodes ! i)) (Detour c) fp))"
  by (rule result_means_name [OF assms])

theorem resolved_chain_means_name_witness:
  "\<exists>c. DecodeNodeChain (\<lambda>_. []) (node_options (p_config (sample_resolved ! 0))) = Inr (Some c) \<and>
     Detour c = NodeChainNodePrefix @ p_UID (sample_resolved ! 1)"
proof -
  have t: "detour_target sample_chain_env (sample_doc ! 0) = ''FRONT''" by (simp add: sample_doc_def doc_node_target)
  then show ?thesis
    using resolved_chain_means_name [OF sample_doc_plain sample_resolved_def sample_chain_env_def _ sample_doc_supported(2)] trim_samples(1)
    by (simp add: sample_doc_def [THEN arg_cong [where f = length]] sample_chain_sources direct_name_def) blast
qed

text \<open>The supported nodes of a freshly resolved document pass the chain filter of the configuration
  generator unchanged: a subscription loses no node between import and generation.\<close>

theorem resolved_chains_survive_filter:
  assumes "list_all plain_node nodes"
    and "kept = filter (\<lambda>n. p_UnsupportedReason n = [])
      (resolveSubscriptionChains ff sprint digest txt nodes groups directNames clash)"
  shows "filterUnavailableNodeChains ff digest kept = Some (kept, [])"
  by (rule survive_filter [OF assms])

theorem resolved_chains_survive_filter_witness:
  "filterUnavailableNodeChains (\<lambda>_. []) sample_digest sample_resolved = Some (sample_resolved, [])"
  using resolved_chains_survive_filter [OF sample_doc_plain sample_doc_supported(3) [unfolded sample_resolved_def, symmetric]]
  by (simp add: sample_resolved_def)

text \<open>A node that has been resolved is returned whatever the depth: the limit of 64 hops counts only the
  unresolved part of a chain, so that it depends on the order of the nodes in the document.\<close>

lemma resolved_costs_no_hops: "nodeStates s ! i = Resolved r \<Longrightarrow> resolveNode (Suc k) env i s = (r, s)"
  by (simp add: resolveNode.simps)

end
