(* ===== verification/Singbox_Import.thy ===== *)
theory Singbox_Import
  imports Import_Base Chain_Grounded
begin

text \<open>
  \<^verbatim>\<open>parser/singbox.go\<close>: importing a native sing-box document.  The document is what \<^verbatim>\<open>json.Unmarshal\<close> reads into
  \<^verbatim>\<open>singboxSubscription\<close>; its outbounds and endpoints become nodes, groups and direct names, whose chains are
  then resolved.
\<close>

section \<open>Nodes of a sing-box document\<close>

definition isSingboxLogicalOutbound :: "string \<Rightarrow> bool" where
  "isSingboxLogicalOutbound typ \<longleftrightarrow>
     typ \<in> set [''direct'', ''block'', ''dns'', ''selector'', ''urltest'', ''fallback'', ''loadbalance'']"

definition singbox_type :: "import_env \<Rightarrow> gomap \<Rightarrow> string" where
  "singbox_type e m = normalizeProtocolType (ToLower (get_str e m ''type''))"

definition singbox_port :: "string \<Rightarrow> gomap \<Rightarrow> int" where
  "singbox_port typ m = (if typ = ''ssh'' \<and> getInt m ''server_port'' = 0 then 22 else getInt m ''server_port'')"

text \<open>\<^verbatim>\<open>normalized\<close> before the checks of the protocol.\<close>

definition singbox_base :: "string \<Rightarrow> string \<Rightarrow> string \<Rightarrow> int \<Rightarrow> gomap \<Rightarrow> gomap" where
  "singbox_base name typ server port m =
     (let n = map_put ''server'' (VStr server) (map_put ''type'' (VStr typ) (map_put ''name'' (VStr name)
                (map_del NodeChainMetadataKey m)))
      in put_when (\<not> has_key n ''server_port'') ''server_port'' (VInt port) n)"

definition singbox_ports :: "import_env \<Rightarrow> string \<Rightarrow> gomap \<times> string \<Rightarrow> gomap \<times> string" where
  "singbox_ports e typ st =
     (if typ = ''hysteria'' \<or> typ = ''hysteria2''
      then (case NormalizeHysteriaPortRanges (i_sprint e) (map_get (fst st) ''server_ports'') of
              Inl _ \<Rightarrow> (fst st, typ @ '' port hopping range is invalid'')
            | Inr None \<Rightarrow> st
            | Inr (Some ports) \<Rightarrow> (map_put ''server_ports'' (VStrList ports) (fst st), snd st))
      else st)"

definition plugin_step :: "import_env \<Rightarrow> gomap \<times> string \<Rightarrow> gomap \<times> string" where
  "plugin_step e st =
     (case normalizeShadowsocksPlugin e (fst st) of
        (cfg, None) \<Rightarrow> (cfg, snd st)
      | (cfg, Some err) \<Rightarrow> (cfg, ss_error_text e err))"

definition singbox_node :: "import_env \<Rightarrow> gomap \<Rightarrow> ParsedNode option" where
  "singbox_node e m =
     (let typ = singbox_type e m; server = get_str e m ''server''; port = singbox_port typ m in
      if typ = [] \<or> server = [] \<or> port = 0 \<or> isSingboxLogicalOutbound typ then None
      else let name = firstNonEmpty [get_str e m ''tag'', get_str e m ''name'', server];
               st0 = (singbox_base name typ server port m,
                      if IsSupportedNodeProtocol typ then [] else UnsupportedNodeProtocolReason typ);
               st1 = singbox_ports e typ st0;
               st2 = (if typ = ''shadowsocks'' then plugin_step e st1 else st1)
           in Some \<lparr>p_UID = [], p_Name = name, p_Type = typ, p_Server = server, p_ServerPort = port,
                p_Raw = i_text e (fst st2), p_config = Object (json_map (fst st2)), p_UnsupportedReason = snd st2\<rparr>)"

definition singbox_group :: "import_env \<Rightarrow> gomap \<Rightarrow> bool" where
  "singbox_group e m =
     (let typ = singbox_type e m
      in typ = ''selector'' \<or> typ = ''urltest'' \<or> isSingboxLogicalOutbound typ \<and> typ \<noteq> ''direct'')"

definition singbox_direct :: "import_env \<Rightarrow> gomap \<Rightarrow> bool" where
  "singbox_direct e m = (singbox_type e m = ''direct'' \<and> isPlainChainDirect m)"

section \<open>WireGuard endpoints\<close>

text \<open>The reasons, in UTF-8.\<close>

definition reason_no_keys :: string where
  "reason_no_keys =
     ''WireGuard endpoint '' @ [CHR 0xE7, CHR 0xBC, CHR 0xBA, CHR 0xE5, CHR 0xB0, CHR 0x91] @ '' address '' @ [CHR
      0xE6, CHR 0x88, CHR 0x96] @ '' private_key''"

definition reason_no_peers :: string where
  "reason_no_peers =
     ''WireGuard endpoint '' @ [CHR 0xE7, CHR 0xBC, CHR 0xBA, CHR 0xE5, CHR 0xB0, CHR 0x91] @ '' peers''"

definition reason_peer_format :: "nat \<Rightarrow> string" where
  "reason_peer_format i =
     ''WireGuard peer '' @ show_nat i @ '' '' @ [CHR 0xE6, CHR 0xA0, CHR 0xBC, CHR 0xE5, CHR 0xBC, CHR 0x8F, CHR 0xE6, CHR 0x97, CHR 0xA0, CHR 0xE6,
      CHR 0x95, CHR 0x88]"

definition reason_peer_key :: "nat \<Rightarrow> string" where
  "reason_peer_key i =
     ''WireGuard peer '' @ show_nat i @ '' '' @ [CHR 0xE7, CHR 0xBC, CHR 0xBA, CHR 0xE5, CHR 0xB0, CHR 0x91] @ '' public_key''"

definition reason_peer_address :: "nat \<Rightarrow> string" where
  "reason_peer_address i =
     ''WireGuard peer '' @ show_nat i @ '' address '' @ [CHR 0xE6, CHR 0x88, CHR 0x96] @ '' port '' @ [CHR 0xE6, CHR 0x97, CHR 0xA0, CHR 0xE6, CHR
      0x95, CHR 0x88]"

definition reason_no_dialable :: string where
  "reason_no_dialable =
     ''WireGuard endpoint '' @ [CHR 0xE6, CHR 0xB2, CHR 0xA1, CHR 0xE6, CHR 0x9C, CHR 0x89, CHR 0xE5, CHR 0x8F, CHR
      0xAF, CHR 0xE8, CHR 0xBF, CHR 0x9E, CHR 0xE6, CHR 0x8E, CHR 0xA5, CHR 0xE7, CHR 0x9A, CHR 0x84] @ '' peer''"

text \<open>The loop over the peers: the reason, the first address with a port, and the number of the next peer.\<close>

fun endpoint_peers :: "import_env \<Rightarrow> nat \<Rightarrow> goval list \<Rightarrow> string \<times> string \<times> int \<Rightarrow> string \<times> string \<times> int" where
  "endpoint_peers e i [] acc = acc"
| "endpoint_peers e i (v # vs) (reason, server, port) =
     (case as_map v of
        None \<Rightarrow> endpoint_peers e (Suc i) vs (reason_peer_format (Suc i), server, port)
      | Some peer \<Rightarrow>
         (let address = get_str e peer ''address''; pport = getInt peer ''port'';
              r1 = (if get_str e peer ''public_key'' = [] then reason_peer_key (Suc i) else reason);
              r2 = (if (address = []) \<noteq> (pport = 0) \<or> pport < 0 \<or> pport > 65535 then reason_peer_address (Suc i) else r1)
          in endpoint_peers e (Suc i) vs
               (if server = [] \<and> address \<noteq> [] \<and> pport > 0 then (r2, address, pport) else (r2, server, port))))"

definition wireguard_checked :: "import_env \<Rightarrow> gomap \<Rightarrow> string \<times> string \<times> int" where
  "wireguard_checked e m =
     (let r0 = (if stringList e (map_get m ''address'') = [] \<or> get_str e m ''private_key'' = [] then reason_no_keys else []);
          peers = (case as_list (map_get m ''peers'') of None \<Rightarrow> [] | Some ps \<Rightarrow> ps);
          r1 = (if peers = [] then reason_no_peers else r0)
      in case endpoint_peers e 0 peers (r1, [], 0) of
           (r2, server, port) \<Rightarrow> (if server = [] \<or> port = 0 then reason_no_dialable else r2, server, port))"

definition parseSingboxEndpoint :: "import_env \<Rightarrow> gomap \<Rightarrow> ParsedNode option" where
  "parseSingboxEndpoint e m =
     (let typ = singbox_type e m; name = firstNonEmpty [get_str e m ''tag'', get_str e m ''name'', typ] in
      if typ = [] then None
      else if typ \<noteq> ''wireguard''
      then Some \<lparr>p_UID = [], p_Name = name, p_Type = typ, p_Server = [], p_ServerPort = 0, p_Raw = i_text e m,
             p_config = Object (json_map m), p_UnsupportedReason = UnsupportedNodeProtocolReason typ\<rparr>
      else case wireguard_checked e m of
        (reason, server, port) \<Rightarrow>
          (let n = map_put ''type'' (VStr ''wireguard'') (map_del NodeChainMetadataKey m)
           in Some \<lparr>p_UID = [], p_Name = name, p_Type = ''wireguard'', p_Server = server, p_ServerPort = port, p_Raw = i_text e n,
                p_config = Object (json_map n), p_UnsupportedReason = reason\<rparr>))"

section \<open>The document\<close>

fun somes :: "'a option list \<Rightarrow> 'a list" where
  "somes [] = []"
| "somes (None # xs) = somes xs"
| "somes (Some x # xs) = x # somes xs"

definition singbox_nodes :: "import_env \<Rightarrow> gomap list \<Rightarrow> gomap list \<Rightarrow> ParsedNode list" where
  "singbox_nodes e outbounds endpoints = somes (map (singbox_node e) outbounds) @ somes (map (parseSingboxEndpoint e) endpoints)"

text \<open>\<open>None\<close>: the body is not such a document.\<close>

definition parseSingboxJSON :: "import_env \<Rightarrow> (gomap list \<times> gomap list) option \<Rightarrow> ParsedNode list" where
  "parseSingboxJSON e body =
     (case body of
        None \<Rightarrow> []
      | Some (outbounds, endpoints) \<Rightarrow>
          if outbounds = [] \<and> endpoints = [] then []
          else resolveSubscriptionChains (i_ff e) (i_sprint e) (i_digest e) (i_text e) (singbox_nodes e outbounds endpoints)
                 (filter (singbox_group e) outbounds) (map (\<lambda>m. get_str e m ''tag'') (filter (singbox_direct e) outbounds)) False)"

section \<open>Imported nodes carry no foreign metadata\<close>

lemma has_key_json_map [simp]: "has_key (json_map m) k = has_key m k"
  by (force simp: has_key_iff json_map_def)

lemma has_key_put_when: "has_key (put_when b k v m) k' \<longleftrightarrow> b \<and> k' = k \<or> has_key m k'"
  by (simp add: put_when_def)

lemma ss_tls_field_keys: "ss_tls_field cfg = (c, err) \<Longrightarrow> has_key c k \<Longrightarrow> has_key cfg k"
  by (auto simp: ss_tls_field_def Let_def split: option.splits goval.splits if_splits)

lemma ss_plugin_keys:
  assumes "normalizeShadowsocksPlugin e cfg = (c, err)" "has_key c k" "k \<noteq> ''plugin''" "k \<noteq> ''plugin_opts''"
  shows "has_key cfg k"
proof -
  obtain c1 err1 where 1: "ss_tls_field cfg = (c1, err1)" by fastforce
  have "has_key c1 k"
    using assms 1 by (cases err1) (auto simp: normalizeShadowsocksPlugin_def Let_def split: sum.splits prod.splits if_splits)
  with 1 show ?thesis by (rule ss_tls_field_keys)
qed

lemma plugin_step_keys:
  assumes "has_key (fst (plugin_step e st)) k" "k \<noteq> ''plugin''" "k \<noteq> ''plugin_opts''"
  shows "has_key (fst st) k"
proof -
  obtain c err where r: "normalizeShadowsocksPlugin e (fst st) = (c, err)" by fastforce
  with assms(1) have "has_key c k" by (cases err) (simp_all add: plugin_step_def)
  from ss_plugin_keys [OF r this assms(2,3)] show ?thesis .
qed

lemma singbox_ports_keys: "has_key (fst (singbox_ports e typ st)) k \<Longrightarrow> k \<noteq> ''server_ports'' \<Longrightarrow> has_key (fst st) k"
  by (auto simp: singbox_ports_def split: sum.splits option.splits if_splits)

lemma singbox_node_plain: "singbox_node e m = Some n \<Longrightarrow> plain_node n"
  by (auto simp: singbox_node_def Let_def plain_node_def node_options_def singbox_base_def has_key_put_when NodeChainMetadataKey_def
      dest!: plugin_step_keys singbox_ports_keys split: if_splits)

lemma endpoint_plain: "parseSingboxEndpoint e m = Some n \<Longrightarrow> \<not> has_key m NodeChainMetadataKey \<Longrightarrow> plain_node n"
  by (auto simp: parseSingboxEndpoint_def Let_def plain_node_def node_options_def NodeChainMetadataKey_def split: if_splits prod.splits)

lemma set_somes: "x \<in> set (somes xs) \<longleftrightarrow> Some x \<in> set xs"
  by (induction xs rule: somes.induct) auto

lemma singbox_nodes_plain:
  assumes "list_all (\<lambda>m. \<not> has_key m NodeChainMetadataKey) endpoints"
  shows "list_all plain_node (singbox_nodes e outbounds endpoints)"
  using assms singbox_node_plain endpoint_plain
  by (fastforce simp: singbox_nodes_def list_all_iff set_somes)

lemma singbox_survive:
  "filterUnavailableNodeChains (i_ff e) (i_digest e) (filter (\<lambda>n. p_UnsupportedReason n = []) (parseSingboxJSON e (Some (outbounds, endpoints)))) =
     Some (filter (\<lambda>n. p_UnsupportedReason n = []) (parseSingboxJSON e (Some (outbounds, endpoints))), [])"
  if "list_all (\<lambda>m. \<not> has_key m NodeChainMetadataKey) endpoints"
proof (cases "outbounds = [] \<and> endpoints = []")
  case True
  then have none: "parseSingboxJSON e (Some (outbounds, endpoints)) = []" by (simp add: parseSingboxJSON_def)
  show ?thesis unfolding none by code_simp
next
  case False
  then show ?thesis using survive_filter [OF singbox_nodes_plain [OF that] refl] by (auto simp: parseSingboxJSON_def)
qed

text \<open>C21. What is imported from a sing-box document is ready for generation: the supported nodes carry their
  connection UIDs and grounded chains, and the chain filter keeps all of them, whatever outbounds and
  groups the document has; the endpoints must not bring chain metadata of their own.\<close>

theorem singbox_import_ready:
  assumes "list_all (\<lambda>m. \<not> has_key m NodeChainMetadataKey) endpoints"
    and "result = parseSingboxJSON e (Some (outbounds, endpoints))"
    and "kept = filter (\<lambda>n. p_UnsupportedReason n = []) result"
  shows "filterUnavailableNodeChains (i_ff e) (i_digest e) kept = Some (kept, []) \<and>
    list_all (\<lambda>n. p_UID n = StableUID (i_ff e) (i_digest e) n \<and> grounded (i_ff e) (set kept) n) kept"
proof
  show "filterUnavailableNodeChains (i_ff e) (i_digest e) kept = Some (kept, [])"
    unfolding assms(2,3) using singbox_survive [OF assms(1)] .
  show "list_all (\<lambda>n. p_UID n = StableUID (i_ff e) (i_digest e) n \<and> grounded (i_ff e) (set kept) n) kept"
  proof (cases "result = []")
    case False
    then have r: "result = resolveSubscriptionChains (i_ff e) (i_sprint e) (i_digest e) (i_text e) (singbox_nodes e outbounds endpoints)
        (filter (singbox_group e) outbounds) (map (\<lambda>m. get_str e m ''tag'') (filter (singbox_direct e) outbounds)) False"
      using assms(2) by (auto simp: parseSingboxJSON_def split: if_splits)
    have "set kept = {m \<in> set result. p_UnsupportedReason m = []}" using assms(3) by auto
    with result_grounded [OF singbox_nodes_plain [OF assms(1)] r] assms(3) show ?thesis by (auto simp: list_all_iff)
  qed (simp add: assms(3))
qed

text \<open>
  The hypothesis is needed: an endpoint whose type is that of a supported node gets no reason, no server
  and no port, and keeps the chain metadata the document put into it.
\<close>

lemma endpoint_metadata_kept:
  "\<exists>n. parseSingboxEndpoint e [(''type'', VStr ''http''), (NodeChainMetadataKey, v)] = Some n \<and>
     p_UnsupportedReason n = [] \<and> p_Server n = [] \<and> map_of (node_options (p_config n)) NodeChainMetadataKey = Some (json_value v)"
proof -
  have "normalizeProtocolType (ToLower ''http'') = ''http''" "UnsupportedNodeProtocolReason ''http'' = []" by code_simp+
  then show ?thesis
    by (simp add: parseSingboxEndpoint_def singbox_type_def get_str_def getString_def map_get_def node_options_def json_map_def NodeChainMetadataKey_def Let_def)
qed

text \<open>
  Names lose the spaces around them here, while detours and group members keep theirs: a native tag with
  such spaces cannot be referred to.
\<close>

lemma TrimSpace_nil: "TrimSpace [] = []"
  by code_simp

lemma firstNonEmpty_trimmed: "TrimSpace (firstNonEmpty vs) = firstNonEmpty vs"
  by (induction vs) (auto simp: TrimSpace_nil)

lemma singbox_names_trimmed: "singbox_node e m = Some n \<Longrightarrow> TrimSpace (p_Name n) = p_Name n"
  by (auto simp: singbox_node_def Let_def firstNonEmpty_trimmed simp del: firstNonEmpty.simps split: if_splits)

definition sample_import :: import_env where
  "sample_import = \<lparr>i_ff = (\<lambda>_. []), i_sprint = (\<lambda>_. []), i_text = (\<lambda>_. []), i_digest = sample_digest,
     i_quote = (\<lambda>s. CHR 0x22 # s @ [CHR 0x22]), i_sip_text = (\<lambda>_. ''plugin''), i_int_true = (\<lambda>_. False), i_pem_ok = (\<lambda>_. False), i_pem = (\<lambda>_. [])\<rparr>"

definition sample_import_outbounds :: "gomap list" where
  "sample_import_outbounds =
     [[(''type'', VStr ''http''), (''tag'', VStr ''EXIT''), (''server'', VStr ''exit.example''), (''server_port'', VFloat 8080),
       (''password'', VStr ''EXIT''), (''detour'', VStr ''FRONT'')],
      [(''type'', VStr ''http''), (''tag'', VStr ''FRONT''), (''server'', VStr ''front.example''), (''server_port'', VFloat 8080),
       (''password'', VStr ''FRONT'')]]"

lemma sample_import_names: "map p_Name (singbox_nodes sample_import sample_import_outbounds []) = [''EXIT'', ''FRONT'']"
  by code_simp

definition sample_import_endpoint :: gomap where
  "sample_import_endpoint = [(''type'', VStr ''wireguard''), (''tag'', VStr ''WG''), (''address'', VList [VStr ''10.0.0.2/32'']),
     (''private_key'', VStr ''k''), (''peers'', VList [VMap [(''address'', VStr ''wg.example''), (''port'', VFloat 51820), (''public_key'', VStr ''p'')]])]"

lemma sample_import_endpoint_supported:
  "map_option (\<lambda>n. (p_UnsupportedReason n, p_Server n)) (parseSingboxEndpoint sample_import sample_import_endpoint) = Some ([], ''wg.example'')"
  "list_all (\<lambda>m. \<not> has_key m NodeChainMetadataKey) [sample_import_endpoint]"
  by code_simp+

theorem singbox_import_ready_witness:
  "let kept = filter (\<lambda>n. p_UnsupportedReason n = []) (parseSingboxJSON sample_import (Some (sample_import_outbounds, [sample_import_endpoint])))
   in filterUnavailableNodeChains (\<lambda>_. []) sample_digest kept = Some (kept, [])"
  using singbox_import_ready [OF sample_import_endpoint_supported(2) refl refl, of sample_import sample_import_outbounds]
  by (simp add: sample_import_def)

end
