(* ===== verification/Clash_Import.thy ===== *)
theory Clash_Import
  imports Singbox_Import
begin

text \<open>
  \<^verbatim>\<open>parser/clash.go\<close>, \<^verbatim>\<open>clash_options.go\<close> and \<^verbatim>\<open>normalizeV2RayTransport\<close> of \<^verbatim>\<open>parser/helpers.go\<close>: importing a Clash
  document.  Each step changes the resulting map and may set the reason that makes the node unsupported;
  a later reason replaces an earlier one.
\<close>

section \<open>Values\<close>

definition clash_bool :: "import_env \<Rightarrow> goval \<Rightarrow> bool" where
  "clash_bool e v = (case v of VInt i \<Rightarrow> i_int_true e i | _ \<Rightarrow> boolOrString v)"

definition clash_flag :: "import_env \<Rightarrow> gomap \<Rightarrow> string \<Rightarrow> bool" where
  "clash_flag e m k = (has_key m k \<and> clash_bool e (map_get m k))"

text \<open>A section of the document that is a map and switched on by one of its fields.\<close>

definition enabled_section :: "import_env \<Rightarrow> gomap \<Rightarrow> string \<Rightarrow> string \<Rightarrow> gomap option" where
  "enabled_section e m k switch =
     (case as_map (map_get m k) of
        Some sec \<Rightarrow> if clash_bool e (map_get sec switch) then Some sec else None
      | None \<Rightarrow> None)"

definition copy_bool :: "import_env \<Rightarrow> gomap \<Rightarrow> string \<Rightarrow> string \<Rightarrow> gomap \<Rightarrow> gomap" where
  "copy_bool e src from to dst = put_when (has_key src from) to (VBool (clash_bool e (map_get src from))) dst"

definition copy_value :: "gomap \<Rightarrow> string \<Rightarrow> string \<Rightarrow> gomap \<Rightarrow> gomap" where
  "copy_value src from to dst = put_when (has_key src from) to (map_get src from) dst"

definition copy_int :: "gomap \<Rightarrow> string \<Rightarrow> string \<Rightarrow> gomap \<Rightarrow> gomap" where
  "copy_int src from to dst = put_when (getInt src from > 0) to (VInt (getInt src from)) dst"

definition copy_seconds :: "gomap \<Rightarrow> string \<Rightarrow> string \<Rightarrow> string \<Rightarrow> gomap \<Rightarrow> gomap" where
  "copy_seconds src from to unit dst = put_when (getInt src from > 0) to (VStr (show_int (getInt src from) @ unit)) dst"

definition copy_text :: "import_env \<Rightarrow> gomap \<Rightarrow> string \<Rightarrow> string \<Rightarrow> gomap \<Rightarrow> gomap" where
  "copy_text e src from to dst = put_when (get_str e src from \<noteq> []) to (VStr (get_str e src from)) dst"

definition is_letter :: "char \<Rightarrow> bool" where
  "is_letter c = (CHR ''a'' \<le> lower_byte c \<and> lower_byte c \<le> CHR ''z'')"

definition durationInSeconds :: "string \<Rightarrow> string" where
  "durationInSeconds value =
     (let v = TrimSpace value in
      if v = [] then [] else if list_ex is_letter v then v
      else if ParseUint v 64 = None then [] else v @ ''s'')"

text \<open>\<open>None\<close> is an error.\<close>

definition normalizeHysteriaHopInterval :: "string \<Rightarrow> (string \<times> string) option" where
  "normalizeHysteriaHopInterval value =
     (let v = TrimSpace value in
      if v = [] then Some ([], [])
      else if \<not> list_ex is_letter v \<and> CHR ''-'' \<in> set v
      then (case split_once CHR ''-'' v of
              (a, r) \<Rightarrow>
                (let lo = durationInSeconds a; hi = durationInSeconds (case r of None \<Rightarrow> [] | Some b \<Rightarrow> b)
                 in case (ParseDuration lo, ParseDuration hi) of
                      (Some x, Some y) \<Rightarrow> if x \<le> 0 \<or> y < x then None else Some (lo, hi)
                    | _ \<Rightarrow> None))
      else (let d = durationInSeconds v
            in case ParseDuration d of Some x \<Rightarrow> if x \<le> 0 then None else Some (d, []) | None \<Rightarrow> None))"

definition has_suffix :: "string \<Rightarrow> string \<Rightarrow> bool" where
  "has_suffix s suf = suffix suf s"

text \<open>Megabits per second; the product of a Go \<^verbatim>\<open>int\<close> wraps at 64 bits.\<close>

definition wrap64 :: "int \<Rightarrow> int" where
  "wrap64 i = (i + 2 ^ 63) mod 2 ^ 64 - 2 ^ 63"

definition parseBandwidth :: "string \<Rightarrow> int" where
  "parseBandwidth s0 =
     (let s = ToLower (TrimSpace s0);
          number = (\<lambda>t m. case Atoi (TrimSpace t) of (n, ok) \<Rightarrow> if ok then wrap64 (n * m) else 0) in
      if has_suffix s ''gbps'' \<or> has_suffix s ''gb/s'' then number (TrimSuffix (TrimSuffix s ''gbps'') ''gb/s'') 1000
      else if has_suffix s ''mbps'' \<or> has_suffix s ''mb/s'' then number (TrimSuffix (TrimSuffix s ''mbps'') ''mb/s'') 1
      else if has_suffix s ''kbps'' \<or> has_suffix s ''kb/s''
      then (case Atoi (TrimSpace (TrimSuffix (TrimSuffix s ''kbps'') ''kb/s'')) of
              (n, ok) \<Rightarrow> if ok \<and> n \<ge> 1000 then n div 1000 else 0)
      else number s 1)"

definition ensureCIDR :: "string \<Rightarrow> bool \<Rightarrow> string" where
  "ensureCIDR ip isIPv6 = (if CHR ''/'' \<in> set ip then ip else if isIPv6 then ip @ ''/128'' else ip @ ''/32'')"

definition reserved_item :: "goval \<Rightarrow> int" where
  "reserved_item v = getInt [(''value'', v)] ''value''"

text \<open>The empty list stands for \<^verbatim>\<open>nil\<close>: the only caller tests the length.\<close>

definition normalizeWireGuardReserved :: "goval \<Rightarrow> int list" where
  "normalizeWireGuardReserved v =
     (case v of
        VList items \<Rightarrow>
          (if list_ex (\<lambda>x. reserved_item x < 0 \<or> reserved_item x > 255) items \<or> length items \<noteq> 3 then []
           else map reserved_item items)
      | VStr raw \<Rightarrow>
          (case b64_any (\<lambda>d. length d = 3) (TrimSpace raw) of None \<Rightarrow> [] | Some d \<Rightarrow> map of_char d)
      | _ \<Rightarrow> [])"

definition normalizeClashECHConfig :: "import_env \<Rightarrow> goval \<Rightarrow> string list option" where
  "normalizeClashECHConfig e v =
     (case v of
        VStr raw0 \<Rightarrow>
          (let raw = TrimSpace raw0 in
           if raw = [] then None
           else if prefix ''-----BEGIN'' raw then (if i_pem_ok e raw then Some [raw] else None)
           else case b64_any (\<lambda>d. d \<noteq> []) raw of None \<Rightarrow> None | Some d \<Rightarrow> Some [TrimSpace (i_pem e d)])
      | _ \<Rightarrow> None)"

definition clashIPVersionStrategy :: "string \<Rightarrow> string" where
  "clashIPVersionStrategy value =
     (let v = ToLower (TrimSpace value) in
      if v = ''ipv4'' \<or> v = ''ipv4-only'' then ''ipv4_only''
      else if v = ''ipv6'' \<or> v = ''ipv6-only'' then ''ipv6_only''
      else if v = ''ipv4-prefer'' \<or> v = ''prefer-ipv4'' then ''prefer_ipv4''
      else if v = ''ipv6-prefer'' \<or> v = ''prefer-ipv6'' then ''prefer_ipv6''
      else [])"

definition clashSupportsNetworkField :: "string \<Rightarrow> bool" where
  "clashSupportsNetworkField protocol \<longleftrightarrow> protocol \<in> set
     [''vmess'', ''vless'', ''trojan'', ''shadowsocks'', ''ssr'', ''socks'', ''hysteria'', ''hysteria2'', ''tuic'', ''snell'']"

definition isKnownUTLSFingerprint :: "string \<Rightarrow> bool" where
  "isKnownUTLSFingerprint value \<longleftrightarrow> ToLower (TrimSpace value) \<in> set
     [''chrome'', ''firefox'', ''edge'', ''safari'', ''360'', ''qq'', ''ios'', ''android'', ''random'', ''randomized'', ''chrome_psk'',
      ''chrome_psk_shuffle'', ''chrome_padding_psk_shuffle'', ''chrome_pq'', ''chrome_pq_psk'']"

definition normalizeSHA256Hex :: "string \<Rightarrow> string option" where
  "normalizeSHA256Hex value =
     (let v = ToLower (filter (\<lambda>c. c \<noteq> CHR '':'' \<and> c \<noteq> CHR ''-'') (TrimSpace value))
      in if length v = 64 \<and> list_all is_hex v then Some v else None)"

section \<open>Steps\<close>

type_synonym clash_state = "gomap \<times> string"

definition on_result :: "(gomap \<Rightarrow> gomap) \<Rightarrow> clash_state \<Rightarrow> clash_state" where
  "on_result f st = (f (fst st), snd st)"

definition refuse :: "bool \<Rightarrow> string \<Rightarrow> clash_state \<Rightarrow> clash_state" where
  "refuse b reason st = (fst st, if b then reason else snd st)"

definition clash_start :: "import_env \<Rightarrow> gomap \<Rightarrow> string \<Rightarrow> clash_state" where
  "clash_start e p typ =
     ([(''type'', VStr typ), (''server'', VStr (get_str e p ''server'')), (''server_port'', VInt (getInt p ''port''))],
      if IsSupportedNodeProtocol typ then [] else UnsupportedNodeProtocolReason typ)"

definition clash_cipher :: "import_env \<Rightarrow> gomap \<Rightarrow> string \<Rightarrow> gomap \<Rightarrow> gomap" where
  "clash_cipher e p typ m =
     (let m1 = copyClashField p ''uuid'' m;
          m2 = (if typ = ''vmess'' then copy_int p ''alterId'' ''alter_id'' m1 else m1)
      in if typ = ''vmess'' then copy_value p ''cipher'' ''security'' m2
         else if typ = ''shadowsocks'' \<or> typ = ''ssr'' then copy_value p ''cipher'' ''method'' m2
         else m2)"

definition clash_udp_over_tcp :: "import_env \<Rightarrow> gomap \<Rightarrow> gomap \<Rightarrow> gomap" where
  "clash_udp_over_tcp e p m =
     put_when (clash_flag e p ''udp-over-tcp'') ''udp_over_tcp''
       (if has_key p ''udp-over-tcp-version''
        then VMap [(''enabled'', VBool True), (''version'', map_get p ''udp-over-tcp-version'')] else VBool True) m"

definition clash_ssr :: "import_env \<Rightarrow> gomap \<Rightarrow> gomap \<Rightarrow> gomap" where
  "clash_ssr e p m =
     copy_text e p ''obfs-param'' ''obfs_param'' (copy_text e p ''protocol-param'' ''protocol_param''
       (copyClashField p ''obfs'' (copyClashField p ''protocol'' m)))"

definition clash_ssh :: "import_env \<Rightarrow> gomap \<Rightarrow> gomap \<Rightarrow> gomap" where
  "clash_ssh e p m =
     (let m1 = copyFirstClashField p ''user'' [''user'', ''username''] m;
          m2 = copyFirstClashListField e p ''private_key'' [''private-key'', ''private_key''] m1;
          m3 = copyFirstClashField p ''private_key_path'' [''private-key-path'', ''private_key_path''] m2;
          m4 = copyFirstClashField p ''private_key_passphrase'' [''private-key-passphrase'', ''private_key_passphrase''] m3;
          m5 = copyFirstClashListField e p ''host_key'' [''host-key'', ''host_key''] m4;
          m6 = copyFirstClashListField e p ''host_key_algorithms'' [''host-key-algorithms'', ''host_key_algorithms''] m5;
          m7 = copyFirstClashField p ''client_version'' [''client-version'', ''client_version''] m6;
          m8 = copyFirstClashListField e p ''cipher'' [''cipher''] m7;
          m9 = copyFirstClashListField e p ''mac'' [''mac''] m8
      in copyFirstClashListField e p ''kex_algorithm'' [''kex-algorithm'', ''kex_algorithm''] m9)"

definition clash_credentials :: "import_env \<Rightarrow> gomap \<Rightarrow> string \<Rightarrow> gomap \<Rightarrow> gomap" where
  "clash_credentials e p typ m =
     (let m1 = copyClashField p ''flow'' (copyClashField p ''password'' m);
          m2 = (if typ \<noteq> ''ssh'' then copyClashField p ''username'' m1 else m1);
          m3 = (if typ = ''shadowsocks'' then copyClashField p ''plugin'' m2 else m2);
          m4 = (if typ = ''vless'' then copyClashField p ''encryption'' m3 else m3);
          m5 = (if typ = ''snell'' then copyClashField p ''psk'' m4 else m4)
      in if typ = ''ssh'' then clash_ssh e p m5 else m5)"

definition clash_dial :: "import_env \<Rightarrow> gomap \<Rightarrow> gomap \<Rightarrow> gomap" where
  "clash_dial e p m =
     (let m1 = copy_bool e p ''mptcp'' ''tcp_multi_path'' (copy_bool e p ''tfo'' ''tcp_fast_open'' m);
          m2 = copy_int p ''routing-mark'' ''routing_mark'' (copy_text e p ''interface-name'' ''bind_interface'' m1);
          strategy = clashIPVersionStrategy (get_str e p ''ip-version'')
      in put_when (strategy \<noteq> []) ''domain_strategy'' (VStr strategy) m2)"

definition normalizeClashMultiplex :: "import_env \<Rightarrow> gomap \<Rightarrow> gomap" where
  "normalizeClashMultiplex e smux =
     (let m1 = fold (\<lambda>(from, to). copy_value smux from to)
            [(''protocol'', ''protocol''), (''max-connections'', ''max_connections''), (''min-streams'', ''min_streams''),
             (''max-streams'', ''max_streams''), (''padding'', ''padding'')] [(''enabled'', VBool True)]
      in case enabled_section e smux ''brutal-opts'' ''enabled'' of
           None \<Rightarrow> m1
         | Some options \<Rightarrow>
             (let up = parseBandwidth (get_str e options ''up''); down = parseBandwidth (get_str e options ''down'')
              in map_put ''brutal'' (VMap (put_when (down > 0) ''down_mbps'' (VInt down)
                   (put_when (up > 0) ''up_mbps'' (VInt up) [(''enabled'', VBool True)]))) m1))"

definition clash_smux :: "import_env \<Rightarrow> gomap \<Rightarrow> gomap \<Rightarrow> gomap" where
  "clash_smux e p m =
     (case enabled_section e p ''smux'' ''enabled'' of
        None \<Rightarrow> m
      | Some smux \<Rightarrow> map_put ''multiplex'' (VMap (normalizeClashMultiplex e smux)) m)"

definition clash_packet_encoding :: "import_env \<Rightarrow> gomap \<Rightarrow> gomap \<Rightarrow> gomap" where
  "clash_packet_encoding e p m =
     (if has_key p ''packet-encoding'' \<and> get_str e p ''packet-encoding'' \<noteq> []
      then map_put ''packet_encoding'' (map_get p ''packet-encoding'') m
      else if clash_flag e p ''packet-addr'' then map_put ''packet_encoding'' (VStr ''packetaddr'') m
      else put_when (clash_flag e p ''xudp'') ''packet_encoding'' (VStr ''xudp'') m)"

definition clash_vmess_vless :: "import_env \<Rightarrow> gomap \<Rightarrow> string \<Rightarrow> gomap \<Rightarrow> gomap" where
  "clash_vmess_vless e p typ m =
     (let m1 = (if typ = ''vmess'' then copy_bool e p ''authenticated-length'' ''authenticated_length''
                  (copy_bool e p ''global-padding'' ''global_padding'' m) else m)
      in clash_packet_encoding e p (clash_smux e p m1))"

definition clash_anytls :: "gomap \<Rightarrow> gomap \<Rightarrow> gomap" where
  "clash_anytls p m =
     copy_int p ''min-idle-session'' ''min_idle_session''
       (copy_seconds p ''idle-session-timeout'' ''idle_session_timeout'' ''s''
         (copy_seconds p ''idle-session-check-interval'' ''idle_session_check_interval'' ''s'' m))"

definition clash_socks :: "import_env \<Rightarrow> gomap \<Rightarrow> clash_state \<Rightarrow> clash_state" where
  "clash_socks e p st =
     (let t = ToLower (get_str e p ''type'')
      in refuse (clash_flag e p ''tls'') ''TLS-wrapped SOCKS is not supported by sing-box''
           (on_result (map_put ''version'' (VStr (if t = ''socks4'' \<or> t = ''socks4a'' then ''4'' else ''5''))) st))"

definition hop_ports :: "import_env \<Rightarrow> gomap \<Rightarrow> string \<Rightarrow> clash_state \<Rightarrow> clash_state" where
  "hop_ports e p reason st =
     (case NormalizeHysteriaPortRanges (i_sprint e) (firstNonNil [map_get p ''ports'', map_get p ''mport'']) of
        Inl _ \<Rightarrow> refuse True reason st
      | Inr None \<Rightarrow> st
      | Inr (Some ports) \<Rightarrow> on_result (put_when (ports \<noteq> []) ''server_ports'' (VStrList ports)) st)"

definition bandwidth :: "string \<Rightarrow> string \<Rightarrow> gomap \<Rightarrow> gomap" where
  "bandwidth text key m = put_when (text \<noteq> [] \<and> parseBandwidth text > 0) key (VInt (parseBandwidth text)) m"

definition clash_hysteria :: "import_env \<Rightarrow> gomap \<Rightarrow> clash_state \<Rightarrow> clash_state" where
  "clash_hysteria e p st =
     (let protocol = firstNonEmpty [get_str e p ''obfs-protocol'', get_str e p ''protocol''];
          s1 = refuse (protocol \<noteq> [] \<and> protocol \<noteq> ''udp'') ''Hysteria transport protocol is not supported by sing-box'' st;
          s2 = hop_ports e p ''Hysteria port hopping range is invalid'' s1;
          s3 = (case normalizeHysteriaHopInterval (get_str e p ''hop-interval'') of
                  None \<Rightarrow> refuse True ''Hysteria hop interval is invalid or unsupported'' s2
                | Some (lo, hi) \<Rightarrow>
                    if hi \<noteq> [] then refuse True ''Hysteria hop interval is invalid or unsupported'' s2
                    else on_result (put_when (lo \<noteq> []) ''hop_interval'' (VStr lo)) s2);
          m1 = bandwidth (firstNonEmpty [get_str e p ''down'', get_str e p ''down-speed'']) ''down_mbps''
                 (bandwidth (firstNonEmpty [get_str e p ''up'', get_str e p ''up-speed'']) ''up_mbps'' (fst s3));
          auth = get_str e p ''auth''; authString = firstNonEmpty [get_str e p ''auth-str'', get_str e p ''auth_str''];
          m2 = (if auth \<noteq> [] then map_put ''auth'' (VStr auth) m1 else put_when (authString \<noteq> []) ''auth_str'' (VStr authString) m1);
          m3 = copy_int p ''recv-window'' ''recv_window'' (copy_int p ''recv-window-conn'' ''recv_window_conn'' (copyClashField p ''obfs'' m2))
      in (copy_bool e p ''disable-mtu-discovery'' ''disable_mtu_discovery'' m3, snd s3))"

definition mapClashQUICOptions :: "import_env \<Rightarrow> gomap \<Rightarrow> gomap \<Rightarrow> gomap" where
  "mapClashQUICOptions e p m =
     (let sw = (if getInt p ''max-stream-receive-window'' = 0 then getInt p ''recv-window-conn''
                else getInt p ''max-stream-receive-window'');
          cw = (if getInt p ''max-connection-receive-window'' = 0 then getInt p ''recv-window''
                else getInt p ''max-connection-receive-window'');
          m1 = put_when (cw > 0) ''connection_receive_window'' (VInt cw) (put_when (sw > 0) ''stream_receive_window'' (VInt sw) m)
      in copy_bool e p ''disable-mtu-discovery'' ''disable_path_mtu_discovery''
           (copy_int p ''initial-packet-size'' ''initial_packet_size'' (copy_int p ''max-open-streams'' ''max_concurrent_streams'' m1)))"

definition hysteria2_obfs :: "import_env \<Rightarrow> gomap \<Rightarrow> gomap \<Rightarrow> gomap" where
  "hysteria2_obfs e p m =
     put_when (get_str e p ''obfs'' \<noteq> []) ''obfs''
       (VMap (copy_int p ''obfs-max-packet-size'' ''max_packet_size'' (copy_int p ''obfs-min-packet-size'' ''min_packet_size''
          [(''type'', VStr (get_str e p ''obfs'')), (''password'', VStr (get_str e p ''obfs-password''))]))) m"

definition clash_hysteria2 :: "import_env \<Rightarrow> gomap \<Rightarrow> clash_state \<Rightarrow> clash_state" where
  "clash_hysteria2 e p st =
     (let s1 = hop_ports e p ''Hysteria2 port hopping range is invalid'' st;
          s2 = (case normalizeHysteriaHopInterval (get_str e p ''hop-interval'') of
                  None \<Rightarrow> refuse True ''Hysteria2 hop interval is invalid'' s1
                | Some (lo, hi) \<Rightarrow>
                    on_result (\<lambda>m. if lo = [] then m
                       else put_when (hi \<noteq> []) ''hop_interval_max'' (VStr hi) (map_put ''hop_interval'' (VStr lo) m)) s1);
          m1 = bandwidth (get_str e p ''down'') ''down_mbps'' (bandwidth (get_str e p ''up'') ''up_mbps'' (hysteria2_obfs e p (fst s2)));
          m2 = copy_bool e p ''brutal-debug'' ''brutal_debug'' (copy_text e p ''bbr-profile'' ''bbr_profile'' m1)
      in refuse (enabled_section e p ''realm-opts'' ''enable'' \<noteq> None)
           ''Hysteria2 realm-opts cannot be safely combined with a static Clash server'' (mapClashQUICOptions e p m2, snd s2))"

definition local_addresses :: "goval \<Rightarrow> string list" where
  "local_addresses v =
     (case v of
        VStr s \<Rightarrow> (if s = [] then [] else [s])
      | VList vs \<Rightarrow> filter (\<lambda>s. s \<noteq> []) (map as_string vs)
      | VStrList ss \<Rightarrow> ss
      | _ \<Rightarrow> [])"

definition clash_addresses :: "import_env \<Rightarrow> gomap \<Rightarrow> string list" where
  "clash_addresses e p =
     (let local = local_addresses (map_get p ''local-address''); ip = get_str e p ''ip''; ip6 = get_str e p ''ipv6''
      in if local \<noteq> [] then local
         else (if ip = [] then [] else [ensureCIDR ip False]) @ (if ip6 = [] then [] else [ensureCIDR ip6 True]))"

definition clash_wireguard :: "import_env \<Rightarrow> gomap \<Rightarrow> gomap \<Rightarrow> gomap" where
  "clash_wireguard e p m =
     (let m1 = copy_value p ''public-key'' ''public_key'' (copy_value p ''private-key'' ''private_key'' m);
          m2 = (if has_key p ''preshared-key'' then copy_value p ''preshared-key'' ''pre_shared_key'' m1
                else copy_value p ''pre-shared-key'' ''pre_shared_key'' m1);
          reserved = normalizeWireGuardReserved (map_get p ''reserved'');
          m3 = copyClashField p ''mtu'' (put_when (reserved \<noteq> []) ''reserved'' (VList (map VInt reserved)) m2);
          allowed = stringList e (map_get p ''allowed-ips'');
          m4 = copy_int p ''persistent-keepalive'' ''persistent_keepalive_interval''
                 (put_when (allowed \<noteq> []) ''allowed_ips'' (VStrList allowed) m3);
          addresses = clash_addresses e p
      in put_when (addresses \<noteq> []) ''address'' (VStrList addresses) m4)"

definition clash_tuic :: "import_env \<Rightarrow> gomap \<Rightarrow> clash_state \<Rightarrow> clash_state" where
  "clash_tuic e p st =
     (let s1 = refuse (get_str e p ''token'' \<noteq> [] \<and> get_str e p ''uuid'' = []) ''TUIC v4 token authentication is not supported by sing-box'' st;
          m1 = copy_text e p ''udp-relay-mode'' ''udp_relay_mode'' (copy_text e p ''congestion-controller'' ''congestion_control''
                 (copy_bool e p ''reduce-rtt'' ''zero_rtt_handshake'' (fst s1)));
          m2 = copy_bool e p ''udp-over-stream'' ''udp_over_stream'' (copy_seconds p ''heartbeat-interval'' ''heartbeat'' ''ms'' m1)
      in (mapClashQUICOptions e p m2, snd s1))"

definition snell_obfs :: "import_env \<Rightarrow> gomap \<Rightarrow> clash_state \<Rightarrow> clash_state" where
  "snell_obfs e p st =
     (case as_map (map_get p ''obfs-opts'') of
        None \<Rightarrow> st
      | Some obfs \<Rightarrow>
         (let mode = get_str e obfs ''mode'' in
          if mode = ''shadow-tls'' then refuse True ''Snell ShadowTLS obfuscation is not supported by sing-box'' st
          else if mode = [] then st
          else on_result (\<lambda>m. copy_text e obfs ''host'' ''obfs_host'' (map_put ''obfs_mode'' (VStr mode) m)) st))"

definition clash_snell :: "import_env \<Rightarrow> gomap \<Rightarrow> clash_state \<Rightarrow> clash_state" where
  "clash_snell e p st =
     (let v0 = getInt p ''version''; v = (if v0 = 0 \<or> v0 = 5 then 4 else v0);
          s1 = (if v \<noteq> 4 \<and> v \<noteq> 6 then refuse True (''Snell version '' @ show_int v @ '' is not supported by sing-box'') st
                else on_result (map_put ''version'' (VInt v)) st)
      in snell_obfs e p (on_result (copyClashField p ''reuse'') s1))"

definition clash_naive :: "gomap \<Rightarrow> gomap \<Rightarrow> gomap" where
  "clash_naive p m = copy_value p ''extra-headers'' ''extra_headers'' (copy_int p ''insecure-concurrency'' ''insecure_concurrency'' m)"

text \<open>The fields of one protocol, in the order of the code.\<close>

definition clash_protocol :: "import_env \<Rightarrow> gomap \<Rightarrow> string \<Rightarrow> clash_state \<Rightarrow> clash_state" where
  "clash_protocol e p typ st =
     (if typ = ''vmess'' \<or> typ = ''vless'' then on_result (clash_vmess_vless e p typ) st
      else if typ = ''trojan''
      then on_result (clash_smux e p)
             (refuse (enabled_section e p ''ss-opts'' ''enabled'' \<noteq> None) ''Trojan ss-opts is not supported by sing-box'' st)
      else if typ = ''shadowsocks'' then on_result (clash_smux e p) st
      else if typ = ''anytls'' then on_result (clash_anytls p) st
      else if typ = ''http'' then on_result (\<lambda>m. copyClashField p ''path'' (copyClashField p ''headers'' m)) st
      else if typ = ''socks'' then clash_socks e p st
      else if typ = ''hysteria'' then clash_hysteria e p st
      else if typ = ''hysteria2'' then clash_hysteria2 e p st
      else if typ = ''wireguard'' then on_result (clash_wireguard e p) st
      else if typ = ''tuic'' then clash_tuic e p st
      else if typ = ''snell'' then clash_snell e p st
      else if typ = ''naive'' then on_result (clash_naive p) st
      else st)"

section \<open>TLS\<close>

definition tls_hints :: "string list" where
  "tls_hints = [''sni'', ''servername'', ''server_name'', ''alpn'', ''fingerprint'', ''certificate-sha256'', ''certificate_sha256'',
     ''client-fingerprint'', ''client_fingerprint'', ''certificate'', ''private-key'', ''ech-opts'', ''reality-opts'']"

definition insecure_keys :: "string list" where
  "insecure_keys = [''skip-cert-verify'', ''skip_cert_verify'', ''insecure'']"

text \<open>What the field \<^verbatim>\<open>tls\<close> says: \<open>Some True\<close> that TLS is wanted, \<open>Some False\<close> that it is switched off.\<close>

definition ss_tls_value :: "gomap \<Rightarrow> bool option" where
  "ss_tls_value p =
     (if \<not> has_key p ''tls'' then None
      else case map_get p ''tls'' of
        VNil \<Rightarrow> None
      | VBool b \<Rightarrow> Some b
      | VStr s \<Rightarrow>
          (let v = TrimSpace s in
           if EqualFold v ''false'' \<or> v = ''0'' then Some False else if v \<noteq> [] then Some True else None)
      | _ \<Rightarrow> Some True)"

definition hasShadowsocksTLSInput :: "import_env \<Rightarrow> gomap \<Rightarrow> bool" where
  "hasShadowsocksTLSInput e p =
     (ss_tls_value p = Some True \<or> list_ex (\<lambda>k. map_get p k \<noteq> VNil) tls_hints \<or>
      ss_tls_value p \<noteq> Some False \<and> list_ex (\<lambda>k. clash_bool e (map_get p k)) insecure_keys)"

definition tls_protocols :: "string list" where
  "tls_protocols = [''anytls'', ''hysteria'', ''hysteria2'', ''naive'', ''trojan'', ''tuic'']"

definition h2_network :: "import_env \<Rightarrow> gomap \<Rightarrow> bool" where
  "h2_network e p = (get_str e p ''network'' = ''h2'' \<or> get_str e p ''network'' = ''http'')"

definition explicit_tls :: "import_env \<Rightarrow> gomap \<Rightarrow> string \<Rightarrow> bool" where
  "explicit_tls e p typ = (clash_flag e p ''tls'' \<or> typ \<in> set tls_protocols)"

definition ss_tls_input :: "import_env \<Rightarrow> gomap \<Rightarrow> string \<Rightarrow> bool" where
  "ss_tls_input e p typ = (typ = ''shadowsocks'' \<and> hasShadowsocksTLSInput e p)"

definition needs_tls :: "import_env \<Rightarrow> gomap \<Rightarrow> string \<Rightarrow> bool" where
  "needs_tls e p typ = (explicit_tls e p typ \<or> h2_network e p \<or> has_key p ''reality-opts'' \<or> ss_tls_input e p typ)"

definition tls_names :: "import_env \<Rightarrow> gomap \<Rightarrow> string \<Rightarrow> gomap" where
  "tls_names e p typ =
     (let sni = firstNonEmpty [get_str e p ''sni'', get_str e p ''servername'', get_str e p ''server_name''];
          t1 = put_when (explicit_tls e p typ \<or> h2_network e p \<or> ss_tls_input e p typ) ''enabled'' (VBool True) [];
          t2 = put_when (list_ex (clash_flag e p) insecure_keys) ''insecure'' (VBool True)
                 (put_when (sni \<noteq> []) ''server_name'' (VStr sni) t1)
      in put_when (clash_flag e p ''disable-sni'') ''disable_sni'' (VBool True) t2)"

definition tls_fingerprints :: "import_env \<Rightarrow> gomap \<Rightarrow> clash_state \<Rightarrow> clash_state" where
  "tls_fingerprints e p st =
     (let client = firstNonEmpty [get_str e p ''client-fingerprint'', get_str e p ''client_fingerprint''];
          cert = get_str e p ''fingerprint'';
          (client1, s1) =
            (if client = [] \<and> isKnownUTLSFingerprint cert then (cert, st)
             else if cert \<noteq> [] \<and> \<not> isKnownUTLSFingerprint cert
             then (client, case normalizeSHA256Hex cert of
                             None \<Rightarrow> refuse True ''certificate SHA-256 fingerprint is invalid'' st
                           | Some pin \<Rightarrow> on_result (map_put ''certificate_sha256'' (VStrList [pin])) st)
             else (client, st))
      in on_result (put_when (client1 \<noteq> []) ''utls'' (VMap [(''enabled'', VBool True), (''fingerprint'', VStr client1)])) s1)"

definition tls_client_keys :: "import_env \<Rightarrow> gomap \<Rightarrow> gomap \<Rightarrow> gomap" where
  "tls_client_keys e p t =
     (let certificate = get_str e p ''certificate''; privateKey = get_str e p ''private-key'';
          t1 = (if certificate = [] then t
                else if contains_str certificate ''BEGIN CERTIFICATE'' then map_put ''client_certificate'' (VStrList [certificate]) t
                else map_put ''client_certificate_path'' (VStr certificate) t)
      in if privateKey = [] then t1
         else if contains_str privateKey ''BEGIN'' then map_put ''client_key'' (VStrList [privateKey]) t1
         else map_put ''client_key_path'' (VStr privateKey) t1)"

definition tls_ech :: "import_env \<Rightarrow> gomap \<Rightarrow> clash_state \<Rightarrow> clash_state" where
  "tls_ech e p st =
     (case enabled_section e p ''ech-opts'' ''enable'' of
        None \<Rightarrow> st
      | Some ech \<Rightarrow>
         (let (m, reason) =
            (if \<not> has_key ech ''config'' then ([(''enabled'', VBool True)], snd st)
             else case normalizeClashECHConfig e (map_get ech ''config'') of
               None \<Rightarrow> ([(''enabled'', VBool True)], ''ECH config cannot be safely converted to sing-box PEM format'')
             | Some cfg \<Rightarrow> ([(''enabled'', VBool True), (''config'', VStrList cfg)], snd st))
          in (map_put ''ech'' (VMap (copy_text e ech ''query-server-name'' ''query_server_name'' m)) (fst st), reason)))"

definition tls_reality :: "gomap \<Rightarrow> gomap \<Rightarrow> gomap" where
  "tls_reality p t =
     (case as_map (map_get p ''reality-opts'') of
        None \<Rightarrow> t
      | Some r \<Rightarrow> map_put ''reality'' (VMap (copy_value r ''short-id'' ''short_id'' (copy_value r ''public-key'' ''public_key''
                    [(''enabled'', VBool True)]))) t)"

definition clash_tls :: "import_env \<Rightarrow> gomap \<Rightarrow> string \<Rightarrow> clash_state \<Rightarrow> clash_state" where
  "clash_tls e p typ st =
     (if \<not> needs_tls e p typ then st
      else let s1 = tls_fingerprints e p (tls_names e p typ, snd st);
               s2 = tls_ech e p (tls_client_keys e p (copy_value p ''alpn'' ''alpn'' (fst s1)), snd s1);
               tls = tls_reality p (fst s2)
           in (put_when (tls \<noteq> []) ''tls'' (VMap tls) (fst st), snd s2))"

section \<open>Transport and the whole node\<close>

definition legacy_options :: "string list" where
  "legacy_options = [''ws-opts'', ''grpc-opts'', ''h2-opts'', ''http-upgrade-opts'', ''xhttp-opts'']"

definition ws_options :: "import_env \<Rightarrow> gomap \<Rightarrow> gomap \<Rightarrow> gomap" where
  "ws_options e opts t =
     (let headers = stringMap (map_get opts ''headers'')
      in copy_text e opts ''early-data-header-name'' ''early_data_header_name'' (copy_int opts ''max-early-data'' ''max_early_data''
           (put_when (headers \<noteq> []) ''headers'' (VMap headers)
             (map_put ''path'' (VStr (firstNonEmpty [get_str e opts ''path'', ''/''])) t))))"

definition http_options :: "import_env \<Rightarrow> gomap \<Rightarrow> gomap \<Rightarrow> gomap" where
  "http_options e opts t = copy_value opts ''host'' ''host'' (map_put ''path'' (VStr (firstNonEmpty [get_str e opts ''path'', ''/''])) t)"

definition upgrade_options :: "import_env \<Rightarrow> gomap \<Rightarrow> gomap \<Rightarrow> gomap" where
  "upgrade_options e opts t =
     (let headers = stringMap (map_get opts ''headers'')
      in put_when (headers \<noteq> []) ''headers'' (VMap headers) (copy_text e opts ''path'' ''path'' (copy_text e opts ''host'' ''host'' t)))"

definition with_options :: "gomap \<Rightarrow> string \<Rightarrow> (gomap \<Rightarrow> gomap \<Rightarrow> gomap) \<Rightarrow> gomap \<Rightarrow> gomap" where
  "with_options p key f t = (case as_map (map_get p key) of None \<Rightarrow> t | Some opts \<Rightarrow> f opts t)"

definition v2ray_transport :: "import_env \<Rightarrow> gomap \<Rightarrow> string \<Rightarrow> gomap option" where
  "v2ray_transport e p network =
     (let t = [(''type'', VStr network)] in
      if network = ''ws'' then Some (with_options p ''ws-opts'' (ws_options e) t)
      else if network = ''grpc'' then Some (with_options p ''grpc-opts'' (\<lambda>opts. copy_text e opts ''grpc-service-name'' ''service_name'') t)
      else if network = ''http'' \<or> network = ''h2'' then Some (with_options p ''h2-opts'' (http_options e) [(''type'', VStr ''http'')])
      else if network = ''httpupgrade'' then Some (with_options p ''http-upgrade-opts'' (upgrade_options e) t)
      else None)"

definition normalizeV2RayTransport :: "import_env \<Rightarrow> gomap \<Rightarrow> string \<Rightarrow> clash_state \<Rightarrow> clash_state" where
  "normalizeV2RayTransport e p typ st =
     (let network = ToLower (get_str e p ''network'');
          s1 = (if typ \<notin> set [''vmess'', ''vless'', ''trojan''] \<or> network \<in> set [[], ''tcp'', ''udp''] then st
                else case v2ray_transport e p network of
                  None \<Rightarrow> (map_del ''network'' (fst st), network @ '' transport is not supported by sing-box'')
                | Some t \<Rightarrow> (map_del ''network'' (map_put ''transport'' (VMap t) (fst st)), snd st))
      in on_result (delete_keys legacy_options) s1)"

definition clash_ss_plugin :: "import_env \<Rightarrow> gomap \<Rightarrow> clash_state \<Rightarrow> clash_state" where
  "clash_ss_plugin e p st =
     plugin_step e (on_result (\<lambda>m. copy_value p ''plugin-opts'' ''plugin_opts''
        (put_when (get_str e p ''network'' \<noteq> []) ''network'' (VStr (get_str e p ''network'')) m)) st)"

definition normalizeClashProxy :: "import_env \<Rightarrow> gomap \<Rightarrow> string \<Rightarrow> clash_state" where
  "normalizeClashProxy e p typ =
     (let s1 = on_result (clash_cipher e p typ) (clash_start e p typ);
          s2 = (if typ = ''shadowsocks'' then on_result (clash_udp_over_tcp e p) s1
                else if typ = ''ssr'' then on_result (clash_ssr e p) s1 else s1);
          s3 = on_result (\<lambda>m. clash_dial e p (clash_credentials e p typ m)) s2;
          s4 = clash_tls e p typ (clash_protocol e p typ s3);
          s5 = normalizeV2RayTransport e p typ s4;
          s6 = (if typ = ''shadowsocks'' then clash_ss_plugin e p s5 else s5);
          s7 = on_result (put_when (has_key p ''udp'' \<and> \<not> clash_bool e (map_get p ''udp'') \<and> clashSupportsNetworkField typ)
                 ''network'' (VStr ''tcp'')) s6
      in on_result (put_when (TrimSpace (get_str e p ''dialer-proxy'') \<noteq> []) ''detour'' (VStr (get_str e p ''dialer-proxy''))) s7)"

section \<open>The document\<close>

text \<open>The loop also writes the default port of SSH into the proxy before it is normalised.\<close>

definition clash_node :: "import_env \<Rightarrow> gomap \<Rightarrow> ParsedNode option" where
  "clash_node e p =
     (let name = get_str e p ''name''; typ = ToLower (get_str e p ''type''); ntyp = normalizeProtocolType typ;
          server = get_str e p ''server'';
          fill = (ntyp = ''ssh'' \<and> getInt p ''port'' = 0);
          port = (if fill then 22 else getInt p ''port''); p1 = put_when fill ''port'' (VInt 22) p
      in if name = [] \<or> typ = [] \<or> server = [] \<or> port = 0 then None
         else case normalizeClashProxy e p1 ntyp of
           (cfg, reason) \<Rightarrow>
             Some \<lparr>p_UID = [], p_Name = name, p_Type = ntyp, p_Server = server, p_ServerPort = port, p_Raw = i_text e cfg,
               p_config = Object (json_map cfg), p_UnsupportedReason = reason\<rparr>)"

definition clash_direct :: "import_env \<Rightarrow> gomap \<Rightarrow> bool" where
  "clash_direct e p = (normalizeProtocolType (ToLower (get_str e p ''type'')) = ''direct'' \<and> isPlainChainDirect p)"

definition parseClashYAML :: "import_env \<Rightarrow> (gomap list \<times> gomap list) option \<Rightarrow> ParsedNode list" where
  "parseClashYAML e body =
     (case body of
        None \<Rightarrow> []
      | Some (proxies, groups) \<Rightarrow>
          if proxies = [] then []
          else resolveSubscriptionChains (i_ff e) (i_sprint e) (i_digest e) (i_text e) (somes (map (clash_node e) proxies))
                 groups (map (\<lambda>p. get_str e p ''name'') (filter (clash_direct e) proxies)) True)"

end
