(* ===== verification/Clash_Facts.thy ===== *)
theory Clash_Facts
  imports Clash_Import
begin

text \<open>
  What importing a Clash document guarantees: the nodes are ready for generation (their chains are
  grounded and their UIDs set), TLS is enabled where the protocol or the document asks for it, and
  Shadowsocks wrapped in TLS is refused.
\<close>

section \<open>What the steps leave alone\<close>

text \<open>No step before the section on TLS writes one of these keys, and only the last one writes the detour.\<close>

definition reserved_keys :: "string list" where
  "reserved_keys = [''tls'', NodeChainMetadataKey, ''detour'']"

definition free_key :: "string \<Rightarrow> bool" where
  "free_key k \<longleftrightarrow> k \<noteq> ''tls'' \<and> k \<noteq> ''_ackwrap_chain'' \<and> k \<noteq> ''detour''"

definition keeps_reserved :: "gomap \<Rightarrow> gomap \<Rightarrow> bool" where
  "keeps_reserved m m' \<longleftrightarrow> (\<forall>k\<in>set reserved_keys. map_of m' k = map_of m k)"

named_theorems keeps_reserved_rules

lemma reserved_refl: "keeps_reserved m m"
  by (simp add: keeps_reserved_def)

lemma reserved_put [keeps_reserved_rules]: "free_key k \<Longrightarrow> keeps_reserved m m' \<Longrightarrow> keeps_reserved m (map_put k v m')"
  by (auto simp: keeps_reserved_def free_key_def reserved_keys_def NodeChainMetadataKey_def)

lemma keeps_put_when [keeps_reserved_rules]: "free_key k \<Longrightarrow> keeps_reserved m m' \<Longrightarrow> keeps_reserved m (put_when b k v m')"
  by (simp add: put_when_def reserved_put)

lemma reserved_del [keeps_reserved_rules]: "free_key k \<Longrightarrow> keeps_reserved m m' \<Longrightarrow> keeps_reserved m (map_del k m')"
  by (auto simp: keeps_reserved_def free_key_def reserved_keys_def NodeChainMetadataKey_def)

lemma keeps_if [keeps_reserved_rules]:
  "keeps_reserved m a \<Longrightarrow> keeps_reserved m b \<Longrightarrow> keeps_reserved m (if c then a else b)"
  by simp

lemma keeps_copy [keeps_reserved_rules]:
  "free_key k \<Longrightarrow> keeps_reserved m m' \<Longrightarrow> keeps_reserved m (copyClashField p k m')"
  "free_key k \<Longrightarrow> keeps_reserved m m' \<Longrightarrow> keeps_reserved m (copy_value p f k m')"
  "free_key k \<Longrightarrow> keeps_reserved m m' \<Longrightarrow> keeps_reserved m (copy_int p f k m')"
  "free_key k \<Longrightarrow> keeps_reserved m m' \<Longrightarrow> keeps_reserved m (copy_seconds p f k u m')"
  "free_key k \<Longrightarrow> keeps_reserved m m' \<Longrightarrow> keeps_reserved m (copy_text e p f k m')"
  "free_key k \<Longrightarrow> keeps_reserved m m' \<Longrightarrow> keeps_reserved m (copy_bool e p f k m')"
  "free_key k \<Longrightarrow> keeps_reserved m m' \<Longrightarrow> keeps_reserved m (bandwidth t k m')"
  by (simp_all add: copyClashField_def copy_value_def copy_int_def copy_seconds_def copy_text_def copy_bool_def bandwidth_def keeps_put_when)

lemma keeps_copy_first [keeps_reserved_rules]:
  "free_key k \<Longrightarrow> keeps_reserved m m' \<Longrightarrow> keeps_reserved m (copyFirstClashField p k ks m')"
  "free_key k \<Longrightarrow> keeps_reserved m m' \<Longrightarrow> keeps_reserved m (copyFirstClashListField e p k ks m')"
  by (induction ks) (simp_all add: reserved_put)

lemma keeps_on_result [keeps_reserved_rules]: "keeps_reserved m (f (fst st)) \<Longrightarrow> keeps_reserved m (fst (on_result f st))"
  by (simp add: on_result_def)

lemma keeps_refuse [keeps_reserved_rules]: "keeps_reserved m (fst st) \<Longrightarrow> keeps_reserved m (fst (refuse b r st))"
  by (simp add: refuse_def)

lemma keeps_fst_if [keeps_reserved_rules]:
  "keeps_reserved m (fst a) \<Longrightarrow> keeps_reserved m (fst b) \<Longrightarrow> keeps_reserved m (fst (if c then a else b))"
  by simp

lemma keeps_fst_pair [keeps_reserved_rules]: "keeps_reserved m a \<Longrightarrow> keeps_reserved m (fst (a, b))"
  by simp

lemma keeps_cipher [keeps_reserved_rules]: "keeps_reserved m m' \<Longrightarrow> keeps_reserved m (clash_cipher e p typ m')"
  unfolding clash_cipher_def Let_def by (intro keeps_reserved_rules) (simp_all add: free_key_def)

lemma keeps_case [keeps_reserved_rules]:
  "keeps_reserved m a \<Longrightarrow> (\<And>y. keeps_reserved m (b y)) \<Longrightarrow> keeps_reserved m (case x of None \<Rightarrow> a | Some y \<Rightarrow> b y)"
  by (simp split: option.split)

lemma keeps_fst_option [keeps_reserved_rules]:
  "keeps_reserved m (fst a) \<Longrightarrow> (\<And>y. keeps_reserved m (fst (b y))) \<Longrightarrow> keeps_reserved m (fst (case x of None \<Rightarrow> a | Some y \<Rightarrow> b y))"
  by (simp split: option.split)

lemma keeps_fst_sum [keeps_reserved_rules]:
  "(\<And>y. keeps_reserved m (fst (a y))) \<Longrightarrow> (\<And>y. keeps_reserved m (fst (b y))) \<Longrightarrow>
   keeps_reserved m (fst (case x of Inl y \<Rightarrow> a y | Inr y \<Rightarrow> b y))"
  by (simp split: sum.split)

lemma keeps_fst_prod [keeps_reserved_rules]:
  "(\<And>y z. keeps_reserved m (fst (a y z))) \<Longrightarrow> keeps_reserved m (fst (case x of (y, z) \<Rightarrow> a y z))"
  by (simp split: prod.split)

lemma keeps_uot [keeps_reserved_rules]: "keeps_reserved m m' \<Longrightarrow> keeps_reserved m (clash_udp_over_tcp e p m')"
  unfolding clash_udp_over_tcp_def by (intro keeps_reserved_rules) (simp_all add: free_key_def)

lemma keeps_ssr [keeps_reserved_rules]: "keeps_reserved m m' \<Longrightarrow> keeps_reserved m (clash_ssr e p m')"
  unfolding clash_ssr_def by (intro keeps_reserved_rules) (simp_all add: free_key_def)

lemma keeps_ssh [keeps_reserved_rules]: "keeps_reserved m m' \<Longrightarrow> keeps_reserved m (clash_ssh e p m')"
  unfolding clash_ssh_def Let_def by (intro keeps_reserved_rules) (simp_all add: free_key_def)

lemma keeps_credentials [keeps_reserved_rules]: "keeps_reserved m m' \<Longrightarrow> keeps_reserved m (clash_credentials e p typ m')"
  unfolding clash_credentials_def Let_def by (intro keeps_reserved_rules) (simp_all add: free_key_def)

lemma keeps_dial [keeps_reserved_rules]: "keeps_reserved m m' \<Longrightarrow> keeps_reserved m (clash_dial e p m')"
  unfolding clash_dial_def Let_def by (intro keeps_reserved_rules) (simp_all add: free_key_def)

lemma keeps_smux [keeps_reserved_rules]: "keeps_reserved m m' \<Longrightarrow> keeps_reserved m (clash_smux e p m')"
  unfolding clash_smux_def by (intro keeps_reserved_rules) (simp_all add: free_key_def)

lemma keeps_packet_encoding [keeps_reserved_rules]: "keeps_reserved m m' \<Longrightarrow> keeps_reserved m (clash_packet_encoding e p m')"
  unfolding clash_packet_encoding_def by (intro keeps_reserved_rules) (simp_all add: free_key_def)

lemma keeps_vmess_vless [keeps_reserved_rules]: "keeps_reserved m m' \<Longrightarrow> keeps_reserved m (clash_vmess_vless e p typ m')"
  unfolding clash_vmess_vless_def Let_def by (intro keeps_reserved_rules) (simp_all add: free_key_def)

lemma keeps_anytls [keeps_reserved_rules]: "keeps_reserved m m' \<Longrightarrow> keeps_reserved m (clash_anytls p m')"
  unfolding clash_anytls_def by (intro keeps_reserved_rules) (simp_all add: free_key_def)

lemma keeps_naive [keeps_reserved_rules]: "keeps_reserved m m' \<Longrightarrow> keeps_reserved m (clash_naive p m')"
  unfolding clash_naive_def by (intro keeps_reserved_rules) (simp_all add: free_key_def)

lemma keeps_quic [keeps_reserved_rules]: "keeps_reserved m m' \<Longrightarrow> keeps_reserved m (mapClashQUICOptions e p m')"
  unfolding mapClashQUICOptions_def Let_def by (intro keeps_reserved_rules) (simp_all add: free_key_def)

lemma keeps_hy2_obfs [keeps_reserved_rules]: "keeps_reserved m m' \<Longrightarrow> keeps_reserved m (hysteria2_obfs e p m')"
  unfolding hysteria2_obfs_def by (intro keeps_reserved_rules) (simp_all add: free_key_def)

lemma keeps_wireguard [keeps_reserved_rules]: "keeps_reserved m m' \<Longrightarrow> keeps_reserved m (clash_wireguard e p m')"
  unfolding clash_wireguard_def Let_def by (intro keeps_reserved_rules) (simp_all add: free_key_def)

lemma keeps_socks [keeps_reserved_rules]: "keeps_reserved m (fst st) \<Longrightarrow> keeps_reserved m (fst (clash_socks e p st))"
  unfolding clash_socks_def Let_def by (intro keeps_reserved_rules) (simp_all add: free_key_def)

lemma keeps_hop_ports [keeps_reserved_rules]: "keeps_reserved m (fst st) \<Longrightarrow> keeps_reserved m (fst (hop_ports e p r st))"
  unfolding hop_ports_def by (intro keeps_reserved_rules) (simp_all add: free_key_def)

lemma keeps_hysteria [keeps_reserved_rules]: "keeps_reserved m (fst st) \<Longrightarrow> keeps_reserved m (fst (clash_hysteria e p st))"
  unfolding clash_hysteria_def Let_def by (intro keeps_reserved_rules) (simp_all add: free_key_def)

lemma keeps_hysteria2 [keeps_reserved_rules]: "keeps_reserved m (fst st) \<Longrightarrow> keeps_reserved m (fst (clash_hysteria2 e p st))"
  unfolding clash_hysteria2_def Let_def by (intro keeps_reserved_rules) (simp_all add: free_key_def)

lemma keeps_tuic [keeps_reserved_rules]: "keeps_reserved m (fst st) \<Longrightarrow> keeps_reserved m (fst (clash_tuic e p st))"
  unfolding clash_tuic_def Let_def by (intro keeps_reserved_rules) (simp_all add: free_key_def)

lemma keeps_snell_obfs [keeps_reserved_rules]: "keeps_reserved m (fst st) \<Longrightarrow> keeps_reserved m (fst (snell_obfs e p st))"
  unfolding snell_obfs_def Let_def by (intro keeps_reserved_rules) (simp_all add: free_key_def)

lemma keeps_snell [keeps_reserved_rules]: "keeps_reserved m (fst st) \<Longrightarrow> keeps_reserved m (fst (clash_snell e p st))"
  unfolding clash_snell_def Let_def by (intro keeps_reserved_rules) (simp_all add: free_key_def)

lemma keeps_protocol [keeps_reserved_rules]: "keeps_reserved m (fst st) \<Longrightarrow> keeps_reserved m (fst (clash_protocol e p typ st))"
  unfolding clash_protocol_def by (intro keeps_reserved_rules) (simp_all add: free_key_def)

lemma reserved_trans: "keeps_reserved a b \<Longrightarrow> keeps_reserved b c \<Longrightarrow> keeps_reserved a c"
  by (simp add: keeps_reserved_def)

lemma keeps_delete_keys: "list_all free_key ks \<Longrightarrow> keeps_reserved m m' \<Longrightarrow> keeps_reserved m (delete_keys ks m')"
  unfolding delete_keys_def by (induction ks arbitrary: m') (simp_all add: reserved_del)

lemma keeps_transport [keeps_reserved_rules]:
  "keeps_reserved m (fst st) \<Longrightarrow> keeps_reserved m (fst (normalizeV2RayTransport e p typ st))"
  unfolding normalizeV2RayTransport_def Let_def
  by (intro keeps_reserved_rules keeps_delete_keys) (simp_all add: free_key_def legacy_options_def)

text \<open>The state before the section on TLS.\<close>

definition clash_fields :: "import_env \<Rightarrow> gomap \<Rightarrow> string \<Rightarrow> clash_state" where
  "clash_fields e p typ =
     (let s1 = on_result (clash_cipher e p typ) (clash_start e p typ);
          s2 = (if typ = ''shadowsocks'' then on_result (clash_udp_over_tcp e p) s1
                else if typ = ''ssr'' then on_result (clash_ssr e p) s1 else s1)
      in clash_protocol e p typ (on_result (\<lambda>m. clash_dial e p (clash_credentials e p typ m)) s2))"

definition clash_finish :: "import_env \<Rightarrow> gomap \<Rightarrow> string \<Rightarrow> clash_state \<Rightarrow> clash_state" where
  "clash_finish e p typ s4 =
     (let s5 = normalizeV2RayTransport e p typ s4;
          s6 = (if typ = ''shadowsocks'' then clash_ss_plugin e p s5 else s5);
          s7 = on_result (put_when (has_key p ''udp'' \<and> \<not> clash_bool e (map_get p ''udp'') \<and> clashSupportsNetworkField typ)
                 ''network'' (VStr ''tcp'')) s6
      in on_result (put_when (TrimSpace (get_str e p ''dialer-proxy'') \<noteq> []) ''detour'' (VStr (get_str e p ''dialer-proxy''))) s7)"

lemma normalizeClashProxy_parts: "normalizeClashProxy e p typ = clash_finish e p typ (clash_tls e p typ (clash_fields e p typ))"
  by (simp add: normalizeClashProxy_def clash_fields_def clash_finish_def Let_def)

lemma clash_fields_reserved:
  assumes "k \<in> set reserved_keys"
  shows "map_of (fst (clash_fields e p typ)) k = None"
proof -
  have "keeps_reserved (fst (clash_start e p typ)) (fst (clash_fields e p typ))"
    unfolding clash_fields_def Let_def by (intro keeps_reserved_rules reserved_refl)
  moreover have "map_of (fst (clash_start e p typ)) k = None"
    using assms by (auto simp: clash_start_def reserved_keys_def NodeChainMetadataKey_def)
  ultimately show ?thesis using assms by (simp add: keeps_reserved_def)
qed

lemma clash_tls_other: "k \<noteq> ''tls'' \<Longrightarrow> map_of (fst (clash_tls e p typ st)) k = map_of (fst st) k"
  by (simp add: clash_tls_def Let_def put_when_def)

lemma ss_plugin_get:
  assumes "normalizeShadowsocksPlugin e cfg = (c, err)" "k \<notin> {''plugin'', ''plugin_opts'', ''tls''}"
  shows "map_of c k = map_of cfg k"
proof -
  obtain c1 err1 where 1: "ss_tls_field cfg = (c1, err1)" by fastforce
  have "map_of c1 k = map_of cfg k"
    using 1 assms(2) by (auto simp: ss_tls_field_def Let_def split: option.splits goval.splits if_splits)
  moreover have "map_of c k = map_of c1 k"
    using assms 1 by (cases err1) (auto simp: normalizeShadowsocksPlugin_def Let_def split: sum.splits prod.splits if_splits)
  ultimately show ?thesis by simp
qed

lemma plugin_step_get: "k \<notin> {''plugin'', ''plugin_opts'', ''tls''} \<Longrightarrow> map_of (fst (plugin_step e st)) k = map_of (fst st) k"
  using ss_plugin_get [of e "fst st"] by (auto simp: plugin_step_def split: prod.splits option.splits)

lemma finish_metadata: "map_of (fst (clash_finish e p typ st)) NodeChainMetadataKey = map_of (fst st) NodeChainMetadataKey"
proof -
  have "keeps_reserved (fst st) (fst (normalizeV2RayTransport e p typ st))" by (intro keeps_reserved_rules reserved_refl)
  then have "map_of (fst (normalizeV2RayTransport e p typ st)) NodeChainMetadataKey = map_of (fst st) NodeChainMetadataKey"
    by (simp add: keeps_reserved_def reserved_keys_def)
  then show ?thesis
    by (cases "typ = ''shadowsocks''") (simp_all add: clash_finish_def Let_def on_result_def put_when_def clash_ss_plugin_def copy_value_def plugin_step_get NodeChainMetadataKey_def)
qed

lemma clash_node_plain: "clash_node e p = Some n \<Longrightarrow> plain_node n"
proof -
  have "map_of (fst (normalizeClashProxy e q t)) NodeChainMetadataKey = None" for q t
    unfolding normalizeClashProxy_parts finish_metadata
    using clash_tls_other [of NodeChainMetadataKey e q t] clash_fields_reserved [of NodeChainMetadataKey e q t]
    by (simp add: reserved_keys_def NodeChainMetadataKey_def)
  then have "\<not> has_key (fst (normalizeClashProxy e q t)) NodeChainMetadataKey" for q t
    by (simp add: has_key_iff map_of_eq_None_iff)
  then show "clash_node e p = Some n \<Longrightarrow> plain_node n"
    by (auto simp: clash_node_def Let_def plain_node_def node_options_def split: if_splits prod.splits) (metis fst_conv)+
qed

lemma clash_nodes_plain: "list_all plain_node (somes (map (clash_node e) proxies))"
  using clash_node_plain by (fastforce simp: list_all_iff set_somes)

text \<open>C6. What is imported from a Clash document is ready for generation, whatever the document holds: the
  supported nodes carry their connection UIDs and grounded chains, and the chain filter keeps all of
  them.\<close>

theorem clash_import_ready:
  "let kept = filter (\<lambda>n. p_UnsupportedReason n = []) (parseClashYAML e (Some (proxies, groups)))
   in filterUnavailableNodeChains (i_ff e) (i_digest e) kept = Some (kept, []) \<and>
      list_all (\<lambda>n. p_UID n = StableUID (i_ff e) (i_digest e) n \<and> grounded (i_ff e) (set kept) n) kept"
proof (cases "proxies = []")
  case True
  have "filterUnavailableNodeChains (i_ff e) (i_digest e) [] = Some ([], [])" by code_simp
  with True show ?thesis by (simp add: parseClashYAML_def)
next
  case False
  let ?nodes = "somes (map (clash_node e) proxies)"
  note plain = clash_nodes_plain [of e proxies]
  define result where "result = resolveSubscriptionChains (i_ff e) (i_sprint e) (i_digest e) (i_text e) ?nodes
      groups (map (\<lambda>p. get_str e p ''name'') (filter (clash_direct e) proxies)) True"
  define kept where "kept = filter (\<lambda>n. p_UnsupportedReason n = []) result"
  have "set kept = {m \<in> set result. p_UnsupportedReason m = []}" by (auto simp: kept_def)
  with result_grounded [OF plain result_def] have "list_all (\<lambda>n. p_UID n = StableUID (i_ff e) (i_digest e) n \<and> grounded (i_ff e) (set kept) n) kept"
    by (auto simp: list_all_iff)
  moreover have "filterUnavailableNodeChains (i_ff e) (i_digest e) kept = Some (kept, [])"
    using survive_filter [OF plain] kept_def result_def by blast
  moreover have "parseClashYAML e (Some (proxies, groups)) = result" using False by (simp add: parseClashYAML_def result_def)
  ultimately show ?thesis by (simp add: kept_def Let_def)
qed

section \<open>TLS of imported nodes\<close>

lemma fingerprints_get: "k \<notin> {''certificate_sha256'', ''utls''} \<Longrightarrow> map_of (fst (tls_fingerprints e p st)) k = map_of (fst st) k"
  by (auto simp: tls_fingerprints_def Let_def on_result_def refuse_def put_when_def split: option.splits)

lemma client_keys_get:
  "k \<notin> {''client_certificate'', ''client_certificate_path'', ''client_key'', ''client_key_path''} \<Longrightarrow>
   map_of (tls_client_keys e p t) k = map_of t k"
  by (simp add: tls_client_keys_def Let_def)

lemma ech_get: "k \<noteq> ''ech'' \<Longrightarrow> map_of (fst (tls_ech e p st)) k = map_of (fst st) k"
  by (simp add: tls_ech_def Let_def split: option.splits prod.splits)

lemma reality_get: "k \<noteq> ''reality'' \<Longrightarrow> map_of (tls_reality p t) k = map_of t k"
  by (simp add: tls_reality_def split: option.splits)

text \<open>The TLS section of a node that has one.\<close>

definition tls_section :: "import_env \<Rightarrow> gomap \<Rightarrow> string \<Rightarrow> string \<Rightarrow> gomap" where
  "tls_section e p typ reason =
     (let s1 = tls_fingerprints e p (tls_names e p typ, reason)
      in tls_reality p (fst (tls_ech e p (tls_client_keys e p (copy_value p ''alpn'' ''alpn'' (fst s1)), snd s1))))"

lemma clash_tls_section:
  "fst (clash_tls e p typ st) =
     (if needs_tls e p typ \<and> tls_section e p typ (snd st) \<noteq> [] then map_put ''tls'' (VMap (tls_section e p typ (snd st))) (fst st) else fst st)"
  by (simp add: clash_tls_def tls_section_def Let_def put_when_def)

lemma section_get:
  "k \<notin> {''alpn'', ''certificate_sha256'', ''utls'', ''client_certificate'', ''client_certificate_path'', ''client_key'',
     ''client_key_path'', ''ech'', ''reality''} \<Longrightarrow> map_of (tls_section e p typ r) k = map_of (tls_names e p typ) k"
  by (simp add: tls_section_def Let_def reality_get ech_get client_keys_get fingerprints_get copy_value_def put_when_def)

lemma names_get:
  "map_of (tls_names e p typ) ''enabled'' =
     (if explicit_tls e p typ \<or> h2_network e p \<or> ss_tls_input e p typ then Some (VBool True) else None)"
  "map_of (tls_names e p typ) ''insecure'' = (if list_ex (clash_flag e p) insecure_keys then Some (VBool True) else None)"
  by (simp_all add: tls_names_def Let_def put_when_def)

lemma finish_tls:
  assumes "typ \<noteq> ''shadowsocks''"
  shows "map_of (fst (clash_finish e p typ st)) ''tls'' = map_of (fst st) ''tls''"
proof -
  have "keeps_reserved (fst st) (fst (normalizeV2RayTransport e p typ st))" by (intro keeps_reserved_rules reserved_refl)
  then have "map_of (fst (normalizeV2RayTransport e p typ st)) ''tls'' = map_of (fst st) ''tls''"
    by (simp add: keeps_reserved_def reserved_keys_def)
  with assms show ?thesis by (simp add: clash_finish_def Let_def on_result_def put_when_def)
qed

lemma finish_ss_reason:
  assumes "map_of (fst st) ''tls'' = Some (VMap tls)"
  shows "snd (clash_finish e p ''shadowsocks'' st) = ss_error_text e TLSWrapped"
proof -
  let ?s = "normalizeV2RayTransport e p ''shadowsocks'' st"
  have "keeps_reserved (fst st) (fst ?s)" by (intro keeps_reserved_rules reserved_refl)
  then have "map_of (fst ?s) ''tls'' = Some (VMap tls)" using assms by (simp add: keeps_reserved_def reserved_keys_def)
  then have "snd (clash_ss_plugin e p ?s) = ss_error_text e TLSWrapped"
    by (simp add: clash_ss_plugin_def plugin_step_def normalizeShadowsocksPlugin_def ss_tls_field_def on_result_def put_when_def copy_value_def)
  then show ?thesis by (simp add: clash_finish_def Let_def on_result_def)
qed

lemma ss_tls_input_refused:
  assumes "hasShadowsocksTLSInput e p"
  shows "snd (normalizeClashProxy e p ''shadowsocks'') = ss_error_text e TLSWrapped"
proof -
  let ?f = "clash_fields e p ''shadowsocks''"
  have n: "ss_tls_input e p ''shadowsocks''" "needs_tls e p ''shadowsocks''" using assms by (simp_all add: ss_tls_input_def needs_tls_def)
  then have "map_of (tls_section e p ''shadowsocks'' (snd ?f)) ''enabled'' = Some (VBool True)" by (simp add: section_get names_get)
  then have "tls_section e p ''shadowsocks'' (snd ?f) \<noteq> []" by auto
  with n have "map_of (fst (clash_tls e p ''shadowsocks'' ?f)) ''tls'' = Some (VMap (tls_section e p ''shadowsocks'' (snd ?f)))"
    by (simp add: clash_tls_section)
  then show ?thesis unfolding normalizeClashProxy_parts by (rule finish_ss_reason)
qed

lemma fold_case_plain: "CHR ''s'' \<notin> set (fold_case s) \<Longrightarrow> CHR ''k'' \<notin> set (fold_case s) \<Longrightarrow> fold_case s = map lower_byte s"
  by (induction s rule: fold_case.induct) (auto simp: fold_case.simps split: if_splits)

text \<open>A text that is \<open>true\<close> up to case has no white space and is no text for false.\<close>

lemma folded_true:
  assumes "EqualFold s ''true''"
  shows "TrimSpace s = s \<and> s \<noteq> [] \<and> s \<noteq> ''0'' \<and> \<not> EqualFold s ''false''"
proof -
  have t: "fold_case ''true'' = ''true''" "fold_case ''false'' = ''false''" "fold_case ''0'' = ''0''" "fold_case [] = []" by code_simp+
  have f: "fold_case s = ''true''" using assms by (simp add: EqualFold_def t)
  then have m: "map lower_byte s = ''true''" using fold_case_plain [of s] by simp
  have "list_all (\<lambda>c. lower_byte c \<notin> set ''true'') (map hd space_encodings)" by code_simp
  then have "lower_byte c \<notin> set ''true''" if "c \<in> set (map hd space_encodings)" for c using that unfolding list_all_iff by blast
  moreover have "lower_byte c \<in> set ''true''" if "c \<in> set s" for c using that m by (metis imageI set_map)
  ultimately have "set s \<inter> set (map hd space_encodings) = {}" by blast
  then have "TrimSpace s = s" by (intro no_space_TrimSpace no_space_plain)
  with f t show ?thesis by (auto simp: EqualFold_def)
qed

lemma flag_is_tls_input: "clash_flag e p ''tls'' \<Longrightarrow> hasShadowsocksTLSInput e p"
proof -
  assume "clash_flag e p ''tls''"
  then have k: "has_key p ''tls''" and b: "clash_bool e (map_get p ''tls'')" by (simp_all add: clash_flag_def)
  have one: "TrimSpace ''1'' = ''1''" "\<not> EqualFold ''1'' ''false''" by code_simp+
  have "ss_tls_value p = Some True"
    using k b folded_true one
    by (cases "map_get p ''tls''") (auto simp: ss_tls_value_def clash_bool_def boolOrString_def Let_def)
  then show ?thesis by (simp add: hasShadowsocksTLSInput_def)
qed
text \<open>C19. TLS of a Clash node: a protocol that requires TLS, or a node that asks for it, is imported with an
  enabled TLS section, and certificate checks are switched off in it only if the document says so in one
  of three fields.  The exception is Shadowsocks, for which a node that asks for TLS is refused.\<close>

theorem clash_tls_enforced:
  assumes "typ \<in> set tls_protocols \<or> clash_flag e p ''tls''"
  shows "if typ = ''shadowsocks''
    then snd (normalizeClashProxy e p typ) = ''TLS-wrapped Shadowsocks is not supported by the current sing-box version''
    else \<exists>tls. map_of (fst (normalizeClashProxy e p typ)) ''tls'' = Some (VMap tls) \<and> map_of tls ''enabled'' = Some (VBool True) \<and>
      map_of tls ''insecure'' = (if list_ex (clash_flag e p) insecure_keys then Some (VBool True) else None)"
proof (cases "typ = ''shadowsocks''")
  case True
  moreover have "''shadowsocks'' \<notin> set tls_protocols" by code_simp
  ultimately have "hasShadowsocksTLSInput e p" using assms flag_is_tls_input by blast
  from ss_tls_input_refused [OF this] True show ?thesis by (simp add: ss_error_text_def)
next
  case False
  let ?f = "clash_fields e p typ"
  have x: "explicit_tls e p typ" using assms(1) by (auto simp: explicit_tls_def)
  then have n: "needs_tls e p typ" by (simp add: needs_tls_def)
  have s: "map_of (tls_section e p typ (snd ?f)) ''enabled'' = Some (VBool True)" using x by (simp add: section_get names_get)
  then have "tls_section e p typ (snd ?f) \<noteq> []" by auto
  with n have "map_of (fst (normalizeClashProxy e p typ)) ''tls'' = Some (VMap (tls_section e p typ (snd ?f)))"
    by (simp add: normalizeClashProxy_parts finish_tls [OF False] clash_tls_section)
  with s False show ?thesis by (simp add: section_get names_get)
qed

theorem clash_tls_enforced_witness:
  "(\<exists>tls. map_of (fst (normalizeClashProxy sample_import [(''tls'', VBool True)] ''vless'')) ''tls'' = Some (VMap tls) \<and>
     map_of tls ''enabled'' = Some (VBool True) \<and> map_of tls ''insecure'' = None) \<and>
   (\<exists>tls. map_of (fst (normalizeClashProxy sample_import [(''skip-cert-verify'', VBool True)] ''trojan'')) ''tls'' = Some (VMap tls) \<and>
     map_of tls ''enabled'' = Some (VBool True) \<and> map_of tls ''insecure'' = Some (VBool True)) \<and>
   snd (normalizeClashProxy sample_import [(''tls'', VBool True)] ''shadowsocks'') \<noteq> []"
proof -
  have "clash_flag sample_import [(''tls'', VBool True)] ''tls''" "''trojan'' \<in> set tls_protocols"
    "\<not> list_ex (clash_flag sample_import [(''tls'', VBool True)]) insecure_keys"
    "list_ex (clash_flag sample_import [(''skip-cert-verify'', VBool True)]) insecure_keys" by code_simp+
  with clash_tls_enforced [of "''vless''" sample_import "[(''tls'', VBool True)]"]
    clash_tls_enforced [of "''shadowsocks''" sample_import "[(''tls'', VBool True)]"]
    clash_tls_enforced [of "''trojan''" sample_import "[(''skip-cert-verify'', VBool True)]"] show ?thesis by simp
qed

text \<open>C18. Shadowsocks under TLS is never imported as plain Shadowsocks: a proxy whose field \<^verbatim>\<open>tls\<close> is true or
  any other value that does not mean false, that has one of the thirteen fields that belong to TLS
  under any of their names, or that sets one of the three verification flags while \<^verbatim>\<open>tls\<close> is not
  switched off, gets the reason of the plugin check, and the node it becomes is unsupported with that
  reason.\<close>

theorem clash_shadowsocks_tls_refused:
  assumes "(case map_get p ''tls'' of
      VNil \<Rightarrow> False
    | VBool b \<Rightarrow> b
    | VStr s \<Rightarrow> TrimSpace s \<noteq> [] \<and> TrimSpace s \<noteq> ''0'' \<and> \<not> EqualFold (TrimSpace s) ''false''
    | _ \<Rightarrow> True) \<or>
    list_ex (\<lambda>k. map_get p k \<noteq> VNil)
      [''sni'', ''servername'', ''server_name'', ''alpn'', ''fingerprint'', ''certificate-sha256'', ''certificate_sha256'',
       ''client-fingerprint'', ''client_fingerprint'', ''certificate'', ''private-key'', ''ech-opts'', ''reality-opts''] \<or>
    (\<forall>b. map_get p ''tls'' \<noteq> VBool b) \<and>
    (\<forall>s. map_get p ''tls'' = VStr s \<longrightarrow> TrimSpace s \<noteq> ''0'' \<and> \<not> EqualFold (TrimSpace s) ''false'') \<and>
    list_ex (\<lambda>k. clash_bool e (map_get p k)) [''skip-cert-verify'', ''skip_cert_verify'', ''insecure'']"
  shows "snd (normalizeClashProxy e p ''shadowsocks'') = ''TLS-wrapped Shadowsocks is not supported by the current sing-box version'' \<and>
    (\<forall>n. clash_node e p = Some n \<and> p_Type n = ''shadowsocks'' \<longrightarrow>
       p_UnsupportedReason n = ''TLS-wrapped Shadowsocks is not supported by the current sing-box version'')"
proof -
  have v: "ss_tls_value p = (case map_get p ''tls'' of VNil \<Rightarrow> None | VBool b \<Rightarrow> Some b
      | VStr s \<Rightarrow> (let v = TrimSpace s in if EqualFold v ''false'' \<or> v = ''0'' then Some False else if v \<noteq> [] then Some True else None)
      | _ \<Rightarrow> Some True)"
    by (simp add: ss_tls_value_def has_key_def map_get_def split: option.split)
  have "hasShadowsocksTLSInput e p"
    using assms by (auto simp: hasShadowsocksTLSInput_def v tls_hints_def insecure_keys_def Let_def split: goval.splits)
  from ss_tls_input_refused [OF this]
  have r: "snd (normalizeClashProxy e p ''shadowsocks'') = ''TLS-wrapped Shadowsocks is not supported by the current sing-box version''"
    by (simp add: ss_error_text_def)
  moreover have "p_UnsupportedReason n = snd (normalizeClashProxy e p ''shadowsocks'')"
    if "clash_node e p = Some n" "p_Type n = ''shadowsocks''" for n
    using that by (auto simp: clash_node_def Let_def put_when_def split: if_splits prod.splits)
  ultimately show ?thesis by metis
qed

theorem clash_shadowsocks_tls_refused_witness:
  "snd (normalizeClashProxy sample_import [(''servername'', VStr ''front.example'')] ''shadowsocks'') \<noteq> [] \<and>
   snd (normalizeClashProxy sample_import [(''tls'', VStr ''yes'')] ''shadowsocks'') \<noteq> [] \<and>
   snd (normalizeClashProxy sample_import [(''insecure'', VBool True)] ''shadowsocks'') \<noteq> []"
proof -
  have "TrimSpace ''yes'' = ''yes''" "\<not> EqualFold ''yes'' ''false''" "clash_bool sample_import (VBool True)" by code_simp+
  with clash_shadowsocks_tls_refused [of "[(''servername'', VStr ''front.example'')]" sample_import]
    clash_shadowsocks_tls_refused [of "[(''tls'', VStr ''yes'')]" sample_import]
    clash_shadowsocks_tls_refused [of "[(''insecure'', VBool True)]" sample_import]
  show ?thesis by (simp add: map_get_def)
qed

end
