(* ===== verification/Share_Parse.thy ===== *)
theory Share_Parse
  imports Go_Url Clash_Facts
begin

text \<open>
  Reading share links: \<^verbatim>\<open>normalizeToSingbox\<close> and \<^verbatim>\<open>parsedNodeFromMap\<close> of \<^verbatim>\<open>parser/helpers.go\<close>, \<^verbatim>\<open>transport.go\<close>, one
  parser per protocol (\<^verbatim>\<open>ss.go\<close>, \<^verbatim>\<open>ssr.go\<close>, \<^verbatim>\<open>vmess.go\<close>, \<^verbatim>\<open>vless.go\<close>, \<^verbatim>\<open>trojan.go\<close>, \<^verbatim>\<open>socks.go\<close>, \<^verbatim>\<open>http.go\<close>, \<^verbatim>\<open>hysteria.go\<close>,
  \<^verbatim>\<open>tuic.go\<close>, \<^verbatim>\<open>anytls.go\<close>, \<^verbatim>\<open>wireguard.go\<close>, \<^verbatim>\<open>naive.go\<close>, \<^verbatim>\<open>mieru.go\<close>, \<^verbatim>\<open>snell.go\<close>, \<^verbatim>\<open>ssh.go\<close>), and their composition in
  \<^verbatim>\<open>proxy_uri.go\<close>, \<^verbatim>\<open>uri_list.go\<close> and \<^verbatim>\<open>subscription.go\<close>.
\<close>

datatype link_error =
    LinkURL
  | LinkBase64
  | LinkJSON
  | LinkInvalid string
  | LinkRefused string
  | LinkPlugin ss_error

section \<open>Normalising fields\<close>

definition moveKey :: "string \<Rightarrow> string \<Rightarrow> gomap \<Rightarrow> gomap" where
  "moveKey frm to m = (if has_key m frm then map_del frm (map_put to (map_get m frm) m) else m)"

definition normal_common :: "string \<Rightarrow> gomap \<Rightarrow> gomap" where
  "normal_common typ cfg =
     (let m1 = moveKey ''port'' ''server_port'' (map_put ''type'' (VStr typ) (map_del ''name'' cfg));
          m2 = (if has_key m1 ''cipher''
                then let c = map_get m1 ''cipher'';
                         m = (if typ = ''vmess'' then map_put ''security'' c m1
                              else if typ = ''shadowsocks'' \<or> typ = ''ssr'' then map_put ''method'' c m1 else m1)
                     in if typ \<noteq> ''ssh'' then map_del ''cipher'' m else m
                else m1);
          m3 = (if typ = ''ssr''
                then map_del ''group'' (moveKey ''protocol-param'' ''protocol_param'' (moveKey ''obfs-param'' ''obfs_param'' m2)) else m2);
          m4 = (if has_key m3 ''alterId''
                then map_del ''alterId'' (put_when (getInt m3 ''alterId'' > 0) ''alter_id'' (map_get m3 ''alterId'') m3) else m3)
      in moveKey ''plugin-opts'' ''plugin_opts'' m4)"

definition put_positive_int :: "string \<Rightarrow> gomap \<Rightarrow> gomap" where
  "put_positive_int key m = put_when (getInt m key > 0) key (VInt (getInt m key)) m"

definition normal_hysteria :: "gomap \<Rightarrow> gomap" where
  "normal_hysteria m =
     put_positive_int ''recv_window_conn'' (put_positive_int ''recv_window''
       (moveKey ''disable-mtu-discovery'' ''disable_mtu_discovery''
       (moveKey ''receive_window_conn'' ''recv_window_conn'' (moveKey ''receive-window-conn'' ''recv_window_conn''
       (moveKey ''receive_window'' ''recv_window'' (moveKey ''receive-window'' ''recv_window''
       (moveKey ''obfs_param'' ''obfs'' (moveKey ''obfs-param'' ''obfs'' m))))))))"

definition normal_tuic :: "import_env \<Rightarrow> gomap \<Rightarrow> link_error + gomap" where
  "normal_tuic e m =
     (let m1 = moveKey ''zero-rtt-handshake'' ''zero_rtt_handshake'' (moveKey ''reduce_rtt'' ''zero_rtt_handshake''
                 (moveKey ''reduce-rtt'' ''zero_rtt_handshake'' (moveKey ''udp-relay-mode'' ''udp_relay_mode'' m)))
      in if get_str e m1 ''token'' = [] then Inr m1
         else let m2 = map_del ''token'' m1
              in if get_str e m2 ''uuid'' = [] \<or> get_str e m2 ''password'' = []
                 then Inl (LinkRefused ''legacy TUIC token authentication is not supported by the current sing-box version'')
                 else Inr m2)"

definition normal_wireguard :: "gomap \<Rightarrow> gomap" where
  "normal_wireguard m =
     moveKey ''local-address'' ''address'' (moveKey ''pre-shared-key'' ''pre_shared_key'' (moveKey ''preshared-key'' ''pre_shared_key''
       (moveKey ''public-key'' ''public_key'' (moveKey ''private-key'' ''private_key'' m))))"

text \<open>The TLS section, switched on when it is first needed.  The code keeps a pointer to it in \<^verbatim>\<open>tlsObj\<close>.\<close>

definition on_tls :: "(gomap \<Rightarrow> gomap) \<Rightarrow> gomap \<Rightarrow> gomap" where
  "on_tls f m =
     map_put ''tls'' (VMap (f (case map_get m ''tls'' of VMap t \<Rightarrow> t | _ \<Rightarrow> [(''enabled'', VBool True)]))) m"

definition tls_flag :: "gomap \<Rightarrow> gomap" where
  "tls_flag m =
     (case map_get m ''tls'' of
        VBool b \<Rightarrow> if b then map_put ''tls'' (VMap [(''enabled'', VBool True)]) (map_del ''tls'' m) else map_del ''tls'' m
      | _ \<Rightarrow> m)"

definition tls_server_name :: "string \<Rightarrow> gomap \<Rightarrow> gomap" where
  "tls_server_name key m =
     (if has_key m key
      then map_del key (if as_string (map_get m key) \<noteq> [] then on_tls (map_put ''server_name'' (map_get m key)) m else m) else m)"

definition tls_alpn :: "gomap \<Rightarrow> gomap" where
  "tls_alpn m = (if has_key m ''alpn'' then map_del ''alpn'' (on_tls (map_put ''alpn'' (map_get m ''alpn'')) m) else m)"

definition tls_insecure :: "string \<Rightarrow> gomap \<Rightarrow> gomap" where
  "tls_insecure key m =
     (if has_key m key then map_del key (on_tls (map_put ''insecure'' (VBool (boolOrString (map_get m key)))) m) else m)"

definition tls_pins :: "import_env \<Rightarrow> string \<Rightarrow> gomap \<Rightarrow> gomap" where
  "tls_pins e typ m =
     (let client0 = firstNonEmpty [get_str e m ''client-fingerprint'', get_str e m ''client_fingerprint''];
          cert0 = firstNonEmpty [get_str e m ''certificate-sha256'', get_str e m ''certificate_sha256'', get_str e m ''fingerprint''];
          known = client0 = [] \<and> isKnownUTLSFingerprint cert0;
          client = (if known then cert0 else client0); cert = (if known then [] else cert0);
          pin = normalizeSHA256Hex cert;
          m1 = (if typ = ''shadowsocks'' \<and> cert \<noteq> [] \<and> pin = None \<and> client = [] then on_tls id m else m);
          m2 = (if client \<noteq> [] \<or> pin \<noteq> None
                then on_tls (\<lambda>t. let t1 = put_when (client \<noteq> []) ''utls'' (VMap [(''enabled'', VBool True), (''fingerprint'', VStr client)]) t
                             in case pin of None \<Rightarrow> t1 | Some p \<Rightarrow> map_put ''certificate_sha256'' (VStrList [p]) t1) m1
                else m1)
      in delete_keys [''client-fingerprint'', ''client_fingerprint'', ''fingerprint'', ''certificate-sha256'', ''certificate_sha256''] m2)"

definition normalizeRealityOptions :: "import_env \<Rightarrow> gomap \<Rightarrow> gomap" where
  "normalizeRealityOptions e m =
     (case map_get m ''reality-opts'' of
        VMap opts \<Rightarrow>
          (let pbk = firstNonEmpty [get_str e opts ''public-key'', get_str e opts ''public_key'', get_str e opts ''pbk''];
               sid = firstNonEmpty [get_str e opts ''short-id'', get_str e opts ''short_id'', get_str e opts ''sid''];
               m1 = map_del ''reality-opts'' m;
               tls = (case map_get m1 ''tls'' of VMap t \<Rightarrow> t | _ \<Rightarrow> []);
               reality = put_when (sid \<noteq> []) ''short_id'' (VStr sid) (put_when (pbk \<noteq> []) ''public_key'' (VStr pbk) [(''enabled'', VBool True)])
           in map_put ''tls'' (VMap (map_put ''reality'' (VMap reality) (map_put ''enabled'' (VBool True) tls))) m1)
      | _ \<Rightarrow> map_del ''reality-opts'' m)"

definition normal_tls :: "import_env \<Rightarrow> string \<Rightarrow> gomap \<Rightarrow> gomap" where
  "normal_tls e typ m =
     normalizeRealityOptions e (tls_pins e typ
       (tls_insecure ''insecure'' (tls_insecure ''skip_cert_verify'' (tls_insecure ''skip-cert-verify''
       (tls_alpn (tls_server_name ''sni'' (tls_server_name ''server_name'' (tls_server_name ''servername'' (tls_flag m)))))))))"

text \<open>The checks at the end: the Shadowsocks plugin, the transport, and TLS around SOCKS.\<close>

definition normal_checks :: "import_env \<Rightarrow> string \<Rightarrow> gomap \<Rightarrow> link_error + gomap" where
  "normal_checks e typ m =
     res_bind (if typ = ''shadowsocks''
               then (case normalizeShadowsocksPlugin e m of (c, None) \<Rightarrow> Inr c | (c, Some err) \<Rightarrow> Inl (LinkPlugin err))
               else Inr m) (\<lambda>m1.
       case normalizeV2RayTransport e m1 typ (m1, []) of
         (m2, reason) \<Rightarrow>
           if reason \<noteq> [] then Inl (LinkRefused reason)
           else if typ = ''socks'' \<and> (case map_get m2 ''tls'' of VMap t \<Rightarrow> boolOrString (map_get t ''enabled'') | _ \<Rightarrow> False)
           then Inl (LinkRefused ''TLS-wrapped SOCKS is not supported by the current sing-box version'')
           else Inr m2)"

definition normalizeToSingbox :: "import_env \<Rightarrow> gomap \<Rightarrow> string \<Rightarrow> link_error + gomap" where
  "normalizeToSingbox e cfg typ0 =
     (let typ = normalizeProtocolType typ0;
          m1 = normal_common typ cfg;
          m2 = (if typ = ''hysteria'' then normal_hysteria m1 else m1)
      in res_bind (if typ = ''tuic'' then normal_tuic e m2 else Inr m2) (\<lambda>m3.
           normal_checks e typ (normal_tls e typ (if typ = ''wireguard'' then normal_wireguard m3 else m3))))"

definition parsedNodeFromMap :: "import_env \<Rightarrow> string \<Rightarrow> gomap \<Rightarrow> link_error + ParsedNode" where
  "parsedNodeFromMap e raw cfg =
     (let name = firstNonEmpty [get_str e cfg ''name'', get_str e cfg ''server'']; typ = ToLower (get_str e cfg ''type'');
          server = get_str e cfg ''server''; port = getInt cfg ''port''
      in if typ = [] \<or> server = [] then Inl (LinkInvalid ''invalid proxy config'')
         else res_bind (normalizeToSingbox e cfg typ) (\<lambda>m.
           Inr \<lparr>p_UID = [], p_Name = name, p_Type = typ, p_Server = server, p_ServerPort = port, p_Raw = raw,
                p_config = Object (json_map m), p_UnsupportedReason = []\<rparr>))"

section \<open>Parts of a link\<close>

definition parsePort :: "string \<Rightarrow> int" where
  "parsePort s = fst (Atoi s)"

definition splitHostPortLoose :: "string \<Rightarrow> string \<times> int" where
  "splitHostPortLoose host =
     (case split_host_port host of
        Some (server, port) \<Rightarrow> (server, parsePort port)
      | None \<Rightarrow> (case split_char (CHR '':'') host of [a, b] \<Rightarrow> (a, parsePort b) | _ \<Rightarrow> (host, 0)))"

definition parseServerPortWithDefault :: "string \<Rightarrow> int \<Rightarrow> string \<times> int" where
  "parseServerPortWithDefault part def =
     (case splitHostPortLoose part of (server, port) \<Rightarrow> (server, if port = 0 then def else port))"

definition decodeURLValue :: "string \<Rightarrow> string" where
  "decodeURLValue v = (case url_unescape encodeQueryComponent (TrimSpace v) of None \<Rightarrow> TrimSpace v | Some d \<Rightarrow> d)"

definition query_param :: "string \<Rightarrow> (string \<times> string) list \<Rightarrow> (string \<times> string) list" where
  "query_param pair m =
     (case split_once (CHR ''='') pair of
        (k, v) \<Rightarrow> map_put (decodeURLValue k) (case v of None \<Rightarrow> [] | Some t \<Rightarrow> decodeURLValue t) m)"

definition parseQueryParams :: "string \<Rightarrow> (string \<times> string) list" where
  "parseQueryParams query = (if query = [] then [] else fold query_param (split_char (CHR ''&'') query) [])"

definition urlValuesToMap :: "url_values \<Rightarrow> (string \<times> string) list" where
  "urlValuesToMap v = map (\<lambda>(k, vs). (k, hd vs)) (filter (\<lambda>(k, vs). vs \<noteq> []) v)"

definition truthy :: "string \<Rightarrow> bool" where
  "truthy v = (v = ''1'' \<or> EqualFold v ''true'')"

definition splitCSV :: "string \<Rightarrow> string list" where
  "splitCSV v = (if v = [] then [] else filter (\<lambda>s. s \<noteq> []) (map TrimSpace (split_char (CHR '','') v)))"

fun firstQueryValue :: "(string \<times> string) list \<Rightarrow> string list \<Rightarrow> string" where
  "firstQueryValue q [] = []"
| "firstQueryValue q (k # ks) = (if lookup_str q k \<noteq> [] then lookup_str q k else firstQueryValue q ks)"

definition put_text :: "string \<Rightarrow> string \<Rightarrow> gomap \<Rightarrow> gomap" where
  "put_text key v m = put_when (v \<noteq> []) key (VStr v) m"

definition applyTLSOptions :: "(string \<times> string) list \<Rightarrow> string \<Rightarrow> gomap \<Rightarrow> gomap" where
  "applyTLSOptions q sniKey m =
     (let sni = firstNonEmpty [lookup_str q ''sni'', lookup_str q ''peer'', lookup_str q ''host'', lookup_str q ''servername''];
          m1 = put_when (sni \<noteq> []) sniKey (VStr (decodeURLValue sni)) m;
          m2 = put_when (lookup_str q ''alpn'' \<noteq> []) ''alpn'' (VStrList (splitCSV (lookup_str q ''alpn''))) m1;
          m3 = put_text ''fingerprint'' (lookup_str q ''fingerprint'') (put_text ''client-fingerprint'' (lookup_str q ''fp'') m2)
      in put_when (list_ex (\<lambda>k. truthy (lookup_str q k)) [''allowInsecure'', ''skip-cert-verify'', ''insecure''])
           ''skip-cert-verify'' (VBool True) m3)"

definition path_and_host :: "(string \<times> string) list \<Rightarrow> goval" where
  "path_and_host q = VMap [(''path'', VStr (decodeURLValue (firstNonEmpty [lookup_str q ''path'', ''/'']))),
     (''host'', VStr (decodeURLValue (lookup_str q ''host'')))]"

definition applyTransportOptions :: "(string \<times> string) list \<Rightarrow> gomap \<Rightarrow> gomap" where
  "applyTransportOptions q m =
     (let network = firstNonEmpty [lookup_str q ''type'', lookup_str q ''network'', as_string (map_get m ''network''), ''tcp''];
          m1 = map_put ''network'' (VStr network) m;
          path = decodeURLValue (firstNonEmpty [lookup_str q ''path'', ''/'']); host = lookup_str q ''host''
      in if network = ''ws'' then map_put ''ws-opts'' (VMap [(''path'', VStr path),
             (''headers'', VStrMap (if host = [] then [] else [(''Host'', decodeURLValue host)]))]) m1
         else if network = ''grpc'' then map_put ''grpc-opts'' (VMap [(''grpc-service-name'',
             VStr (decodeURLValue (firstNonEmpty [lookup_str q ''serviceName'', lookup_str q ''service-name'', lookup_str q ''path''])))]) m1
         else if network = ''h2'' \<or> network = ''http'' then map_put ''h2-opts'' (VMap [(''path'', VStr path),
             (''host'', VStrList (if host = [] then [] else splitCSV (decodeURLValue host)))]) m1
         else if network = ''httpupgrade'' \<or> network = ''http-upgrade''
         then map_put ''http-upgrade-opts'' (path_and_host q) (map_put ''network'' (VStr ''httpupgrade'') m1)
         else if network = ''xhttp'' then map_put ''xhttp-opts'' (path_and_host q) m1
         else m1)"

definition applyRealityOptions :: "(string \<times> string) list \<Rightarrow> gomap \<Rightarrow> gomap" where
  "applyRealityOptions q m =
     (let r = put_when (lookup_str q ''spx'' \<noteq> []) ''spider-x'' (VStr (decodeURLValue (lookup_str q ''spx'')))
                (map_put ''short-id'' (VStr (lookup_str q ''sid'')) (put_text ''public-key'' (lookup_str q ''pbk'') []))
      in map_put ''skip-cert-verify'' (VBool True) (put_text ''client-fingerprint'' (lookup_str q ''fp'') (map_put ''reality-opts'' (VMap r) m)))"

section \<open>Links cut by hand\<close>

text \<open>The name after the last \<open>#\<close>, the query after the first \<open>?\<close>, and the rest without a slash at its end.\<close>

definition link_parts :: "string \<Rightarrow> string \<Rightarrow> string \<times> (string \<times> string) list \<times> string" where
  "link_parts dflt content =
     (let (main, name) = (case split_last (CHR ''#'') content of
                            None \<Rightarrow> (content, dflt) | Some (a, b) \<Rightarrow> (a, decodeURLValue b));
          (part, q) = split_once (CHR ''?'') main
      in (name, case q of None \<Rightarrow> [] | Some t \<Rightarrow> parseQueryParams t, TrimSuffix part ''/''))"

definition knownSSCiphers :: "string list" where
  "knownSSCiphers =
     [''aes-128-gcm'', ''aes-192-gcm'', ''aes-256-gcm'', ''aes-128-cfb'', ''aes-192-cfb'', ''aes-256-cfb'', ''aes-128-ctr'',
      ''aes-192-ctr'', ''aes-256-ctr'', ''chacha20-ietf-poly1305'', ''xchacha20-ietf-poly1305'', ''chacha20-ietf'', ''chacha20'',
      ''xchacha20'', ''2022-blake3-aes-128-gcm'', ''2022-blake3-aes-256-gcm'', ''2022-blake3-chacha20-poly1305'', ''rc4-md5'', ''none'']"

definition matchSSCipher :: "string \<Rightarrow> string option" where
  "matchSSCipher auth = find (\<lambda>c. prefix (c @ '':'') auth) knownSSCiphers"

definition splitAuth :: "string \<Rightarrow> string \<times> string" where
  "splitAuth auth = (case split_once (CHR '':'') auth of (a, Some b) \<Rightarrow> (a, b) | (a, None) \<Rightarrow> ([], []))"

text \<open>Method, password, server and port of the part before the query.\<close>

definition ss_auth :: "string \<Rightarrow> link_error + (string \<times> string \<times> string \<times> int)" where
  "ss_auth part =
     (case split_last (CHR ''@'') part of
        Some (a, address) \<Rightarrow>
          (let auth = decodeURLValue a; (server, port) = splitHostPortLoose address in
           case matchSSCipher auth of
             Some cipher \<Rightarrow> Inr (cipher, drop (length cipher + 1) auth, server, port)
           | None \<Rightarrow>
               (case base64DecodeURLSafe auth of
                  None \<Rightarrow> Inl LinkBase64
                | Some d \<Rightarrow> (case splitAuth d of (method, password) \<Rightarrow> Inr (method, password, server, port))))
      | None \<Rightarrow>
          (case base64DecodeURLSafe part of
             None \<Rightarrow> Inl LinkBase64
           | Some d \<Rightarrow>
               (case split_last (CHR ''@'') d of
                  None \<Rightarrow> Inl (LinkInvalid ''invalid ss format'')
                | Some (a, address) \<Rightarrow>
                    (case (splitAuth a, splitHostPortLoose address) of ((method, password), server, port) \<Rightarrow> Inr (method, password, server, port)))))"

definition ss_plugin_fields :: "(string \<times> string) list \<Rightarrow> gomap \<Rightarrow> gomap" where
  "ss_plugin_fields q m =
     (if lookup_str q ''plugin'' = [] then m
      else case split_once (CHR '';'') (decodeURLValue (lookup_str q ''plugin'')) of
        (name, opts) \<Rightarrow> put_text ''plugin-opts'' (case opts of None \<Rightarrow> [] | Some t \<Rightarrow> t) (map_put ''plugin'' (VStr (TrimSpace name)) m))"

definition parseShadowsocks :: "import_env \<Rightarrow> string \<Rightarrow> link_error + ParsedNode" where
  "parseShadowsocks e raw =
     (case link_parts ''SS Node'' (TrimPrefix raw ''ss://'') of
        (name, q, part) \<Rightarrow>
          res_bind (ss_auth part) (\<lambda>(method, password, server, port).
            if method = [] \<or> server = [] then Inl (LinkInvalid ''invalid ss url'')
            else let m0 = [(''name'', VStr name), (''type'', VStr ''shadowsocks''), (''server'', VStr server), (''port'', VInt port),
                           (''cipher'', VStr method), (''password'', VStr password), (''udp'', VBool True)];
                     m1 = ss_plugin_fields q m0;
                     m2 = (if truthy (lookup_str q ''tls'') then applyTLSOptions q ''servername'' (map_put ''tls'' (VBool True) m1) else m1);
                     network = lookup_str q ''type''
                 in parsedNodeFromMap e raw (if network \<noteq> [] \<and> network \<noteq> ''tcp'' then applyTransportOptions q m2 else m2)))"

definition link_user :: "string \<Rightarrow> string \<Rightarrow> link_error + (string \<times> string \<times> int)" where
  "link_user what part =
     (case split_last (CHR ''@'') part of
        None \<Rightarrow> Inl (LinkInvalid (''invalid '' @ what @ '' url''))
      | Some (user, address) \<Rightarrow> (case parseServerPortWithDefault address 443 of (server, port) \<Rightarrow> Inr (user, server, port)))"

definition parseTrojan :: "import_env \<Rightarrow> string \<Rightarrow> link_error + ParsedNode" where
  "parseTrojan e raw =
     (case link_parts ''Trojan Node'' (TrimPrefix raw ''trojan://'') of
        (name, q, part) \<Rightarrow>
          res_bind (link_user ''trojan'' part) (\<lambda>(user, server, port).
            parsedNodeFromMap e raw (applyTransportOptions q (applyTLSOptions q ''sni''
              [(''name'', VStr name), (''type'', VStr ''trojan''), (''server'', VStr server), (''port'', VInt port),
               (''password'', VStr (decodeURLValue user)), (''udp'', VBool True), (''tls'', VBool True)]))))"

definition parseVless :: "import_env \<Rightarrow> string \<Rightarrow> link_error + ParsedNode" where
  "parseVless e raw =
     (case link_parts ''VLESS Node'' (TrimPrefix raw ''vless://'') of
        (name, q, part) \<Rightarrow>
          res_bind (link_user ''vless'' part) (\<lambda>(user, server, port).
            let security = firstNonEmpty [lookup_str q ''security'', ''none''];
                m = applyTransportOptions q (applyTLSOptions q ''servername''
                  [(''name'', VStr name), (''type'', VStr ''vless''), (''server'', VStr server), (''port'', VInt port),
                   (''uuid'', VStr user), (''udp'', VBool True), (''tls'', VBool (security = ''tls'' \<or> security = ''reality'')),
                   (''flow'', VStr (lookup_str q ''flow'')), (''encryption'', VStr (firstNonEmpty [lookup_str q ''encryption'', ''none'']))])
            in parsedNodeFromMap e raw (if security = ''reality'' then applyRealityOptions q m else m)))"

section \<open>VMess and SSR\<close>

text \<open>\<open>js\<close> is \<^verbatim>\<open>json.Unmarshal\<close>: \<open>None\<close> for a text that is not JSON.\<close>

definition vmess_config :: "(string \<Rightarrow> goval option) \<Rightarrow> string \<Rightarrow> link_error + gomap" where
  "vmess_config js encoded =
     (case (case b64_decode False True (withPadding encoded) of None \<Rightarrow> b64_decode True True (withPadding encoded) | r \<Rightarrow> r) of
        None \<Rightarrow> Inl LinkBase64
      | Some d \<Rightarrow> (case js d of Some (VMap m) \<Rightarrow> Inr m | Some VNil \<Rightarrow> Inr [] | _ \<Rightarrow> Inl LinkJSON))"

definition parseVmess :: "import_env \<Rightarrow> (string \<Rightarrow> goval option) \<Rightarrow> string \<Rightarrow> link_error + ParsedNode" where
  "parseVmess e js raw =
     res_bind (vmess_config js (TrimPrefix raw ''vmess://'')) (\<lambda>cfg.
       if get_str e cfg ''add'' = [] then Inl (LinkInvalid ''vmess server missing'')
       else let m0 = [(''name'', VStr (firstNonEmpty [get_str e cfg ''ps'', get_str e cfg ''name'', get_str e cfg ''add''])),
                      (''type'', VStr ''vmess''), (''server'', VStr (get_str e cfg ''add'')), (''port'', VInt (getInt cfg ''port'')),
                      (''uuid'', VStr (get_str e cfg ''id'')), (''alterId'', VInt (getInt cfg ''aid'')),
                      (''cipher'', VStr (firstNonEmpty [get_str e cfg ''scy'', get_str e cfg ''cipher'', ''auto''])), (''udp'', VBool True)];
                m1 = put_when (get_str e cfg ''tls'' = ''tls'') ''tls'' (VBool True) m0;
                q0 = [(''type'', firstNonEmpty [get_str e cfg ''net'', ''tcp'']), (''path'', get_str e cfg ''path''), (''host'', get_str e cfg ''host''),
                      (''sni'', get_str e cfg ''sni''), (''alpn'', get_str e cfg ''alpn''), (''fp'', get_str e cfg ''fp''),
                      (''serviceName'', get_str e cfg ''path'')];
                q = (if boolOrString (map_get cfg ''allowInsecure'') then map_put ''allowInsecure'' ''1'' q0 else q0)
            in parsedNodeFromMap e raw (applyTransportOptions q (applyTLSOptions q ''servername'' m1)))"

text \<open>A parameter of an SSR link is kept if it is base64; \<open>cut_before\<close> splits the link as \<^verbatim>\<open>strings.SplitN(decoded, "/?", 2)\<close> does.\<close>

definition ssr_param :: "(string \<times> string) list \<Rightarrow> string \<Rightarrow> string \<Rightarrow> gomap \<Rightarrow> gomap" where
  "ssr_param q key field m =
     (if lookup_str q key = [] then m
      else case base64DecodeURLSafe (lookup_str q key) of None \<Rightarrow> m | Some d \<Rightarrow> map_put field (VStr d) m)"

definition parseShadowsocksR :: "import_env \<Rightarrow> string \<Rightarrow> link_error + ParsedNode" where
  "parseShadowsocksR e raw =
     (case base64DecodeURLSafe (TrimPrefix raw ''ssr://'') of
        None \<Rightarrow> Inl LinkBase64
      | Some decoded \<Rightarrow>
          (case cut_before ''/?'' decoded of
             (base, params) \<Rightarrow>
               (case rev (split_char (CHR '':'') base) of
                  pass # obfs # method # protocol # port # server # rest \<Rightarrow>
                    (let m = [(''name'', VStr ''SSR Node''), (''type'', VStr ''ssr''), (''server'', VStr (join_with '':'' (rev (server # rest)))),
                              (''port'', VInt (parsePort port)), (''cipher'', VStr method),
                              (''password'', VStr (case base64DecodeURLSafe pass of None \<Rightarrow> [] | Some d \<Rightarrow> d)),
                              (''protocol'', VStr protocol), (''obfs'', VStr obfs), (''udp'', VBool True)];
                         q = parseQueryParams (drop 2 params)
                     in parsedNodeFromMap e raw
                          (if params = [] then m
                           else ssr_param q ''group'' ''group'' (ssr_param q ''protoparam'' ''protocol-param''
                                  (ssr_param q ''obfsparam'' ''obfs-param'' (ssr_param q ''remarks'' ''name'' m)))))
                | _ \<Rightarrow> Inl (LinkInvalid ''invalid ssr format''))))"

section \<open>Links that are URLs\<close>

definition url_username :: "go_url \<Rightarrow> string" where
  "url_username u = (case u_user u of None \<Rightarrow> [] | Some (n, _) \<Rightarrow> n)"

definition put_user :: "go_url \<Rightarrow> string \<Rightarrow> gomap \<Rightarrow> gomap" where
  "put_user u key m =
     (case u_user u of
        None \<Rightarrow> m
      | Some (n, w) \<Rightarrow> (case w of None \<Rightarrow> map_put key (VStr n) m | Some x \<Rightarrow> map_put ''password'' (VStr x) (map_put key (VStr n) m)))"

text \<open>The first fields of every node, and its query with the first value of each key.\<close>

definition url_fields :: "go_url \<Rightarrow> string \<Rightarrow> int \<Rightarrow> gomap" where
  "url_fields u typ port =
     (let server = fst (url_host_port (u_host u)); name = decodeURLValue (u_fragment u)
      in [(''name'', VStr (if name = [] then server else name)), (''type'', VStr typ), (''server'', VStr server), (''port'', VInt port)])"

definition url_port :: "go_url \<Rightarrow> int" where
  "url_port u = parsePort (snd (url_host_port (u_host u)))"

definition url_params :: "go_url \<Rightarrow> (string \<times> string) list" where
  "url_params u = urlValuesToMap (parse_query (u_query u))"

definition with_url :: "(string \<Rightarrow> bool) \<Rightarrow> string \<Rightarrow> (go_url \<Rightarrow> link_error + 'a) \<Rightarrow> link_error + 'a" where
  "with_url ip6 raw f = (case go_url_parse ip6 raw of None \<Rightarrow> Inl LinkURL | Some u \<Rightarrow> f u)"

definition parseSocks :: "import_env \<Rightarrow> (string \<Rightarrow> bool) \<Rightarrow> string \<Rightarrow> link_error + ParsedNode" where
  "parseSocks e ip6 raw = with_url ip6 raw (\<lambda>u.
     let q = url_params u;
         version = (if EqualFold (u_scheme u) ''socks4'' then ''4'' else if EqualFold (u_scheme u) ''socks4a'' then ''4a'' else ''5'');
         m1 = put_user u ''username'' (map_put ''version'' (VStr version) (url_fields u ''socks'' (url_port u)));
         m2 = map_put ''udp'' (VBool (truthy (lookup_str q ''udp'') \<or> lookup_str q ''udp'' \<notin> {''false'', ''0''})) m1;
         m3 = put_when (lookup_str q ''uot'' \<noteq> []) ''uot'' (VBool (truthy (lookup_str q ''uot''))) m2
     in parsedNodeFromMap e raw
          (if truthy (lookup_str q ''tls'') \<or> EqualFold (u_scheme u) ''socks5+tls'' \<or> EqualFold (u_scheme u) ''sockstls''
           then applyTLSOptions q ''servername'' (map_put ''tls'' (VBool True) m3) else m3))"

definition parseHTTPProxy :: "import_env \<Rightarrow> (string \<Rightarrow> bool) \<Rightarrow> string \<Rightarrow> link_error + ParsedNode" where
  "parseHTTPProxy e ip6 raw = with_url ip6 raw (\<lambda>u.
     let q = url_params u; m = put_user u ''username'' (url_fields u (ToLower (u_scheme u)) (url_port u))
     in parsedNodeFromMap e raw
          (if EqualFold (u_scheme u) ''https'' \<or> truthy (lookup_str q ''tls'')
           then applyTLSOptions q ''servername'' (map_put ''tls'' (VBool True) m) else m))"

definition put_number :: "string \<Rightarrow> string \<Rightarrow> gomap \<Rightarrow> gomap" where
  "put_number key txt m =
     (if txt = [] then m else case Atoi txt of (v, ok) \<Rightarrow> map_put key (if ok then VInt v else VStr txt) m)"

definition put_positive :: "string \<Rightarrow> string \<Rightarrow> gomap \<Rightarrow> gomap" where
  "put_positive key txt m = (case Atoi txt of (v, ok) \<Rightarrow> put_when (ok \<and> v > 0) key (VInt v) m)"

definition hysteria1_fields :: "(string \<times> string) list \<Rightarrow> gomap \<Rightarrow> gomap" where
  "hysteria1_fields q m =
     (let m1 = put_number ''down'' (lookup_str q ''down'') (put_number ''up'' (lookup_str q ''up'') m);
          m2 = put_when (lookup_str q ''obfs-param'' \<noteq> []) ''obfs-param'' (VStr (decodeURLValue (lookup_str q ''obfs-param'')))
                 (put_text ''obfs'' (lookup_str q ''obfs'') m1);
          m3 = put_when (lookup_str q ''alpn'' \<noteq> []) ''alpn'' (VStrList (splitCSV (lookup_str q ''alpn''))) m2;
          m4 = put_text ''receive-window-conn'' (lookup_str q ''recv_window_conn'') (put_text ''receive-window'' (lookup_str q ''recv_window'') m3)
      in put_when (truthy (lookup_str q ''disable_mtu_discovery'')) ''disable-mtu-discovery'' (VBool True) m4)"

definition hysteria2_link_obfs :: "(string \<times> string) list \<Rightarrow> gomap \<Rightarrow> gomap" where
  "hysteria2_link_obfs q m =
     (if lookup_str q ''obfs'' = [] then m
      else let o1 = put_when (lookup_str q ''obfs-password'' \<noteq> []) ''password'' (VStr (decodeURLValue (lookup_str q ''obfs-password'')))
                      [(''type'', VStr (lookup_str q ''obfs''))];
               o2 = (if lookup_str q ''obfs'' = ''gecko''
                     then put_positive ''max_packet_size'' (firstQueryValue q [''max_packet_size'', ''max-packet-size''])
                            (put_positive ''min_packet_size'' (firstQueryValue q [''min_packet_size'', ''min-packet-size'']) o1) else o1)
           in map_put ''obfs'' (VMap o2) m)"

definition hysteria2_fields :: "import_env \<Rightarrow> (string \<times> string) list \<Rightarrow> gomap \<Rightarrow> link_error + gomap" where
  "hysteria2_fields e q m =
     (let m1 = hysteria2_link_obfs q m; ports = firstQueryValue q [''server_ports'', ''server-ports'', ''mport''] in
      res_bind (if ports = [] then Inr m1
                else case NormalizeHysteriaPortRanges (i_sprint e) (VStr ports) of
                  Inl _ \<Rightarrow> Inl (LinkInvalid ''invalid Hysteria2 server_ports'')
                | Inr r \<Rightarrow> Inr (map_put ''server_ports'' (VStrList (case r of None \<Rightarrow> [] | Some p \<Rightarrow> p)) m1)) (\<lambda>m2.
        let m3 = put_text ''bbr_profile'' (firstQueryValue q [''bbr_profile'', ''bbr-profile''])
                   (put_text ''hop_interval_max'' (firstQueryValue q [''hop_interval_max'', ''hop-interval-max''])
                   (put_text ''hop_interval'' (firstQueryValue q [''hop_interval'', ''hop-interval'']) m2));
            m4 = put_positive ''down_mbps'' (lookup_str q ''down'') (put_positive ''up_mbps'' (lookup_str q ''up'') m3)
        in Inr (put_when (truthy (lookup_str q ''brutal_debug'')) ''brutal_debug'' (VBool True) m4)))"

definition hysteria2_pin :: "(string \<times> string) list \<Rightarrow> gomap \<Rightarrow> link_error + gomap" where
  "hysteria2_pin q m =
     (let pin = firstQueryValue q [''pinSHA256'', ''pinsha256'', ''pin-sha256'', ''pin_sha256''] in
      if pin = [] then Inr m
      else case normalizeSHA256Hex pin of
        None \<Rightarrow> Inl (LinkInvalid ''invalid Hysteria2 pinSHA256'')
      | Some p \<Rightarrow> Inr (map_put ''certificate-sha256'' (VStr p) m))"

definition parseHysteriaGeneric :: "import_env \<Rightarrow> (string \<Rightarrow> bool) \<Rightarrow> string \<Rightarrow> string \<Rightarrow> link_error + ParsedNode" where
  "parseHysteriaGeneric e ip6 raw typ = with_url ip6 raw (\<lambda>u.
     let q = url_params u; auth = firstNonEmpty [url_username u, lookup_str q ''auth'', lookup_str q ''password''];
         m1 = put_text (if typ = ''hysteria2'' then ''password'' else ''auth_str'') auth (map_put ''udp'' (VBool True) (url_fields u typ (url_port u)));
         m2 = applyTLSOptions q ''sni'' (map_put ''tls'' (VBool True) m1)
     in res_bind (if typ = ''hysteria2'' then hysteria2_pin q m2 else Inr m2) (\<lambda>m3.
          let m4 = (if typ = ''hysteria'' then hysteria1_fields q m3 else m3)
          in res_bind (if typ = ''hysteria2'' then hysteria2_fields e q m4 else Inr m4) (parsedNodeFromMap e raw)))"

definition parseTuic :: "import_env \<Rightarrow> (string \<Rightarrow> bool) \<Rightarrow> string \<Rightarrow> link_error + ParsedNode" where
  "parseTuic e ip6 raw = with_url ip6 raw (\<lambda>u.
     let q = url_params u;
         m1 = put_text ''token'' (lookup_str q ''token'') (put_user u ''uuid'' (map_put ''udp'' (VBool True) (url_fields u ''tuic'' (url_port u))));
         m2 = applyTLSOptions q ''sni'' (map_put ''tls'' (VBool True) m1);
         m3 = put_text ''udp-relay-mode'' (firstQueryValue q [''udp_relay_mode'', ''udp-relay-mode''])
                (put_text ''congestion_control'' (firstQueryValue q [''congestion_control'', ''congestion-control'']) m2);
         m4 = put_when (list_ex (\<lambda>k. lookup_str q k \<in> {''1'', ''true''}) [''reduce_rtt'', ''reduce-rtt'']) ''reduce-rtt'' (VBool True) m3
     in parsedNodeFromMap e raw (put_text ''heartbeat'' (lookup_str q ''heartbeat'') m4))"

definition parseAnyTLS :: "import_env \<Rightarrow> (string \<Rightarrow> bool) \<Rightarrow> string \<Rightarrow> link_error + ParsedNode" where
  "parseAnyTLS e ip6 raw = with_url ip6 raw (\<lambda>u.
     let q = url_params u;
         m1 = applyTLSOptions q ''sni'' (map_put ''tls'' (VBool True) (map_put ''password'' (VStr (url_username u)) (url_fields u ''anytls'' (url_port u))));
         m2 = put_text ''idle_session_timeout'' (firstQueryValue q [''idle_session_timeout'', ''idle-session-timeout''])
                (put_text ''idle_session_check_interval'' (firstQueryValue q [''idle_session_check_interval'', ''idle-session-check-interval'']) m1);
         n = firstQueryValue q [''min_idle_session'', ''min-idle-session'']
     in parsedNodeFromMap e raw (put_when (n \<noteq> [] \<and> snd (Atoi n) \<and> fst (Atoi n) \<ge> 0) ''min_idle_session'' (VInt (fst (Atoi n))) m2))"

definition reserved_number :: "string \<Rightarrow> int" where
  "reserved_number p = foldl (\<lambda>v c. if is_digit c then wrap64 (v * 10 + int (digit_val c)) else v) 0 p"

definition wireguard_key :: "(string \<times> string) list \<Rightarrow> string \<Rightarrow> gomap \<Rightarrow> gomap" where
  "wireguard_key q key m = put_when (lookup_str q key \<noteq> []) key (VStr (decodeURLValue (lookup_str q key))) m"

definition parseWireGuard :: "import_env \<Rightarrow> (string \<Rightarrow> goval option) \<Rightarrow> (string \<Rightarrow> bool) \<Rightarrow> string \<Rightarrow> link_error + ParsedNode" where
  "parseWireGuard e js ip6 raw = with_url ip6 raw (\<lambda>u.
     let q = url_params u;
         m1 = wireguard_key q ''pre-shared-key'' (wireguard_key q ''preshared-key'' (wireguard_key q ''public-key''
                (wireguard_key q ''private-key'' (url_fields u ''wireguard'' (url_port u)))));
         reserved = map reserved_number (filter (\<lambda>s. s \<noteq> []) (map TrimSpace (split_char (CHR '','') (decodeURLValue (lookup_str q ''reserved'')))));
         m2 = put_when (lookup_str q ''reserved'' \<noteq> [] \<and> reserved \<noteq> []) ''reserved'' (VList (map VInt reserved)) m1;
         m3 = put_when (lookup_str q ''address'' \<noteq> []) ''address''
                (VStrList (map TrimSpace (split_char (CHR '','') (decodeURLValue (lookup_str q ''address''))))) m2;
         m4 = put_when (lookup_str q ''mtu'' \<noteq> []) ''mtu'' (VInt (parsePort (lookup_str q ''mtu''))) m3;
         peers = decodeURLValue (lookup_str q ''peers'')
     in parsedNodeFromMap e raw
          (put_when (lookup_str q ''peers'' \<noteq> []) ''peers'' (case js peers of None \<Rightarrow> VStr peers | Some v \<Rightarrow> v) m4))"

definition parseNaive :: "import_env \<Rightarrow> (string \<Rightarrow> bool) \<Rightarrow> string \<Rightarrow> link_error + ParsedNode" where
  "parseNaive e ip6 raw = with_url ip6 (TrimPrefix raw ''naive+'') (\<lambda>u.
     parsedNodeFromMap e raw (applyTLSOptions (url_params u) ''sni''
       (put_user u ''username'' (map_put ''tls'' (VBool (EqualFold (u_scheme u) ''https'')) (url_fields u ''naive'' (url_port u))))))"

definition parseMieru :: "import_env \<Rightarrow> (string \<Rightarrow> bool) \<Rightarrow> string \<Rightarrow> link_error + ParsedNode" where
  "parseMieru e ip6 raw = with_url ip6 raw (\<lambda>u.
     let q = url_params u;
         m = put_text ''multiplexing'' (lookup_str q ''multiplexing'') (put_text ''transport'' (lookup_str q ''transport'')
               (put_text ''protocol'' (lookup_str q ''protocol'') (put_user u ''username'' (url_fields u ''mieru'' (url_port u)))))
     in parsedNodeFromMap e raw
          (if truthy (lookup_str q ''tls'') then applyTLSOptions q ''sni'' (map_put ''tls'' (VBool True) m) else m))"

definition snell_version :: "string \<Rightarrow> link_error + int" where
  "snell_version txt =
     (case Atoi txt of
        (v, ok) \<Rightarrow>
          if \<not> ok then Inl (LinkInvalid ''snell: invalid version'')
          else let version = (if v = 5 then 4 else v)
               in if version \<noteq> 4 \<and> version \<noteq> 6 then Inl (LinkRefused (''snell: unsupported version '' @ show_int version)) else Inr version)"

definition parseSnell :: "import_env \<Rightarrow> (string \<Rightarrow> bool) \<Rightarrow> string \<Rightarrow> link_error + ParsedNode" where
  "parseSnell e ip6 raw = with_url ip6 raw (\<lambda>u.
     let q = url_params u in
     res_bind (snell_version (lookup_str q ''version'')) (\<lambda>version.
       let m1 = map_put ''version'' (VInt version) (map_put ''psk'' (VStr (url_username u)) (url_fields u ''snell'' (url_port u)));
           userKey = firstQueryValue q [''userkey'', ''user-key''];
           m2 = put_when (userKey \<noteq> []) ''userkey'' (VStr (decodeURLValue userKey)) m1;
           m3 = put_text ''network'' (lookup_str q ''network'') (put_when (truthy (lookup_str q ''reuse'')) ''reuse'' (VBool True) m2);
           host = firstQueryValue q [''obfs_host'', ''obfs-host''];
           m4 = (if version = 4
                 then put_when (host \<noteq> []) ''obfs_host'' (VStr (decodeURLValue host))
                        (put_text ''obfs_mode'' (firstQueryValue q [''obfs_mode'', ''obfs-mode'', ''obfs'']) m3)
                 else put_text ''mode'' (lookup_str q ''mode'') m3)
       in if version = 6 \<and> length (url_username u) < 12 then Inl (LinkRefused ''snell: version 6 psk must be at least 12 bytes'')
          else parsedNodeFromMap e raw m4))"

section \<open>SSH links\<close>

fun copySSHQueryValue :: "url_values \<Rightarrow> string \<Rightarrow> string list \<Rightarrow> gomap \<Rightarrow> gomap" where
  "copySSHQueryValue q target [] m = m"
| "copySSHQueryValue q target (k # ks) m =
     (if value_get q k \<noteq> [] then map_put target (VStr (value_get q k)) m else copySSHQueryValue q target ks m)"

fun copySSHQueryList :: "url_values \<Rightarrow> string \<Rightarrow> string list \<Rightarrow> gomap \<Rightarrow> gomap" where
  "copySSHQueryList q target [] m = m"
| "copySSHQueryList q target (k # ks) m =
     (let kept = filter (\<lambda>v. v \<noteq> []) (value_list q k)
      in if kept \<noteq> [] then map_put target (VStrList kept) m else copySSHQueryList q target ks m)"

definition ssh_port :: "go_url \<Rightarrow> link_error + int" where
  "ssh_port u =
     (let txt = snd (url_host_port (u_host u)) in
      if txt \<noteq> [] then (case Atoi txt of (v, ok) \<Rightarrow> if \<not> ok \<or> v < 1 \<or> v > 65535 then Inl (LinkInvalid ''ssh: invalid server port'') else Inr v)
      else if suffix '':'' (u_host u) then Inl (LinkInvalid ''ssh: invalid server port'') else Inr 22)"

definition ssh_user :: "go_url \<Rightarrow> gomap \<Rightarrow> gomap" where
  "ssh_user u m =
     (case u_user u of
        None \<Rightarrow> m
      | Some (n, w) \<Rightarrow> (case w of None \<Rightarrow> put_text ''user'' n m | Some x \<Rightarrow> map_put ''password'' (VStr x) (put_text ''user'' n m)))"

definition ssh_query :: "url_values \<Rightarrow> gomap \<Rightarrow> gomap" where
  "ssh_query q m =
     (let m1 = (if has_key m ''user'' then m else copySSHQueryValue q ''user'' [''user'', ''username''] m);
          m2 = (if has_key m1 ''password'' then m1 else copySSHQueryValue q ''password'' [''password''] m1);
          m3 = copySSHQueryValue q ''private_key_path'' [''private_key_path'', ''private-key-path''] m2;
          m4 = copySSHQueryValue q ''private_key_passphrase'' [''private_key_passphrase'', ''private-key-passphrase''] m3;
          m5 = copySSHQueryValue q ''client_version'' [''client_version'', ''client-version''] m4;
          m6 = copySSHQueryList q ''private_key'' [''private_key'', ''private-key''] m5;
          m7 = copySSHQueryList q ''host_key'' [''host_key'', ''host-key''] m6;
          m8 = copySSHQueryList q ''host_key_algorithms'' [''host_key_algorithms'', ''host-key-algorithms''] m7;
          m9 = copySSHQueryList q ''mac'' [''mac''] (copySSHQueryList q ''cipher'' [''cipher''] m8)
      in copySSHQueryList q ''kex_algorithm'' [''kex_algorithm'', ''kex-algorithm''] m9)"

definition parseSSH :: "import_env \<Rightarrow> (string \<Rightarrow> bool) \<Rightarrow> string \<Rightarrow> link_error + ParsedNode" where
  "parseSSH e ip6 raw = with_url ip6 raw (\<lambda>u.
     res_bind (ssh_port u) (\<lambda>port. parsedNodeFromMap e raw (ssh_query (parse_query (u_query u)) (ssh_user u (url_fields u ''ssh'' port)))))"

section \<open>Links and lists of links\<close>

text \<open>A link of another scheme: only its address is read, and the scheme decides whether it is supported.\<close>

definition parse_other_link :: "(string \<Rightarrow> bool) \<Rightarrow> string \<Rightarrow> link_error + ParsedNode" where
  "parse_other_link ip6 raw = with_url ip6 raw (\<lambda>u.
     let typ = normalizeProtocolType (ToLower (u_scheme u));
         (host, txt) = url_host_port (u_host u);
         (server, port) = (if host = [] \<and> u_host u \<noteq> [] then splitHostPortLoose (u_host u) else (host, parsePort txt));
         name = (if decodeURLValue (u_fragment u) = [] then server else decodeURLValue (u_fragment u))
     in if typ = [] \<or> server = [] then Inl (LinkInvalid ''invalid proxy uri'')
        else Inr \<lparr>p_UID = [], p_Name = name, p_Type = typ, p_Server = server, p_ServerPort = port, p_Raw = raw,
               p_config = Object (json_map [(''name'', VStr name), (''type'', VStr typ), (''server'', VStr server), (''port'', VInt port)]),
               p_UnsupportedReason = if IsSupportedNodeProtocol typ then [] else UnsupportedNodeProtocolReason typ\<rparr>)"

definition ParseProxyURI :: "import_env \<Rightarrow> (string \<Rightarrow> goval option) \<Rightarrow> (string \<Rightarrow> bool) \<Rightarrow> string \<Rightarrow> link_error + ParsedNode" where
  "ParseProxyURI e js ip6 raw0 =
     (let raw = TrimSpace raw0 in
      if prefix ''vmess://'' raw then parseVmess e js raw
      else if prefix ''ss://'' raw then parseShadowsocks e raw
      else if prefix ''ssr://'' raw then parseShadowsocksR e raw
      else if prefix ''trojan://'' raw then parseTrojan e raw
      else if prefix ''vless://'' raw then parseVless e raw
      else if prefix ''socks://'' raw \<or> prefix ''socks5://'' raw \<or> prefix ''socks4://'' raw \<or> prefix ''socks4a://'' raw then parseSocks e ip6 raw
      else if prefix ''hysteria://'' raw then parseHysteriaGeneric e ip6 raw ''hysteria''
      else if prefix ''hy2://'' raw \<or> prefix ''hysteria2://'' raw then parseHysteriaGeneric e ip6 raw ''hysteria2''
      else if prefix ''tuic://'' raw then parseTuic e ip6 raw
      else if prefix ''anytls://'' raw then parseAnyTLS e ip6 raw
      else if prefix ''wireguard://'' raw \<or> prefix ''wg://'' raw then parseWireGuard e js ip6 raw
      else if prefix ''http://'' raw \<or> prefix ''https://'' raw then parseHTTPProxy e ip6 raw
      else if prefix ''naive://'' raw \<or> prefix ''naive+https://'' raw \<or> prefix ''naive+http://'' raw then parseNaive e ip6 raw
      else if prefix ''mieru://'' raw then parseMieru e ip6 raw
      else if prefix ''snell://'' raw then parseSnell e ip6 raw
      else if prefix ''ssh://'' (ToLower raw) then parseSSH e ip6 raw
      else parse_other_link ip6 raw)"

fun rights :: "('e + 'a) list \<Rightarrow> 'a list" where
  "rights [] = []"
| "rights (Inl _ # xs) = rights xs"
| "rights (Inr x # xs) = x # rights xs"

definition parseURIList :: "import_env \<Rightarrow> (string \<Rightarrow> goval option) \<Rightarrow> (string \<Rightarrow> bool) \<Rightarrow> string \<Rightarrow> ParsedNode list" where
  "parseURIList e js ip6 content =
     (let txt = (case decodeBase64 (TrimSpace content) of None \<Rightarrow> TrimSpace content | Some d \<Rightarrow> d);
          ls = filter (\<lambda>l. l \<noteq> [] \<and> \<not> prefix ''#'' l \<and> contains_str l ''://'') (map TrimSpace (split_char (CHR 0x0A) txt))
      in rights (map (ParseProxyURI e js ip6) ls))"

text \<open>\<open>sb\<close> and \<open>cl\<close> are the body read as JSON and as YAML.\<close>

definition ParseSubscriptionNodes ::
  "import_env \<Rightarrow> (string \<Rightarrow> goval option) \<Rightarrow> (string \<Rightarrow> bool) \<Rightarrow> (gomap list \<times> gomap list) option \<Rightarrow>
   (gomap list \<times> gomap list) option \<Rightarrow> string \<Rightarrow> ParsedNode list" where
  "ParseSubscriptionNodes e js ip6 sb cl body =
     (if parseSingboxJSON e sb \<noteq> [] then parseSingboxJSON e sb
      else if parseClashYAML e cl \<noteq> [] then parseClashYAML e cl
      else parseURIList e js ip6 body)"

end
