(* ===== verification/Share_Encode.thy ===== *)
theory Share_Encode
  imports Share_Parse
begin

text \<open>
  Writing share links: \<^verbatim>\<open>parser/share_uri.go\<close>.  \<open>jt\<close> is the text \<^verbatim>\<open>json.Marshal\<close> gives for a value.
\<close>

datatype share_error =
    ChainedNode
  | OptionsNotJSON
  | NoShareLink string
  | NoAddress string
  | NoCredential string

record share_node =
  sn_Name :: string
  sn_Type :: string
  sn_Server :: string
  sn_ServerPort :: int
  sn_Raw :: string
  sn_config :: config_data

section \<open>Reading options\<close>

definition nestedMap :: "gomap \<Rightarrow> string \<Rightarrow> gomap" where
  "nestedMap m k = (case map_get m k of VMap t \<Rightarrow> t | _ \<Rightarrow> [])"

definition stringValues :: "goval \<Rightarrow> string list" where
  "stringValues v =
     (case v of
        VStrList ss \<Rightarrow> ss
      | VList vs \<Rightarrow> filter (\<lambda>s. s \<noteq> []) (map as_string vs)
      | VStr s \<Rightarrow> (if s = [] then [] else [s])
      | _ \<Rightarrow> [])"

definition firstString :: "goval \<Rightarrow> string" where
  "firstString v = (case stringValues v of [] \<Rightarrow> [] | s # _ \<Rightarrow> s)"

definition scalarString :: "import_env \<Rightarrow> goval \<Rightarrow> string" where
  "scalarString e v =
     (case v of
        VStr s \<Rightarrow> s
      | VFloat r \<Rightarrow> float_f (i_ff e) r
      | VInt i \<Rightarrow> show_int i
      | VBool b \<Rightarrow> (if b then ''true'' else ''false'')
      | _ \<Rightarrow> [])"

definition scalarValues :: "import_env \<Rightarrow> goval \<Rightarrow> string list" where
  "scalarValues e v =
     (case v of
        VList vs \<Rightarrow> filter (\<lambda>s. s \<noteq> []) (map (scalarString e) vs)
      | VStrList ss \<Rightarrow> ss
      | _ \<Rightarrow> (if scalarString e v = [] then [] else [scalarString e v]))"

section \<open>Writing queries\<close>

definition query_set :: "string \<Rightarrow> string \<Rightarrow> url_values \<Rightarrow> url_values" where
  "query_set k v q = map_put k [v] q"

definition set_nonempty :: "string \<Rightarrow> string \<Rightarrow> url_values \<Rightarrow> url_values" where
  "set_nonempty k v q = (if v = [] then q else query_set k v q)"

definition setBase64Query :: "string \<Rightarrow> string \<Rightarrow> url_values \<Rightarrow> url_values" where
  "setBase64Query k v q = (if v = [] then q else query_set k (b64_raw True v) q)"

definition setStringQuery :: "import_env \<Rightarrow> string \<Rightarrow> gomap \<Rightarrow> string \<Rightarrow> url_values \<Rightarrow> url_values" where
  "setStringQuery e k m key q = set_nonempty k (get_str e m key) q"

fun setFirstStringQuery :: "import_env \<Rightarrow> string \<Rightarrow> gomap \<Rightarrow> string list \<Rightarrow> url_values \<Rightarrow> url_values" where
  "setFirstStringQuery e k m [] q = q"
| "setFirstStringQuery e k m (key # keys) q =
     (if scalarString e (map_get m key) \<noteq> [] then query_set k (scalarString e (map_get m key)) q else setFirstStringQuery e k m keys q)"

definition setIntQuery :: "string \<Rightarrow> gomap \<Rightarrow> string \<Rightarrow> url_values \<Rightarrow> url_values" where
  "setIntQuery k m key q = (if getInt m key > 0 then query_set k (show_int (getInt m key)) q else q)"

definition setBoolQuery :: "string \<Rightarrow> gomap \<Rightarrow> string \<Rightarrow> url_values \<Rightarrow> url_values" where
  "setBoolQuery k m key q = (if has_key m key \<and> boolOrString (map_get m key) then query_set k ''1'' q else q)"

definition setListQuery :: "import_env \<Rightarrow> string \<Rightarrow> goval \<Rightarrow> url_values \<Rightarrow> url_values" where
  "setListQuery e k v q = (if scalarValues e v = [] then q else query_set k (join_with '','' (scalarValues e v)) q)"

definition addRepeatedQueryValues :: "import_env \<Rightarrow> string \<Rightarrow> goval \<Rightarrow> url_values \<Rightarrow> url_values" where
  "addRepeatedQueryValues e k v q = fold (value_add k) (scalarValues e v) q"

definition setJSONQuery :: "import_env \<Rightarrow> (goval \<Rightarrow> string) \<Rightarrow> string \<Rightarrow> goval \<Rightarrow> url_values \<Rightarrow> url_values" where
  "setJSONQuery e jt k v q =
     (if scalarString e v \<noteq> [] then query_set k (scalarString e v) q
      else if v = VNil \<or> jt v = ''null'' then q else query_set k (jt v) q)"

definition addTLSShareQuery :: "import_env \<Rightarrow> gomap \<Rightarrow> url_values \<Rightarrow> url_values" where
  "addTLSShareQuery e tls q =
     (let utls = nestedMap tls ''utls'';
          q1 = set_nonempty ''alpn'' (join_with '','' (stringValues (map_get tls ''alpn''))) (setStringQuery e ''sni'' tls ''server_name'' q);
          q2 = (if boolOrString (map_get tls ''insecure'') then query_set ''allowInsecure'' ''1'' q1 else q1)
      in if boolOrString (map_get utls ''enabled'') then setStringQuery e ''fp'' utls ''fingerprint'' q2 else q2)"

definition copyTLSShareFields :: "import_env \<Rightarrow> gomap \<Rightarrow> gomap \<Rightarrow> gomap" where
  "copyTLSShareFields e tls m =
     (let utls = nestedMap tls ''utls'';
          m1 = put_text ''alpn'' (join_with '','' (stringValues (map_get tls ''alpn''))) (put_text ''sni'' (get_str e tls ''server_name'') m);
          m2 = put_when (boolOrString (map_get utls ''enabled'')) ''fp'' (VStr (get_str e utls ''fingerprint'')) m1
      in put_when (boolOrString (map_get tls ''insecure'')) ''allowInsecure'' (VInt 1) m2)"

text \<open>Network, path, host and service name.\<close>

definition shareTransport :: "import_env \<Rightarrow> gomap \<Rightarrow> string \<times> string \<times> string \<times> string" where
  "shareTransport e m =
     (let t = nestedMap m ''transport''; n = ToLower (get_str e t ''type''); headers = nestedMap t ''headers'';
          network = (if n = [] then ''tcp'' else if n = ''websocket'' then ''ws''
                     else if n = ''http_upgrade'' \<or> n = ''http-upgrade'' then ''httpupgrade'' else n);
          host = firstString (map_get t ''host'')
      in (network, get_str e t ''path'',
          if host = [] then firstNonEmpty [get_str e headers ''Host'', get_str e headers ''host''] else host, get_str e t ''service_name''))"

definition addTransportShareQuery :: "import_env \<Rightarrow> gomap \<Rightarrow> url_values \<Rightarrow> url_values" where
  "addTransportShareQuery e m q =
     (case shareTransport e m of
        (network, path, host, service) \<Rightarrow>
          set_nonempty ''serviceName'' service (set_nonempty ''host'' host (set_nonempty ''path'' path (query_set ''type'' network q))))"

definition addOptionalTLSAndTransportQuery :: "import_env \<Rightarrow> gomap \<Rightarrow> url_values \<Rightarrow> url_values" where
  "addOptionalTLSAndTransportQuery e m q =
     (let tls = nestedMap m ''tls'';
          q1 = (if boolOrString (map_get tls ''enabled'') then addTLSShareQuery e tls (query_set ''tls'' ''1'' q) else q)
      in if has_key m ''transport'' then addTransportShareQuery e m q1 else q1)"

definition sharePluginOptions :: "import_env \<Rightarrow> goval \<Rightarrow> string" where
  "sharePluginOptions e v =
     (case v of
        VStr s \<Rightarrow> s
      | VMap m \<Rightarrow> join_with '';'' (map (\<lambda>(k, x). let s = scalarString e x in if s = [] \<or> s = ''true'' then k else k @ ''='' @ s) (sort_key fst m))
      | _ \<Rightarrow> [])"

definition addHysteria1ShareQuery :: "import_env \<Rightarrow> gomap \<Rightarrow> url_values \<Rightarrow> url_values" where
  "addHysteria1ShareQuery e m q =
     (let q1 = setFirstStringQuery e ''down'' m [''down_mbps'', ''down''] (setFirstStringQuery e ''up'' m [''up_mbps'', ''up''] q);
          q2 = set_nonempty ''obfs'' (as_string (map_get m ''obfs'')) q1;
          q3 = setFirstStringQuery e ''obfs-param'' m [''obfs_param'', ''obfs-param''] q2;
          q4 = setIntQuery ''recv_window_conn'' m ''recv_window_conn'' (setIntQuery ''recv_window'' m ''recv_window'' q3)
      in setListQuery e ''mport'' (map_get m ''server_ports'') (setBoolQuery ''disable_mtu_discovery'' m ''disable_mtu_discovery'' q4))"

definition addHysteria2ShareQuery :: "import_env \<Rightarrow> gomap \<Rightarrow> url_values \<Rightarrow> url_values" where
  "addHysteria2ShareQuery e m q =
     (let obfs = nestedMap m ''obfs'';
          q1 = setStringQuery e ''hop_interval_max'' m ''hop_interval_max'' (setStringQuery e ''hop_interval'' m ''hop_interval''
                 (setListQuery e ''mport'' (map_get m ''server_ports'') q));
          q2 = setIntQuery ''down'' m ''down_mbps'' (setIntQuery ''up'' m ''up_mbps'' (setStringQuery e ''bbr_profile'' m ''bbr_profile'' q1));
          q3 = setBoolQuery ''brutal_debug'' m ''brutal_debug'' q2;
          q4 = (if obfs = [] then q3
                else setIntQuery ''max_packet_size'' obfs ''max_packet_size'' (setIntQuery ''min_packet_size'' obfs ''min_packet_size''
                       (setStringQuery e ''obfs-password'' obfs ''password'' (setStringQuery e ''obfs'' obfs ''type'' q3))))
      in set_nonempty ''pinSHA256'' (firstString (map_get (nestedMap m ''tls'') ''certificate_sha256'')) q4)"

section \<open>Addresses\<close>

definition shareServerAddress :: "import_env \<Rightarrow> share_node \<Rightarrow> gomap \<Rightarrow> share_error + (string \<times> int)" where
  "shareServerAddress e node m =
     (let server = firstNonEmpty [get_str e m ''server'', sn_Server node];
          port = (if getInt m ''server_port'' \<le> 0 then sn_ServerPort node else getInt m ''server_port'')
      in if server = [] \<or> port \<le> 0 \<or> port > 65535 then Inl (NoAddress (sn_Type node)) else Inr (server, port))"

definition shareServerCredentials :: "import_env \<Rightarrow> share_node \<Rightarrow> gomap \<Rightarrow> share_error + (string \<times> int \<times> string)" where
  "shareServerCredentials e node m =
     res_bind (shareServerAddress e node m) (\<lambda>(server, port).
       if get_str e m ''uuid'' = [] then Inl (NoCredential (sn_Type node)) else Inr (server, port, get_str e m ''uuid''))"

definition buildUserShareURI :: "string \<Rightarrow> string \<Rightarrow> string \<Rightarrow> string \<Rightarrow> int \<Rightarrow> url_values \<Rightarrow> string \<Rightarrow> string" where
  "buildUserShareURI scheme username password server port q name =
     url_string \<lparr>u_scheme = scheme,
       u_user = (if password \<noteq> [] then Some (username, Some password) else if username \<noteq> [] then Some (username, None) else None),
       u_host = JoinHostPort server (show_int port), u_query = values_encode q, u_fragment = name\<rparr>"

definition buildOpaqueShareURI :: "string \<Rightarrow> string \<Rightarrow> url_values \<Rightarrow> string \<Rightarrow> string" where
  "buildOpaqueShareURI scheme authority q name =
     scheme @ ''://'' @ authority @ (if values_encode q = [] then [] else ''?'' @ values_encode q) @
     (if name = [] then [] else ''#'' @ url_escape encodePathSegment name)"

section \<open>One writer per protocol\<close>

definition encodeVMessURI :: "import_env \<Rightarrow> (goval \<Rightarrow> string) \<Rightarrow> share_node \<Rightarrow> gomap \<Rightarrow> share_error + string" where
  "encodeVMessURI e jt node m =
     res_bind (shareServerCredentials e node m) (\<lambda>(server, port, uuid).
       case shareTransport e m of
         (network, path, host, service) \<Rightarrow>
           (let tls = nestedMap m ''tls'';
                c = [(''v'', VStr ''2''), (''ps'', VStr (sn_Name node)), (''add'', VStr server), (''port'', VStr (show_int port)), (''id'', VStr uuid),
                     (''aid'', VInt (getInt m ''alter_id'')), (''scy'', VStr (firstNonEmpty [get_str e m ''security'', ''auto''])),
                     (''net'', VStr network), (''type'', VStr ''none''), (''host'', VStr host),
                     (''path'', VStr (if network = ''grpc'' then service else path))]
            in Inr (''vmess://'' @ withPadding (b64_raw False
                 (jt (VMap (copyTLSShareFields e tls (put_when (boolOrString (map_get tls ''enabled'')) ''tls'' (VStr ''tls'') c))))))))"

definition vless_security :: "import_env \<Rightarrow> gomap \<Rightarrow> url_values \<Rightarrow> url_values" where
  "vless_security e tls q =
     (let reality = nestedMap tls ''reality'' in
      if \<not> boolOrString (map_get tls ''enabled'') then q
      else addTLSShareQuery e tls
        (if boolOrString (map_get reality ''enabled'')
         then query_set ''security'' ''reality'' (setStringQuery e ''sid'' reality ''short_id'' (setStringQuery e ''pbk'' reality ''public_key'' q))
         else query_set ''security'' ''tls'' q))"

definition encodeVLESSURI :: "import_env \<Rightarrow> share_node \<Rightarrow> gomap \<Rightarrow> share_error + string" where
  "encodeVLESSURI e node m =
     res_bind (shareServerCredentials e node m) (\<lambda>(server, port, uuid).
       let q1 = setStringQuery e ''flow'' m ''flow'' (query_set ''encryption'' (firstNonEmpty [get_str e m ''encryption'', ''none'']) []);
           q2 = vless_security e (nestedMap m ''tls'') (addTransportShareQuery e m q1)
       in Inr (url_string \<lparr>u_scheme = ''vless'', u_user = Some (uuid, None), u_host = JoinHostPort server (show_int port),
                 u_query = values_encode q2, u_fragment = sn_Name node\<rparr>))"

definition encodeShadowsocksURI :: "import_env \<Rightarrow> share_node \<Rightarrow> gomap \<Rightarrow> share_error + string" where
  "encodeShadowsocksURI e node m =
     res_bind (shareServerAddress e node m) (\<lambda>(server, port).
       let method = get_str e m ''method''; plugin = get_str e m ''plugin''; opts = sharePluginOptions e (map_get m ''plugin_opts'');
           auth = b64_raw True (method @ '':'' @ get_str e m ''password'');
           q = (if plugin = [] then [] else query_set ''plugin'' (if opts = [] then plugin else plugin @ '';'' @ opts) [])
       in if method = [] then Inl (NoCredential ''Shadowsocks'')
          else Inr (buildOpaqueShareURI ''ss'' (auth @ ''@'' @ JoinHostPort server (show_int port))
                 (addOptionalTLSAndTransportQuery e m q) (sn_Name node)))"

definition encodeShadowsocksRURI :: "import_env \<Rightarrow> share_node \<Rightarrow> gomap \<Rightarrow> share_error + string" where
  "encodeShadowsocksRURI e node m =
     res_bind (shareServerAddress e node m) (\<lambda>(server, port).
       let protocol = get_str e m ''protocol''; method = get_str e m ''method''; obfs = get_str e m ''obfs''; password = get_str e m ''password'';
           base = join_with '':'' [server, show_int port, protocol, method, obfs, b64_raw True password];
           q = values_encode (setBase64Query ''protoparam'' (get_str e m ''protocol_param'') (setBase64Query ''obfsparam'' (get_str e m ''obfs_param'')
                 (setBase64Query ''remarks'' (sn_Name node) [])))
       in if protocol = [] \<or> method = [] \<or> obfs = [] \<or> password = [] then Inl (NoCredential ''SSR'')
          else Inr (''ssr://'' @ b64_raw True (if q = [] then base else base @ ''/?'' @ q)))"

definition encodeTrojanURI :: "import_env \<Rightarrow> share_node \<Rightarrow> gomap \<Rightarrow> share_error + string" where
  "encodeTrojanURI e node m =
     res_bind (shareServerAddress e node m) (\<lambda>(server, port).
       if get_str e m ''password'' = [] then Inl (NoCredential ''Trojan'')
       else Inr (buildUserShareURI ''trojan'' (get_str e m ''password'') [] server port
              (addTransportShareQuery e m (addTLSShareQuery e (nestedMap m ''tls'') [])) (sn_Name node)))"

definition encodeSocksURI :: "import_env \<Rightarrow> share_node \<Rightarrow> gomap \<Rightarrow> share_error + string" where
  "encodeSocksURI e node m =
     res_bind (shareServerAddress e node m) (\<lambda>(server, port).
       let v = get_str e m ''version''; scheme = (if v = ''4'' then ''socks4'' else if v = ''4a'' then ''socks4a'' else ''socks5'');
           flag = (\<lambda>key k q. if has_key m key then query_set k (if boolOrString (map_get m key) then ''true'' else ''false'') q else q)
       in Inr (buildUserShareURI scheme (get_str e m ''username'') (get_str e m ''password'') server port
            (flag ''udp_over_tcp'' ''uot'' (flag ''udp'' ''udp'' [])) (sn_Name node)))"

definition encodeHTTPURI :: "import_env \<Rightarrow> share_node \<Rightarrow> gomap \<Rightarrow> share_error + string" where
  "encodeHTTPURI e node m =
     res_bind (shareServerAddress e node m) (\<lambda>(server, port).
       let tls = nestedMap m ''tls''; https = boolOrString (map_get tls ''enabled'') \<or> EqualFold (sn_Type node) ''https''
       in Inr (buildUserShareURI (if https then ''https'' else ''http'') (get_str e m ''username'') (get_str e m ''password'') server port
            (if https then addTLSShareQuery e tls [] else []) (sn_Name node)))"

definition encodeHysteriaURI :: "import_env \<Rightarrow> share_node \<Rightarrow> gomap \<Rightarrow> share_error + string" where
  "encodeHysteriaURI e node m =
     res_bind (shareServerAddress e node m) (\<lambda>(server, port).
       let two = ToLower (sn_Type node) = ''hysteria2'';
           auth = (if two then get_str e m ''password'' else firstNonEmpty [get_str e m ''auth_str'', get_str e m ''auth'']);
           q = addTLSShareQuery e (nestedMap m ''tls'') []
       in Inr (buildUserShareURI (if two then ''hysteria2'' else ''hysteria'') auth [] server port
            (if two then addHysteria2ShareQuery e m q else addHysteria1ShareQuery e m q) (sn_Name node)))"

definition encodeTUICURI :: "import_env \<Rightarrow> share_node \<Rightarrow> gomap \<Rightarrow> share_error + string" where
  "encodeTUICURI e node m =
     res_bind (shareServerAddress e node m) (\<lambda>(server, port).
       let uuid = get_str e m ''uuid''; password = get_str e m ''password'';
           q1 = setStringQuery e ''congestion_control'' m ''congestion_control'' (addTLSShareQuery e (nestedMap m ''tls'') []);
           q2 = setBoolQuery ''reduce_rtt'' m ''zero_rtt_handshake'' (setStringQuery e ''udp_relay_mode'' m ''udp_relay_mode'' q1)
       in if uuid = [] \<or> password = [] then Inl (NoCredential ''TUIC'')
          else Inr (buildUserShareURI ''tuic'' uuid password server port (setStringQuery e ''heartbeat'' m ''heartbeat'' q2) (sn_Name node)))"

definition encodeAnyTLSURI :: "import_env \<Rightarrow> share_node \<Rightarrow> gomap \<Rightarrow> share_error + string" where
  "encodeAnyTLSURI e node m =
     res_bind (shareServerAddress e node m) (\<lambda>(server, port).
       if get_str e m ''password'' = [] then Inl (NoCredential ''AnyTLS'')
       else Inr (buildUserShareURI ''anytls'' (get_str e m ''password'') [] server port
              (setIntQuery ''min_idle_session'' m ''min_idle_session'' (setStringQuery e ''idle_session_timeout'' m ''idle_session_timeout''
                (setStringQuery e ''idle_session_check_interval'' m ''idle_session_check_interval'' (addTLSShareQuery e (nestedMap m ''tls'') [])))) (sn_Name node)))"

definition encodeWireGuardURI :: "import_env \<Rightarrow> (goval \<Rightarrow> string) \<Rightarrow> share_node \<Rightarrow> gomap \<Rightarrow> share_error + string" where
  "encodeWireGuardURI e jt node m =
     res_bind (shareServerAddress e node m) (\<lambda>(server, port).
       let q1 = setStringQuery e ''preshared-key'' m ''pre_shared_key'' (setStringQuery e ''public-key'' m ''public_key''
                  (setStringQuery e ''private-key'' m ''private_key'' []));
           q2 = setListQuery e ''reserved'' (map_get m ''reserved'') (setListQuery e ''address'' (map_get m ''address'') q1)
       in Inr (buildUserShareURI ''wireguard'' [] [] server port
            (setJSONQuery e jt ''peers'' (map_get m ''peers'') (setIntQuery ''mtu'' m ''mtu'' q2)) (sn_Name node)))"

definition encodeNaiveURI :: "import_env \<Rightarrow> share_node \<Rightarrow> gomap \<Rightarrow> share_error + string" where
  "encodeNaiveURI e node m =
     res_bind (shareServerAddress e node m) (\<lambda>(server, port).
       let tls = nestedMap m ''tls''; on = boolOrString (map_get tls ''enabled'')
       in Inr (buildUserShareURI (if on then ''naive+https'' else ''naive+http'') (get_str e m ''username'') (get_str e m ''password'') server port
            (if on then addTLSShareQuery e tls [] else []) (sn_Name node)))"

definition encodeMieruURI :: "import_env \<Rightarrow> share_node \<Rightarrow> gomap \<Rightarrow> share_error + string" where
  "encodeMieruURI e node m =
     res_bind (shareServerAddress e node m) (\<lambda>(server, port).
       let tls = nestedMap m ''tls'';
           q = setStringQuery e ''multiplexing'' m ''multiplexing'' (setStringQuery e ''transport'' m ''transport'' (setStringQuery e ''protocol'' m ''protocol'' []))
       in Inr (buildUserShareURI ''mieru'' (get_str e m ''username'') (get_str e m ''password'') server port
            (if boolOrString (map_get tls ''enabled'') then addTLSShareQuery e tls (query_set ''tls'' ''1'' q) else q) (sn_Name node)))"

definition encodeSnellURI :: "import_env \<Rightarrow> share_node \<Rightarrow> gomap \<Rightarrow> share_error + string" where
  "encodeSnellURI e node m =
     res_bind (shareServerAddress e node m) (\<lambda>(server, port).
       let q1 = setBoolQuery ''reuse'' m ''reuse'' (setStringQuery e ''userkey'' m ''userkey'' (setIntQuery ''version'' m ''version'' []));
           q2 = setStringQuery e ''obfs_host'' m ''obfs_host'' (setStringQuery e ''obfs_mode'' m ''obfs_mode'' (setStringQuery e ''network'' m ''network'' q1))
       in if get_str e m ''psk'' = [] then Inl (NoCredential ''Snell'')
          else Inr (buildUserShareURI ''snell'' (get_str e m ''psk'') [] server port (setStringQuery e ''mode'' m ''mode'' q2) (sn_Name node)))"

definition encodeSSHURI :: "import_env \<Rightarrow> share_node \<Rightarrow> gomap \<Rightarrow> share_error + string" where
  "encodeSSHURI e node m =
     res_bind (shareServerAddress e node m) (\<lambda>(server, port).
       let q1 = fold (\<lambda>k. setStringQuery e k m k) [''private_key_path'', ''private_key_passphrase'', ''client_version''] [];
           q2 = fold (\<lambda>k. addRepeatedQueryValues e k (map_get m k))
                  [''private_key'', ''host_key'', ''host_key_algorithms'', ''cipher'', ''mac'', ''kex_algorithm''] q1
       in Inr (buildUserShareURI ''ssh'' (firstNonEmpty [get_str e m ''user'', get_str e m ''username'']) (get_str e m ''password'') server port q2 (sn_Name node)))"

section \<open>The link of a node\<close>

definition shareableProxySchemes :: "string list" where
  "shareableProxySchemes =
     [''anytls'', ''http'', ''https'', ''hy2'', ''hysteria'', ''hysteria2'', ''mieru'', ''naive'', ''naive+http'', ''naive+https'', ''snell'',
      ''socks'', ''socks4'', ''socks4a'', ''socks5'', ''ss'', ''ssr'', ''trojan'', ''tuic'', ''vless'', ''vmess'', ''wg'', ''wireguard'', ''ssh'']"

definition reusableProxyURI :: "import_env \<Rightarrow> (string \<Rightarrow> goval option) \<Rightarrow> (string \<Rightarrow> bool) \<Rightarrow> string \<Rightarrow> string" where
  "reusableProxyURI e js ip6 raw0 =
     (let raw = TrimSpace raw0 in
      if raw = [] \<or> CHR 0x0D \<in> set raw \<or> CHR 0x0A \<in> set raw then []
      else case go_url_parse ip6 raw of
        None \<Rightarrow> []
      | Some u \<Rightarrow>
          if ToLower (u_scheme u) \<notin> set shareableProxySchemes then []
          else case ParseProxyURI e js ip6 raw of Inl _ \<Rightarrow> [] | Inr _ \<Rightarrow> raw)"

definition encode_protocol :: "import_env \<Rightarrow> (goval \<Rightarrow> string) \<Rightarrow> share_node \<Rightarrow> gomap \<Rightarrow> share_error + string" where
  "encode_protocol e jt node m =
     (let t = ToLower (TrimSpace (sn_Type node)) in
      if t = ''vmess'' then encodeVMessURI e jt node m
      else if t = ''vless'' then encodeVLESSURI e node m
      else if t = ''shadowsocks'' \<or> t = ''ss'' then encodeShadowsocksURI e node m
      else if t = ''ssr'' then encodeShadowsocksRURI e node m
      else if t = ''trojan'' then encodeTrojanURI e node m
      else if t \<in> set [''socks'', ''socks4'', ''socks4a'', ''socks5''] then encodeSocksURI e node m
      else if t = ''http'' \<or> t = ''https'' then encodeHTTPURI e node m
      else if t = ''hysteria'' \<or> t = ''hysteria2'' then encodeHysteriaURI e node m
      else if t = ''tuic'' then encodeTUICURI e node m
      else if t = ''anytls'' then encodeAnyTLSURI e node m
      else if t = ''wireguard'' \<or> t = ''wg'' then encodeWireGuardURI e jt node m
      else if t = ''naive'' then encodeNaiveURI e node m
      else if t = ''mieru'' then encodeMieruURI e node m
      else if t = ''snell'' then encodeSnellURI e node m
      else if t = ''ssh'' then encodeSSHURI e node m
      else Inl (NoShareLink (sn_Type node)))"

definition EncodeProxyURI ::
  "import_env \<Rightarrow> (string \<Rightarrow> goval option) \<Rightarrow> (goval \<Rightarrow> string) \<Rightarrow> (string \<Rightarrow> bool) \<Rightarrow> share_node \<Rightarrow> share_error + string" where
  "EncodeProxyURI e js jt ip6 node =
     (let m = (case sn_config node of Object c \<Rightarrow> c | _ \<Rightarrow> []); raw = reusableProxyURI e js ip6 (sn_Raw node) in
      if has_key m NodeChainMetadataKey then Inl ChainedNode
      else if raw \<noteq> [] then Inr raw
      else if sn_config node = NotAnObject then Inl OptionsNotJSON
      else encode_protocol e jt node m)"

end
