(* ===== verification/Share_Facts.thy ===== *)
theory Share_Facts
  imports Share_Encode
begin

text \<open>
  What share links keep: TLS where the protocol requires it, no chain metadata from outside, and the
  credentials of a node that is exported and imported again.
\<close>

section \<open>Fields that normalising keeps\<close>

definition meta_free :: "gomap \<Rightarrow> bool" where
  "meta_free m \<longleftrightarrow> \<not> has_key m NodeChainMetadataKey"

definition link_tls_on :: "gomap \<Rightarrow> bool" where
  "link_tls_on m \<longleftrightarrow> (\<exists>t. map_of m ''tls'' = Some (VMap t) \<and> map_of t ''enabled'' = Some (VBool True))"

named_theorems link_field_rules

lemma meta_key: "NodeChainMetadataKey = ''_ackwrap_chain''"
  by (rule NodeChainMetadataKey_def)

lemma meta_put [link_field_rules]: "k \<noteq> ''_ackwrap_chain'' \<Longrightarrow> meta_free m \<Longrightarrow> meta_free (map_put k v m)"
  by (simp add: meta_free_def meta_key)

lemma meta_del [link_field_rules]: "meta_free m \<Longrightarrow> meta_free (map_del k m)"
  by (simp add: meta_free_def)

lemma meta_delete [link_field_rules]: "meta_free m \<Longrightarrow> meta_free (delete_keys ks m)"
  unfolding delete_keys_def by (induction ks arbitrary: m) (simp_all add: meta_del)

lemma meta_put_when [link_field_rules]: "k \<noteq> ''_ackwrap_chain'' \<Longrightarrow> meta_free m \<Longrightarrow> meta_free (put_when b k v m)"
  by (simp add: put_when_def meta_put)

lemma meta_put_text [link_field_rules]: "k \<noteq> ''_ackwrap_chain'' \<Longrightarrow> meta_free m \<Longrightarrow> meta_free (put_text k v m)"
  by (simp add: put_text_def meta_put_when)

lemma meta_move [link_field_rules]: "k \<noteq> ''_ackwrap_chain'' \<Longrightarrow> meta_free m \<Longrightarrow> meta_free (moveKey frm k m)"
  by (simp add: moveKey_def meta_put meta_del)

lemma meta_if [link_field_rules]: "(b \<Longrightarrow> meta_free x) \<Longrightarrow> (\<not> b \<Longrightarrow> meta_free y) \<Longrightarrow> meta_free (if b then x else y)"
  by simp

lemma meta_on_tls [link_field_rules]: "meta_free m \<Longrightarrow> meta_free (on_tls f m)"
  by (simp add: on_tls_def meta_put)

lemma tls_put [link_field_rules]: "k \<noteq> ''tls'' \<Longrightarrow> link_tls_on m \<Longrightarrow> link_tls_on (map_put k v m)"
  by (simp add: link_tls_on_def)

lemma tls_del [link_field_rules]: "k \<noteq> ''tls'' \<Longrightarrow> link_tls_on m \<Longrightarrow> link_tls_on (map_del k m)"
  by (simp add: link_tls_on_def)

lemma tls_delete [link_field_rules]: "''tls'' \<notin> set ks \<Longrightarrow> link_tls_on m \<Longrightarrow> link_tls_on (delete_keys ks m)"
  unfolding delete_keys_def by (induction ks arbitrary: m) (auto simp: tls_del)

lemma tls_on_tls [link_field_rules]:
  "link_tls_on m \<Longrightarrow> (\<And>t. map_of t ''enabled'' = Some (VBool True) \<Longrightarrow> map_of (f t) ''enabled'' = Some (VBool True)) \<Longrightarrow> link_tls_on (on_tls f m)"
  by (auto simp: link_tls_on_def on_tls_def map_get_def)

lemma tls_if [link_field_rules]: "(b \<Longrightarrow> link_tls_on x) \<Longrightarrow> (\<not> b \<Longrightarrow> link_tls_on y) \<Longrightarrow> link_tls_on (if b then x else y)"
  by simp


lemma normal_tls_on: "map_get m ''tls'' = VBool True \<Longrightarrow> link_tls_on (normal_tls e typ m)"
proof -
  have flag: "map_get m ''tls'' = VBool True \<Longrightarrow> link_tls_on (tls_flag m)" for m
    by (simp add: tls_flag_def link_tls_on_def)
  have name: "k \<noteq> ''tls'' \<Longrightarrow> link_tls_on m \<Longrightarrow> link_tls_on (tls_server_name k m)" for k m
    unfolding tls_server_name_def by (intro link_field_rules) simp_all
  have alpn: "link_tls_on m \<Longrightarrow> link_tls_on (tls_alpn m)" for m unfolding tls_alpn_def by (intro link_field_rules) simp_all
  have insecure: "k \<noteq> ''tls'' \<Longrightarrow> link_tls_on m \<Longrightarrow> link_tls_on (tls_insecure k m)" for k m
    unfolding tls_insecure_def by (intro link_field_rules) simp_all
  have pin: "map_of t ''enabled'' = Some (VBool True) \<Longrightarrow>
      map_of (case p of None \<Rightarrow> put_when b ''utls'' v t | Some x \<Rightarrow> map_put ''certificate_sha256'' (w x) (put_when b ''utls'' v t)) ''enabled'' = Some (VBool True)"
    for t p b v w by (cases p) (simp_all add: put_when_def)
  have same: "map_of t ''enabled'' = Some (VBool True) \<Longrightarrow> map_of (id t) ''enabled'' = Some (VBool True)" for t :: gomap by simp
  have free: "''tls'' \<notin> set [''client-fingerprint'', ''client_fingerprint'', ''fingerprint'', ''certificate-sha256'', ''certificate_sha256'']" by simp
  have pins: "link_tls_on m \<Longrightarrow> link_tls_on (tls_pins e typ m)" for m
    unfolding tls_pins_def Let_def by (intro tls_delete tls_if tls_on_tls free pin same)
  have reality: "link_tls_on m \<Longrightarrow> link_tls_on (normalizeRealityOptions e m)" for m
  proof (cases "\<exists>opts. map_get m ''reality-opts'' = VMap opts")
    case True
    then show ?thesis by (auto simp: normalizeRealityOptions_def Let_def link_tls_on_def)
  next
    case False
    assume "link_tls_on m"
    then have "link_tls_on (map_del ''reality-opts'' m)" by (simp add: link_tls_on_def)
    with False show ?thesis unfolding normalizeRealityOptions_def by (cases "map_get m ''reality-opts''") simp_all
  qed
  assume "map_get m ''tls'' = VBool True"
  then show ?thesis unfolding normal_tls_def by (intro reality pins insecure alpn name flag) simp_all
qed

lemma checks_keep:
  assumes "normal_checks e typ m = Inr m'"
  shows "meta_free m \<Longrightarrow> meta_free m'" "typ \<noteq> ''shadowsocks'' \<Longrightarrow> map_of m' ''tls'' = map_of m ''tls''"
proof -
  obtain m1 where 1: "(if typ = ''shadowsocks'' then (case normalizeShadowsocksPlugin e m of (c, None) \<Rightarrow> Inr c | (c, Some err) \<Rightarrow> Inl (LinkPlugin err)) else Inr m) = Inr m1"
    and 2: "m' = fst (normalizeV2RayTransport e m1 typ (m1, []))"
    using assms unfolding normal_checks_def by (auto simp: res_bind_def split: sum.splits prod.splits if_splits)
  have k: "keeps_reserved m1 m'" unfolding 2 by (intro keeps_reserved_rules) (simp add: reserved_refl)
  then have r: "map_of m' NodeChainMetadataKey = map_of m1 NodeChainMetadataKey" "map_of m' ''tls'' = map_of m1 ''tls''"
    by (simp_all add: keeps_reserved_def reserved_keys_def)
  show "map_of m' ''tls'' = map_of m ''tls''" if "typ \<noteq> ''shadowsocks''" using 1 r(2) that by simp
  have "meta_free m1" if "meta_free m"
  proof (cases "typ = ''shadowsocks''")
    case True
    then obtain c where "normalizeShadowsocksPlugin e m = (c, None)" "m1 = c" using 1 by (auto split: prod.splits option.splits)
    then show ?thesis using ss_plugin_keys [of e m c None NodeChainMetadataKey] that by (auto simp: meta_free_def meta_key)
  next
    case False
    then show ?thesis using 1 that by simp
  qed
  then show "meta_free m'" if "meta_free m" using that r(1) by (simp add: meta_free_def has_key_def)
qed






section \<open>Links bring no chain metadata\<close>

lemma meta_Cons [link_field_rules]: "k \<noteq> ''_ackwrap_chain'' \<Longrightarrow> meta_free m \<Longrightarrow> meta_free ((k, v) # m)"
  by (simp add: meta_free_def meta_key has_key_def)

lemma meta_Nil [link_field_rules]: "meta_free []"
  by (simp add: meta_free_def has_key_def)


lemma parsed_node:
  assumes "parsedNodeFromMap e raw cfg = Inr n"
  obtains m where "normalizeToSingbox e cfg (ToLower (get_str e cfg ''type'')) = Inr m" "p_config n = Object (json_map m)"
    "p_Type n = ToLower (get_str e cfg ''type'')"
  using assms unfolding parsedNodeFromMap_def Let_def res_bind_def by (auto split: if_splits sum.splits)


lemma meta_case_option [link_field_rules]: "(x = None \<Longrightarrow> meta_free a) \<Longrightarrow> (\<And>y. x = Some y \<Longrightarrow> meta_free (f y)) \<Longrightarrow> meta_free (case x of None \<Rightarrow> a | Some y \<Rightarrow> f y)"
  by (cases x) simp_all

lemma meta_case_prod [link_field_rules]: "(\<And>a b. x = (a, b) \<Longrightarrow> meta_free (f a b)) \<Longrightarrow> meta_free (case x of (a, b) \<Rightarrow> f a b)"
  by (cases x) simp

lemma meta_TLSOptions [link_field_rules]: "k \<noteq> ''_ackwrap_chain'' \<Longrightarrow> meta_free m \<Longrightarrow> meta_free (applyTLSOptions q k m)"
  unfolding applyTLSOptions_def Let_def by (intro link_field_rules) simp_all

lemma meta_TransportOptions [link_field_rules]: "meta_free m \<Longrightarrow> meta_free (applyTransportOptions q m)"
  unfolding applyTransportOptions_def Let_def by (intro link_field_rules) simp_all

lemma meta_RealityOptions [link_field_rules]: "meta_free m \<Longrightarrow> meta_free (applyRealityOptions q m)"
  unfolding applyRealityOptions_def Let_def by (intro link_field_rules) simp_all

lemma meta_ss_plugin [link_field_rules]: "meta_free m \<Longrightarrow> meta_free (ss_plugin_fields q m)"
  unfolding ss_plugin_fields_def Let_def by (intro link_field_rules) simp_all

lemma meta_ssr_param [link_field_rules]: "k \<noteq> ''_ackwrap_chain'' \<Longrightarrow> meta_free m \<Longrightarrow> meta_free (ssr_param q key k m)"
  unfolding ssr_param_def by (intro link_field_rules) simp_all

lemma meta_user [link_field_rules]: "k \<noteq> ''_ackwrap_chain'' \<Longrightarrow> meta_free m \<Longrightarrow> meta_free (put_user u k m)"
  unfolding put_user_def by (intro link_field_rules) simp_all

lemma meta_url_fields [link_field_rules]: "meta_free (url_fields u typ port)"
  unfolding url_fields_def Let_def by (intro link_field_rules) simp_all

lemma meta_number [link_field_rules]: "k \<noteq> ''_ackwrap_chain'' \<Longrightarrow> meta_free m \<Longrightarrow> meta_free (put_number k t m)"
  unfolding put_number_def by (intro link_field_rules) simp_all

lemma meta_positive [link_field_rules]: "k \<noteq> ''_ackwrap_chain'' \<Longrightarrow> meta_free m \<Longrightarrow> meta_free (put_positive k t m)"
  unfolding put_positive_def by (intro link_field_rules) simp_all

lemma meta_hysteria1 [link_field_rules]: "meta_free m \<Longrightarrow> meta_free (hysteria1_fields q m)"
  unfolding hysteria1_fields_def Let_def by (intro link_field_rules) simp_all


lemma with_urlE: "with_url ip6 raw f = Inr n \<Longrightarrow> (\<And>u. go_url_parse ip6 raw = Some u \<Longrightarrow> f u = Inr n \<Longrightarrow> P) \<Longrightarrow> P"
  by (auto simp: with_url_def split: option.splits)

lemma res_bindE: "res_bind r f = Inr n \<Longrightarrow> (\<And>x. r = Inr x \<Longrightarrow> f x = Inr n \<Longrightarrow> P) \<Longrightarrow> P"
  by (auto simp: res_bind_def split: sum.splits)



lemma meta_wireguard_key [link_field_rules]: "k \<noteq> ''_ackwrap_chain'' \<Longrightarrow> meta_free m \<Longrightarrow> meta_free (wireguard_key q k m)"
  unfolding wireguard_key_def by (intro link_field_rules) simp_all

lemma meta_ssh_value [link_field_rules]: "t \<noteq> ''_ackwrap_chain'' \<Longrightarrow> meta_free m \<Longrightarrow> meta_free (copySSHQueryValue q t ks m)"
  by (induction ks) (simp_all add: meta_put)

lemma meta_ssh_list [link_field_rules]: "t \<noteq> ''_ackwrap_chain'' \<Longrightarrow> meta_free m \<Longrightarrow> meta_free (copySSHQueryList q t ks m)"
  by (induction ks) (simp_all add: meta_put Let_def)

lemma meta_ssh_user [link_field_rules]: "meta_free m \<Longrightarrow> meta_free (ssh_user u m)"
  unfolding ssh_user_def by (intro link_field_rules) simp_all

lemma meta_ssh_query [link_field_rules]: "meta_free m \<Longrightarrow> meta_free (ssh_query q m)"
  unfolding ssh_query_def Let_def by (intro link_field_rules) simp_all
























section \<open>Links of protocols that require TLS\<close>

definition wants_tls :: "string \<Rightarrow> gomap \<Rightarrow> bool" where
  "wants_tls t m \<longleftrightarrow> map_of m ''tls'' = Some (VBool True) \<and> map_of m ''type'' = Some (VStr t)"

named_theorems wants_tls_rules

lemma wants_put [wants_tls_rules]: "k \<noteq> ''tls'' \<Longrightarrow> k \<noteq> ''type'' \<Longrightarrow> wants_tls t m \<Longrightarrow> wants_tls t (map_put k v m)"
  by (simp add: wants_tls_def)

lemma wants_put_when [wants_tls_rules]: "k \<noteq> ''tls'' \<Longrightarrow> k \<noteq> ''type'' \<Longrightarrow> wants_tls t m \<Longrightarrow> wants_tls t (put_when b k v m)"
  by (simp add: put_when_def wants_put)

lemma wants_put_text [wants_tls_rules]: "k \<noteq> ''tls'' \<Longrightarrow> k \<noteq> ''type'' \<Longrightarrow> wants_tls t m \<Longrightarrow> wants_tls t (put_text k v m)"
  by (simp add: put_text_def wants_put_when)

lemma wants_if [wants_tls_rules]: "(b \<Longrightarrow> wants_tls t x) \<Longrightarrow> (\<not> b \<Longrightarrow> wants_tls t y) \<Longrightarrow> wants_tls t (if b then x else y)"
  by simp

lemma wants_TLSOptions [wants_tls_rules]: "k \<noteq> ''tls'' \<Longrightarrow> k \<noteq> ''type'' \<Longrightarrow> wants_tls t m \<Longrightarrow> wants_tls t (applyTLSOptions q k m)"
  unfolding applyTLSOptions_def Let_def by (intro wants_tls_rules) simp_all

lemma wants_TransportOptions [wants_tls_rules]: "wants_tls t m \<Longrightarrow> wants_tls t (applyTransportOptions q m)"
  unfolding applyTransportOptions_def Let_def by (intro wants_tls_rules) simp_all

lemma wants_number [wants_tls_rules]: "k \<noteq> ''tls'' \<Longrightarrow> k \<noteq> ''type'' \<Longrightarrow> wants_tls t m \<Longrightarrow> wants_tls t (put_number k x m)"
  unfolding put_number_def by (cases "Atoi x") (simp add: wants_put)

lemma wants_positive [wants_tls_rules]: "k \<noteq> ''tls'' \<Longrightarrow> k \<noteq> ''type'' \<Longrightarrow> wants_tls t m \<Longrightarrow> wants_tls t (put_positive k x m)"
  unfolding put_positive_def by (cases "Atoi x") (simp add: wants_put_when)

lemma wants_hysteria1 [wants_tls_rules]: "wants_tls t m \<Longrightarrow> wants_tls t (hysteria1_fields q m)"
  unfolding hysteria1_fields_def Let_def by (intro wants_tls_rules) simp_all

lemma wants_hysteria2_obfs [wants_tls_rules]: "wants_tls t m \<Longrightarrow> wants_tls t (hysteria2_link_obfs q m)"
  unfolding hysteria2_link_obfs_def Let_def by (intro wants_tls_rules) simp_all

lemma wants_hysteria2: "hysteria2_fields e q m = Inr m' \<Longrightarrow> wants_tls t m \<Longrightarrow> wants_tls t m'"
  unfolding hysteria2_fields_def Let_def
proof (erule res_bindE, goal_cases)
  case (1 m2)
  have "wants_tls t m2" using 1(1,2) by (auto split: if_splits sum.splits intro!: wants_put wants_hysteria2_obfs)
  then show ?case using 1(3) by (simp only: sum.inject(2)) (erule subst, intro wants_tls_rules, simp_all)
qed

lemma wants_pin: "hysteria2_pin q m = Inr m' \<Longrightarrow> wants_tls t m \<Longrightarrow> wants_tls t m'"
  unfolding hysteria2_pin_def Let_def by (auto split: if_splits option.splits intro!: wants_put)

text \<open>A request for TLS in the fields is an enabled section in the configuration.\<close>

lemma reserved_move [keeps_reserved_rules]:
  "free_key frm \<Longrightarrow> free_key to \<Longrightarrow> keeps_reserved m m' \<Longrightarrow> keeps_reserved m (moveKey frm to m')"
  by (simp add: moveKey_def reserved_put reserved_del)

lemma steps_keep_reserved:
  "keeps_reserved m (normal_common typ m)" "keeps_reserved m (normal_hysteria m)" "keeps_reserved m (normal_wireguard m)"
  "normal_tuic e m = Inr m' \<Longrightarrow> keeps_reserved m m'"
  unfolding normal_common_def normal_hysteria_def normal_wireguard_def normal_tuic_def put_positive_int_def Let_def
  subgoal by (intro keeps_reserved_rules reserved_refl) (simp_all add: free_key_def)
  subgoal by (intro keeps_reserved_rules reserved_refl) (simp_all add: free_key_def)
  subgoal by (intro keeps_reserved_rules reserved_refl) (simp_all add: free_key_def)
  subgoal by (auto split: if_split_asm intro!: keeps_reserved_rules reserved_refl simp: free_key_def)
  done

lemma steps_keep_tls:
  "map_of (normal_common typ m) ''tls'' = map_of m ''tls''"
  "map_of (normal_hysteria m) ''tls'' = map_of m ''tls''"
  "map_of (normal_wireguard m) ''tls'' = map_of m ''tls''"
  "normal_tuic e m = Inr m' \<Longrightarrow> map_of m' ''tls'' = map_of m ''tls''"
  using steps_keep_reserved by (simp_all add: keeps_reserved_def reserved_keys_def)

lemma normalize_tls_on:
  assumes "normalizeToSingbox e cfg typ0 = Inr m" "map_of cfg ''tls'' = Some (VBool True)" "normalizeProtocolType typ0 \<noteq> ''shadowsocks''"
  shows "link_tls_on m"
proof -
  let ?kind = "normalizeProtocolType typ0"
  let ?m2 = "if ?kind = ''hysteria'' then normal_hysteria (normal_common ?kind cfg) else normal_common ?kind cfg"
  obtain m3 where 3: "(if ?kind = ''tuic'' then normal_tuic e ?m2 else Inr ?m2) = Inr m3"
    and c: "normal_checks e ?kind (normal_tls e ?kind (if ?kind = ''wireguard'' then normal_wireguard m3 else m3)) = Inr m"
    using assms(1) unfolding normalizeToSingbox_def Let_def by (elim res_bindE) blast
  have "map_of ?m2 ''tls'' = Some (VBool True)" using assms(2) by (simp add: steps_keep_tls)
  then have "map_of m3 ''tls'' = Some (VBool True)" using 3 steps_keep_tls(4) by (auto split: if_splits)
  then have "map_get (if ?kind = ''wireguard'' then normal_wireguard m3 else m3) ''tls'' = VBool True" by (simp add: steps_keep_tls map_get_def)
  from normal_tls_on [OF this] checks_keep(2) [OF c assms(3)] show ?thesis by (simp add: link_tls_on_def)
qed

lemma json_tls_on: "link_tls_on m \<Longrightarrow> link_tls_on (json_map m)"
proof -
  have "map_of (map (\<lambda>(k, v). (k, json_value v)) m) k = map_option json_value (map_of m k)" for m :: gomap and k by (induction m) auto
  then show "link_tls_on m \<Longrightarrow> link_tls_on (json_map m)" by (auto simp: link_tls_on_def json_map_def)
qed

lemma tls_protocol_types: "list_all (\<lambda>t. normalizeProtocolType (ToLower t) \<noteq> ''shadowsocks'') [''trojan'', ''tuic'', ''anytls'', ''hysteria'', ''hysteria2'']"
  by code_simp

lemma parsed_tls_on:
  assumes "parsedNodeFromMap e raw cfg = Inr n" "wants_tls t cfg" "t \<in> set [''trojan'', ''tuic'', ''anytls'', ''hysteria'', ''hysteria2'']"
  shows "link_tls_on (node_options (p_config n))"
proof -
  have "get_str e cfg ''type'' = t" using assms(2) by (simp add: wants_tls_def get_str_def getString_def map_get_def)
  then obtain m where m: "normalizeToSingbox e cfg (ToLower t) = Inr m" "p_config n = Object (json_map m)"
    using parsed_node [OF assms(1)] by metis
  have "normalizeProtocolType (ToLower t) \<noteq> ''shadowsocks''" using tls_protocol_types assms(3) by (auto simp: list_all_iff)
  with normalize_tls_on [OF m(1)] assms(2) have "link_tls_on m" by (simp add: wants_tls_def)
  then show ?thesis by (simp add: m(2) node_options_def json_tls_on)
qed

lemma wants_start [wants_tls_rules]: "map_of m ''type'' = Some (VStr t) \<Longrightarrow> wants_tls t (map_put ''tls'' (VBool True) m)"
  by (simp add: wants_tls_def)

lemma type_url_fields: "map_of (url_fields u t port) ''type'' = Some (VStr t)"
  by (simp add: url_fields_def Let_def)

lemma type_put_user: "k \<noteq> ''type'' \<Longrightarrow> map_of (put_user u k m) ''type'' = map_of m ''type''"
  by (simp add: put_user_def split: option.splits)

lemma trojan_tls: "parseTrojan e raw = Inr n \<Longrightarrow> link_tls_on (node_options (p_config n))"
  unfolding parseTrojan_def Let_def
  by (auto elim!: res_bindE split: prod.splits intro!: wants_tls_rules elim!: parsed_tls_on [where t = "''trojan''"] simp: wants_tls_def)

lemma tuic_tls: "parseTuic e ip6 raw = Inr n \<Longrightarrow> link_tls_on (node_options (p_config n))"
  unfolding parseTuic_def Let_def
  by (erule with_urlE, erule parsed_tls_on [where t = "''tuic''"]) (intro wants_tls_rules, simp_all add: put_text_def put_when_def type_put_user type_url_fields)

lemma anytls_tls: "parseAnyTLS e ip6 raw = Inr n \<Longrightarrow> link_tls_on (node_options (p_config n))"
  unfolding parseAnyTLS_def Let_def
  by (erule with_urlE, erule parsed_tls_on [where t = "''anytls''"]) (intro wants_tls_rules, simp_all add: type_url_fields)

lemma hysteria_tls: "parseHysteriaGeneric e ip6 raw typ = Inr n \<Longrightarrow> typ \<in> set [''hysteria'', ''hysteria2''] \<Longrightarrow> link_tls_on (node_options (p_config n))"
  unfolding parseHysteriaGeneric_def Let_def
proof (elim with_urlE res_bindE, goal_cases)
  case (1 u m3 m4)
  let ?m = "applyTLSOptions (url_params u) ''sni'' (map_put ''tls'' (VBool True) (put_text (if typ = ''hysteria2'' then ''password'' else ''auth_str'')
    (firstNonEmpty [url_username u, lookup_str (url_params u) ''auth'', lookup_str (url_params u) ''password'']) (map_put ''udp'' (VBool True) (url_fields u typ (url_port u)))))"
  have "wants_tls typ ?m" by (intro wants_tls_rules) (simp_all add: put_text_def put_when_def type_url_fields)
  then have "wants_tls typ m3" using 1(3) wants_pin by (auto split: if_splits)
  then have "wants_tls typ (if typ = ''hysteria'' then hysteria1_fields (url_params u) m3 else m3)" by (intro wants_tls_rules)
  then have "wants_tls typ m4" using 1(4) wants_hysteria2 by (auto split: if_splits)
  from parsed_tls_on [OF 1(5) this] 1(1) show ?case by auto
qed

text \<open>A link of a protocol that requires TLS is read as a node with TLS enabled, whatever its query says: no
  query can switch it off.\<close>

theorem link_tls_enforced:
  assumes "ParseProxyURI e js ip6 link = Inr n"
    and "list_ex (\<lambda>s. prefix s (TrimSpace link)) [''trojan://'', ''hysteria://'', ''hy2://'', ''hysteria2://'', ''tuic://'', ''anytls://'']"
  shows "\<exists>tls. map_of (node_options (p_config n)) ''tls'' = Some (VMap tls) \<and> map_of tls ''enabled'' = Some (VBool True)"
proof -
  let ?l = "TrimSpace link"
  have "parseTrojan e ?l = Inr n \<or> parseHysteriaGeneric e ip6 ?l ''hysteria'' = Inr n \<or> parseHysteriaGeneric e ip6 ?l ''hysteria2'' = Inr n \<or>
      parseTuic e ip6 ?l = Inr n \<or> parseAnyTLS e ip6 ?l = Inr n"
    using assms unfolding ParseProxyURI_def Let_def
    by (auto simp: prefix_def split: if_split_asm)
  then have "link_tls_on (node_options (p_config n))" using trojan_tls tuic_tls anytls_tls hysteria_tls by (metis list.set_intros)
  then show ?thesis by (simp add: link_tls_on_def)
qed

end
