(* ===== verification/Share_Round.thy ===== *)
theory Share_Round
  imports Share_Facts
begin

text \<open>
  Exporting a node as a link and importing the link again.
\<close>

section \<open>The bytes of a link\<close>

definition visible :: "char \<Rightarrow> bool" where
  "visible c \<longleftrightarrow> 33 \<le> (of_char c :: nat) \<and> (of_char c :: nat) < 127"

lemma visible_trim: "list_all visible s \<Longrightarrow> TrimSpace s = s"
proof (intro no_space_TrimSpace no_space_plain)
  assume s: "list_all visible s"
  have "list_all (\<lambda>c. \<not> visible c) (map hd space_encodings)" by code_simp
  with s show "set s \<inter> set (map hd space_encodings) = {}" by (auto simp: list_all_iff)
qed

definition link_parts_bytes :: "url_part list" where
  "link_parts_bytes = [encodePathSegment, encodeUserPassword, encodeFragment]"

definition byte_fits :: "url_part \<Rightarrow> char \<Rightarrow> bool" where
  "byte_fits p c \<longleftrightarrow> visible c \<and> c \<noteq> CHR ''#'' \<and> (p = encodeUserPassword \<longrightarrow> c \<notin> set ''@/?:'')"

definition host_byte :: "char \<Rightarrow> bool" where
  "host_byte c \<longleftrightarrow> visible c \<and> c \<notin> set ''#@/?'' \<and> \<not> shouldEscape encodeHost c"

lemma alnum_range: "is_alnum c \<Longrightarrow> (of_char c :: nat) \<in> {48..57} \<union> {65..90} \<union> {97..122}"
  by (auto simp: is_alnum_def is_digit_def lower_byte_def less_eq_char_def split: if_splits)

lemma host_punctuation: "list_all host_byte ''-._:[]''"
  by code_simp

lemma host_bytes: assumes "is_alnum c \<or> c \<in> set ''-._:[]''" shows "host_byte c"
proof (cases "is_alnum c")
  case True
  then have "visible c" "c \<notin> set ''#@/?''" using alnum_range [OF True] by (auto simp: visible_def)
  then show ?thesis using True by (simp add: host_byte_def shouldEscape_def)
next
  case False
  then show ?thesis using assms host_punctuation by (auto simp: list_all_iff simp del: list.set list.simps(15))
qed

lemma punctuation_fit:
  "list_all (byte_fits encodePathSegment) ''-_.~$&+:=@''" "list_all (byte_fits encodeUserPassword) ''-_.~$&+,;=''"
  "list_all (byte_fits encodeFragment) ''-_.~$&+,/:;=?@!()*''"
  by code_simp+

lemma alnum_fit: "is_alnum c \<Longrightarrow> byte_fits p c"
proof -
  have "\<not> is_alnum (CHR '':'')" by code_simp
  then show "is_alnum c \<Longrightarrow> byte_fits p c" using host_bytes [of c] by (auto simp: byte_fits_def host_byte_def)
qed

lemma unescaped_fit: "\<not> shouldEscape p c \<Longrightarrow> p \<in> set link_parts_bytes \<Longrightarrow> byte_fits p c"
  using alnum_fit [of c p] punctuation_fit unfolding shouldEscape_def link_parts_bytes_def by (auto simp del: byte_fits_def)

lemma hex_fit: "list_all (\<lambda>p. list_all (\<lambda>c. byte_fits p c) (CHR ''%'' # map upper_hex [0..<16])) link_parts_bytes"
  by code_simp

lemma escaped_fit:
  assumes "c \<in> set (url_escape p s)" "p \<in> set link_parts_bytes"
  shows "byte_fits p c"
proof -
  obtain d where d: "c \<in> set (escape_url_byte p d)" using assms(1) by (auto simp: url_escape_def)
  have q: "p \<noteq> encodeQueryComponent" using assms(2) by (auto simp: link_parts_bytes_def)
  have byte: "(of_char d :: nat) div 16 < 16" "(of_char d :: nat) mod 16 < 16" using byte_less [of d] by (simp_all add: less_mult_imp_div_less)
  show ?thesis
  proof (cases "shouldEscape p d")
    case True
    then have "c = CHR ''%'' \<or> c = upper_hex (of_char d div 16) \<or> c = upper_hex (of_char d mod 16)" using d q by (auto simp: escape_url_byte_def)
    then show ?thesis using hex_fit assms(2) byte by (auto simp: list_all_iff)
  next
    case False
    then have "c = d" using d q by (auto simp: escape_url_byte_def)
    then show ?thesis using unescaped_fit False assms(2) by simp
  qed
qed

text \<open>What is written for a name, and for a user, is read back, unless it has a plus sign.\<close>

lemma decode_escaped:
  assumes "p \<in> set link_parts_bytes" "CHR ''+'' \<notin> set s"
  shows "decodeURLValue (url_escape p s) = s"
proof -
  have "list_all visible (url_escape p s)" using escaped_fit [OF _ assms(1)] by (auto simp: list_all_iff byte_fits_def)
  moreover have "url_unescape encodeQueryComponent (url_escape p s) = Some s"
    using assms by (intro unescape_escape) (auto simp: link_parts_bytes_def)
  ultimately show ?thesis by (simp add: decodeURLValue_def visible_trim)
qed

definition host_text :: "string \<Rightarrow> bool" where
  "host_text s \<longleftrightarrow> s \<noteq> [] \<and> list_all (\<lambda>c. is_alnum c \<or> c \<in> set ''-._:'') s"

definition name_text :: "string \<Rightarrow> bool" where
  "name_text s \<longleftrightarrow> s \<noteq> [] \<and> TrimSpace s = s \<and> CHR ''+'' \<notin> set s"

lemma b64_bytes_check: "list_all (\<lambda>c. visible c \<and> c \<notin> set ''#@/?:%+'') (b64_alphabet True)"
  by code_simp

lemma b64_link: "c \<in> set (b64_raw True s) \<Longrightarrow> visible c \<and> c \<notin> set ''#@/?:%+''"
  using b64_bytes_check b64_raw_chars [of True s] by (auto simp: list_all_iff)

text \<open>The address of a link.\<close>

lemma port_text: assumes "0 < port" "port \<le> 65535"
  shows "list_all is_digit (show_int port)" "show_int port \<noteq> []" "parsePort (show_int port) = port"
proof -
  show d: "list_all is_digit (show_int port)" using assms by (simp add: show_int_def show_nat_digits)
  show "show_int port \<noteq> []" using assms by (simp add: show_int_def show_nat_ne)
  have "TrimSpace (show_int port) = show_int port" using d by (simp add: no_space_TrimSpace no_space_digits)
  then show "parsePort (show_int port) = port" using Atoi_show_int [of port] assms by (simp add: parsePort_def)
qed

lemma address_text:
  assumes "host_text server" "0 < port" "port \<le> 65535"
  shows "splitHostPortLoose (JoinHostPort server (show_int port)) = (server, port)"
    "\<And>c. c \<in> set (JoinHostPort server (show_int port)) \<Longrightarrow> host_byte c"
    "\<not> suffix ''/'' (x @ JoinHostPort server (show_int port))"
proof -
  have b: "CHR ''['' \<notin> set server" "CHR '']'' \<notin> set server"
    using assms(1) by (auto simp: host_text_def list_all_iff is_alnum_def lower_byte_def is_digit_def)
  show "splitHostPortLoose (JoinHostPort server (show_int port)) = (server, port)"
    using split_join_host_port [OF port_text(1) [OF assms(2,3)] b] port_text(3) [OF assms(2,3)] by (simp add: splitHostPortLoose_def)
  show "host_byte c" if "c \<in> set (JoinHostPort server (show_int port))" for c
    using that assms(1) port_text(1) [OF assms(2,3)]
    by (intro host_bytes) (auto simp: JoinHostPort_def host_text_def list_all_iff is_alnum_def split: if_splits)
  obtain ds d where "show_int port = ds @ [d]" using port_text(2) [OF assms(2,3)] by (cases "show_int port" rule: rev_cases) auto
  moreover from this have "is_digit d" using port_text(1) [OF assms(2,3)] by simp
  moreover have "\<not> is_digit (CHR ''/'')" by code_simp
  ultimately show "\<not> suffix ''/'' (x @ JoinHostPort server (show_int port))" by (auto simp: JoinHostPort_def suffix_def)
qed

section \<open>Shadowsocks\<close>

lemma empty_texts: "TrimSpace [] = []" "isKnownUTLSFingerprint [] = False" "normalizeSHA256Hex [] = None" "truthy [] = False" "ToLower [] = []"
  "NormalizeShadowsocksSIP003Plugin [] VNil = Inr ([], [])"
  by code_simp+

lemma type_texts: "normalizeProtocolType ''shadowsocks'' = ''shadowsocks''" "normalizeProtocolType ''trojan'' = ''trojan''"
  "ToLower ''shadowsocks'' = ''shadowsocks''" "ToLower ''trojan'' = ''trojan''" "ToLower ''tcp'' = ''tcp''" "TrimSpace ''tcp'' = ''tcp''"
  by code_simp+

lemma get_fields: "map_of m k = Some (VStr s) \<Longrightarrow> get_str e m k = s" "map_of m k = None \<Longrightarrow> get_str e m k = []"
  "map_of m k = Some (VInt i) \<Longrightarrow> getInt m k = i"
  by (simp_all add: get_str_def getString_def map_get_def getInt_def)

lemma ss_normalized:
  "normalizeToSingbox e [(''name'', VStr name), (''type'', VStr ''shadowsocks''), (''server'', VStr server), (''port'', VInt port),
     (''cipher'', VStr method), (''password'', VStr password), (''udp'', VBool True)] ''shadowsocks'' =
   Inr [(''type'', VStr ''shadowsocks''), (''server'', VStr server), (''password'', VStr password), (''udp'', VBool True),
     (''server_port'', VInt port), (''method'', VStr method)]"
proof -
  let ?m = "[(''type'', VStr ''shadowsocks''), (''server'', VStr server), (''password'', VStr password), (''udp'', VBool True),
     (''server_port'', VInt port), (''method'', VStr method)]"
  have c: "normal_common ''shadowsocks'' [(''name'', VStr name), (''type'', VStr ''shadowsocks''), (''server'', VStr server), (''port'', VInt port),
     (''cipher'', VStr method), (''password'', VStr password), (''udp'', VBool True)] = ?m"
    by (simp add: normal_common_def moveKey_def has_key_def map_del_def map_get_def)
  have t: "normal_tls e ''shadowsocks'' ?m = ?m"
    by (simp add: normal_tls_def tls_flag_def tls_server_name_def tls_alpn_def tls_insecure_def tls_pins_def normalizeRealityOptions_def
        has_key_def map_get_def map_del_def delete_keys_def get_fields empty_texts)
  have p: "normalizeShadowsocksPlugin e ?m = (?m, None)"
    by (simp add: normalizeShadowsocksPlugin_def ss_tls_field_def has_key_def map_get_def map_del_def get_fields empty_texts)
  have v: "normalizeV2RayTransport e ?m ''shadowsocks'' (?m, []) = (?m, [])"
    by (simp add: normalizeV2RayTransport_def on_result_def delete_keys_def legacy_options_def map_del_def)
  show ?thesis unfolding normalizeToSingbox_def type_texts Let_def by (simp add: c t p v normal_checks_def)
qed

lemma ss_part:
  assumes "CHR '':'' \<notin> set method" "host_text server" "0 < port" "port \<le> 65535"
  shows "ss_auth (b64_raw True (method @ CHR '':'' # password) @ CHR ''@'' # JoinHostPort server (show_int port)) = Inr (method, password, server, port)"
proof -
  let ?a = "b64_raw True (method @ CHR '':'' # password)"
  have "CHR ''@'' \<notin> set (JoinHostPort server (show_int port))" using address_text(2) [OF assms(2-4)] by (auto simp: host_byte_def)
  then have s: "split_last (CHR ''@'') (?a @ CHR ''@'' # JoinHostPort server (show_int port)) = Some (?a, JoinHostPort server (show_int port))"
    by (rule split_last_word)
  have plain: "url_unescape encodeQueryComponent t = Some t" if "CHR ''%'' \<notin> set t" "CHR ''+'' \<notin> set t" for t
    using that by (induction t) (auto simp: url_unescape.simps)
  have "list_all visible ?a" using b64_link by (auto simp: list_all_iff)
  moreover have "url_unescape encodeQueryComponent ?a = Some ?a" using plain b64_link by fastforce
  ultimately have d: "decodeURLValue ?a = ?a" by (simp add: decodeURLValue_def visible_trim)
  have "CHR '':'' \<notin> set ?a" using b64_link by fastforce
  then have "\<not> prefix (c @ '':'') ?a" for c by (auto simp: prefix_def)
  then have m: "matchSSCipher ?a = None" by (simp add: matchSSCipher_def find_None_iff)
  show ?thesis
    using s assms(1) by (simp add: ss_auth_def Let_def d m base64_share splitAuth_def split_once_word address_text(1) [OF assms(2-4)])
qed

lemma parse_ss_link:
  assumes "CHR '':'' \<notin> set method" "method \<noteq> []" "host_text server" "0 < port" "port \<le> 65535" "name_text name"
    and "link = ''ss://'' @ (b64_raw True (method @ CHR '':'' # password) @ CHR ''@'' # JoinHostPort server (show_int port)) @ CHR ''#'' # url_escape encodePathSegment name"
  shows "ParseProxyURI e js ip6 link = Inr \<lparr>p_UID = [], p_Name = name, p_Type = ''shadowsocks'', p_Server = server, p_ServerPort = port, p_Raw = link,
    p_config = Object (json_map [(''type'', VStr ''shadowsocks''), (''server'', VStr server), (''password'', VStr password), (''udp'', VBool True),
     (''server_port'', VInt port), (''method'', VStr method)]), p_UnsupportedReason = []\<rparr>"
proof -
  let ?a = "b64_raw True (method @ CHR '':'' # password)" and ?h = "JoinHostPort server (show_int port)" and ?n = "url_escape encodePathSegment name"
  have p: "encodePathSegment \<in> set link_parts_bytes" by (simp add: link_parts_bytes_def)
  have bytes: "c \<in> set ?n \<Longrightarrow> visible c \<and> c \<noteq> CHR ''#''" for c using escaped_fit [OF _ p] by (auto simp: byte_fits_def)
  have host: "c \<in> set ?h \<Longrightarrow> visible c \<and> c \<notin> set ''#@/?''" for c using address_text(2) [OF assms(3-5)] by (simp add: host_byte_def)
  have "visible (CHR ''@'')" "visible (CHR ''#'')" "list_all visible ''ss://''" by code_simp+
  then have trim: "TrimSpace link = link"
    unfolding assms(7) using b64_link bytes host by (intro visible_trim) (auto simp: list_all_iff)
  have hash: "split_last (CHR ''#'') ((?a @ CHR ''@'' # ?h) @ CHR ''#'' # ?n) = Some (?a @ CHR ''@'' # ?h, ?n)"
    using bytes by (intro split_last_word) blast
  have "CHR ''?'' \<notin> set (?a @ CHR ''@'' # ?h)" using b64_link host by fastforce
  then have quest: "split_once (CHR ''?'') (?a @ CHR ''@'' # ?h) = (?a @ CHR ''@'' # ?h, None)" by (rule split_once_none)
  have slash: "TrimSuffix (?a @ CHR ''@'' # ?h) ''/'' = ?a @ CHR ''@'' # ?h"
    using address_text(3) [OF assms(3-5), of "?a @ [CHR ''@'']"] by (simp add: TrimSuffix_def)
  have name: "decodeURLValue ?n = name" using decode_escaped [OF p] assms(6) by (simp add: name_text_def)
  have parts: "link_parts ''SS Node'' (TrimPrefix link ''ss://'') = (name, [], ?a @ CHR ''@'' # ?h)"
    using hash quest slash name by (simp add: link_parts_def TrimPrefix_def assms(7))
  have server: "server \<noteq> []" using assms(3) by (simp add: host_text_def)
  have first: "firstNonEmpty [name, server] = name" using assms(6) by (simp add: name_text_def)
  have "parseShadowsocks e link = parsedNodeFromMap e link [(''name'', VStr name), (''type'', VStr ''shadowsocks''), (''server'', VStr server),
      (''port'', VInt port), (''cipher'', VStr method), (''password'', VStr password), (''udp'', VBool True)]"
    unfolding parseShadowsocks_def parts prod.case ss_part [OF assms(1,3-5)] res_bind_simps
    using assms(2) server by (simp add: lookup_str_def empty_texts ss_plugin_fields_def)
  moreover have "ParseProxyURI e js ip6 link = parseShadowsocks e link"
  proof -
    have "prefix ''ss://'' link" "\<not> prefix ''vmess://'' link" by (simp_all add: assms(7))
    then show ?thesis by (simp add: ParseProxyURI_def trim)
  qed
  ultimately show ?thesis
    using server first by (simp add: parsedNodeFromMap_def Let_def get_fields type_texts ss_normalized del: firstNonEmpty.simps)
qed

lemma share_address_port: "shareServerAddress e node m = Inr (server, port) \<Longrightarrow> 0 < port \<and> port \<le> 65535"
  by (auto simp: shareServerAddress_def Let_def split: if_splits)

lemma no_raw_link: "TrimSpace (sn_Raw node) = [] \<Longrightarrow> reusableProxyURI e js ip6 (sn_Raw node) = []"
  by (simp add: reusableProxyURI_def)

lemma options_of_json:
  "map_of (json_map m) k = map_option json_value (map_of m k)"
  by (induction m) (auto simp: json_map_def)

text \<open>A Shadowsocks node that is exported as a link and imported again has its method, its password, whatever
  bytes are in it, its address and its name; for a node without plugin, transport and TLS, whose name has no
  plus sign.\<close>

theorem ss_share_roundtrip:
  assumes "EncodeProxyURI e js jt ip6 node = Inr link" "sn_config node = Object m" "TrimSpace (sn_Raw node) = []"
    and "ToLower (TrimSpace (sn_Type node)) = ''shadowsocks''" "CHR '':'' \<notin> set (get_str e m ''method'')"
    and "get_str e m ''plugin'' = []" "\<not> boolOrString (map_get (nestedMap m ''tls'') ''enabled'')" "\<not> has_key m ''transport''"
    and "shareServerAddress e node m = Inr (server, port)" "host_text server" "name_text (sn_Name node)"
  shows "\<exists>n. ParseProxyURI e js ip6 link = Inr n \<and> p_Type n = ''shadowsocks'' \<and> p_Server n = server \<and> p_ServerPort n = port \<and>
    p_Name n = sn_Name node \<and> map_of (node_options (p_config n)) ''method'' = Some (VStr (get_str e m ''method'')) \<and>
    map_of (node_options (p_config n)) ''password'' = Some (VStr (get_str e m ''password''))"
proof -
  let ?cipher = "get_str e m ''method''" and ?password = "get_str e m ''password''"
  have enc: "encodeShadowsocksURI e node m = Inr link"
    using assms(1) unfolding EncodeProxyURI_def assms(2) no_raw_link [OF assms(3)] Let_def
    by (simp add: encode_protocol_def assms(4) split: if_splits)
  have q: "addOptionalTLSAndTransportQuery e m [] = []" using assms(7,8) by (simp add: addOptionalTLSAndTransportQuery_def Let_def)
  have v: "values_encode [] = []" by (simp add: values_encode_def)
  have ne: "?cipher \<noteq> []" using enc assms(9) by (auto simp: encodeShadowsocksURI_def Let_def)
  have "sn_Name node \<noteq> []" using assms(11) by (simp add: name_text_def)
  then have "link = ''ss://'' @ (b64_raw True (?cipher @ CHR '':'' # ?password) @ CHR ''@'' # JoinHostPort server (show_int port)) @
      CHR ''#'' # url_escape encodePathSegment (sn_Name node)"
    using enc ne unfolding encodeShadowsocksURI_def assms(9) res_bind_simps prod.case Let_def by (simp add: assms(6) q v buildOpaqueShareURI_def)
  from parse_ss_link [OF assms(5) ne assms(10) _ _ assms(11) this] share_address_port [OF assms(9)]
  have "ParseProxyURI e js ip6 link = Inr \<lparr>p_UID = [], p_Name = sn_Name node, p_Type = ''shadowsocks'', p_Server = server, p_ServerPort = port, p_Raw = link,
    p_config = Object (json_map [(''type'', VStr ''shadowsocks''), (''server'', VStr server), (''password'', VStr ?password), (''udp'', VBool True),
     (''server_port'', VInt port), (''method'', VStr ?cipher)]), p_UnsupportedReason = []\<rparr>" by blast
  then show ?thesis by (intro exI [of _ "\<lparr>p_UID = [], p_Name = sn_Name node, p_Type = ''shadowsocks'', p_Server = server, p_ServerPort = port, p_Raw = link,
    p_config = Object (json_map [(''type'', VStr ''shadowsocks''), (''server'', VStr server), (''password'', VStr ?password), (''udp'', VBool True),
     (''server_port'', VInt port), (''method'', VStr ?cipher)]), p_UnsupportedReason = []\<rparr>"]) (simp add: options_of_json node_options_def)
qed

section \<open>Trojan\<close>

lemma trojan_normalized:
  "normalizeToSingbox e [(''name'', VStr name), (''type'', VStr ''trojan''), (''server'', VStr server), (''port'', VInt port),
     (''password'', VStr password), (''udp'', VBool True), (''tls'', VBool True), (''network'', VStr ''tcp'')] ''trojan'' =
   Inr [(''type'', VStr ''trojan''), (''server'', VStr server), (''password'', VStr password), (''udp'', VBool True),
     (''network'', VStr ''tcp''), (''server_port'', VInt port), (''tls'', VMap [(''enabled'', VBool True)])]"
proof -
  let ?c = "[(''type'', VStr ''trojan''), (''server'', VStr server), (''password'', VStr password), (''udp'', VBool True), (''tls'', VBool True),
     (''network'', VStr ''tcp''), (''server_port'', VInt port)]"
  let ?m = "[(''type'', VStr ''trojan''), (''server'', VStr server), (''password'', VStr password), (''udp'', VBool True),
     (''network'', VStr ''tcp''), (''server_port'', VInt port), (''tls'', VMap [(''enabled'', VBool True)])]"
  have c: "normal_common ''trojan'' [(''name'', VStr name), (''type'', VStr ''trojan''), (''server'', VStr server), (''port'', VInt port),
     (''password'', VStr password), (''udp'', VBool True), (''tls'', VBool True), (''network'', VStr ''tcp'')] = ?c"
    by (simp add: normal_common_def moveKey_def has_key_def map_del_def map_get_def)
  have f: "tls_flag ?c = ?m" by (simp add: tls_flag_def map_get_def map_del_def)
  have t: "normal_tls e ''trojan'' ?c = ?m"
    by (simp add: normal_tls_def f tls_server_name_def tls_alpn_def tls_insecure_def tls_pins_def normalizeRealityOptions_def
        has_key_def map_get_def map_del_def delete_keys_def get_fields empty_texts)
  have v: "normalizeV2RayTransport e ?m ''trojan'' (?m, []) = (?m, [])"
    by (simp add: normalizeV2RayTransport_def on_result_def delete_keys_def legacy_options_def map_del_def get_fields type_texts)
  show ?thesis unfolding normalizeToSingbox_def type_texts Let_def by (simp add: c t v normal_checks_def)
qed

lemma tcp_query: "parseQueryParams ''type=tcp'' = [(''type'', ''tcp'')]" "values_encode [(''type'', [''tcp''])] = ''type=tcp''"
  by code_simp+

lemma host_unescaped: "(\<And>c. c \<in> set s \<Longrightarrow> host_byte c) \<Longrightarrow> url_escape encodeHost s = s"
  by (induction s) (simp_all add: url_escape_def escape_url_byte_def host_byte_def)

lemma parse_trojan_link:
  assumes "host_text server" "0 < port" "port \<le> 65535" "name_text name" "CHR ''+'' \<notin> set password"
    and "link = ''trojan://'' @ ((url_escape encodeUserPassword password @ CHR ''@'' # JoinHostPort server (show_int port)) @ CHR ''?'' # ''type=tcp'') @
      CHR ''#'' # url_escape encodeFragment name"
  shows "ParseProxyURI e js ip6 link = Inr \<lparr>p_UID = [], p_Name = name, p_Type = ''trojan'', p_Server = server, p_ServerPort = port, p_Raw = link,
    p_config = Object (json_map [(''type'', VStr ''trojan''), (''server'', VStr server), (''password'', VStr password), (''udp'', VBool True),
     (''network'', VStr ''tcp''), (''server_port'', VInt port), (''tls'', VMap [(''enabled'', VBool True)])]), p_UnsupportedReason = []\<rparr>"
proof -
  let ?a = "url_escape encodeUserPassword password" and ?h = "JoinHostPort server (show_int port)" and ?n = "url_escape encodeFragment name"
  have p: "encodeFragment \<in> set link_parts_bytes" "encodeUserPassword \<in> set link_parts_bytes" by (simp_all add: link_parts_bytes_def)
  have bytes: "c \<in> set ?n \<Longrightarrow> visible c \<and> c \<noteq> CHR ''#''" for c using escaped_fit [OF _ p(1)] by (auto simp: byte_fits_def)
  have user: "c \<in> set ?a \<Longrightarrow> visible c \<and> c \<notin> set ''#@/?''" for c using escaped_fit [OF _ p(2)] by (auto simp: byte_fits_def)
  have host: "c \<in> set ?h \<Longrightarrow> visible c \<and> c \<notin> set ''#@/?''" for c using address_text(2) [OF assms(1-3)] by (simp add: host_byte_def)
  have "visible (CHR ''@'')" "visible (CHR ''#'')" "visible (CHR ''?'')" "list_all visible ''trojan://''" "list_all visible ''type=tcp''" by code_simp+
  then have trim: "TrimSpace link = link"
    unfolding assms(6) using user bytes host by (intro visible_trim) (auto simp: list_all_iff)
  have hash: "split_last (CHR ''#'') (((?a @ CHR ''@'' # ?h) @ CHR ''?'' # ''type=tcp'') @ CHR ''#'' # ?n) = Some ((?a @ CHR ''@'' # ?h) @ CHR ''?'' # ''type=tcp'', ?n)"
    using bytes by (intro split_last_word) blast
  have "CHR ''?'' \<notin> set (?a @ CHR ''@'' # ?h)" using user host by fastforce
  then have quest: "split_once (CHR ''?'') ((?a @ CHR ''@'' # ?h) @ CHR ''?'' # ''type=tcp'') = (?a @ CHR ''@'' # ?h, Some ''type=tcp'')" by (rule split_once_word)
  have slash: "TrimSuffix (?a @ CHR ''@'' # ?h) ''/'' = ?a @ CHR ''@'' # ?h"
    using address_text(3) [OF assms(1-3), of "?a @ [CHR ''@'']"] by (simp add: TrimSuffix_def)
  have decoded: "decodeURLValue ?n = name" "decodeURLValue ?a = password"
    using decode_escaped [OF p(1)] decode_escaped [OF p(2)] assms(4,5) by (simp_all add: name_text_def)
  have parts: "link_parts ''Trojan Node'' (TrimPrefix link ''trojan://'') = (name, [(''type'', ''tcp'')], ?a @ CHR ''@'' # ?h)"
    using hash quest slash decoded(1) tcp_query(1) by (simp add: link_parts_def TrimPrefix_def assms(6))
  have "CHR ''@'' \<notin> set ?h" using host by fastforce
  then have u: "link_user ''trojan'' (?a @ CHR ''@'' # ?h) = Inr (?a, server, port)"
    using assms(2) by (simp add: link_user_def split_last_word parseServerPortWithDefault_def address_text(1) [OF assms(1-3)])
  have server: "server \<noteq> []" using assms(1) by (simp add: host_text_def)
  have first: "firstNonEmpty [name, server] = name" using assms(4) by (simp add: name_text_def)
  have "parseTrojan e link = parsedNodeFromMap e link [(''name'', VStr name), (''type'', VStr ''trojan''), (''server'', VStr server),
      (''port'', VInt port), (''password'', VStr password), (''udp'', VBool True), (''tls'', VBool True), (''network'', VStr ''tcp'')]"
    unfolding parseTrojan_def parts prod.case u res_bind_simps decoded(2)
    by (simp add: applyTLSOptions_def applyTransportOptions_def lookup_str_def empty_texts type_texts put_when_def put_text_def)
  moreover have "ParseProxyURI e js ip6 link = parseTrojan e link"
  proof -
    have "prefix ''trojan://'' link" "\<not> prefix ''vmess://'' link" "\<not> prefix ''ss://'' link" "\<not> prefix ''ssr://'' link" by (simp_all add: assms(6))
    then show ?thesis by (simp add: ParseProxyURI_def trim)
  qed
  ultimately show ?thesis
    using server first by (simp add: parsedNodeFromMap_def Let_def get_fields type_texts trojan_normalized del: firstNonEmpty.simps)
qed

lemma empty_options: "nestedMap [] k = []" "map_get [] k = VNil" "firstString VNil = []" "get_str e [] k = []"
  by (simp_all add: nestedMap_def map_get_def firstString_def stringValues_def get_fields)

text \<open>A Trojan node that is exported as a link and imported again has its password, address, name and TLS, if
  neither the password nor the name has a plus sign; for a node without transport and TLS options.\<close>

theorem trojan_share_roundtrip:
  assumes "EncodeProxyURI e js jt ip6 node = Inr link" "sn_config node = Object m" "TrimSpace (sn_Raw node) = []"
    and "ToLower (TrimSpace (sn_Type node)) = ''trojan''" "CHR ''+'' \<notin> set (get_str e m ''password'')"
    and "addTLSShareQuery e (nestedMap m ''tls'') [] = []" "nestedMap m ''transport'' = []"
    and "shareServerAddress e node m = Inr (server, port)" "host_text server" "name_text (sn_Name node)"
  shows "\<exists>n tls. ParseProxyURI e js ip6 link = Inr n \<and> p_Type n = ''trojan'' \<and> p_Server n = server \<and> p_ServerPort n = port \<and>
    p_Name n = sn_Name node \<and> map_of (node_options (p_config n)) ''password'' = Some (VStr (get_str e m ''password'')) \<and>
    map_of (node_options (p_config n)) ''tls'' = Some (VMap tls) \<and> map_of tls ''enabled'' = Some (VBool True)"
proof -
  let ?password = "get_str e m ''password''"
  have enc: "encodeTrojanURI e node m = Inr link"
    using assms(1) unfolding EncodeProxyURI_def assms(2) no_raw_link [OF assms(3)] Let_def
    by (simp add: encode_protocol_def assms(4) split: if_splits)
  have q: "addTransportShareQuery e m [] = [(''type'', [''tcp''])]"
    by (simp add: addTransportShareQuery_def shareTransport_def Let_def assms(7) empty_options empty_texts set_nonempty_def query_set_def)
  have ne: "?password \<noteq> []" using enc assms(8) by (auto simp: encodeTrojanURI_def split: if_splits)
  have port: "0 < port" "port \<le> 65535" using share_address_port [OF assms(8)] by simp_all
  have host: "url_escape encodeHost (JoinHostPort server (show_int port)) = JoinHostPort server (show_int port)"
    using address_text(2) [OF assms(9) port] by (rule host_unescaped)
  have "sn_Name node \<noteq> []" using assms(10) by (simp add: name_text_def)
  then have "link = ''trojan://'' @ ((url_escape encodeUserPassword ?password @ CHR ''@'' # JoinHostPort server (show_int port)) @ CHR ''?'' # ''type=tcp'') @
      CHR ''#'' # url_escape encodeFragment (sn_Name node)"
    using enc ne unfolding encodeTrojanURI_def assms(8) res_bind_simps prod.case
    by (simp add: assms(6) q tcp_query(2) buildUserShareURI_def url_string_def user_string_def host)
  from parse_trojan_link [OF assms(9) port assms(10,5) this]
  have "ParseProxyURI e js ip6 link = Inr \<lparr>p_UID = [], p_Name = sn_Name node, p_Type = ''trojan'', p_Server = server, p_ServerPort = port, p_Raw = link,
    p_config = Object (json_map [(''type'', VStr ''trojan''), (''server'', VStr server), (''password'', VStr ?password), (''udp'', VBool True),
     (''network'', VStr ''tcp''), (''server_port'', VInt port), (''tls'', VMap [(''enabled'', VBool True)])]), p_UnsupportedReason = []\<rparr>" .
  then show ?thesis by (simp add: options_of_json node_options_def)
qed

section \<open>Concrete links\<close>

definition no_json :: "string \<Rightarrow> goval option" where "no_json _ = None"
definition no_text :: "goval \<Rightarrow> string" where "no_text _ = []"
definition no_ip6 :: "string \<Rightarrow> bool" where "no_ip6 _ = False"

definition sample_share :: "string \<Rightarrow> gomap \<Rightarrow> share_node" where
  "sample_share t m = \<lparr>sn_Name = ''A B'', sn_Type = t, sn_Server = ''h.example'', sn_ServerPort = 443, sn_Raw = [], sn_config = Object m\<rparr>"

lemma ss_link: "EncodeProxyURI sample_import no_json no_text no_ip6 (sample_share ''shadowsocks'' [(''method'', VStr ''none''), (''password'', VStr ''a+b:@'')]) =
  Inr ''ss://bm9uZTphK2I6QA@h.example:443#A%20B''"
  by code_simp

theorem ss_share_roundtrip_witness:
  "\<exists>n. ParseProxyURI sample_import no_json no_ip6 ''ss://bm9uZTphK2I6QA@h.example:443#A%20B'' = Inr n \<and>
     map_of (node_options (p_config n)) ''password'' = Some (VStr ''a+b:@'')"
proof -
  let ?m = "[(''method'', VStr ''none''), (''password'', VStr ''a+b:@'')]" and ?n = "sample_share ''shadowsocks'' [(''method'', VStr ''none''), (''password'', VStr ''a+b:@'')]"
  have h: "TrimSpace (sn_Raw ?n) = []" "ToLower (TrimSpace (sn_Type ?n)) = ''shadowsocks''" "CHR '':'' \<notin> set (get_str sample_import ?m ''method'')"
    "get_str sample_import ?m ''plugin'' = []" "\<not> boolOrString (map_get (nestedMap ?m ''tls'') ''enabled'')" "\<not> has_key ?m ''transport''"
    "shareServerAddress sample_import ?n ?m = Inr (''h.example'', 443)" "host_text ''h.example''" "name_text (sn_Name ?n)"
    "get_str sample_import ?m ''password'' = ''a+b:@''" by code_simp+
  have "sn_config ?n = Object ?m" by (simp add: sample_share_def)
  from ss_share_roundtrip [OF ss_link this h(1-9)] h(10) show ?thesis by auto
qed

lemma trojan_link: "EncodeProxyURI sample_import no_json no_text no_ip6 (sample_share ''trojan'' [(''password'', VStr ''p@w'')]) =
  Inr ''trojan://p%40w@h.example:443?type=tcp#A%20B''"
  by code_simp

theorem trojan_share_roundtrip_witness:
  "\<exists>n. ParseProxyURI sample_import no_json no_ip6 ''trojan://p%40w@h.example:443?type=tcp#A%20B'' = Inr n \<and>
     map_of (node_options (p_config n)) ''password'' = Some (VStr ''p@w'')"
proof -
  let ?m = "[(''password'', VStr ''p@w'')]" and ?n = "sample_share ''trojan'' [(''password'', VStr ''p@w'')]"
  have h: "TrimSpace (sn_Raw ?n) = []" "ToLower (TrimSpace (sn_Type ?n)) = ''trojan''" "CHR ''+'' \<notin> set (get_str sample_import ?m ''password'')"
    "addTLSShareQuery sample_import (nestedMap ?m ''tls'') [] = []" "nestedMap ?m ''transport'' = []"
    "shareServerAddress sample_import ?n ?m = Inr (''h.example'', 443)" "host_text ''h.example''" "name_text (sn_Name ?n)"
    "get_str sample_import ?m ''password'' = ''p@w''" by code_simp+
  have "sn_config ?n = Object ?m" by (simp add: sample_share_def)
  from trojan_share_roundtrip [OF trojan_link this h(1-8)] h(9) show ?thesis by auto
qed

theorem link_tls_enforced_witness:
  "\<exists>n tls. ParseProxyURI sample_import no_json no_ip6 ''trojan://p%40w@h.example:443?type=tcp#A%20B'' = Inr n \<and>
     map_of (node_options (p_config n)) ''tls'' = Some (VMap tls) \<and> map_of tls ''enabled'' = Some (VBool True)"
proof -
  let ?l = "''trojan://p%40w@h.example:443?type=tcp#A%20B''"
  have h: "host_text ''h.example''" "name_text ''A B''" "CHR ''+'' \<notin> set ''p@w''"
    "?l = ''trojan://'' @ ((url_escape encodeUserPassword ''p@w'' @ CHR ''@'' # JoinHostPort ''h.example'' (show_int 443)) @ CHR ''?'' # ''type=tcp'') @
      CHR ''#'' # url_escape encodeFragment ''A B''"
    "list_ex (\<lambda>s. prefix s (TrimSpace ?l)) [''trojan://'', ''hysteria://'', ''hy2://'', ''hysteria2://'', ''tuic://'', ''anytls://'']" by code_simp+
  obtain n where n: "ParseProxyURI sample_import no_json no_ip6 ?l = Inr n" using parse_trojan_link [OF h(1) _ _ h(2-4)] by auto
  from link_tls_enforced [OF n h(5)] n show ?thesis by blast
qed


section \<open>What links lose\<close>

text \<open>A plus sign is not escaped in the user part of a URL, but the parser of Trojan links reads it as a space.\<close>

lemma plus_becomes_space: "decodeURLValue (url_escape encodeUserPassword ''p+w'') = ''p w''"
  by code_simp

text \<open>
  Values of a query are unescaped twice, by \<^verbatim>\<open>parseQueryParams\<close> and by the user of the value, so that an
  escaped plus sign or percent sign in a path or in plugin options is lost.
\<close>

lemma query_decoded_twice: "decodeURLValue (lookup_str (parseQueryParams ''path=%2Fa%2Bb'') ''path'') = ''/a b''"
  by code_simp

text \<open>
  The host of a transport counts as a server name for TLS, and a server name switches TLS on: a VLESS or
  VMess link without TLS that names a host header becomes a node with TLS.
\<close>

lemma host_header_enables_tls:
  "link_tls_on (normal_tls sample_import ''vless'' (applyTLSOptions [(''type'', ''ws''), (''host'', ''cdn.example'')] ''servername'' [(''tls'', VBool False)]))"
  unfolding link_tls_on_def by (rule exI [of _ "[(''enabled'', VBool True), (''server_name'', VStr ''cdn.example'')]"]) code_simp

text \<open>The type of an HTTPS link is not one of the supported types.\<close>

lemma https_unsupported: "\<not> IsSupportedNodeProtocol ''https''"
  by code_simp

end
