(* ===== verification/Spec2Isabelle.thy ===== *)
theory Spec2Isabelle
  imports Network_Ownership Outbound_Graph Migration_Stable Node_Facts Dns_Section Config_Reconcile Config_Apply Redaction Ssh_Mcp Ssh_Session Share_Round
begin

text \<open>
  \<^bold>\<open>ackrun: configuration generation and host network ownership.\<close>

  The program is the backend of a manager for the proxy core sing-box (Go, under
  \<^verbatim>\<open>src/backend\<close>).  It imports proxy nodes from subscriptions, stores them, generates the core's JSON
  configuration from nodes, groups and route rules, migrates configurations between core versions, and
  records which routing rules and tables of the host belong to the core so that only those are removed
  again.  The development models the parts that decide what traffic does: what is generated, what is
  deleted, and in which order things happen.  File, process, database and network access appear as
  data read or as outcomes the environment chooses.

  \<^bold>\<open>The parts and their theories\<close> (paths under \<^verbatim>\<open>src/backend/internal\<close>).

  \<^item> \<^verbatim>\<open>Go_Base\<close>: the Go language and library functions the sources use: errors as sums, dynamic values
    (\<^verbatim>\<open>interface{}\<close>), maps as association lists, and the string functions on byte strings.
  \<^item> \<^verbatim>\<open>Network_Ownership\<close>: \<^verbatim>\<open>service/singbox_cleanup.go\<close>.  Parsers of \<^verbatim>\<open>ip rule\<close>, \<^verbatim>\<open>ip route\<close> and \<^verbatim>\<open>nft\<close> output,
    the ownership state with its normalisation, derivation from snapshots before and after a start,
    deletion guards, and the state file.  The theorems show that ownership never takes in what was
    there before, that a ready state is complete, and that promotion and discarding are safe under
    every write failure.
  \<^item> \<^verbatim>\<open>Outbound_Graph\<close>: the graph searches of \<^verbatim>\<open>service/config_generator.go\<close> over groups and their
    members, shown equal to reachability, and the check that DNS detours do not leak.
  \<^item> \<^verbatim>\<open>Sip003\<close>: \<^verbatim>\<open>parser/helpers.go\<close> (Shadowsocks plugin options) and \<^verbatim>\<open>parser/hysteria_options.go\<close>, with
    round trips and stable canonical forms.
  \<^item> \<^verbatim>\<open>Config_Migration\<close> and \<^verbatim>\<open>Migration_Stable\<close>: \<^verbatim>\<open>service/version.go\<close> and \<^verbatim>\<open>service/config_migration.go\<close>: the
    version order, every migration step, and the file procedure around them; migration is idempotent
    and never leaves a broken file.
  \<^item> \<^verbatim>\<open>Node_Outbound\<close> and \<^verbatim>\<open>Node_Facts\<close>: \<^verbatim>\<open>generateNodeOutbound\<close>, \<^verbatim>\<open>generateWireGuardEndpoint\<close> and their helpers in
    \<^verbatim>\<open>service/config_generator.go\<close>: shape of the generated outbound, canonical plugins, certificate pins,
    dialable WireGuard endpoints.
  \<^item> \<^verbatim>\<open>Node_Identity\<close>: \<^verbatim>\<open>nodeidentity/identity.go\<close>, \<^verbatim>\<open>model/node_chain.go\<close> and the UID assignment of
    \<^verbatim>\<open>store/node.go\<close>: UIDs ignore names, separate connections, and are distinct in a subscription.
  \<^item> \<^verbatim>\<open>Chain_Filter\<close> and \<^verbatim>\<open>Chain_Apply\<close>: \<^verbatim>\<open>service/node_chain.go\<close>: filtering chained nodes whose upstream is
    gone, which ends and keeps the largest self-supporting set, and writing detours and chain groups,
    which never turns a chained node into a direct connection.
  \<^item> \<^verbatim>\<open>Chain_Document\<close>, \<^verbatim>\<open>Chain_Resolve\<close> and \<^verbatim>\<open>Chain_Grounded\<close>: \<^verbatim>\<open>parser/node_chain.go\<close>: the names and proxy groups of a
    subscription, their resolution by two mutually recursive functions over memo tables, and the invariant
    of these tables: every supported node ends with a chain that leads to supported nodes and stands for
    what the document named, a group for the group of that name with its members in turn (\<open>stands_for\<close>).
    Both hold for nodes without chain metadata of their own, which every import but that of sing-box
    endpoints produces.
  \<^item> \<^verbatim>\<open>Import_Base\<close>, \<^verbatim>\<open>Singbox_Import\<close>, \<^verbatim>\<open>Clash_Import\<close> and \<^verbatim>\<open>Clash_Facts\<close>: \<^verbatim>\<open>parser/singbox.go\<close>, \<^verbatim>\<open>clash.go\<close>,
    \<^verbatim>\<open>clash_options.go\<close> and the helpers they call in \<^verbatim>\<open>helpers.go\<close> and \<^verbatim>\<open>protocol_support.go\<close>: importing documents,
    one step per block of the source.  What is imported is ready for generation, TLS is not lost, and
    Shadowsocks inside TLS is refused with the fixed texts of the code (\<open>ss_error_text\<close>).
  \<^item> \<^verbatim>\<open>Go_Url\<close>: what share links use of \<^verbatim>\<open>net/url\<close>, \<^verbatim>\<open>net\<close> and \<^verbatim>\<open>encoding/base64\<close>, with round trips, and
    \<^verbatim>\<open>parser/base64.go\<close>.
  \<^item> \<^verbatim>\<open>Share_Parse\<close>, \<^verbatim>\<open>Share_Encode\<close>, \<^verbatim>\<open>Share_Facts\<close> and \<^verbatim>\<open>Share_Round\<close>: the link parsers of \<^verbatim>\<open>parser\<close> (one file per
    protocol, \<^verbatim>\<open>helpers.go\<close>, \<^verbatim>\<open>transport.go\<close>, \<^verbatim>\<open>proxy_uri.go\<close>, \<^verbatim>\<open>uri_list.go\<close>), the choice of the format in
    \<^verbatim>\<open>subscription.go\<close>, and \<^verbatim>\<open>share_uri.go\<close>, which writes links.  Whatever the format, the supported nodes of a
    subscription pass the chain filter; protocols that require TLS keep it; Shadowsocks and Trojan nodes
    survive being exported and imported.
  \<^item> \<^verbatim>\<open>Outbound_Tags\<close>: the tags of \<^verbatim>\<open>service/config_generator.go\<close>: sanitised names over UTF-8 runes, and
    distinct tags for distinct nodes.
  \<^item> \<^verbatim>\<open>Outbound_Collections\<close>: \<^verbatim>\<open>generateOutbounds\<close> of \<^verbatim>\<open>service/config_generator.go\<close>, which composes the node
    outbounds, the chains, the tags and the graph checks with strategy groups and node groups.
  \<^item> \<^verbatim>\<open>Dns_Section\<close>: \<^verbatim>\<open>generateDNSFromDatabase\<close> of \<^verbatim>\<open>service/config_generator.go\<close> with its helpers, and its
    composition with the outbounds: references stay inside the section, a server reached by name has a
    resolver, which itself needs no resolver or detour, and unmatched queries leave through the proxy when
    there is one (below).
  \<^item> \<^verbatim>\<open>Config_Apply\<close>: names of configuration files and the active file (\<^verbatim>\<open>paths/paths.go\<close>), applying a
    generated configuration and the reconcile run around it (\<^verbatim>\<open>service/config_generator.go\<close>), which
    refines a contract on the active text alone.
  \<^item> \<^verbatim>\<open>Redaction\<close>: \<^verbatim>\<open>logging/logging.go\<close> and the redaction of configurations and messages.  The type assertions
    of the code may fail in the model (\<open>None\<close>) and are shown not to; redaction keeps the shape and masks every
    secret that is set, what differs only in secrets, nested maps of strings included, looks the same
    afterwards, and messages lose the secrets they quote.
  \<^item> \<^verbatim>\<open>Histories\<close>, \<^verbatim>\<open>Sha256\<close>, \<^verbatim>\<open>Remote_Path\<close>: runs of state machines, the hash, and path cleaning with
    \<^verbatim>\<open>normalizeSFTPPath\<close> (\<^verbatim>\<open>service/ssh_sftp.go\<close>) and \<^verbatim>\<open>normalizeMCPPath\<close> (\<^verbatim>\<open>service/ssh_mcp_local.go\<close>).
  \<^item> \<^verbatim>\<open>Ssh_Mcp\<close>: \<^verbatim>\<open>service/ssh_mcp.go\<close> and \<^verbatim>\<open>service/ssh_mcp_upload_ticket.go\<close> as a state machine over settings
    and upload grants: a grant works once, for its secret, in time, and dies with the token.
  \<^item> \<^verbatim>\<open>Ssh_Session\<close>: \<^verbatim>\<open>service/ssh_session.go\<close> and \<^verbatim>\<open>sftpClient\<close> as critical sections over a heap of sessions,
    interleaved in every order: limits, one attach per session, complete shutdown.
  \<^item> \<^verbatim>\<open>Config_Reconcile\<close>: \<^verbatim>\<open>service/config_reconcile.go\<close> as a step relation over the service state, the
    runtime's timers and the goroutines between its two mutexes: progress, mutual exclusion, coalescing.

  \<^bold>\<open>How they interact.\<close>  A subscription is turned into nodes (\<^verbatim>\<open>Share_Parse\<close>), from a document (\<^verbatim>\<open>Singbox_Import\<close>, \<^verbatim>\<open>Clash_Import\<close>), whose
  chains are resolved (\<^verbatim>\<open>Chain_Resolve\<close>) and which get their identity (\<^verbatim>\<open>Node_Identity\<close>) on the way, or from links; they
  pass the chain filter (\<^verbatim>\<open>Chain_Filter\<close>) before they are stored.  Generation turns each stored node into an
  outbound (\<^verbatim>\<open>Node_Outbound\<close>) under its tag (\<^verbatim>\<open>Outbound_Tags\<close>), writes the chains into them (\<^verbatim>\<open>Chain_Apply\<close>), adds
  groups (\<^verbatim>\<open>Outbound_Collections\<close>), generates the DNS section (\<^verbatim>\<open>Dns_Section\<close>) and checks the result as a
  graph (\<^verbatim>\<open>Outbound_Graph\<close>).  Data changes trigger generation through the reconcile service
  (\<^verbatim>\<open>Config_Reconcile\<close>), whose run applies the result (\<^verbatim>\<open>Config_Apply\<close>); what is shown of it is redacted
  (\<^verbatim>\<open>Redaction\<close>); a core change migrates the
  configuration (\<^verbatim>\<open>Config_Migration\<close>); starting and stopping the core records and removes host rules
  (\<^verbatim>\<open>Network_Ownership\<close>).

  \<^bold>\<open>Interfaces.\<close>  Locales state what a client relies on and are interpreted on the model's own
  definitions: the normalisers of ownership identifiers (\<open>id_normaliser\<close>), canonicalisation of plugin
  options (\<open>canonicaliser\<close>), the runs of a state machine (\<open>history\<close>), the edits a migration makes to each item of a list (\<open>item_edit\<close>), and the
  validity test of the chain filter (\<open>availability\<close>).

  \<^bold>\<open>Parameters.\<close>  The digits of floating-point numbers that are not integers below \<open>10 ^ 15\<close> (\<open>g\<close>, \<open>ff\<close>),
  \<^verbatim>\<open>fmt.Sprint\<close> of a value that is not a string (\<open>sprint\<close>), what an import takes from outside (\<open>import_env\<close>), SHA-256 over JSON text (\<open>digest\<close>,
  \<open>shortNodeHash\<close>), URL, IP and MAC parsing (\<open>net_env\<close>), the test for
  IPv6 literals (\<open>ip6\<close>), JSON texts inside links (\<open>js\<close>, \<open>jt\<close>), random bytes, the clock, the verdict of
  \<^verbatim>\<open>sing-box check\<close>, and the outcome of every file and store operation.  JSON text is represented by the value
  \<^verbatim>\<open>encoding/json\<close> reads from it.

  \<^bold>\<open>Bounds and termination.\<close>  No function uses fuel.  Recursion that is not structural has a
  termination proof; the loop of the chain filter is a \<open>while_option\<close> whose termination is a theorem.
  The first argument of \<open>resolveNode\<close> and \<open>resolveRef\<close> is the code's own limit of 64 hops, counted down.
  UIDs are shown distinct for fewer than 65536 nodes, the range of the two-byte suffix.

  \<^bold>\<open>Not modelled.\<close>  HTTP handlers, the web and desktop front ends, SQL, the SSH and SFTP wire, the
  installer and updater, traceroute sockets and log sinks are input and output without decisions of
  their own.  The rule-list parser, route rule compilation and route generation,
  the inbounds, device protection and dnsmasq takeover decide what is configured too and are the next
  candidates.
\<close>

section \<open>Properties that span components\<close>

text \<open>C1. From rows to traffic: when a proxy is in use, whatever outbounds and DNS section a generation
  produces, the queries that no DNS rule takes leave through the tag \<open>proxy\<close>, from which a real proxy
  can be reached and no chain of group members reaches a direct connection.  The stored DNS servers of
  type \<open>fakeip\<close> must not carry a tag that starts with \<open>ackwrap-proxy-dns\<close> or is the tag of an enabled
  server of another type, and no enabled server of another type may be tagged \<open>fakeip\<close>: such rows
  make the generator drop the proxied final server.\<close>

theorem dns_final_never_direct:
  assumes "generate_outbounds_and_dns g ff sprint env i inp = Inr (obs, eps, Some dns)"
    and "dnsNeedsProxyFinal (in_proxyMode i) (in_collections i) (in_rules i) = Inr True"
    and "fakeip_tags_separate (di_servers inp)"
  shows "\<exists>servers s final. map_of dns ''servers'' = Some (VMapList servers) \<and> s \<in> set servers \<and>
           map_of dns ''final'' = Some (VStr final) \<and> map_get s ''tag'' = VStr final \<and> map_get s ''detour'' = VStr ''proxy'' \<and>
           (\<exists>ts. proxy_path (named_tags obs eps) (''proxy'' # ts)) \<and> \<not> can_reach_direct (all_tags obs eps) ''proxy''"
proof -
  have "dnsNeedsProxyFinal (di_mode (dns_input_for i inp)) (di_collections (dns_input_for i inp)) (di_route_rules (dns_input_for i inp)) = Inr True"
    "fakeip_tags_separate (di_servers (dns_input_for i inp))"
    using assms(2,3) by (simp_all add: dns_input_for_def)
  from final_proxied [OF assembled_dns(1) [OF assms(1)] this] obtain servers s final where
    f: "map_of dns ''servers'' = Some (VMapList servers)" "s \<in> set servers" "map_of dns ''final'' = Some (VStr final)"
    "map_get s ''tag'' = VStr final" "map_get s ''detour'' = VStr ''proxy''" by blast
  have d: "map_of s ''detour'' = Some (VStr ''proxy'')" using f(5) by (auto intro: map_get_Some)
  have "detour_errors obs eps servers = None"
    using assembled_dns(2) [OF assms(1)] f(1) by (simp add: validateDNSDetourPaths_def map_get_def)
  then have "detour_ok obs eps (VStr ''proxy'')" using f(2) d by (auto simp: detour_errors_iff)
  with f show ?thesis by (auto simp: detour_ok_def)
qed

definition sample_rows :: generator_input where
  "sample_rows = sample_input\<lparr>in_collections := [sample_collection\<lparr>pc_NodeUIDs := []\<rparr>]\<rparr>"

theorem dns_final_never_direct_witness:
  "\<exists>obs eps dns. generate_outbounds_and_dns (\<lambda>_. []) (\<lambda>_. []) (\<lambda>_. []) sample_env sample_rows sample_dns_input = Inr (obs, eps, Some dns) \<and>
     (\<exists>ts. proxy_path (named_tags obs eps) (''proxy'' # ts)) \<and> \<not> can_reach_direct (all_tags obs eps) ''proxy''"
proof -
  have "case generate_outbounds_and_dns (\<lambda>_. []) (\<lambda>_. []) (\<lambda>_. []) sample_env sample_rows sample_dns_input of
      Inr (obs, eps, Some dns) \<Rightarrow> True | _ \<Rightarrow> False" by code_simp
  then obtain obs eps dns where g: "generate_outbounds_and_dns (\<lambda>_. []) (\<lambda>_. []) (\<lambda>_. []) sample_env sample_rows sample_dns_input = Inr (obs, eps, Some dns)"
    by (auto split: sum.split_asm option.split_asm)
  have n: "dnsNeedsProxyFinal (in_proxyMode sample_rows) (in_collections sample_rows) (in_rules sample_rows) = Inr True"
    "fakeip_tags_separate (di_servers sample_dns_input)" by code_simp+
  from dns_final_never_direct [OF g n] g show ?thesis by blast
qed

text \<open>Without that condition the final server is the first one, which has no detour.\<close>

lemma fakeip_tag_drops_proxy_final:
  "let rows = di_servers sample_dns_input @ [sample_row ''ackwrap-proxy-dns'' ''fakeip'' []];
       inp = sample_dns_input\<lparr>di_servers := rows\<rparr>
   in dnsNeedsProxyFinal (di_mode inp) (di_collections inp) (di_route_rules inp) = Inr True \<and>
      (case generateDNSFromDatabase sample_env inp of
         Inr (Some dns) \<Rightarrow> map_get dns ''final'' = VStr ''dns_ip'' \<and>
           (case map_get dns ''servers'' of
              VMapList servers \<Rightarrow> map_get (hd servers) ''tag'' = VStr ''dns_ip'' \<and> map_of (hd servers) ''detour'' = None
            | _ \<Rightarrow> False)
       | _ \<Rightarrow> False)"
  by code_simp

end
